(* ===== verification/EpPrelude.thy ===== *)
theory EpPrelude imports Main "HOL-Library.Word" begin

text \<open>
  What every theory of the development shares: the C++ exceptions as values of a sum type
  with the bind of that type, the decimal text the code builds with stream insertion, a few
  list facts, and the collections of simplification rules the component theories extend.
\<close>

named_theorems msg_defs "unfolding rules of the control messages"
named_theorems pipe_defs "unfolding rules of the pipe handlers"
named_theorems chan_defs "unfolding rules of the channel operations"
named_theorems game_defs "unfolding rules of the blackjack table"
named_theorems cfg_defs "unfolding rules of the configuration builders"

section \<open>Bytes and failures\<close>

type_synonym byte = "8 word"

text \<open>
  A C++ operation that throws ends in one of these values. \<open>UndefinedBehaviour\<close> stands for
  the accesses the language leaves undefined (a null pointer, an index outside a vector, a
  downcast to the wrong class): the model stops there and never makes up a result.
\<close>

datatype cpp_error =
    LogicError string
  | RuntimeError string
  | InvalidArgument string
  | OutOfRange string
  | TypeError
  | BadAnyCast
  | BadOptionalAccess
  | SystemError int
  | AssertionFailed
  | UndefinedBehaviour

type_synonym 'a result = "cpp_error + 'a"

fun rbind :: "'e + 'a \<Rightarrow> ('a \<Rightarrow> 'e + 'b) \<Rightarrow> 'e + 'b" where
  "rbind (Inl e) f = Inl e"
| "rbind (Inr x) f = f x"

definition guard_r :: "bool \<Rightarrow> 'e \<Rightarrow> 'e + unit" where
  "guard_r b e = (if b then Inr () else Inl e)"

lemma rbind_Inr_iff: "rbind m f = Inr y \<longleftrightarrow> (\<exists>x. m = Inr x \<and> f x = Inr y)"
  by (cases m) auto

lemma rbind_Inl_iff: "rbind m f = Inl e \<longleftrightarrow> m = Inl e \<or> (\<exists>x. m = Inr x \<and> f x = Inl e)"
  by (cases m) auto

lemma rbind_return [simp]: "rbind m Inr = m"
  by (cases m) auto

lemma rbind_assoc: "rbind (rbind m f) g = rbind m (\<lambda>x. rbind (f x) g)"
  by (cases m) auto

lemma guard_r_simps [simp]: "guard_r True e = Inr ()" "guard_r False e = Inl e"
  by (simp_all add: guard_r_def)

fun is_ok :: "'e + 'a \<Rightarrow> bool" where
  "is_ok (Inl _) = False"
| "is_ok (Inr _) = True"

section \<open>Decimal text\<close>

definition digit_char :: "nat \<Rightarrow> char" where
  "digit_char d = char_of (48 + d :: nat)"

fun dec_nat :: "nat \<Rightarrow> string" where
  "dec_nat n = (if n < 10 then [digit_char n] else dec_nat (n div 10) @ [digit_char (n mod 10)])"

declare dec_nat.simps [simp del]

definition dec_int :: "int \<Rightarrow> string" where
  "dec_int i = (if i < 0 then CHR ''-'' # dec_nat (nat (- i)) else dec_nat (nat i))"

definition digit_val :: "char \<Rightarrow> nat" where
  "digit_val c = of_char c - 48"

definition is_digit :: "char \<Rightarrow> bool" where
  "is_digit c = (48 \<le> (of_char c :: nat) \<and> (of_char c :: nat) \<le> 57)"

definition parse_digits :: "string \<Rightarrow> nat" where
  "parse_digits s = foldl (\<lambda>a c. 10 * a + digit_val c) 0 s"

lemma of_char_digit: "d < 10 \<Longrightarrow> of_char (digit_char d) = (48 + d :: nat)"
  by (simp add: digit_char_def)

lemma digit_val_char [simp]: "d < 10 \<Longrightarrow> digit_val (digit_char d) = d"
  by (simp add: digit_val_def of_char_digit)

lemma is_digit_char [simp]: "d < 10 \<Longrightarrow> is_digit (digit_char d)"
  by (simp add: is_digit_def of_char_digit)

lemma dec_nat_not_Nil [simp]: "dec_nat n \<noteq> []"
  by (subst dec_nat.simps) simp

lemma dec_nat_digits [simp]: "list_all is_digit (dec_nat n)"
proof (induction n rule: dec_nat.induct)
  case (1 n)
  then show ?case by (subst dec_nat.simps) simp
qed

lemma parse_dec_nat [simp]: "parse_digits (dec_nat n) = n"
proof (induction n rule: dec_nat.induct)
  case (1 n)
  then show ?case by (subst dec_nat.simps) (simp add: parse_digits_def)
qed

lemma dec_nat_inj [simp]: "dec_nat m = dec_nat n \<longleftrightarrow> m = n"
  by (metis parse_dec_nat)

text \<open>Hexadecimal digits, in lower case.\<close>

definition hex_digit :: "nat \<Rightarrow> char" where
  "hex_digit d = (if d < 10 then char_of (48 + d) else char_of (87 + d))"

fun hex_nat :: "nat \<Rightarrow> string" where
  "hex_nat n = (if n < 16 then [hex_digit n] else hex_nat (n div 16) @ [hex_digit (n mod 16)])"

declare hex_nat.simps [simp del]

definition hex_val :: "char \<Rightarrow> nat" where
  "hex_val c = (if of_char c < (58 :: nat) then of_char c - 48 else of_char c - 87)"

definition parse_hex :: "string \<Rightarrow> nat" where
  "parse_hex s = foldl (\<lambda>a c. a * 16 + hex_val c) 0 s"

lemma of_char_hex: "d < 16 \<Longrightarrow> of_char (hex_digit d) = (if d < 10 then 48 + d else 87 + d :: nat)"
  by (simp add: hex_digit_def)

lemma hex_val_digit [simp]: "d < 16 \<Longrightarrow> hex_val (hex_digit d) = d"
  by (simp add: hex_val_def of_char_hex)

lemma parse_hex_nat [simp]: "parse_hex (hex_nat n) = n"
proof (induction n rule: hex_nat.induct)
  case (1 n)
  then show ?case by (subst hex_nat.simps) (simp add: parse_hex_def)
qed

text \<open>\<open>std::stoi\<close> and extraction of an int from a stream: white space, a sign, digits, and whatever
  follows is left; \<open>stoi\<close> throws where the stream only fails.\<close>

definition is_space :: "char \<Rightarrow> bool" where
  "is_space c = (let n = (of_char c :: nat) in n = 32 \<or> (9 \<le> n \<and> n \<le> 13))"

definition scan_int :: "string \<Rightarrow> int option" where
  "scan_int s = (let t = dropWhile is_space s;
       neg = (t \<noteq> [] \<and> hd t = CHR ''-'');
       u = (if t \<noteq> [] \<and> (hd t = CHR ''-'' \<or> hd t = CHR ''+'') then tl t else t);
       ds = takeWhile is_digit u in
     if ds = [] then None
     else Some (if neg then - int (parse_digits ds) else int (parse_digits ds)))"

definition int32_range :: "int \<Rightarrow> bool" where
  "int32_range i = (- (2 ^ 31) \<le> i \<and> i < 2 ^ 31)"

definition stoi :: "string \<Rightarrow> int result" where
  "stoi s = (case scan_int s of
     None \<Rightarrow> Inl (InvalidArgument ''stoi'')
   | Some i \<Rightarrow> if int32_range i then Inr i else Inl (OutOfRange ''stoi''))"

definition stream_int :: "string \<Rightarrow> int option" where
  "stream_int s = (case scan_int s of
     None \<Rightarrow> None
   | Some i \<Rightarrow> if int32_range i then Some i else None)"

lemma digit_not_special:
  assumes "is_digit c"
  shows "\<not> is_space c" "c \<noteq> CHR ''-''" "c \<noteq> CHR ''+''"
  using assms by (auto simp: is_digit_def is_space_def Let_def)

lemma scan_dec_nat [simp]: "scan_int (dec_nat n) = Some (int n)"
proof -
  have d: "\<forall>c \<in> set (dec_nat n). is_digit c" using dec_nat_digits by (simp add: list_all_iff)
  then obtain c cs where c: "dec_nat n = c # cs" "is_digit c" by (cases "dec_nat n") auto
  have t: "takeWhile is_digit (dec_nat n) = dec_nat n" using d by (simp add: takeWhile_eq_all_conv)
  have w: "dropWhile is_space (dec_nat n) = dec_nat n" using c digit_not_special(1) by simp
  have h: "hd (dec_nat n) \<noteq> CHR ''-''" "hd (dec_nat n) \<noteq> CHR ''+''"
    using c digit_not_special(2,3) by auto
  show ?thesis by (simp add: scan_int_def Let_def t w h)
qed

text \<open>\<open>boost::trim\<close>.\<close>

definition trim :: "string \<Rightarrow> string" where
  "trim s = rev (dropWhile is_space (rev (dropWhile is_space s)))"

definition pad_left :: "nat \<Rightarrow> char \<Rightarrow> string \<Rightarrow> string" where
  "pad_left w c s = replicate (w - length s) c @ s"

lemma length_pad_left [simp]: "length (pad_left w c s) = max w (length s)"
  by (simp add: pad_left_def)

lemma parse_hex_pad [simp]: "parse_hex (pad_left w CHR ''0'' s) = parse_hex s"
proof -
  have "foldl (\<lambda>a c. a * 16 + hex_val c) 0 (replicate k CHR ''0'') = 0" for k
    by (induction k) (simp_all add: hex_val_def)
  then show ?thesis by (simp add: parse_hex_def pad_left_def)
qed

definition newline :: string where
  "newline = [char_of (10::nat)]"

text \<open>\<open>boost::iequals\<close> on the ASCII range.\<close>

definition to_lower_char :: "char \<Rightarrow> char" where
  "to_lower_char c =
    (let n = (of_char c :: nat) in if 65 \<le> n \<and> n \<le> 90 then char_of (n + 32) else c)"

definition iequals :: "string \<Rightarrow> string \<Rightarrow> bool" where
  "iequals a b = (map to_lower_char a = map to_lower_char b)"

lemma iequals_refl [simp]: "iequals a a"
  by (simp add: iequals_def)

lemma iequals_sym: "iequals a b = iequals b a"
  by (auto simp: iequals_def)

lemma iequals_trans: "iequals a b \<Longrightarrow> iequals b c \<Longrightarrow> iequals a c"
  by (simp add: iequals_def)

section \<open>Lists indexed as vectors\<close>

text \<open>\<open>std::vector::at\<close> throws outside the vector, \<open>operator[]\<close> is undefined there.\<close>

definition vec_at :: "'a list \<Rightarrow> nat \<Rightarrow> 'a result" where
  "vec_at xs i = (if i < length xs then Inr (xs ! i) else Inl (OutOfRange ''vector''))"

definition vec_index :: "'a list \<Rightarrow> nat \<Rightarrow> 'a result" where
  "vec_index xs i = (if i < length xs then Inr (xs ! i) else Inl UndefinedBehaviour)"

lemma vec_index_ok [simp]: "i < length xs \<Longrightarrow> vec_index xs i = Inr (xs ! i)"
  by (simp add: vec_index_def)

lemma vec_index_bad [simp]: "\<not> i < length xs \<Longrightarrow> vec_index xs i = Inl UndefinedBehaviour"
  by (simp add: vec_index_def)

lemma sum_list_update_nat:
  "i < length xs \<Longrightarrow> f (xs ! i) + sum_list (map f (xs[i := y])) = f y + sum_list (map f xs)"
  for f :: "'a \<Rightarrow> nat"
proof (induction xs arbitrary: i)
  case (Cons x xs)
  then show ?case by (cases i) auto
qed simp

lemma set_update_subset: "x \<in> set (xs[i := y]) \<Longrightarrow> x = y \<or> x \<in> set xs"
  using set_update_subset_insert by fastforce


text \<open>Two hand-overs in a row: what came in and what went out compose.\<close>

lemma append_shift: "a @ x = h @ b \<Longrightarrow> b @ xs = hs @ d \<Longrightarrow> a @ x @ xs = h @ hs @ d"
  by (metis append_assoc)

end
