(* ===== verification/EpInterfaces.thy ===== *)
theory EpInterfaces imports EpPrelude begin

text \<open>
  The contracts between components, as locales: what a client may rely on and what the provider
  owes. Each is interpreted in the theory of the component that provides it.
\<close>

section \<open>First-in first-out hand-over\<close>

text \<open>\<open>drain pop n s\<close> takes up to \<open>n\<close> elements off the front.\<close>

fun drain :: "('s \<Rightarrow> ('b \<times> 's) option) \<Rightarrow> nat \<Rightarrow> 's \<Rightarrow> 'b list \<times> 's" where
  "drain pop 0 s = ([], s)"
| "drain pop (Suc n) s = (case pop s of
     None \<Rightarrow> ([], s)
   | Some (b, s') \<Rightarrow> (let (bs, s'') = drain pop n s' in (b # bs, s'')))"

locale fifo =
  fixes inv :: "'s \<Rightarrow> bool"
    and items :: "'s \<Rightarrow> 'b list"
    and push :: "'b \<Rightarrow> 's \<Rightarrow> 's"
    and pop :: "'s \<Rightarrow> ('b \<times> 's) option"
  assumes inv_push: "inv s \<Longrightarrow> inv (push b s)"
    and inv_pop: "inv s \<Longrightarrow> pop s = Some (b, s') \<Longrightarrow> inv s'"
    and items_push: "inv s \<Longrightarrow> items (push b s) = items s @ [b]"
    and pop_None: "inv s \<Longrightarrow> pop s = None \<longleftrightarrow> items s = []"
    and pop_Some: "inv s \<Longrightarrow> pop s = Some (b, s') \<Longrightarrow> items s = b # items s'"
begin

lemma inv_push_all: "inv s \<Longrightarrow> inv (fold push bs s)"
  by (induction bs arbitrary: s) (simp_all add: inv_push)

lemma items_push_all: "inv s \<Longrightarrow> items (fold push bs s) = items s @ bs"
  by (induction bs arbitrary: s) (simp_all add: inv_push items_push)

lemma drain_items:
  "inv s \<Longrightarrow> n \<le> length (items s) \<Longrightarrow>
   fst (drain pop n s) = take n (items s) \<and> items (snd (drain pop n s)) = drop n (items s)
     \<and> inv (snd (drain pop n s))"
proof (induction n arbitrary: s)
  case (Suc n)
  then obtain b s' where p: "pop s = Some (b, s')"
    using pop_None [of s] by (cases "pop s") auto
  then have "items s = b # items s'" and "inv s'"
    using Suc.prems pop_Some inv_pop by blast+
  with Suc.prems p Suc.IH [of s'] show ?case by (auto split: prod.split)
qed simp

text \<open>What was put in on an empty queue comes out in the same order, nothing lost or repeated.\<close>

lemma drain_push_all:
  assumes "inv s" and "items s = []"
  shows "fst (drain pop (length bs) (fold push bs s)) = bs"
    and "items (snd (drain pop (length bs) (fold push bs s))) = []"
  using drain_items [of "fold push bs s" "length bs"] assms
  by (simp_all add: inv_push_all items_push_all)

end

section \<open>Labelled transition systems\<close>

text \<open>Sequences of labelled steps and the rule that carries an invariant along them.\<close>

inductive run :: "('s \<Rightarrow> 'e \<Rightarrow> 's \<Rightarrow> bool) \<Rightarrow> 's \<Rightarrow> 'e list \<Rightarrow> 's \<Rightarrow> bool" for step where
  run_nil [simp, intro!]: "run step s [] s"
| run_cons [intro]: "step s e s' \<Longrightarrow> run step s' es s'' \<Longrightarrow> run step s (e # es) s''"

inductive_cases run_nilE [elim!]: "run step s [] s'"
inductive_cases run_consE [elim!]: "run step s (e # es) s'"

lemma run_append: "run step s es s' \<Longrightarrow> run step s' fs s'' \<Longrightarrow> run step s (es @ fs) s''"
  by (induction rule: run.induct) auto

lemma run_invariant:
  assumes "run step s es s'" and "I s"
    and "\<And>s e s'. step s e s' \<Longrightarrow> I s \<Longrightarrow> I s'"
  shows "I s'"
  using assms by (induction rule: run.induct) blast+

section \<open>Names of enumerators\<close>

text \<open>A pair of conversions between an enumeration and its text.\<close>

locale text_codec =
  fixes valid :: "'t \<Rightarrow> bool"
    and to_text :: "'t \<Rightarrow> string"
    and of_text :: "string \<Rightarrow> 't result"
  assumes of_to: "valid t \<Longrightarrow> of_text (to_text t) = Inr t"
begin

lemma to_text_inj: "valid a \<Longrightarrow> valid b \<Longrightarrow> to_text a = to_text b \<Longrightarrow> a = b"
  by (drule arg_cong [where f = of_text]) (simp add: of_to)

end

locale text_codec_ci = text_codec +
  assumes of_text_ci: "iequals a b \<Longrightarrow> of_text a = of_text b"
begin

lemma of_text_variant: "valid t \<Longrightarrow> iequals a (to_text t) \<Longrightarrow> of_text a = Inr t"
  by (simp add: of_text_ci [of a "to_text t"] of_to)

lemma to_text_ci_inj: "valid a \<Longrightarrow> valid b \<Longrightarrow> iequals (to_text a) (to_text b) \<Longrightarrow> a = b"
  using of_text_variant [of b "to_text a"] of_to [of a] by simp

end


section \<open>Sets with reported insertion and removal\<close>

locale session_set =
  fixes inv :: "'s \<Rightarrow> bool"
    and members :: "'s \<Rightarrow> 'k set"
    and ins :: "'k \<Rightarrow> 's \<Rightarrow> bool \<times> 's"
    and del :: "'k \<Rightarrow> 's \<Rightarrow> bool \<times> 's"
  assumes inv_ins: "inv s \<Longrightarrow> inv (snd (ins x s))"
    and inv_del: "inv s \<Longrightarrow> inv (snd (del x s))"
    and ins_result: "inv s \<Longrightarrow> fst (ins x s) \<longleftrightarrow> x \<notin> members s"
    and del_result: "inv s \<Longrightarrow> fst (del x s) \<longleftrightarrow> x \<in> members s"
    and ins_members: "inv s \<Longrightarrow> members (snd (ins x s)) = insert x (members s)"
    and del_members: "inv s \<Longrightarrow> members (snd (del x s)) = members s - {x}"
    and ins_idle: "inv s \<Longrightarrow> x \<in> members s \<Longrightarrow> snd (ins x s) = s"
    and del_idle: "inv s \<Longrightarrow> x \<notin> members s \<Longrightarrow> snd (del x s) = s"
begin

lemma ins_again: "inv s \<Longrightarrow> ins x (snd (ins x s)) = (False, snd (ins x s))"
  using ins_result [OF inv_ins, of s x x] ins_idle [OF inv_ins, of s x x]
  by (simp add: ins_members prod_eq_iff)

lemma del_after_ins:
  "inv s \<Longrightarrow> x \<notin> members s \<Longrightarrow>
   fst (del x (snd (ins x s))) \<and> members (snd (del x (snd (ins x s)))) = members s"
  by (simp add: inv_ins del_result del_members ins_members)

lemma members_ins_all:
  "inv s \<Longrightarrow> members (fold (\<lambda>x s. snd (ins x s)) xs s) = set xs \<union> members s"
  by (induction xs arbitrary: s) (auto simp: inv_ins ins_members)

lemma inv_ins_all: "inv s \<Longrightarrow> inv (fold (\<lambda>x s. snd (ins x s)) xs s)"
  by (induction xs arbitrary: s) (auto simp: inv_ins)

end

section \<open>Simulation of an abstract machine\<close>

text \<open>
  Every step the code takes from a well-formed state is the step of a deterministic abstract
  machine on the abstraction of that state; so are sequences of steps.
\<close>

locale simulation =
  fixes step :: "'s \<Rightarrow> 'e \<Rightarrow> 's \<Rightarrow> bool"
    and inv :: "'s \<Rightarrow> bool"
    and abs :: "'s \<Rightarrow> 'a"
    and spec :: "'e \<Rightarrow> 'a \<Rightarrow> 'a"
  assumes step_inv: "inv s \<Longrightarrow> step s e s' \<Longrightarrow> inv s'"
    and step_abs: "inv s \<Longrightarrow> step s e s' \<Longrightarrow> abs s' = spec e (abs s)"
begin

lemma run_simulates: "run step s es s' \<Longrightarrow> inv s \<Longrightarrow> inv s' \<and> abs s' = fold spec es (abs s)"
  by (induction rule: run.induct) (auto simp: step_abs dest: step_inv)

end

end
