(* ===== verification/ControlMessage.thy ===== *)
theory ControlMessage imports EpPrelude begin

text \<open>
  The control messages of the pipe between \<open>epworkercntl\<close> and the workers:
  \<open>epprocess-message.h\<close> and \<open>epprocess-message.cpp\<close>. The MessagePack library is third-party:
  its pack, unpack and conversion functions are the fields of \<open>msgpack_lib\<close>, and
  \<open>msgpack_base_law\<close> and \<open>msgpack_cmd_law\<close> state its documented behaviour on the two map
  layouts that \<open>MSGPACK_DEFINE_MAP\<close> gives the message classes.
\<close>

section \<open>Message classes\<close>

datatype process_message_type =
  NONE | BASE | START | PING | PONG | CMD_STOP | CMD_RESULT | OtherType int

text \<open>The enumeration has the underlying type \<open>int\<close>, so a converted integer that names no
  enumerator is a value of it as well (\<open>OtherType\<close>).\<close>

definition type_of_code :: "int \<Rightarrow> process_message_type" where
  "type_of_code c =
    (if c = 0 then NONE else if c = 1 then BASE else if c = 2 then START
     else if c = 3 then PING else if c = 4 then PONG else if c = 5 then CMD_STOP
     else if c = 6 then CMD_RESULT else OtherType c)"

fun code_of_type :: "process_message_type \<Rightarrow> int" where
  "code_of_type NONE = 0"
| "code_of_type BASE = 1"
| "code_of_type START = 2"
| "code_of_type PING = 3"
| "code_of_type PONG = 4"
| "code_of_type CMD_STOP = 5"
| "code_of_type CMD_RESULT = 6"
| "code_of_type (OtherType c) = c"

record process_message_base =
  pm_type :: process_message_type
  pm_pid :: "32 word"
  pm_port :: "32 word"
  pm_id1 :: "64 word"
  pm_id2 :: "64 word"
  pm_current_time :: "64 word"

text \<open>The dynamic class of the object behind a \<open>unique_ptr<process_message_base>\<close>.\<close>

datatype process_message =
    MsgBase process_message_base
  | MsgStartup process_message_base
  | MsgPing process_message_base
  | MsgStop process_message_base
  | MsgCmdResult process_message_base process_message_type "32 word"

fun base_of :: "process_message \<Rightarrow> process_message_base" where
  "base_of (MsgBase b) = b"
| "base_of (MsgStartup b) = b"
| "base_of (MsgPing b) = b"
| "base_of (MsgStop b) = b"
| "base_of (MsgCmdResult b tc r) = b"

abbreviation msg_type :: "process_message \<Rightarrow> process_message_type" where
  "msg_type m \<equiv> pm_type (base_of m)"

text \<open>What a constructor reads from outside: two draws of the generator, the process id, the
  clock in milliseconds, and the bytes the uninitialised fields of a result happen to hold.\<close>

record msg_env =
  env_rand1 :: "64 word"
  env_rand2 :: "64 word"
  env_pid :: "32 word"
  env_now :: "64 word"
  env_uninit_type :: process_message_type
  env_uninit_result :: "32 word"

definition config_base ::
  "msg_env \<Rightarrow> process_message_type \<Rightarrow> 32 word \<Rightarrow> 32 word \<Rightarrow> 64 word \<Rightarrow> 64 word \<Rightarrow> 64 word
    \<Rightarrow> process_message_base" where
  "config_base e ty pi po i1 i2 ct =
    \<lparr> pm_type = ty,
      pm_pid = (if sint pi < 0 then env_pid e else pi),
      pm_port = po,
      pm_id1 = (if i1 = 0 then env_rand1 e else i1),
      pm_id2 = (if i2 = 0 then env_rand2 e else i2),
      pm_current_time = (if sint ct < 0 then env_now e else ct) \<rparr>"

definition new_base :: "msg_env \<Rightarrow> process_message_base" where
  "new_base e = config_base e BASE (- 1) 0 0 0 (- 1)"

definition new_base_with ::
  "msg_env \<Rightarrow> 32 word \<Rightarrow> 32 word \<Rightarrow> 64 word \<Rightarrow> 64 word \<Rightarrow> 64 word \<Rightarrow> process_message_base" where
  "new_base_with e pi po i1 i2 ct = config_base e BASE pi po i1 i2 ct"

definition new_startup :: "msg_env \<Rightarrow> 32 word \<Rightarrow> process_message" where
  "new_startup e po = MsgStartup ((new_base e)\<lparr> pm_type := START, pm_port := po \<rparr>)"

definition new_ping :: "msg_env \<Rightarrow> process_message" where
  "new_ping e = MsgPing ((new_base e)\<lparr> pm_type := PING \<rparr>)"

fun pong :: "process_message \<Rightarrow> process_message" where
  "pong (MsgPing b) = MsgPing (b\<lparr> pm_type := PONG \<rparr>)"
| "pong m = m"

definition new_stop :: "msg_env \<Rightarrow> process_message" where
  "new_stop e = MsgStop ((new_base e)\<lparr> pm_type := CMD_STOP \<rparr>)"

definition new_cmd_result :: "msg_env \<Rightarrow> process_message" where
  "new_cmd_result e = MsgCmdResult ((new_base e)\<lparr> pm_type := CMD_RESULT \<rparr>)
    (env_uninit_type e) (env_uninit_result e)"

lemmas [msg_defs] = config_base_def new_base_def new_base_with_def new_startup_def new_ping_def
  new_stop_def new_cmd_result_def

section \<open>The MessagePack library\<close>

type_synonym cmd_fields = "process_message_base \<times> process_message_type \<times> 32 word"

text \<open>\<open>'o\<close> is the library's object type. \<open>None\<close> of a conversion is its \<open>type_error\<close>; \<open>None\<close> of
  \<open>mp_map\<close> is an object whose union does not hold a map.\<close>

record 'o msgpack_lib =
  mp_pack_base :: "process_message_base \<Rightarrow> byte list"
  mp_pack_cmd :: "cmd_fields \<Rightarrow> byte list"
  mp_unpack :: "byte list \<Rightarrow> 'o result"
  mp_map :: "'o \<Rightarrow> ('o \<times> 'o) list option"
  mp_as_string :: "'o \<Rightarrow> string option"
  mp_as_type :: "'o \<Rightarrow> int option"
  mp_convert_base :: "'o \<Rightarrow> process_message_base \<Rightarrow> process_message_base option"
  mp_convert_cmd :: "'o \<Rightarrow> cmd_fields \<Rightarrow> cmd_fields option"

definition base_keys :: "string list" where
  "base_keys = [''type'', ''pid'', ''port'', ''id1'', ''id2'', ''current_time'']"

definition cmd_keys :: "string list" where
  "cmd_keys = [''process_message_base'', ''type_cmd'', ''result'']"

text \<open>Packing writes a map keyed by the member names in the order of the macro; unpacking
  reads the same map; converting fills every member the map names.\<close>

definition msgpack_base_law :: "'o msgpack_lib \<Rightarrow> process_message_base \<Rightarrow> bool" where
  "msgpack_base_law l b = (\<exists>ob kvs v.
     mp_pack_base l b \<noteq> [] \<and> mp_unpack l (mp_pack_base l b) = Inr ob \<and> mp_map l ob = Some kvs \<and>
     map (mp_as_string l \<circ> fst) kvs = map Some base_keys \<and>
     snd (hd kvs) = v \<and> mp_as_type l v = Some (code_of_type (pm_type b)) \<and>
     (\<forall>b0. mp_convert_base l ob b0 = Some b))"

definition msgpack_cmd_law :: "'o msgpack_lib \<Rightarrow> cmd_fields \<Rightarrow> bool" where
  "msgpack_cmd_law l c = (\<exists>ob kvs v.
     mp_pack_cmd l c \<noteq> [] \<and> mp_unpack l (mp_pack_cmd l c) = Inr ob \<and> mp_map l ob = Some kvs \<and>
     map (mp_as_string l \<circ> fst) kvs = map Some cmd_keys \<and>
     snd (hd kvs) = v \<and> (\<forall>b0. mp_convert_base l v b0 = Some (fst c)) \<and>
     (\<forall>c0. mp_convert_cmd l ob c0 = Some c))"

section \<open>Packing and reading\<close>

text \<open>\<open>pack\<close>: the downcasts of the switch are undefined on an object of another class.\<close>

definition pack :: "'o msgpack_lib \<Rightarrow> process_message \<Rightarrow> byte list result" where
  "pack l m = (case msg_type m of
      NONE \<Rightarrow> Inr (mp_pack_base l (base_of m))
    | BASE \<Rightarrow> Inr (mp_pack_base l (base_of m))
    | CMD_RESULT \<Rightarrow>
        (case m of MsgCmdResult b tc r \<Rightarrow> Inr (mp_pack_cmd l (b, tc, r))
         | _ \<Rightarrow> Inl UndefinedBehaviour)
    | START \<Rightarrow>
        (case m of MsgStartup b \<Rightarrow> Inr (mp_pack_base l b) | _ \<Rightarrow> Inl UndefinedBehaviour)
    | CMD_STOP \<Rightarrow>
        (case m of MsgStop b \<Rightarrow> Inr (mp_pack_base l b) | _ \<Rightarrow> Inl UndefinedBehaviour)
    | _ \<Rightarrow> Inl (LogicError ''Message type unknown''))"

text \<open>The type one map entry gives: \<open>Inr None\<close> is the \<open>continue\<close> of an unknown key.\<close>

definition entry_type ::
  "'o msgpack_lib \<Rightarrow> msg_env \<Rightarrow> string \<Rightarrow> 'o \<Rightarrow> process_message_type option result" where
  "entry_type l e k v =
    (if k = ''type'' then
       (case mp_as_type l v of None \<Rightarrow> Inl TypeError | Some c \<Rightarrow> Inr (Some (type_of_code c)))
     else if k = ''process_message_base'' then
       (case mp_convert_base l v (new_base e) of
          None \<Rightarrow> Inl TypeError | Some b \<Rightarrow> Inr (Some (pm_type b)))
     else Inr None)"

definition convert_startup :: "'o msgpack_lib \<Rightarrow> msg_env \<Rightarrow> 'o \<Rightarrow> process_message result" where
  "convert_startup l e ob = (case mp_convert_base l ob (base_of (new_startup e 0)) of
     None \<Rightarrow> Inl TypeError | Some b \<Rightarrow> Inr (MsgStartup b))"

definition convert_stop :: "'o msgpack_lib \<Rightarrow> msg_env \<Rightarrow> 'o \<Rightarrow> process_message result" where
  "convert_stop l e ob = (case mp_convert_base l ob (base_of (new_stop e)) of
     None \<Rightarrow> Inl TypeError | Some b \<Rightarrow> Inr (MsgStop b))"

definition convert_cmd_result :: "'o msgpack_lib \<Rightarrow> msg_env \<Rightarrow> 'o \<Rightarrow> process_message result" where
  "convert_cmd_result l e ob =
    (case mp_convert_cmd l ob (base_of (new_cmd_result e), env_uninit_type e, env_uninit_result e) of
       None \<Rightarrow> Inl TypeError | Some (b, tc, r) \<Rightarrow> Inr (MsgCmdResult b tc r))"

fun process_entries ::
  "'o msgpack_lib \<Rightarrow> msg_env \<Rightarrow> 'o \<Rightarrow> ('o \<times> 'o) list \<Rightarrow> process_message option result" where
  "process_entries l e ob [] = Inr None"
| "process_entries l e ob ((k, v) # kvs) =
    (case mp_as_string l k of
       None \<Rightarrow> Inl TypeError
     | Some ks \<Rightarrow>
        (case entry_type l e ks v of
           Inl err \<Rightarrow> Inl err
         | Inr (Some START) \<Rightarrow> rbind (convert_startup l e ob) (Inr \<circ> Some)
         | Inr (Some CMD_STOP) \<Rightarrow> rbind (convert_stop l e ob) (Inr \<circ> Some)
         | Inr (Some CMD_RESULT) \<Rightarrow> rbind (convert_cmd_result l e ob) (Inr \<circ> Some)
         | Inr _ \<Rightarrow> process_entries l e ob kvs))"

text \<open>\<open>process_input\<close>: \<open>Inr None\<close> is the null pointer it returns when no entry named a type it
  handles.\<close>

definition process_input ::
  "'o msgpack_lib \<Rightarrow> msg_env \<Rightarrow> byte list \<Rightarrow> nat \<Rightarrow> process_message option result" where
  "process_input l e buf bytes =
    (if bytes < 1 then Inl (LogicError ''parameter byte count < 1'')
     else rbind (mp_unpack l (take bytes buf)) (\<lambda>ob.
       case mp_map l ob of None \<Rightarrow> Inl UndefinedBehaviour
       | Some kvs \<Rightarrow> process_entries l e ob kvs))"

lemmas [msg_defs] = pack_def entry_type_def convert_startup_def convert_stop_def
  convert_cmd_result_def process_input_def

section \<open>Printing\<close>

text \<open>\<open>put_time\<close> of the C++ library formats the calendar time of a count of milliseconds; it is
  a parameter.\<close>

definition cmd_result_to_string :: "32 word \<Rightarrow> string" where
  "cmd_result_to_string r = ''result: '' @ dec_int (sint r) @ newline"

definition type_line :: "process_message \<Rightarrow> string result" where
  "type_line m = (case msg_type m of
      NONE \<Rightarrow> Inr (''type: NONE'' @ newline)
    | BASE \<Rightarrow> Inr (''type: BASE'' @ newline)
    | START \<Rightarrow> Inr (''type: START'' @ newline)
    | CMD_STOP \<Rightarrow> Inr (''type: STOP'' @ newline)
    | CMD_RESULT \<Rightarrow>
        (case m of
           MsgCmdResult b tc r \<Rightarrow> Inr (''type: CMD_RESULT'' @ newline @ cmd_result_to_string r)
         | _ \<Rightarrow> Inl UndefinedBehaviour)
    | _ \<Rightarrow> Inr [])"

definition message_to_string :: "(int \<Rightarrow> string) \<Rightarrow> process_message \<Rightarrow> string result" where
  "message_to_string put_time m =
    (let b = base_of m; ct = sint (pm_current_time b) in
     rbind (type_line m) (\<lambda>tl. Inr (
       ''time: '' @ put_time ct @ ''.''
         @ pad_left 3 (CHR ''0'') (dec_int (if ct < 0 then - ((- ct) mod 1000) else ct mod 1000))
         @ newline
       @ ''pid: '' @ dec_int (sint (pm_pid b)) @ newline
       @ ''port: '' @ dec_int (sint (pm_port b)) @ newline
       @ ''id1: '' @ dec_nat (unat (pm_id1 b)) @ newline
       @ ''id2: '' @ dec_nat (unat (pm_id2 b)) @ newline
       @ tl)))"

text \<open>A message object built by its class's constructor carries the tag of its class.\<close>

fun class_ok :: "process_message \<Rightarrow> bool" where
  "class_ok (MsgBase b) = (pm_type b = BASE \<or> pm_type b = NONE)"
| "class_ok (MsgStartup b) = (pm_type b = START)"
| "class_ok (MsgPing b) = (pm_type b = PING \<or> pm_type b = PONG)"
| "class_ok (MsgStop b) = (pm_type b = CMD_STOP)"
| "class_ok (MsgCmdResult b tc r) = (pm_type b = CMD_RESULT)"


section \<open>Facts\<close>

lemma type_of_code_of_type [simp]:
  "(\<forall>c. t = OtherType c \<longrightarrow> \<not> (0 \<le> c \<and> c \<le> 6)) \<Longrightarrow> type_of_code (code_of_type t) = t"
  by (cases t) (auto simp: type_of_code_def)

lemma code_of_type_of_code [simp]: "code_of_type (type_of_code c) = c"
  by (simp add: type_of_code_def)

text \<open>The constructors leave a message whose tag is that of its class.\<close>

lemma class_ok_new [simp]:
  "class_ok (MsgBase (new_base e))" "class_ok (new_startup e po)" "class_ok (new_ping e)"
  "class_ok (new_stop e)" "class_ok (new_cmd_result e)" "class_ok (pong (new_ping e))"
  by (simp_all add: msg_defs)

lemma config_ids_nonzero:
  assumes "env_rand1 e \<noteq> 0" and "env_rand2 e \<noteq> 0"
  shows "pm_id1 (config_base e ty pi po i1 i2 ct) \<noteq> 0"
    and "pm_id2 (config_base e ty pi po i1 i2 ct) \<noteq> 0"
  using assms by (simp_all add: config_base_def)

lemma process_entries_keys_skip:
  "mp_as_string l k = Some ks \<Longrightarrow> ks \<noteq> ''type'' \<Longrightarrow> ks \<noteq> ''process_message_base'' \<Longrightarrow>
   process_entries l e ob ((k, v) # kvs) = process_entries l e ob kvs"
  by (simp add: entry_type_def)

lemma process_entries_all_skipped:
  assumes "map (mp_as_string l \<circ> fst) kvs = map Some ks"
    and "list_all (\<lambda>k. k \<noteq> ''type'' \<and> k \<noteq> ''process_message_base'') ks"
  shows "process_entries l e ob kvs = Inr None"
  using assms
proof (induction kvs arbitrary: ks)
  case (Cons kv kvs)
  then obtain k ks' where "ks = k # ks'" by (cases ks) auto
  with Cons show ?case by (cases kv) (auto simp: entry_type_def)
qed simp

text \<open>A map laid out as the base macro packs it is decided by its first entry.\<close>

lemma process_entries_base_layout:
  assumes "map (mp_as_string l \<circ> fst) kvs = map Some base_keys"
    and "mp_as_type l (snd (hd kvs)) = Some c"
  shows "process_entries l e ob kvs =
    (case type_of_code c of
       START \<Rightarrow> rbind (convert_startup l e ob) (Inr \<circ> Some)
     | CMD_STOP \<Rightarrow> rbind (convert_stop l e ob) (Inr \<circ> Some)
     | CMD_RESULT \<Rightarrow> rbind (convert_cmd_result l e ob) (Inr \<circ> Some)
     | _ \<Rightarrow> Inr None)"
proof -
  obtain k v rest where kvs: "kvs = (k, v) # rest"
    using assms(1) by (cases kvs) (auto simp: base_keys_def)
  have rest: "process_entries l e ob rest = Inr None"
    using assms(1) by (intro process_entries_all_skipped [where ks = "tl base_keys"])
      (simp_all add: kvs base_keys_def)
  have "mp_as_string l k = Some ''type''"
    using assms(1) by (simp add: kvs base_keys_def)
  then show ?thesis
    using assms(2) rest by (simp add: kvs entry_type_def split: process_message_type.split)
qed

lemma process_entries_cmd_layout:
  assumes "map (mp_as_string l \<circ> fst) kvs = map Some cmd_keys"
    and "\<forall>b0. mp_convert_base l (snd (hd kvs)) b0 = Some b"
    and "pm_type b = CMD_RESULT"
  shows "process_entries l e ob kvs = rbind (convert_cmd_result l e ob) (Inr \<circ> Some)"
proof -
  obtain k v rest where kvs: "kvs = (k, v) # rest"
    using assms(1) by (cases kvs) (auto simp: cmd_keys_def)
  have "mp_as_string l k = Some ''process_message_base''"
    using assms(1) by (simp add: kvs cmd_keys_def)
  then show ?thesis
    using assms(2,3) by (simp add: kvs entry_type_def)
qed

lemma process_input_packed_base:
  assumes "msgpack_base_law l b"
  shows "process_input l e (mp_pack_base l b @ junk) (length (mp_pack_base l b)) =
    (case type_of_code (code_of_type (pm_type b)) of
       START \<Rightarrow> Inr (Some (MsgStartup b))
     | CMD_STOP \<Rightarrow> Inr (Some (MsgStop b))
     | CMD_RESULT \<Rightarrow>
         process_input l e (mp_pack_base l b @ junk) (length (mp_pack_base l b))
     | _ \<Rightarrow> Inr None)"
  using assms
  by (auto simp: msgpack_base_law_def process_input_def process_entries_base_layout
      convert_startup_def convert_stop_def Suc_le_eq split: process_message_type.split)

lemma process_input_packed_cmd:
  assumes "msgpack_cmd_law l (b, tc, r)" and "pm_type b = CMD_RESULT"
  shows "process_input l e (mp_pack_cmd l (b, tc, r) @ junk) (length (mp_pack_cmd l (b, tc, r))) =
    Inr (Some (MsgCmdResult b tc r))"
  using assms
  by (auto simp: msgpack_cmd_law_def process_input_def process_entries_cmd_layout
      convert_cmd_result_def Suc_le_eq)

text \<open>What \<open>process_input\<close> returns is one of the three classes it builds.\<close>

definition handled_class :: "process_message \<Rightarrow> bool" where
  "handled_class m = (case m of
     MsgStartup _ \<Rightarrow> True | MsgStop _ \<Rightarrow> True | MsgCmdResult _ _ _ \<Rightarrow> True | _ \<Rightarrow> False)"

lemma process_entries_class:
  "process_entries l e ob kvs = Inr (Some m) \<Longrightarrow> handled_class m"
  by (induction l e ob kvs rule: process_entries.induct)
    (auto simp: convert_startup_def convert_stop_def convert_cmd_result_def handled_class_def
      split: option.splits sum.splits process_message_type.splits)

lemma process_input_class:
  "process_input l e buf n = Inr (Some m) \<Longrightarrow> handled_class m"
  by (auto simp: process_input_def rbind_Inr_iff process_entries_class
      split: if_splits option.splits)


section \<open>A concrete library\<close>

text \<open>
  An instance of the parameter, used by the witnesses: integers in unary, a leading number for
  the layout. It satisfies the laws for every message.
\<close>

datatype mp_obj = MpInt int | MpStr string | MpMap "(mp_obj \<times> mp_obj) list"

fun unary :: "nat list \<Rightarrow> byte list" where
  "unary [] = []"
| "unary (n # ns) = replicate n 1 @ 0 # unary ns"

fun un_unary :: "nat \<Rightarrow> byte list \<Rightarrow> nat list" where
  "un_unary n [] = []"
| "un_unary n (b # bs) = (if b = 0 then n # un_unary 0 bs else un_unary (Suc n) bs)"

lemma un_unary_replicate: "un_unary m (replicate n 1 @ 0 # bs) = (m + n) # un_unary 0 bs"
  by (induction n arbitrary: m) simp_all

lemma un_unary_unary [simp]: "un_unary 0 (unary ns) = ns"
  by (induction ns) (simp_all add: un_unary_replicate)

definition code_nat :: "int \<Rightarrow> nat" where
  "code_nat i = (if i < 0 then 2 * nat (- i) + 1 else 2 * nat i)"

definition nat_code :: "nat \<Rightarrow> int" where
  "nat_code n = (if odd n then - int (n div 2) else int (n div 2))"

lemma nat_code_nat [simp]: "nat_code (code_nat i) = i"
  by (auto simp: nat_code_def code_nat_def)

definition base_nats :: "process_message_base \<Rightarrow> nat list" where
  "base_nats b = [code_nat (code_of_type (pm_type b)), unat (pm_pid b), unat (pm_port b),
     unat (pm_id1 b), unat (pm_id2 b), unat (pm_current_time b)]"

definition nats_base :: "nat list \<Rightarrow> process_message_base" where
  "nats_base ns = \<lparr> pm_type = type_of_code (nat_code (ns ! 0)), pm_pid = of_nat (ns ! 1),
     pm_port = of_nat (ns ! 2), pm_id1 = of_nat (ns ! 3), pm_id2 = of_nat (ns ! 4),
     pm_current_time = of_nat (ns ! 5) \<rparr>"

definition proper_type :: "process_message_type \<Rightarrow> bool" where
  "proper_type t = (type_of_code (code_of_type t) = t)"

lemma nats_base_nats: "proper_type (pm_type b) \<Longrightarrow> nats_base (base_nats b @ ns) = b"
  by (simp add: nats_base_def base_nats_def proper_type_def nth_append)

definition nats_obj :: "nat list \<Rightarrow> mp_obj" where
  "nats_obj ns = MpMap (zip (map MpStr base_keys) (map (MpInt \<circ> int) ns))"

definition obj_base :: "mp_obj \<Rightarrow> process_message_base option" where
  "obj_base ob = (case ob of
     MpMap kvs \<Rightarrow> Some (nats_base (map (\<lambda>v. case snd v of MpInt i \<Rightarrow> nat i | _ \<Rightarrow> 0) kvs))
   | _ \<Rightarrow> None)"

definition unary_lib :: "mp_obj msgpack_lib" where
  "unary_lib = \<lparr>
     mp_pack_base = (\<lambda>b. unary (0 # base_nats b)),
     mp_pack_cmd = (\<lambda>(b, tc, r). unary (1 # code_nat (code_of_type tc) # unat r # base_nats b)),
     mp_unpack = (\<lambda>bs. case un_unary 0 bs of
        0 # ns \<Rightarrow> Inr (nats_obj ns)
      | _ # t # r # ns \<Rightarrow> Inr (MpMap [(MpStr ''process_message_base'', nats_obj ns),
          (MpStr ''type_cmd'', MpInt (nat_code t)), (MpStr ''result'', MpInt (int r))])
      | _ \<Rightarrow> Inl (LogicError ''insufficient bytes'')),
     mp_map = (\<lambda>ob. case ob of MpMap kvs \<Rightarrow> Some kvs | _ \<Rightarrow> None),
     mp_as_string = (\<lambda>ob. case ob of MpStr s \<Rightarrow> Some s | _ \<Rightarrow> None),
     mp_as_type = (\<lambda>ob. case ob of MpInt i \<Rightarrow> Some (nat_code (nat i)) | _ \<Rightarrow> None),
     mp_convert_base = (\<lambda>ob b. obj_base ob),
     mp_convert_cmd = (\<lambda>ob c. case ob of
        MpMap [(_, bo), (_, MpInt t), (_, MpInt r)] \<Rightarrow>
          map_option (\<lambda>b. (b, type_of_code t, word_of_int r)) (obj_base bo)
      | _ \<Rightarrow> None) \<rparr>"

lemma obj_base_nats [simp]: "proper_type (pm_type b) \<Longrightarrow> obj_base (nats_obj (base_nats b)) = Some b"
  using nats_base_nats [of b "[]"] by (simp add: obj_base_def nats_obj_def base_nats_def base_keys_def)

lemma unary_lib_base_law: "proper_type (pm_type b) \<Longrightarrow> msgpack_base_law unary_lib b"
  unfolding msgpack_base_law_def unary_lib_def
  by (simp del: unary.simps) (simp add: nats_obj_def base_nats_def base_keys_def)

lemma unary_lib_cmd_law:
  "proper_type (pm_type b) \<Longrightarrow> proper_type tc \<Longrightarrow> msgpack_cmd_law unary_lib (b, tc, r)"
  unfolding msgpack_cmd_law_def unary_lib_def
  by (simp del: unary.simps) (simp add: cmd_keys_def proper_type_def)

section \<open>Round trip\<close>

text \<open>C2: A START, CMD_STOP or CMD_RESULT message that its class built is packed without an error,
  and the reader at the other end of the pipe, given the packed bytes followed by any stale
  contents of the receive buffer, returns exactly that message, of that class.\<close>

theorem pack_process_input_roundtrip:
  assumes "class_ok m" and "handled_class m"
    and "\<And>b tc r. m = MsgCmdResult b tc r \<Longrightarrow> msgpack_cmd_law l (b, tc, r)"
    and "msgpack_base_law l (base_of m)"
  shows "\<exists>bs. pack l m = Inr bs \<and> process_input l e (bs @ junk) (length bs) = Inr (Some m)"
proof (cases m)
  case (MsgStartup b)
  then show ?thesis using assms process_input_packed_base [of l b e junk]
    by (simp add: pack_def type_of_code_def)
next
  case (MsgStop b)
  then show ?thesis using assms process_input_packed_base [of l b e junk]
    by (simp add: pack_def type_of_code_def)
next
  case (MsgCmdResult b tc r)
  then show ?thesis using assms process_input_packed_cmd [of l b tc r e junk]
    by (simp add: pack_def)
qed (use assms in \<open>simp_all add: handled_class_def\<close>)

definition sample_env :: msg_env where
  "sample_env = \<lparr> env_rand1 = 3, env_rand2 = 4, env_pid = 7, env_now = 9,
     env_uninit_type = START, env_uninit_result = 0 \<rparr>"

theorem pack_process_input_roundtrip_witness:
  "\<exists>bs. pack unary_lib (new_cmd_result sample_env) = Inr bs \<and>
     process_input unary_lib sample_env (bs @ [5, 6]) (length bs)
       = Inr (Some (new_cmd_result sample_env))"
  by (rule pack_process_input_roundtrip)
    (auto simp: msg_defs sample_env_def handled_class_def proper_type_def type_of_code_def
      intro!: unary_lib_base_law unary_lib_cmd_law)

text \<open>The reader does not handle every type the writer packs: a message tagged NONE or BASE
  packs without an error but reads back as the null pointer, and PING and PONG do not pack at
  all, the writer throws.\<close>

theorem pack_process_input_unhandled:
  assumes "class_ok m" and "\<not> handled_class m" and "msgpack_base_law l (base_of m)"
  shows "pack l m = Inl (LogicError ''Message type unknown'') \<or>
    (\<exists>bs. pack l m = Inr bs \<and> process_input l e (bs @ junk) (length bs) = Inr None)"
  using assms process_input_packed_base [of l "base_of m" e junk]
  by (cases m) (auto simp: pack_def handled_class_def type_of_code_def)

theorem pack_process_input_unhandled_witness:
  "pack unary_lib (MsgBase (new_base sample_env)) = Inl (LogicError ''Message type unknown'') \<or>
    (\<exists>bs. pack unary_lib (MsgBase (new_base sample_env)) = Inr bs \<and>
       process_input unary_lib sample_env (bs @ [5]) (length bs) = Inr None)"
  by (rule pack_process_input_unhandled)
    (auto simp: msg_defs sample_env_def handled_class_def proper_type_def type_of_code_def
      intro!: unary_lib_base_law)

lemma type_line_empty_iff:
  "class_ok m \<Longrightarrow> type_line m = Inr [] \<longleftrightarrow> msg_type m = PING \<or> msg_type m = PONG"
  by (cases m) (auto simp: type_line_def)

lemma message_to_string_total: "class_ok m \<Longrightarrow> \<exists>t. message_to_string pt m = Inr t"
  by (cases m) (auto simp: message_to_string_def type_line_def Let_def)

end
