(* ===== verification/ControlServer.thy ===== *)
theory ControlServer imports EpInterfaces ControlMessage begin

text \<open>
  The named-pipe server of the worker controller: class \<open>process_control_win\<close> of
  \<open>epprocess-control-win.cpp\<close>. Its flags and queues are the record \<open>pipe_server\<close>; the outcomes of
  the Windows calls of one pass of \<open>listen_loop\<close> are the arguments of each phase. The receive
  buffer is one vector for all pipe instances, as in the code; \<open>kernel_read\<close> is the system
  filling it when an overlapped read completes.
\<close>

definition INSTANCES :: nat where "INSTANCES = 4"

record pipe_server =
  pipe_read_ready :: "bool list"
  pipe_write_ready :: "bool list"
  read_pending :: "bool list"
  write_pending :: "bool list"
  stop_loop :: bool
  write_queue :: "byte list list list"
  read_queue :: "process_message list list"
  input_buffer :: "byte list"
  completed :: "nat option list"
  connects :: "nat list"

text \<open>\<open>completed\<close> is the byte count the system holds for the pending read of each pipe, and
  \<open>connects\<close> the pipes on which \<open>ConnectNamedPipe\<close> was called, newest first.\<close>

definition pipe_inv :: "pipe_server \<Rightarrow> bool" where
  "pipe_inv s \<longleftrightarrow>
     length (pipe_read_ready s) = INSTANCES \<and> length (pipe_write_ready s) = INSTANCES \<and>
     length (read_pending s) = INSTANCES \<and> length (write_pending s) = INSTANCES \<and>
     length (write_queue s) = INSTANCES \<and> length (read_queue s) = INSTANCES \<and>
     length (completed s) = INSTANCES \<and>
     list_all (list_all handled_class) (read_queue s) \<and>
     list_all (\<lambda>i. i < INSTANCES) (connects s)"

definition new_pipe_server :: pipe_server where
  "new_pipe_server = \<lparr>
     pipe_read_ready = replicate INSTANCES False, pipe_write_ready = replicate INSTANCES False,
     read_pending = replicate INSTANCES False, write_pending = replicate INSTANCES False,
     stop_loop = False,
     write_queue = replicate INSTANCES [], read_queue = replicate INSTANCES [],
     input_buffer = replicate 50000 0, completed = replicate INSTANCES None, connects = [] \<rparr>"

section \<open>Connecting\<close>

datatype connect_outcome = ConnectReturned | ConnectPending | ConnectAlready bool | ConnectFailed

text \<open>The result of \<open>connect_to_new_client\<close>: only a pending connection reports true. The flag of
  \<open>ConnectAlready\<close> is the result of \<open>SetEvent\<close>.\<close>

fun connect_to_new_client :: "connect_outcome \<Rightarrow> bool" where
  "connect_to_new_client ConnectReturned = False"
| "connect_to_new_client ConnectPending = True"
| "connect_to_new_client (ConnectAlready set_ok) = False"
| "connect_to_new_client ConnectFailed = False"

definition disconnect_and_reconnect :: "nat \<Rightarrow> pipe_server \<Rightarrow> pipe_server result" where
  "disconnect_and_reconnect i s =
    (if i < INSTANCES then Inr (s\<lparr> connects := i # connects s \<rparr>) else Inl UndefinedBehaviour)"

text \<open>\<open>setup\<close>: for each instance the write event is tested before the read event, then the pipe.\<close>

fun setup_from ::
  "(nat \<Rightarrow> bool) \<Rightarrow> (nat \<Rightarrow> bool) \<Rightarrow> nat list \<Rightarrow> pipe_server \<Rightarrow> pipe_server result" where
  "setup_from event_ok pipe_ok [] s = Inr s"
| "setup_from event_ok pipe_ok (i # is) s =
    (if \<not> event_ok (i + INSTANCES) then Inl (LogicError ''CreateEvent failed'')
     else if \<not> event_ok i then Inl (LogicError ''CreateEvent failed'')
     else if \<not> pipe_ok i then Inl (LogicError ''CreateNamedPipe failed'')
     else setup_from event_ok pipe_ok is (s\<lparr> connects := i # connects s \<rparr>))"

definition setup_pipes ::
  "(nat \<Rightarrow> bool) \<Rightarrow> (nat \<Rightarrow> bool) \<Rightarrow> pipe_server \<Rightarrow> pipe_server result" where
  "setup_pipes event_ok pipe_ok s = setup_from event_ok pipe_ok [0..<INSTANCES] s"

section \<open>The phases of a pass of the loop\<close>

datatype io_start = IoDone | IoPending | IoError

text \<open>The outcome of \<open>ReadFile\<close> or \<open>WriteFile\<close>: non-zero, \<open>ERROR_IO_PENDING\<close>, another error.\<close>

definition read_one :: "io_start \<Rightarrow> nat \<Rightarrow> pipe_server \<Rightarrow> pipe_server result" where
  "read_one io i s =
    (if pipe_read_ready s ! i then
       (let s1 = s\<lparr> read_pending := (read_pending s)[i := True],
                    pipe_read_ready := (pipe_read_ready s)[i := False],
                    completed := (completed s)[i := None] \<rparr>
        in case io of IoError \<Rightarrow> Inl (LogicError ''ReadFile() error'') | _ \<Rightarrow> Inr s1)
     else Inr s)"

fun fold_r :: "('a \<Rightarrow> 's \<Rightarrow> 'e + 's) \<Rightarrow> 'a list \<Rightarrow> 's \<Rightarrow> 'e + 's" where
  "fold_r f [] s = Inr s"
| "fold_r f (x # xs) s = rbind (f x s) (fold_r f xs)"

definition read_phase :: "(nat \<Rightarrow> io_start) \<Rightarrow> pipe_server \<Rightarrow> pipe_server result" where
  "read_phase io = fold_r (\<lambda>i. read_one (io i) i) [0..<INSTANCES]"

datatype write_outcome = NoWrite | Wrote "byte list" | LostWrite "byte list"

text \<open>One pipe of the write phase. The test of the queue is inside \<open>write_mutex\<close>; the mutex is
  released before the flag and the queue are read again, the front is moved out and popped, and
  the message is passed to \<open>WriteFile\<close>.\<close>

definition write_check :: "nat \<Rightarrow> pipe_server \<Rightarrow> pipe_server" where
  "write_check i s = s\<lparr> pipe_write_ready := (pipe_write_ready s)[i := write_queue s ! i \<noteq> []] \<rparr>"

definition write_take :: "nat \<Rightarrow> pipe_server \<Rightarrow> byte list option \<times> pipe_server" where
  "write_take i s =
    (if pipe_write_ready s ! i then
       (case write_queue s ! i of
          [] \<Rightarrow> (None, s)
        | b # q \<Rightarrow> (Some b, s\<lparr> write_queue := (write_queue s)[i := q] \<rparr>))
     else (None, s))"

definition write_file ::
  "io_start \<Rightarrow> nat \<Rightarrow> byte list \<Rightarrow> pipe_server \<Rightarrow> (write_outcome \<times> pipe_server) result" where
  "write_file io i b s =
    (case io of
       IoDone \<Rightarrow> Inr (Wrote b, s\<lparr> write_pending := (write_pending s)[i := False] \<rparr>)
     | IoPending \<Rightarrow> Inr (Wrote b, s\<lparr> write_pending := (write_pending s)[i := True] \<rparr>)
     | IoError \<Rightarrow> rbind (disconnect_and_reconnect i s) (\<lambda>s1. Inr (LostWrite b, s1)))"

text \<open>The three in a row; \<open>between\<close> is what other threads did between the test and the second look
  at the queue.\<close>

definition write_one ::
  "io_start \<Rightarrow> (pipe_server \<Rightarrow> pipe_server) \<Rightarrow> nat \<Rightarrow> pipe_server
    \<Rightarrow> (write_outcome \<times> pipe_server) result" where
  "write_one io between i s =
    (case write_take i (between (write_check i s)) of
       (None, s1) \<Rightarrow> Inr (NoWrite, s1)
     | (Some b, s1) \<Rightarrow> write_file io i b s1)"

definition write_phase ::
  "(nat \<Rightarrow> io_start) \<Rightarrow> (nat \<Rightarrow> pipe_server \<Rightarrow> pipe_server) \<Rightarrow> pipe_server \<Rightarrow> pipe_server result" where
  "write_phase io between =
    fold_r (\<lambda>i s. rbind (write_one (io i) (between i) i s) (\<lambda>(_, s'). Inr s')) [0..<INSTANCES]"

text \<open>The system completes the pending read of pipe \<open>i\<close>: the bytes land in the shared buffer.\<close>

definition kernel_read :: "nat \<Rightarrow> byte list \<Rightarrow> pipe_server \<Rightarrow> pipe_server" where
  "kernel_read i bs s = s\<lparr> input_buffer := bs @ drop (length bs) (input_buffer s),
     completed := (completed s)[i := Some (length bs)] \<rparr>"

datatype loop_control = LoopContinue | LoopReturn

definition WAIT_TIMEOUT :: "32 word" where "WAIT_TIMEOUT = 258"
definition WAIT_FAILED :: "32 word" where "WAIT_FAILED = 4294967295"

text \<open>The text \<open>to_string\<close> builds for the log is not kept, but its failures are.\<close>

definition log_message :: "(int \<Rightarrow> string) \<Rightarrow> process_message \<Rightarrow> unit result" where
  "log_message put_time m = rbind (message_to_string put_time m) (\<lambda>_. Inr ())"

text \<open>A read that completed with \<open>n\<close> bytes: the null result of \<open>process_input\<close> is dereferenced for
  the log line before it is queued.\<close>

definition take_message ::
  "'o msgpack_lib \<Rightarrow> msg_env \<Rightarrow> (int \<Rightarrow> string) \<Rightarrow> nat \<Rightarrow> nat \<Rightarrow> pipe_server \<Rightarrow> pipe_server result" where
  "take_message l e pt i n s =
    rbind (process_input l e (input_buffer s) n) (\<lambda>res.
      case res of
        None \<Rightarrow> Inl UndefinedBehaviour
      | Some m \<Rightarrow> rbind (log_message pt m) (\<lambda>_.
          Inr (s\<lparr> read_queue := (read_queue s)[i := read_queue s ! i @ [m]] \<rparr>)))"

definition dispatch_read ::
  "'o msgpack_lib \<Rightarrow> msg_env \<Rightarrow> (int \<Rightarrow> string) \<Rightarrow> nat \<Rightarrow> bool \<Rightarrow> pipe_server \<Rightarrow> pipe_server result" where
  "dispatch_read l e pt i gor s =
    (if read_pending s ! i then
       (case (if gor then completed s ! i else None) of
          Some n \<Rightarrow>
            rbind (let s1 = s\<lparr> read_pending := (read_pending s)[i := False] \<rparr> in
                   if 0 < n then take_message l e pt i n s1 else Inr s1)
              (\<lambda>s2. Inr (s2\<lparr> pipe_read_ready := (pipe_read_ready s2)[i := True] \<rparr>))
        | None \<Rightarrow>
            rbind (disconnect_and_reconnect i s)
              (\<lambda>s1. Inr (s1\<lparr> pipe_read_ready := (pipe_read_ready s1)[i := False],
                             pipe_write_ready := (pipe_write_ready s1)[i := False] \<rparr>)))
     else Inr (s\<lparr> pipe_read_ready := (pipe_read_ready s)[i := True] \<rparr>))"

text \<open>The write event of pipe \<open>w - INSTANCES\<close>: the failure branch passes the event index \<open>w\<close> on,
  where a pipe index is meant.\<close>

definition dispatch_write :: "nat \<Rightarrow> bool \<Rightarrow> pipe_server \<Rightarrow> pipe_server result" where
  "dispatch_write w gor s =
    (if write_pending s ! (w - INSTANCES) then
       (if gor then Inr (s\<lparr> write_pending := (write_pending s)[w - INSTANCES := False] \<rparr>)
        else rbind (disconnect_and_reconnect w s) (\<lambda>s1.
               if w < length (pipe_read_ready s1)
               then Inr (s1\<lparr> pipe_read_ready := (pipe_read_ready s1)[w := False],
                             pipe_write_ready := (pipe_write_ready s1)[w := False] \<rparr>)
               else Inl UndefinedBehaviour))
     else Inr s)"

definition dispatch ::
  "'o msgpack_lib \<Rightarrow> msg_env \<Rightarrow> (int \<Rightarrow> string) \<Rightarrow> 32 word \<Rightarrow> bool \<Rightarrow> pipe_server
    \<Rightarrow> (loop_control \<times> pipe_server) result" where
  "dispatch l e pt dwWait gor s =
    (if dwWait = WAIT_TIMEOUT then Inr (LoopContinue, s)
     else if dwWait = WAIT_FAILED then Inr (LoopContinue, s\<lparr> stop_loop := True \<rparr>)
     else (let w = unat dwWait in
       if 2 * INSTANCES - 1 < w then Inr (LoopReturn, s)
       else if w < INSTANCES then
         rbind (dispatch_read l e pt w gor s) (\<lambda>s'. Inr (LoopContinue, s'))
       else rbind (dispatch_write w gor s) (\<lambda>s'. Inr (LoopContinue, s'))))"

section \<open>The loop\<close>

record 'o pass_env =
  pe_lib :: "'o msgpack_lib"
  pe_msg :: msg_env
  pe_put_time :: "int \<Rightarrow> string"
  pe_read :: "nat \<Rightarrow> io_start"
  pe_write :: "nat \<Rightarrow> io_start"
  pe_between :: "nat \<Rightarrow> pipe_server \<Rightarrow> pipe_server"
  pe_meanwhile :: "pipe_server \<Rightarrow> pipe_server"
  pe_wait :: "32 word"
  pe_gor :: bool

text \<open>One pass. \<open>pe_between\<close> and \<open>pe_meanwhile\<close> are what the other threads and the system did to the
  shared fields between the test and the use of a write queue, and while the loop waited.\<close>

definition loop_pass :: "'o pass_env \<Rightarrow> pipe_server \<Rightarrow> (loop_control \<times> pipe_server) result" where
  "loop_pass p s =
    (if stop_loop s then Inr (LoopReturn, s)
     else rbind (read_phase (pe_read p) s) (\<lambda>s1.
       rbind (write_phase (pe_write p) (pe_between p) s1) (\<lambda>s2.
         if stop_loop s2 then Inr (LoopReturn, s2)
         else rbind (dispatch (pe_lib p) (pe_msg p) (pe_put_time p) (pe_wait p) (pe_gor p)
                      (pe_meanwhile p s2))
                (\<lambda>(c, s3). Inr (if stop_loop s3 then LoopReturn else c, s3)))))"

text \<open>The loop over the outcomes of its passes: it has returned, or the list was too short and it
  is still running.\<close>

datatype loop_state = LoopReturned pipe_server | LoopRunning pipe_server

fun listen_loop :: "'o pass_env list \<Rightarrow> pipe_server \<Rightarrow> loop_state result" where
  "listen_loop [] s = Inr (LoopRunning s)"
| "listen_loop (p # ps) s =
    rbind (loop_pass p s) (\<lambda>(c, s'). case c of
      LoopReturn \<Rightarrow> Inr (LoopReturned s') | LoopContinue \<Rightarrow> listen_loop ps s')"

section \<open>What the controller thread calls\<close>

definition server_is_running :: "32 word \<Rightarrow> bool" where
  "server_is_running wait_res = (wait_res = WAIT_TIMEOUT)"

definition server_stop :: "pipe_server \<Rightarrow> pipe_server" where
  "server_stop s = s\<lparr> stop_loop := True \<rparr>"

text \<open>\<open>next_message\<close> tests \<open>read_queue->empty()\<close>, the first queue of the array, and then takes the
  front of queue \<open>i\<close>.\<close>

definition next_message :: "nat \<Rightarrow> pipe_server \<Rightarrow> (process_message option \<times> pipe_server) result" where
  "next_message i s =
    (if read_queue s ! 0 = [] then Inr (None, s)
     else if \<not> i < INSTANCES then Inl UndefinedBehaviour
     else (case read_queue s ! i of
         [] \<Rightarrow> Inl UndefinedBehaviour
       | m # q \<Rightarrow> Inr (Some m, s\<lparr> read_queue := (read_queue s)[i := q] \<rparr>)))"

definition push_write :: "nat \<Rightarrow> byte list \<Rightarrow> pipe_server \<Rightarrow> pipe_server" where
  "push_write i b s = s\<lparr> pipe_write_ready := (pipe_write_ready s)[i := True],
     write_queue := (write_queue s)[i := write_queue s ! i @ [b]] \<rparr>"

definition server_send ::
  "'o msgpack_lib \<Rightarrow> (int \<Rightarrow> string) \<Rightarrow> nat \<Rightarrow> process_message \<Rightarrow> pipe_server \<Rightarrow> pipe_server result" where
  "server_send l pt i m s =
    rbind (pack l m) (\<lambda>b. rbind (log_message pt m) (\<lambda>_.
      if i < INSTANCES then Inr (push_write i b s) else Inl UndefinedBehaviour))"

lemmas [pipe_defs] = disconnect_and_reconnect_def read_one_def write_check_def write_take_def
  write_file_def write_one_def kernel_read_def
  take_message_def dispatch_read_def dispatch_write_def dispatch_def next_message_def
  push_write_def server_send_def server_stop_def


section \<open>Well-formedness of the shared state\<close>

lemma pipe_inv_new: "pipe_inv new_pipe_server"
  by (simp add: pipe_inv_def new_pipe_server_def INSTANCES_def list_all_iff)

lemma list_all_update: "list_all P xs \<Longrightarrow> P y \<Longrightarrow> list_all P (xs[i := y])"
  using set_update_subset by (fastforce simp: list_all_iff)

lemma fold_r_invariant:
  "fold_r f xs s = Inr s' \<Longrightarrow> I s \<Longrightarrow>
   (\<And>x s s'. x \<in> set xs \<Longrightarrow> f x s = Inr s' \<Longrightarrow> I s \<Longrightarrow> I s') \<Longrightarrow> I s'"
proof (induction xs arbitrary: s)
  case (Cons x xs)
  then show ?case by (auto simp: rbind_Inr_iff)
qed simp

lemma pipe_inv_queue: "pipe_inv s \<Longrightarrow> i < INSTANCES \<Longrightarrow> list_all handled_class (read_queue s ! i)"
  by (simp add: pipe_inv_def list_all_length)

lemma pipe_inv_read_one: "read_one io i s = Inr s' \<Longrightarrow> pipe_inv s \<Longrightarrow> pipe_inv s'"
  by (auto simp: read_one_def pipe_inv_def Let_def split: if_splits io_start.splits)

lemma pipe_inv_write_check: "pipe_inv s \<Longrightarrow> pipe_inv (write_check i s)"
  by (simp add: write_check_def pipe_inv_def)

lemma pipe_inv_write_take: "write_take i s = (ob, s') \<Longrightarrow> pipe_inv s \<Longrightarrow> pipe_inv s'"
  by (auto simp: write_take_def pipe_inv_def split: if_splits list.splits)

lemma pipe_inv_write_file: "write_file io i b s = Inr (w, s') \<Longrightarrow> pipe_inv s \<Longrightarrow> pipe_inv s'"
  by (auto simp: write_file_def disconnect_and_reconnect_def pipe_inv_def rbind_Inr_iff
      split: if_splits io_start.splits)

lemma pipe_inv_write_one:
  "write_one io f i s = Inr (w, s') \<Longrightarrow> (\<And>t. pipe_inv t \<Longrightarrow> pipe_inv (f t)) \<Longrightarrow> pipe_inv s \<Longrightarrow> pipe_inv s'"
  by (auto simp: write_one_def split: prod.splits option.splits
      dest!: pipe_inv_write_take pipe_inv_write_file intro: pipe_inv_write_check)

lemma pipe_inv_kernel_read: "pipe_inv s \<Longrightarrow> pipe_inv (kernel_read i bs s)"
  by (simp add: kernel_read_def pipe_inv_def)

lemma pipe_inv_take_message:
  "take_message l e pt i n s = Inr s' \<Longrightarrow> pipe_inv s \<Longrightarrow> i < INSTANCES \<Longrightarrow> pipe_inv s'"
  using pipe_inv_queue [of s i]
  by (auto simp: take_message_def rbind_Inr_iff pipe_inv_def process_input_class list_all_update
      split: option.splits)

lemma pipe_inv_read_pending [simp]:
  "pipe_inv (s\<lparr> read_pending := (read_pending s)[i := b] \<rparr>) = pipe_inv s"
  "pipe_inv (s\<lparr> write_pending := (write_pending s)[i := b] \<rparr>) = pipe_inv s"
  "pipe_inv (s\<lparr> pipe_read_ready := (pipe_read_ready s)[i := b] \<rparr>) = pipe_inv s"
  "pipe_inv (s\<lparr> pipe_write_ready := (pipe_write_ready s)[i := b] \<rparr>) = pipe_inv s"
  "pipe_inv (s\<lparr> pipe_read_ready := (pipe_read_ready s)[i := b],
                pipe_write_ready := (pipe_write_ready s)[j := c] \<rparr>) = pipe_inv s"
  "pipe_inv (s\<lparr> read_pending := (read_pending s)[i := b],
                pipe_read_ready := (pipe_read_ready s)[j := c] \<rparr>) = pipe_inv s"
  "pipe_inv (s\<lparr> stop_loop := b \<rparr>) = pipe_inv s"
  by (auto simp: pipe_inv_def)

lemma pipe_inv_reconnect:
  "disconnect_and_reconnect i s = Inr s' \<Longrightarrow> pipe_inv s \<Longrightarrow> pipe_inv s'"
  by (auto simp: disconnect_and_reconnect_def pipe_inv_def split: if_splits)

lemma pipe_inv_dispatch_read:
  "dispatch_read l e pt i g s = Inr s' \<Longrightarrow> pipe_inv s \<Longrightarrow> i < INSTANCES \<Longrightarrow> pipe_inv s'"
  by (auto simp: dispatch_read_def rbind_Inr_iff Let_def
      split: if_splits option.splits
      dest!: pipe_inv_take_message pipe_inv_reconnect)

lemma pipe_inv_dispatch_write: "dispatch_write w g s = Inr s' \<Longrightarrow> pipe_inv s \<Longrightarrow> pipe_inv s'"
  by (auto simp: dispatch_write_def rbind_Inr_iff split: if_splits dest!: pipe_inv_reconnect)

lemma pipe_inv_dispatch:
  "dispatch l e pt dw g s = Inr (c, s') \<Longrightarrow> pipe_inv s \<Longrightarrow> pipe_inv s'"
  by (auto simp: dispatch_def rbind_Inr_iff Let_def pipe_inv_dispatch_read pipe_inv_dispatch_write
      split: if_splits)

lemma pipe_inv_next_message: "next_message i s = Inr (m, s') \<Longrightarrow> pipe_inv s \<Longrightarrow> pipe_inv s'"
  using pipe_inv_queue [of s i]
  by (auto simp: next_message_def pipe_inv_def list_all_update split: if_splits list.splits)

lemma pipe_inv_push_write: "pipe_inv s \<Longrightarrow> pipe_inv (push_write i b s)"
  by (simp add: push_write_def pipe_inv_def)

section \<open>Every interleaving of the loop, the system and the controller thread\<close>

text \<open>
  The grain is the code's: what is done under a mutex is one step, what is done outside is a step
  of its own. The listening thread is at rest, has tested the write queue of a pipe
  (\<open>Checked\<close>), is at that queue without the mutex (\<open>Taking\<close>: \<open>empty\<close>, \<open>front\<close>, \<open>pop\<close>), or has a message
  in its hand for \<open>WriteFile\<close> (\<open>Writing\<close>). \<open>pt_sending\<close> is the pipe and the bytes of a thread that is inside
  \<open>send\<close>'s locked block. A queue of the standard library that two threads work on at once is
  a data race: \<open>pt_raced\<close> is set when one of the two enters while the other is inside, and there is no
  step after it, since the behaviour is undefined. (By the letter of the memory model a send between
  the test and the end of the access is a race already; here such a send has the effect it has
  on a machine, so that the model has more runs.)
\<close>

datatype loop_at = AtRest | Checked nat | Taking nat | Writing nat "byte list"

record pipe_threads =
  pt_server :: pipe_server
  pt_loop :: loop_at
  pt_sending :: "(nat \<times> byte list) option"
  pt_raced :: bool

definition new_threads :: pipe_threads where
  "new_threads = \<lparr> pt_server = new_pipe_server, pt_loop = AtRest, pt_sending = None, pt_raced = False \<rparr>"

definition sending_to :: "nat \<Rightarrow> pipe_threads \<Rightarrow> bool" where
  "sending_to i t = (case pt_sending t of None \<Rightarrow> False | Some (j, b) \<Rightarrow> j = i)"

datatype pipe_event =
    EvRead nat
  | EvCheck nat
  | EvSkip nat
  | EvTake nat
  | EvTaken nat
  | EvWrite nat write_outcome
  | EvKernel nat "byte list"
  | EvDispatch "32 word"
  | EvLock nat "byte list"
  | EvSend nat "byte list"
  | EvNext nat "process_message option"
  | EvStop

inductive pipe_step ::
  "'o msgpack_lib \<Rightarrow> (int \<Rightarrow> string) \<Rightarrow> pipe_threads \<Rightarrow> pipe_event \<Rightarrow> pipe_threads \<Rightarrow> bool"
  for l :: "'o msgpack_lib" and pt :: "int \<Rightarrow> string" where
  step_read: "\<not> pt_raced t \<Longrightarrow> pt_loop t = AtRest \<Longrightarrow> i < INSTANCES \<Longrightarrow>
    read_one io i (pt_server t) = Inr s' \<Longrightarrow> pipe_step l pt t (EvRead i) (t\<lparr> pt_server := s' \<rparr>)"
| step_check: "\<not> pt_raced t \<Longrightarrow> pt_loop t = AtRest \<Longrightarrow> i < INSTANCES \<Longrightarrow> pt_sending t = None \<Longrightarrow>
    pipe_step l pt t (EvCheck i) (t\<lparr> pt_server := write_check i (pt_server t), pt_loop := Checked i \<rparr>)"
| step_skip: "\<not> pt_raced t \<Longrightarrow> pt_loop t = Checked i \<Longrightarrow> \<not> pipe_write_ready (pt_server t) ! i \<Longrightarrow>
    pipe_step l pt t (EvSkip i) (t\<lparr> pt_loop := AtRest \<rparr>)"
| step_take: "\<not> pt_raced t \<Longrightarrow> pt_loop t = Checked i \<Longrightarrow>
    pipe_write_ready (pt_server t) ! i \<or> sending_to i t \<Longrightarrow>
    pipe_step l pt t (EvTake i) (t\<lparr> pt_loop := Taking i, pt_raced := sending_to i t \<rparr>)"
| step_taken: "\<not> pt_raced t \<Longrightarrow> pt_loop t = Taking i \<Longrightarrow> write_take i (pt_server t) = (ob, s') \<Longrightarrow>
    pipe_step l pt t (EvTaken i) (t\<lparr> pt_server := s',
      pt_loop := (case ob of None \<Rightarrow> AtRest | Some b \<Rightarrow> Writing i b) \<rparr>)"
| step_write: "\<not> pt_raced t \<Longrightarrow> pt_loop t = Writing i b \<Longrightarrow>
    write_file io i b (pt_server t) = Inr (w, s') \<Longrightarrow>
    pipe_step l pt t (EvWrite i w) (t\<lparr> pt_server := s', pt_loop := AtRest \<rparr>)"
| step_kernel: "\<not> pt_raced t \<Longrightarrow> i < INSTANCES \<Longrightarrow> read_pending (pt_server t) ! i \<Longrightarrow>
    pipe_step l pt t (EvKernel i bs) (t\<lparr> pt_server := kernel_read i bs (pt_server t) \<rparr>)"
| step_dispatch: "\<not> pt_raced t \<Longrightarrow> pt_loop t = AtRest \<Longrightarrow>
    dispatch l e pt dw g (pt_server t) = Inr (c, s') \<Longrightarrow>
    pipe_step l pt t (EvDispatch dw) (t\<lparr> pt_server := s' \<rparr>)"
| step_lock: "\<not> pt_raced t \<Longrightarrow> pt_sending t = None \<Longrightarrow> i < INSTANCES \<Longrightarrow> pack l m = Inr b \<Longrightarrow>
    log_message pt m = Inr u \<Longrightarrow>
    pipe_step l pt t (EvLock i b) (t\<lparr> pt_sending := Some (i, b), pt_raced := (pt_loop t = Taking i) \<rparr>)"
| step_send: "\<not> pt_raced t \<Longrightarrow> pt_sending t = Some (i, b) \<Longrightarrow>
    pipe_step l pt t (EvSend i b) (t\<lparr> pt_server := push_write i b (pt_server t), pt_sending := None \<rparr>)"
| step_next: "\<not> pt_raced t \<Longrightarrow> next_message i (pt_server t) = Inr (m, s') \<Longrightarrow>
    pipe_step l pt t (EvNext i m) (t\<lparr> pt_server := s' \<rparr>)"
| step_stop: "\<not> pt_raced t \<Longrightarrow> pipe_step l pt t EvStop (t\<lparr> pt_server := server_stop (pt_server t) \<rparr>)"

inductive_cases pipe_stepE: "pipe_step l pt t e t'"

text \<open>The locked block of \<open>send\<close> is entered exactly when \<open>server_send\<close> gets to its push.\<close>

lemma server_send_push: "server_send l pt i m s = Inr s' \<Longrightarrow> pack l m = Inr b \<Longrightarrow>
  i < INSTANCES \<Longrightarrow> s' = push_write i b s"
  by (auto simp: server_send_def rbind_Inr_iff split: if_splits)

lemma server_send_iff: "server_send l pt i m s = Inr s' \<longleftrightarrow>
  (\<exists>b u. pack l m = Inr b \<and> log_message pt m = Inr u \<and> i < INSTANCES \<and> s' = push_write i b s)"
  by (auto simp: server_send_def rbind_Inr_iff split: if_splits)

definition threads_inv :: "pipe_threads \<Rightarrow> bool" where
  "threads_inv t \<longleftrightarrow> pipe_inv (pt_server t) \<and>
     (case pt_sending t of None \<Rightarrow> True | Some (i, b) \<Rightarrow> i < INSTANCES) \<and>
     (case pt_loop t of AtRest \<Rightarrow> True | Checked i \<Rightarrow> i < INSTANCES | Taking i \<Rightarrow> i < INSTANCES
        | Writing i b \<Rightarrow> i < INSTANCES) \<and>
     (pt_raced t \<longleftrightarrow> (\<exists>i b. pt_loop t = Taking i \<and> pt_sending t = Some (i, b)))"

lemma threads_inv_new: "threads_inv new_threads"
  by (simp add: threads_inv_def new_threads_def pipe_inv_new)

lemma threads_inv_step: "pipe_step l pt t e t' \<Longrightarrow> threads_inv t \<Longrightarrow> threads_inv t'"
  by (erule pipe_stepE)
    (auto simp: threads_inv_def pipe_inv_read_one pipe_inv_write_check pipe_inv_write_take
      pipe_inv_write_file pipe_inv_kernel_read pipe_inv_dispatch pipe_inv_next_message
      pipe_inv_push_write server_stop_def sending_to_def split: option.splits)

text \<open>What a step took from, and added to, the write queue of a pipe, and what the listening thread
  has in its hand.\<close>

fun handed_over :: "nat \<Rightarrow> pipe_event \<Rightarrow> byte list list" where
  "handed_over i (EvWrite j (Wrote b)) = (if i = j then [b] else [])"
| "handed_over i (EvWrite j (LostWrite b)) = (if i = j then [b] else [])"
| "handed_over i _ = []"

fun sent_to :: "nat \<Rightarrow> pipe_event \<Rightarrow> byte list list" where
  "sent_to i (EvSend j b) = (if i = j then [b] else [])"
| "sent_to i _ = []"

definition in_hand :: "nat \<Rightarrow> pipe_threads \<Rightarrow> byte list list" where
  "in_hand i t = (case pt_loop t of Writing j b \<Rightarrow> (if i = j then [b] else []) | _ \<Rightarrow> [])"

lemma write_take_queue:
  "write_take j s = (ob, s') \<Longrightarrow> j < length (write_queue s) \<Longrightarrow>
   (case ob of None \<Rightarrow> [] | Some b \<Rightarrow> (if i = j then [b] else [])) @ write_queue s' ! i = write_queue s ! i"
  by (auto simp: write_take_def split: if_splits list.splits)

lemma write_file_queue:
  "write_file io j b s = Inr (w, s') \<Longrightarrow> write_queue s' = write_queue s \<and> (w = Wrote b \<or> w = LostWrite b)"
  by (auto simp: write_file_def disconnect_and_reconnect_def rbind_Inr_iff
      split: if_splits io_start.splits)

lemma dispatch_queue: "dispatch l e pt dw g s = Inr (c, s') \<Longrightarrow> write_queue s' = write_queue s"
  by (auto simp: dispatch_def dispatch_read_def dispatch_write_def take_message_def
      disconnect_and_reconnect_def rbind_Inr_iff Let_def split: if_splits option.splits)

lemma read_one_queue: "read_one io i s = Inr s' \<Longrightarrow> write_queue s' = write_queue s"
  by (auto simp: read_one_def Let_def split: if_splits io_start.splits)

lemma next_message_queue: "next_message i s = Inr (m, s') \<Longrightarrow> write_queue s' = write_queue s"
  by (auto simp: next_message_def split: if_splits list.splits)

lemma pipe_step_queue:
  assumes "pipe_step l pt t e t'" and "threads_inv t" and "i < INSTANCES"
  shows "handed_over i e @ in_hand i t' @ write_queue (pt_server t') ! i
    = (in_hand i t @ write_queue (pt_server t) ! i) @ sent_to i e"
  using assms(1)
proof cases
  case (step_taken j ob s')
  then show ?thesis using write_take_queue [of j "pt_server t" ob s' i] assms(2)
    by (auto simp: in_hand_def threads_inv_def pipe_inv_def split: option.splits)
next
  case (step_write j b io w s')
  then show ?thesis using write_file_queue [of io j b "pt_server t" w s']
    by (auto simp: in_hand_def)
next
  case (step_send j b)
  then show ?thesis using assms(2,3)
    by (auto simp: push_write_def threads_inv_def pipe_inv_def nth_list_update in_hand_def)
qed (simp_all add: read_one_queue dispatch_queue next_message_queue kernel_read_def server_stop_def
    write_check_def in_hand_def)

lemma run_queue:
  assumes "run (pipe_step l pt) t es t'" and "threads_inv t" and "i < INSTANCES"
  shows "concat (map (handed_over i) es) @ in_hand i t' @ write_queue (pt_server t') ! i
    = (in_hand i t @ write_queue (pt_server t) ! i) @ concat (map (sent_to i) es)"
  using assms
proof (induction rule: run.induct)
  case (run_cons t e t' es t'')
  then have "threads_inv t'" using threads_inv_step by blast
  from append_shift [OF pipe_step_queue [OF run_cons.hyps(1) run_cons.prems, symmetric]
      run_cons.IH [OF this run_cons.prems(2), symmetric]]
  show ?case by simp
qed simp

section \<open>The queues as first-in first-out hand-over\<close>

text \<open>The write queue of a pipe, fed by \<open>send\<close> and emptied by the write phase; and the first read
  queue, fed by \<open>take_message\<close> and emptied by \<open>next_message\<close>.\<close>

definition pop_write :: "nat \<Rightarrow> pipe_server \<Rightarrow> (byte list \<times> pipe_server) option" where
  "pop_write i s = (case write_one IoDone id i s of
     Inr (Wrote b, s') \<Rightarrow> Some (b, s') | _ \<Rightarrow> None)"

lemma pop_write_eq:
  assumes "pipe_inv s" and "i < INSTANCES"
  shows "pop_write i s = (case write_queue s ! i of [] \<Rightarrow> None
    | b # q \<Rightarrow> Some (b, s\<lparr> pipe_write_ready := (pipe_write_ready s)[i := True],
        write_queue := (write_queue s)[i := q], write_pending := (write_pending s)[i := False] \<rparr>))"
  using assms
  by (auto simp: pop_write_def write_one_def write_check_def write_take_def write_file_def
      pipe_inv_def split: list.splits)

interpretation wq: fifo "\<lambda>s. pipe_inv s \<and> i < INSTANCES" "\<lambda>s. write_queue s ! i" "push_write i" "pop_write i"
  for i :: nat
  by unfold_locales
    (auto simp: pipe_inv_push_write pop_write_eq push_write_def pipe_inv_def
      split: list.splits)

definition queue_message :: "process_message \<Rightarrow> pipe_server \<Rightarrow> pipe_server" where
  "queue_message m s = s\<lparr> read_queue := (read_queue s)[0 := read_queue s ! 0 @ [m]] \<rparr>"

definition pop_message :: "pipe_server \<Rightarrow> (process_message \<times> pipe_server) option" where
  "pop_message s = (case next_message 0 s of Inr (Some m, s') \<Rightarrow> Some (m, s') | _ \<Rightarrow> None)"

lemma take_message_queue:
  "take_message l e pt 0 n s = Inr s' \<Longrightarrow>
   \<exists>m. process_input l e (input_buffer s) n = Inr (Some m) \<and> s' = queue_message m s"
  by (auto simp: take_message_def rbind_Inr_iff queue_message_def split: option.splits)

interpretation rq: fifo "\<lambda>s. 0 < length (read_queue s)" "\<lambda>s. read_queue s ! 0" queue_message pop_message
  by unfold_locales
    (auto simp: queue_message_def pop_message_def next_message_def INSTANCES_def
      split: list.splits if_splits)


section \<open>Properties\<close>

text \<open>C4: The write queue of a pipe, with \<open>send\<close> locked and the listening thread's test of the queue and
  its \<open>front\<close> and \<open>pop\<close> as separate steps, the latter without the mutex. Along every interleaving from
  the initial state, the messages sent to a pipe are exactly those passed to \<open>WriteFile\<close>, then the
  one in the thread's hand, then those queued, in order: none is lost from the queue, repeated,
  reordered or moved to another pipe; the arrays keep their shape. The one way to leave this is a
  data race, and it is there exactly while the listening thread is at a queue without the mutex
  and another thread is inside \<open>send\<close> for the same pipe.\<close>

theorem pipe_write_fifo:
  assumes "run (pipe_step l pt) new_threads es t" and "i < INSTANCES"
  shows "concat (map (sent_to i) es)
      = concat (map (handed_over i) es) @ in_hand i t @ write_queue (pt_server t) ! i
    \<and> pipe_inv (pt_server t)
    \<and> (pt_raced t \<longleftrightarrow> (\<exists>j b. pt_loop t = Taking j \<and> pt_sending t = Some (j, b)))"
proof -
  have "write_queue (pt_server new_threads) ! i = []" "in_hand i new_threads = []"
    using assms(2) by (simp_all add: new_threads_def new_pipe_server_def in_hand_def)
  moreover have "threads_inv t"
    using run_invariant [OF assms(1), of threads_inv] threads_inv_new threads_inv_step by blast
  ultimately show ?thesis
    using run_queue [OF assms(1) threads_inv_new assms(2)] by (simp add: threads_inv_def)
qed

definition sample_start :: "64 word \<Rightarrow> 64 word \<Rightarrow> process_message" where
  "sample_start a b = MsgStartup \<lparr> pm_type = START, pm_pid = 7, pm_port = 2, pm_id1 = a,
     pm_id2 = b, pm_current_time = 1 \<rparr>"

definition sample_bytes :: "64 word \<Rightarrow> 64 word \<Rightarrow> byte list" where
  "sample_bytes a b = mp_pack_base unary_lib (base_of (sample_start a b))"

lemma pack_sample [simp]: "pack unary_lib (sample_start a b) = Inr (sample_bytes a b)"
  by (simp add: pack_def sample_start_def sample_bytes_def)

lemma log_message_ok [simp]: "class_ok m \<Longrightarrow> log_message pt m = Inr ()"
  using message_to_string_total [of m pt] by (auto simp: log_message_def)

lemma class_ok_sample [simp]: "class_ok (sample_start a b)" "handled_class (sample_start a b)"
  by (simp_all add: sample_start_def handled_class_def)

text \<open>A message is sent and the thread is about to take it off the queue, alone or while the next
  send is on its way.\<close>

lemma send_then_check:
  assumes "i < INSTANCES" and "pack l m = Inr b" and "class_ok m"
  shows "\<exists>t. run (pipe_step l pt) new_threads [EvLock i b, EvSend i b, EvCheck i] t \<and>
    pt_loop t = Checked i \<and> pt_sending t = None \<and> \<not> pt_raced t \<and>
    pipe_write_ready (pt_server t) ! i \<and> write_queue (pt_server t) ! i = [b]"
proof -
  let ?t1 = "new_threads\<lparr> pt_sending := Some (i, b) \<rparr>"
  let ?t2 = "new_threads\<lparr> pt_server := push_write i b new_pipe_server \<rparr>"
  let ?t3 = "?t2\<lparr> pt_server := write_check i (pt_server ?t2), pt_loop := Checked i \<rparr>"
  have "pipe_step l pt new_threads (EvLock i b) ?t1"
    using step_lock [of new_threads i l m b pt "()"] assms by (simp add: new_threads_def)
  moreover have "pipe_step l pt ?t1 (EvSend i b) ?t2"
    using step_send [of ?t1 i b l pt] by (simp add: new_threads_def)
  moreover have "pipe_step l pt ?t2 (EvCheck i) ?t3"
    by (rule step_check) (use assms in \<open>simp_all add: new_threads_def\<close>)
  ultimately have "run (pipe_step l pt) new_threads [EvLock i b, EvSend i b, EvCheck i] ?t3" by blast
  then show ?thesis
    by (intro exI [of _ ?t3] conjI)
      (use assms(1) in \<open>simp_all add: new_threads_def push_write_def write_check_def
        new_pipe_server_def\<close>)
qed

lemma take_races_lock:
  assumes "pt_loop t = Checked i" and "pt_sending t = None" and "\<not> pt_raced t"
    and "pipe_write_ready (pt_server t) ! i" and "i < INSTANCES" and "pack l m = Inr b" and "class_ok m"
  shows "\<exists>u. run (pipe_step l pt) t [EvTake i, EvLock i b] u \<and> pt_raced u"
    and "\<exists>u. run (pipe_step l pt) t [EvLock i b, EvTake i] u \<and> pt_raced u"
proof -
  let ?u = "t\<lparr> pt_loop := Taking i, pt_raced := False \<rparr>"
  have "pipe_step l pt t (EvTake i) ?u"
    using step_take [of t i l pt] assms by (simp add: sending_to_def)
  moreover have "pipe_step l pt ?u (EvLock i b) (?u\<lparr> pt_sending := Some (i, b), pt_raced := True \<rparr>)"
    using step_lock [of ?u i l m b pt "()"] assms by simp
  ultimately show "\<exists>u. run (pipe_step l pt) t [EvTake i, EvLock i b] u \<and> pt_raced u"
    by (intro exI conjI, blast) simp
next
  let ?u = "t\<lparr> pt_sending := Some (i, b), pt_raced := False \<rparr>"
  have "pipe_step l pt t (EvLock i b) ?u"
    using step_lock [of t i l m b pt "()"] assms by simp
  moreover have "pipe_step l pt ?u (EvTake i) (?u\<lparr> pt_loop := Taking i, pt_raced := True \<rparr>)"
    using step_take [of ?u i l pt] assms by (simp add: sending_to_def)
  ultimately show "\<exists>u. run (pipe_step l pt) t [EvLock i b, EvTake i] u \<and> pt_raced u"
    by (intro exI conjI, blast) simp
qed

lemma raced_is_final: "pt_raced t \<Longrightarrow> \<not> pipe_step l pt t e t'"
  by (auto elim: pipe_stepE)

text \<open>C5: The race on a write queue is there to be met: for every pipe and every two messages, once the first
  was sent and the listening thread has seen it under the mutex, the second \<open>send\<close> can enter its locked
  block after the thread has gone to the queue, or the thread can go to the queue while \<open>send\<close> is
  inside; in both orders the two work on the queue at once and nothing is defined from there on.
  The mutex that both hold does not exclude it, because the thread has released it.\<close>

theorem send_races_write:
  assumes "i < INSTANCES" and "pack l m = Inr b" and "class_ok m"
    and "pack l n = Inr d" and "class_ok n"
  shows "\<exists>t u. run (pipe_step l pt) new_threads
      [EvLock i b, EvSend i b, EvCheck i, EvTake i, EvLock i d] t \<and>
    run (pipe_step l pt) new_threads [EvLock i b, EvSend i b, EvCheck i, EvLock i d, EvTake i] u \<and>
    pt_raced t \<and> pt_raced u \<and> \<not> (\<exists>e v. pipe_step l pt t e v \<or> pipe_step l pt u e v)"
proof -
  obtain s where s: "run (pipe_step l pt) new_threads [EvLock i b, EvSend i b, EvCheck i] s"
    "pt_loop s = Checked i" "pt_sending s = None" "\<not> pt_raced s" "pipe_write_ready (pt_server s) ! i"
    using send_then_check [OF assms(1-3), of pt] by blast
  note races = take_races_lock [OF s(2-5) assms(1,4,5), of pt]
  obtain t u where t: "run (pipe_step l pt) s [EvTake i, EvLock i d] t" "pt_raced t"
    and u: "run (pipe_step l pt) s [EvLock i d, EvTake i] u" "pt_raced u"
    using races by blast
  show ?thesis
    using run_append [OF s(1) t(1)] run_append [OF s(1) u(1)] t(2) u(2)
      raced_is_final [OF t(2), of l pt] raced_is_final [OF u(2), of l pt]
    by (intro exI [of _ t] exI [of _ u]) simp
qed

theorem send_races_write_witness:
  "\<exists>t. run (pipe_step unary_lib (\<lambda>_. [])) new_threads
      [EvLock 1 (sample_bytes 1 2), EvSend 1 (sample_bytes 1 2), EvCheck 1, EvTake 1,
       EvLock 1 (sample_bytes 2 1)] t \<and> pt_raced t"
proof -
  have "(1 :: nat) < INSTANCES" by (simp add: INSTANCES_def)
  from send_races_write [OF this pack_sample class_ok_sample(1) pack_sample class_ok_sample(1)]
  show ?thesis by blast
qed

lemma sample_run:
  "\<exists>t. run (pipe_step unary_lib pt) new_threads
     [EvLock 1 (sample_bytes 1 2), EvSend 1 (sample_bytes 1 2), EvCheck 1, EvTake 1, EvTaken 1] t \<and>
     pt_loop t = Writing 1 (sample_bytes 1 2)"
proof -
  let ?b = "sample_bytes 1 2"
  have i: "(1 :: nat) < INSTANCES" by (simp add: INSTANCES_def)
  obtain s where s: "run (pipe_step unary_lib pt) new_threads [EvLock 1 ?b, EvSend 1 ?b, EvCheck 1] s"
    "pt_loop s = Checked 1" "pt_sending s = None" "\<not> pt_raced s" "pipe_write_ready (pt_server s) ! 1"
    "write_queue (pt_server s) ! 1 = [?b]"
    using send_then_check [where i = 1 and l = unary_lib and pt = pt, OF i pack_sample class_ok_sample(1)]
    by blast
  let ?u = "s\<lparr> pt_loop := Taking 1, pt_raced := False \<rparr>"
  have "pipe_step unary_lib pt s (EvTake 1) ?u"
    using step_take [of s 1 unary_lib pt] s by (simp add: sending_to_def)
  moreover have "pipe_step unary_lib pt ?u (EvTaken 1)
      (?u\<lparr> pt_server := snd (write_take 1 (pt_server s)), pt_loop := Writing 1 ?b \<rparr>)"
    using step_taken [of ?u 1 "Some ?b" _ unary_lib pt] s by (simp add: write_take_def)
  ultimately have "run (pipe_step unary_lib pt) s [EvTake 1, EvTaken 1]
      (?u\<lparr> pt_server := snd (write_take 1 (pt_server s)), pt_loop := Writing 1 ?b \<rparr>)" by blast
  from run_append [OF s(1) this] show ?thesis by (intro exI conjI) auto
qed

theorem pipe_write_fifo_witness:
  "\<exists>t. [sample_bytes 1 2] = in_hand 1 t @ write_queue (pt_server t) ! 1 \<and> pipe_inv (pt_server t)
    \<and> pt_loop t = Writing 1 (sample_bytes 1 2) \<and> \<not> pt_raced t"
proof -
  obtain t where r: "run (pipe_step unary_lib (\<lambda>_. [])) new_threads
     [EvLock 1 (sample_bytes 1 2), EvSend 1 (sample_bytes 1 2), EvCheck 1, EvTake 1, EvTaken 1] t"
    and w: "pt_loop t = Writing 1 (sample_bytes 1 2)"
    using sample_run by blast
  from pipe_write_fifo [OF r, of 1] w show ?thesis
    by (intro exI [of _ t]) (simp add: INSTANCES_def)
qed

lemma dispatch_queue0:
  "dispatch l e pt dw g s = Inr (c, s') \<Longrightarrow> dw \<noteq> 0 \<Longrightarrow> read_queue s' ! 0 = read_queue s ! 0"
  by (auto simp: dispatch_def dispatch_read_def dispatch_write_def take_message_def unat_eq_zero
      disconnect_and_reconnect_def rbind_Inr_iff Let_def
      split: if_splits option.splits)

lemma pipe_step_queue0:
  "pipe_step l pt t e t' \<Longrightarrow> e \<noteq> EvDispatch 0 \<Longrightarrow> read_queue (pt_server t) ! 0 = [] \<Longrightarrow>
   read_queue (pt_server t') ! 0 = [] \<and> (\<forall>i m. e = EvNext i m \<longrightarrow> m = None)"
  by (erule pipe_stepE)
    (auto simp: read_one_def write_check_def write_take_def write_file_def kernel_read_def
      push_write_def server_stop_def next_message_def disconnect_and_reconnect_def rbind_Inr_iff Let_def
      dest!: dispatch_queue0 split: if_splits io_start.splits list.splits)

text \<open>Messages of the pipes other than the first are invisible while the first has none: in
  every run in which no read of pipe 0 is dispatched, \<open>next_message(i)\<close> returns null for every
  \<open>i\<close>, whatever has been queued for pipe \<open>i\<close>, because it tests \<open>read_queue->empty()\<close>.\<close>

theorem next_message_starved:
  assumes "run (pipe_step l pt) t es t'" and "read_queue (pt_server t) ! 0 = []"
    and "EvDispatch 0 \<notin> set es" and "EvNext i m \<in> set es"
  shows "m = None"
  using assms
proof (induction rule: run.induct)
  case (run_cons t e t1 es t2)
  then show ?case using pipe_step_queue0 [of l pt t e t1] by auto
qed simp

definition queued_on_1 :: pipe_threads where
  "queued_on_1 = new_threads\<lparr> pt_server :=
     new_pipe_server\<lparr> read_queue := [[], [sample_start 1 2], [], []] \<rparr> \<rparr>"

theorem next_message_starved_witness:
  "read_queue (pt_server queued_on_1) ! 1 = [sample_start 1 2] \<and>
   run (pipe_step unary_lib (\<lambda>_. [])) queued_on_1 [EvNext 1 None] queued_on_1 \<and>
   (None :: process_message option) = None"
proof -
  have "pipe_step unary_lib (\<lambda>_. []) queued_on_1 (EvNext 1 None)
      (queued_on_1\<lparr> pt_server := pt_server queued_on_1 \<rparr>)"
    by (rule step_next) (simp_all add: next_message_def queued_on_1_def new_threads_def)
  then have r: "run (pipe_step unary_lib (\<lambda>_. [])) queued_on_1 [EvNext 1 None] queued_on_1"
    by auto
  show ?thesis
    using r next_message_starved [OF r, of 1 None] by (simp add: queued_on_1_def)
qed

text \<open>On the first pipe \<open>next_message\<close> is a first-in first-out queue: messages queued on the
  fresh server come back in the order they arrived, each once, and nothing is left.\<close>

theorem next_message_fifo:
  "fst (drain pop_message (length ms) (fold queue_message ms new_pipe_server)) = ms \<and>
   read_queue (snd (drain pop_message (length ms) (fold queue_message ms new_pipe_server))) ! 0 = []"
  using rq.drain_push_all [of new_pipe_server ms] by (simp add: new_pipe_server_def INSTANCES_def)

text \<open>When the system reports that a pending write of pipe \<open>i\<close> failed, the handler passes the
  event index \<open>i + INSTANCES\<close> to \<open>DisconnectAndReconnect\<close>, which indexes the array of
  \<open>INSTANCES\<close> pipes with it: every failed write completion runs into undefined behaviour.\<close>

theorem write_failure_out_of_bounds:
  assumes "i < INSTANCES" and "write_pending s ! i"
  shows "dispatch l e pt (of_nat (i + INSTANCES)) False s = Inl UndefinedBehaviour"
proof -
  have w: "unat (word_of_nat (i + INSTANCES) :: 32 word) = i + INSTANCES"
    using assms(1) by (simp add: unat_of_nat INSTANCES_def del: of_nat_add)
  then have "(word_of_nat (i + INSTANCES) :: 32 word) \<noteq> WAIT_TIMEOUT"
    and "(word_of_nat (i + INSTANCES) :: 32 word) \<noteq> WAIT_FAILED"
    using assms(1) by (auto simp: INSTANCES_def WAIT_TIMEOUT_def WAIT_FAILED_def
        simp del: of_nat_add dest: arg_cong [where f = unat])
  with w assms show ?thesis
    by (simp add: dispatch_def dispatch_write_def disconnect_and_reconnect_def INSTANCES_def
        del: of_nat_add)
qed

theorem write_failure_out_of_bounds_witness:
  "dispatch unary_lib sample_env (\<lambda>_. []) (of_nat (2 + INSTANCES)) False
     (new_pipe_server\<lparr> write_pending := [False, False, True, False] \<rparr>) = Inl UndefinedBehaviour"
  by (rule write_failure_out_of_bounds) (simp_all add: INSTANCES_def)


lemma dispatch_keeps_stop: "dispatch l e pt dw g s = Inr (c, s') \<Longrightarrow> stop_loop s \<Longrightarrow> stop_loop s'"
  by (auto simp: dispatch_def dispatch_read_def dispatch_write_def take_message_def
      disconnect_and_reconnect_def rbind_Inr_iff Let_def split: if_splits option.splits)

lemma write_phase_inv:
  "write_phase io (\<lambda>_ s. s) s = Inr s' \<Longrightarrow> pipe_inv s \<Longrightarrow> pipe_inv s'"
  unfolding write_phase_def
  by (rule fold_r_invariant) (auto simp: rbind_Inr_iff elim: pipe_inv_write_one)

lemma read_phase_inv: "read_phase io s = Inr s' \<Longrightarrow> pipe_inv s \<Longrightarrow> pipe_inv s'"
  unfolding read_phase_def by (rule fold_r_invariant) (auto simp: pipe_inv_read_one)

lemma read_phase_stop: "read_phase io s = Inr s' \<Longrightarrow> stop_loop s' = stop_loop s"
  unfolding read_phase_def
  by (rule fold_r_invariant [where I = "\<lambda>t. stop_loop t = stop_loop s"])
    (auto simp: read_one_def Let_def split: if_splits io_start.splits)

lemma write_one_stop: "write_one io (\<lambda>s. s) i s = Inr (w, s') \<Longrightarrow> stop_loop s' = stop_loop s"
  by (auto simp: write_one_def write_check_def write_take_def write_file_def
      disconnect_and_reconnect_def rbind_Inr_iff split: if_splits io_start.splits list.splits)

lemma write_phase_stop: "write_phase io (\<lambda>_ s. s) s = Inr s' \<Longrightarrow> stop_loop s' = stop_loop s"
  unfolding write_phase_def
  by (rule fold_r_invariant [where I = "\<lambda>t. stop_loop t = stop_loop s"])
    (auto simp: rbind_Inr_iff dest: write_one_stop)

text \<open>A message that another thread sends while the loop waits, followed by \<open>stop()\<close>, in a pass
  that no other thread disturbs otherwise, is never written: the loop returns in that very pass with the message still the last element of the
  write queue, although \<open>stop\<close> sleeps five seconds for the loop to process the final message.\<close>

theorem stop_message_lost:
  assumes "listen_loop (p # ps) s = Inr r" and "pipe_inv s" and "i < INSTANCES"
    and "\<not> stop_loop s" and "pe_between p = (\<lambda>_ s. s)" and "pe_meanwhile p = (\<lambda>s. server_stop (push_write i b s))"
  shows "\<exists>s'. r = LoopReturned s' \<and> write_queue s' ! i \<noteq> [] \<and> last (write_queue s' ! i) = b"
proof -
  obtain c s3 where pass: "loop_pass p s = Inr (c, s3)"
    using assms(1) by (auto simp: rbind_Inr_iff)
  then obtain s1 where rp: "read_phase (pe_read p) s = Inr s1"
    using assms(4) by (auto simp: loop_pass_def rbind_Inr_iff)
  with pass obtain s2 where wp: "write_phase (pe_write p) (\<lambda>_ s. s) s1 = Inr s2"
    using assms(4,5) by (auto simp: loop_pass_def rbind_Inr_iff)
  have "\<not> stop_loop s2"
    using read_phase_stop [OF rp] write_phase_stop [OF wp] assms(4) by simp
  with pass rp wp obtain d where
    dp: "dispatch (pe_lib p) (pe_msg p) (pe_put_time p) (pe_wait p) (pe_gor p)
        (server_stop (push_write i b s2)) = Inr (d, s3)"
    and c: "c = (if stop_loop s3 then LoopReturn else d)"
    using assms(4-6) by (auto simp: loop_pass_def rbind_Inr_iff split: prod.splits)
  have "pipe_inv s2" using read_phase_inv [OF rp assms(2)] write_phase_inv [OF wp] by blast
  then have "write_queue s3 ! i = write_queue s2 ! i @ [b]"
    using dispatch_queue [OF dp] assms(3) by (simp add: server_stop_def push_write_def pipe_inv_def)
  moreover have "stop_loop s3"
    using dispatch_keeps_stop [OF dp] by (simp add: server_stop_def)
  ultimately show ?thesis using assms(1) pass c by (intro exI [of _ s3]) auto
qed

definition idle_pass :: "(pipe_server \<Rightarrow> pipe_server) \<Rightarrow> mp_obj pass_env" where
  "idle_pass f = \<lparr> pe_lib = unary_lib, pe_msg = sample_env, pe_put_time = (\<lambda>_. []),
     pe_read = (\<lambda>_. IoPending), pe_write = (\<lambda>_. IoPending), pe_between = (\<lambda>_ s. s), pe_meanwhile = f,
     pe_wait = WAIT_TIMEOUT, pe_gor = True \<rparr>"

theorem stop_message_lost_witness:
  "\<exists>r s'. listen_loop [idle_pass (\<lambda>s. server_stop (push_write 0 [7] s))] new_pipe_server = Inr r
     \<and> r = LoopReturned s' \<and> write_queue s' ! 0 \<noteq> [] \<and> last (write_queue s' ! 0) = [7]"
proof -
  have "\<exists>r. listen_loop [idle_pass (\<lambda>s. server_stop (push_write 0 [7] s))] new_pipe_server = Inr r"
    by (simp add: loop_pass_def idle_pass_def new_pipe_server_def read_phase_def write_phase_def
        read_one_def write_one_def write_check_def write_take_def dispatch_def server_stop_def
        push_write_def Let_def
        INSTANCES_def upt_rec)
  then obtain r where r:
    "listen_loop [idle_pass (\<lambda>s. server_stop (push_write 0 [7] s))] new_pipe_server = Inr r" ..
  then show ?thesis
    using stop_message_lost [OF r pipe_inv_new, of 0 "[7]"]
    by (simp add: INSTANCES_def idle_pass_def new_pipe_server_def)
qed

text \<open>All pipe instances read into one buffer: when the reads of two pipes both complete before
  the first is dispatched, and the messages are equally long, both pipes receive the message of
  the second one and the first message is gone.\<close>

theorem shared_buffer_overwrites:
  assumes "pipe_inv s" and "i < INSTANCES" and "j < INSTANCES" and "i \<noteq> j"
    and "read_pending s ! i" and "read_pending s ! j"
    and "length bi = length bj" and "bj \<noteq> []"
    and "\<And>junk. process_input l e (bj @ junk) (length bj) = Inr (Some mj)" and "class_ok mj"
  shows "\<exists>s1 s2. dispatch_read l e pt i True (kernel_read j bj (kernel_read i bi s)) = Inr s1 \<and>
    dispatch_read l e pt j True s1 = Inr s2 \<and>
    read_queue s2 ! i = read_queue s ! i @ [mj] \<and> read_queue s2 ! j = read_queue s ! j @ [mj]"
  using assms
  by (simp add: dispatch_read_def take_message_def kernel_read_def pipe_inv_def Let_def
      nth_list_update)

lemma sample_bytes_read:
  "process_input unary_lib e (sample_bytes a b @ junk) (length (sample_bytes a b))
    = Inr (Some (sample_start a b))"
proof -
  have "msgpack_base_law unary_lib (base_of (sample_start a b))"
    by (rule unary_lib_base_law) (simp add: sample_start_def proper_type_def type_of_code_def)
  from process_input_packed_base [OF this, of e junk] show ?thesis
    by (simp add: sample_bytes_def sample_start_def type_of_code_def)
qed

theorem shared_buffer_overwrites_witness:
  "\<exists>s s1 s2. dispatch_read unary_lib sample_env (\<lambda>_. []) 0 True
      (kernel_read 1 (sample_bytes 2 1) (kernel_read 0 (sample_bytes 1 2) s)) = Inr s1 \<and>
    dispatch_read unary_lib sample_env (\<lambda>_. []) 1 True s1 = Inr s2 \<and>
    read_queue s2 ! 0 = [sample_start 2 1] \<and> read_queue s2 ! 1 = [sample_start 2 1]"
proof -
  let ?s = "new_pipe_server\<lparr> read_pending := [True, True, False, False] \<rparr>"
  have len: "length (sample_bytes 1 2) = length (sample_bytes 2 1)" "sample_bytes 2 1 \<noteq> []"
    by (simp_all add: sample_bytes_def sample_start_def unary_lib_def base_nats_def)
  have "pipe_inv ?s"
    using pipe_inv_new by (simp add: pipe_inv_def INSTANCES_def)
  from shared_buffer_overwrites [OF this, of 0 1 "sample_bytes 1 2" "sample_bytes 2 1" unary_lib
      sample_env "sample_start 2 1" "\<lambda>_. []"] len
  have "\<exists>s1 s2. dispatch_read unary_lib sample_env (\<lambda>_. []) 0 True
      (kernel_read 1 (sample_bytes 2 1) (kernel_read 0 (sample_bytes 1 2) ?s)) = Inr s1 \<and>
    dispatch_read unary_lib sample_env (\<lambda>_. []) 1 True s1 = Inr s2 \<and>
    read_queue s2 ! 0 = read_queue ?s ! 0 @ [sample_start 2 1] \<and>
    read_queue s2 ! 1 = read_queue ?s ! 1 @ [sample_start 2 1]"
    by (simp add: INSTANCES_def sample_bytes_read)
  moreover have "read_queue ?s ! 0 = []" "read_queue ?s ! 1 = []"
    by (simp_all add: new_pipe_server_def INSTANCES_def)
  ultimately show ?thesis by fastforce
qed

end
