(* ===== verification/ControlClient.thy ===== *)
theory ControlClient imports EpInterfaces ControlMessage ControlServer "HOL-Library.Multiset" begin

text \<open>
  The worker's end of the control pipe: class \<open>process_cntrl_client_win\<close> with its listening
  thread, the handlers it posts to the thread pool, and the message actions of
  \<open>easyprospect-process-message-actions.h\<close>. The record \<open>cntrl_client\<close> holds the members of the
  class and the locals of \<open>listen_loop\<close>; \<open>cc_posted\<close> counts the handlers posted and not yet run,
  \<open>cc_shutdowns\<close> the calls of \<open>app_shutdown_func\<close>.
\<close>

record cntrl_client =
  cc_read_pipe :: bool
  cc_write_pipe :: bool
  cc_initialized :: bool
  cc_read_pending :: bool
  cc_write_pending :: bool
  cc_stop :: bool
  cc_buffer :: "byte list"
  cc_write_queue :: "byte list list"
  cc_read_queue :: "process_message list"
  cc_posted :: nat
  cc_shutdowns :: nat

definition new_client :: cntrl_client where
  "new_client = \<lparr> cc_read_pipe = True, cc_write_pipe = True, cc_initialized = False,
     cc_read_pending = False, cc_write_pending = False, cc_stop = False,
     cc_buffer = replicate 50000 0, cc_write_queue = [], cc_read_queue = [],
     cc_posted = 0, cc_shutdowns = 0 \<rparr>"

section \<open>Opening the pipe\<close>

datatype open_error = FileNotFound | PipeBusy | OpenSuccessCode | OpenOther

text \<open>One turn of the connect loop: the handle was valid, or the error code, the result of
  \<open>SetNamedPipeHandleState\<close> on the invalid handle and of \<open>WaitNamedPipe\<close>.\<close>

datatype open_attempt = Opened | NotOpened open_error bool bool

fun connect_loop :: "open_attempt list \<Rightarrow> bool result" where
  "connect_loop [] = Inr False"
| "connect_loop (Opened # as) = Inr True"
| "connect_loop (NotOpened err mode_ok wait_ok # as) =
    (case err of
       FileNotFound \<Rightarrow> Inl (LogicError ''Pipe not found error'')
     | OpenOther \<Rightarrow> Inl (LogicError ''Pipe error'')
     | _ \<Rightarrow>
        if \<not> mode_ok then Inl (LogicError ''Client pipe error'')
        else if \<not> wait_ok then Inl (LogicError ''Client pipe open timeout'')
        else connect_loop as)"

definition client_connect ::
  "open_attempt list \<Rightarrow> bool \<Rightarrow> cntrl_client \<Rightarrow> cntrl_client result" where
  "client_connect as mode_ok c =
    rbind (connect_loop as) (\<lambda>opened.
      if \<not> opened then Inr c
      else if \<not> mode_ok then Inl (LogicError ''SetNamedPipeHandleState failed'')
      else Inr (c\<lparr> cc_initialized := True \<rparr>))"

section \<open>The phases of a pass\<close>

definition client_read :: "io_start \<Rightarrow> cntrl_client \<Rightarrow> cntrl_client result" where
  "client_read io c =
    (if cc_read_pipe c then
       (case io of IoError \<Rightarrow> Inl (LogicError ''ReadFile() error'')
        | _ \<Rightarrow> Inr (c\<lparr> cc_read_pending := True, cc_read_pipe := False \<rparr>))
     else Inr c)"

text \<open>The write phase, when \<open>write_pipe\<close> is set: the test of the queue is inside \<open>write_mutex\<close>; then, with
  the mutex released, the flag is read again and the front is moved out and popped, without a
  second test of the queue. A failed \<open>WriteFile\<close> is logged and leaves \<open>write_pending\<close> set; the message
  has left the queue.\<close>

definition client_write_check :: "cntrl_client \<Rightarrow> cntrl_client" where
  "client_write_check c = c\<lparr> cc_write_pipe := cc_write_queue c \<noteq> [],
     cc_write_pending := cc_write_queue c \<noteq> [] \<rparr>"

definition client_write_take :: "cntrl_client \<Rightarrow> (byte list \<times> cntrl_client) result" where
  "client_write_take c =
    (case cc_write_queue c of
       [] \<Rightarrow> Inl UndefinedBehaviour
     | b # q \<Rightarrow> Inr (b, c\<lparr> cc_write_queue := q \<rparr>))"

definition client_write_file :: "io_start \<Rightarrow> byte list \<Rightarrow> cntrl_client \<Rightarrow> write_outcome \<times> cntrl_client" where
  "client_write_file io b c =
    (case io of
       IoDone \<Rightarrow> (Wrote b, c\<lparr> cc_write_pending := False \<rparr>)
     | IoPending \<Rightarrow> (Wrote b, c\<lparr> cc_write_pending := True \<rparr>)
     | IoError \<Rightarrow> (LostWrite b, c))"

text \<open>The phase when no other thread comes in between.\<close>

definition client_write :: "io_start \<Rightarrow> cntrl_client \<Rightarrow> (write_outcome \<times> cntrl_client) result" where
  "client_write io c =
    (if cc_write_pipe c then
       (let c1 = client_write_check c in
        if cc_write_pipe c1
        then rbind (client_write_take c1) (\<lambda>(b, c2). Inr (client_write_file io b c2))
        else Inr (NoWrite, c1))
     else Inr (NoWrite, c))"

definition client_kernel_read :: "byte list \<Rightarrow> cntrl_client \<Rightarrow> cntrl_client" where
  "client_kernel_read bs c = c\<lparr> cc_buffer := bs @ drop (length bs) (cc_buffer c) \<rparr>"

datatype gor_outcome = GorOk nat | GorEof | GorIncomplete | GorOther

definition client_take ::
  "'o msgpack_lib \<Rightarrow> msg_env \<Rightarrow> (int \<Rightarrow> string) \<Rightarrow> nat \<Rightarrow> cntrl_client \<Rightarrow> cntrl_client result" where
  "client_take l e pt n c =
    rbind (process_input l e (cc_buffer c) n) (\<lambda>res.
      case res of
        None \<Rightarrow> Inl UndefinedBehaviour
      | Some m \<Rightarrow> rbind (log_message pt m) (\<lambda>_.
          Inr (c\<lparr> cc_read_queue := cc_read_queue c @ [m], cc_posted := cc_posted c + 1 \<rparr>)))"

definition client_event_read ::
  "'o msgpack_lib \<Rightarrow> msg_env \<Rightarrow> (int \<Rightarrow> string) \<Rightarrow> gor_outcome \<Rightarrow> cntrl_client \<Rightarrow> cntrl_client result" where
  "client_event_read l e pt gor c =
    (let c1 = c\<lparr> cc_read_pipe := True \<rparr> in
     if cc_read_pending c1 then
       (let c2 = c1\<lparr> cc_read_pending := False \<rparr> in
        case gor of
          GorOk n \<Rightarrow> if 0 < n then client_take l e pt n c2 else Inr c2
        | GorIncomplete \<Rightarrow> Inr (c2\<lparr> cc_read_pending := True \<rparr>)
        | _ \<Rightarrow> Inr c2)
     else Inr c1)"

definition client_event_write :: "gor_outcome \<Rightarrow> cntrl_client \<Rightarrow> cntrl_client" where
  "client_event_write gor c =
    (let c1 = c\<lparr> cc_write_pipe := True \<rparr> in
     if cc_write_pending c1 then
       (case gor of GorIncomplete \<Rightarrow> c1\<lparr> cc_write_pending := True \<rparr>
        | _ \<Rightarrow> c1\<lparr> cc_write_pending := False \<rparr>)
     else c1)"

definition client_dispatch ::
  "'o msgpack_lib \<Rightarrow> msg_env \<Rightarrow> (int \<Rightarrow> string) \<Rightarrow> 32 word \<Rightarrow> gor_outcome \<Rightarrow> cntrl_client
    \<Rightarrow> cntrl_client result" where
  "client_dispatch l e pt dwWait gor c =
    (if dwWait = WAIT_TIMEOUT then Inr c
     else if dwWait = WAIT_FAILED then Inr (c\<lparr> cc_stop := True \<rparr>)
     else if dwWait = 0 then client_event_read l e pt gor c
     else if dwWait = 1 then Inr (client_event_write gor c)
     else Inr c)"

section \<open>Actions\<close>

text \<open>\<open>do_action\<close> on a vector of messages. The result vector is empty in every branch; the number
  is how often \<open>shutdown_func\<close> was called.\<close>

fun do_action_log :: "(int \<Rightarrow> string) \<Rightarrow> process_message list \<Rightarrow> unit result" where
  "do_action_log pt [] = Inr ()"
| "do_action_log pt (m # ms) = rbind (log_message pt m) (\<lambda>_. do_action_log pt ms)"

fun do_action_stop :: "(int \<Rightarrow> string) \<Rightarrow> process_message list \<Rightarrow> nat result" where
  "do_action_stop pt [] = Inr 0"
| "do_action_stop pt (m # ms) =
    rbind (log_message pt m) (\<lambda>_. rbind (do_action_stop pt ms) (\<lambda>n. Inr (Suc n)))"

definition do_action :: "(int \<Rightarrow> string) \<Rightarrow> process_message list \<Rightarrow> nat result" where
  "do_action pt ms =
    (case ms of
       [] \<Rightarrow> Inl UndefinedBehaviour
     | m # _ \<Rightarrow>
        (case msg_type m of
           NONE \<Rightarrow> Inr 0
         | BASE \<Rightarrow> Inr 0
         | START \<Rightarrow> rbind (do_action_log pt ms) (\<lambda>_. Inr 0)
         | PING \<Rightarrow> Inr 0
         | PONG \<Rightarrow> Inr 0
         | CMD_STOP \<Rightarrow> do_action_stop pt ms
         | CMD_RESULT \<Rightarrow> rbind (do_action_log pt ms) (\<lambda>_. Inr 0)
         | OtherType _ \<Rightarrow> Inl (RuntimeError ''do_action: invalid msg type'')))"

text \<open>A posted handler: it takes the front of the read queue inside \<open>read_mutex\<close>, and acts on it with
  the mutex released.\<close>

definition client_take_posted :: "cntrl_client \<Rightarrow> (process_message \<times> cntrl_client) result" where
  "client_take_posted c =
    (case cc_read_queue c of
       [] \<Rightarrow> Inl UndefinedBehaviour
     | m # q \<Rightarrow> Inr (m, c\<lparr> cc_read_queue := q, cc_posted := cc_posted c - 1 \<rparr>))"

definition client_act ::
  "(int \<Rightarrow> string) \<Rightarrow> process_message \<Rightarrow> cntrl_client \<Rightarrow> cntrl_client result" where
  "client_act pt m c =
    rbind (do_action pt [m]) (\<lambda>n. Inr (c\<lparr> cc_shutdowns := cc_shutdowns c + n \<rparr>))"

definition client_run_posted ::
  "(int \<Rightarrow> string) \<Rightarrow> cntrl_client \<Rightarrow> (process_message \<times> cntrl_client) result" where
  "client_run_posted pt c =
    rbind (client_take_posted c) (\<lambda>(m, c1). rbind (client_act pt m c1) (\<lambda>c2. Inr (m, c2)))"

section \<open>Sending\<close>

definition client_is_running :: "32 word \<Rightarrow> cntrl_client \<Rightarrow> bool" where
  "client_is_running wait_res c = (cc_initialized c \<and> wait_res = WAIT_TIMEOUT)"

definition client_push :: "byte list \<Rightarrow> cntrl_client \<Rightarrow> cntrl_client" where
  "client_push b c = c\<lparr> cc_write_pipe := True, cc_write_queue := cc_write_queue c @ [b] \<rparr>"

definition client_send ::
  "'o msgpack_lib \<Rightarrow> (int \<Rightarrow> string) \<Rightarrow> 32 word \<Rightarrow> process_message \<Rightarrow> cntrl_client
    \<Rightarrow> cntrl_client result" where
  "client_send l pt wait_res m c =
    (if \<not> client_is_running wait_res c then Inl (LogicError ''Control thread not running.'')
     else rbind (log_message pt m) (\<lambda>_. rbind (pack l m) (\<lambda>b. Inr (client_push b c))))"

lemmas [pipe_defs] = client_read_def client_write_check_def client_write_take_def
  client_write_file_def client_write_def client_kernel_read_def client_take_def
  client_event_read_def client_event_write_def client_dispatch_def client_take_posted_def
  client_act_def client_run_posted_def client_push_def client_send_def

section \<open>Every interleaving of the thread, the posted handlers and the senders\<close>

text \<open>
  As for the controller's end, a locked block is one step and what is done outside a mutex is a
  step of its own: the listening thread opens the pipe, tests the write queue, goes to it without the mutex and
  has a message in its hand; a sender is inside its locked block; the handlers that run on the
  pool have each taken a message and not yet acted on it (\<open>kt_acting\<close>), and act in any order. The push of
  a received message and the post of its handler are one step: until the handler is posted the
  message is only seen by handlers posted before, which take older ones. \<open>kt_raced\<close> as \<open>pt_raced\<close>.
\<close>

datatype client_at = COpening | CRest | CChecked | CTaking | CWriting "byte list"

record client_threads =
  kt_client :: cntrl_client
  kt_loop :: client_at
  kt_sending :: "byte list option"
  kt_acting :: "process_message list"
  kt_raced :: bool

definition new_client_threads :: client_threads where
  "new_client_threads = \<lparr> kt_client = new_client, kt_loop = COpening, kt_sending = None,
     kt_acting = [], kt_raced = False \<rparr>"

text \<open>What a signalled event delivers: the message read from the buffer, when the read event of a
  pending read reports a positive count.\<close>

definition arrived ::
  "'o msgpack_lib \<Rightarrow> msg_env \<Rightarrow> 32 word \<Rightarrow> gor_outcome \<Rightarrow> cntrl_client \<Rightarrow> process_message option" where
  "arrived l e dw gor c =
    (if dw = 0 \<and> cc_read_pending c then
       (case gor of
          GorOk n \<Rightarrow> if 0 < n then (case process_input l e (cc_buffer c) n of
              Inr (Some m) \<Rightarrow> Some m | _ \<Rightarrow> None) else None
        | _ \<Rightarrow> None)
     else None)"

datatype client_event =
    CReceived process_message
  | CTaken process_message
  | CActed process_message
  | CWrote "byte list"
  | CSent "byte list"
  | CInternal

inductive client_step ::
  "'o msgpack_lib \<Rightarrow> (int \<Rightarrow> string) \<Rightarrow> client_threads \<Rightarrow> client_event \<Rightarrow> client_threads \<Rightarrow> bool"
  for l :: "'o msgpack_lib" and pt :: "int \<Rightarrow> string" where
  cstep_open: "\<not> kt_raced k \<Longrightarrow> kt_loop k = COpening \<Longrightarrow>
    client_connect as mode_ok (kt_client k) = Inr c' \<Longrightarrow> cc_initialized c' \<Longrightarrow>
    client_step l pt k CInternal (k\<lparr> kt_client := c', kt_loop := CRest \<rparr>)"
| cstep_read: "\<not> kt_raced k \<Longrightarrow> kt_loop k = CRest \<Longrightarrow> client_read io (kt_client k) = Inr c' \<Longrightarrow>
    client_step l pt k CInternal (k\<lparr> kt_client := c' \<rparr>)"
| cstep_kernel: "\<not> kt_raced k \<Longrightarrow> cc_read_pending (kt_client k) \<Longrightarrow>
    client_step l pt k CInternal (k\<lparr> kt_client := client_kernel_read bs (kt_client k) \<rparr>)"
| cstep_check: "\<not> kt_raced k \<Longrightarrow> kt_loop k = CRest \<Longrightarrow> kt_sending k = None \<Longrightarrow>
    cc_write_pipe (kt_client k) \<Longrightarrow>
    client_step l pt k CInternal (k\<lparr> kt_client := client_write_check (kt_client k), kt_loop := CChecked \<rparr>)"
| cstep_skip: "\<not> kt_raced k \<Longrightarrow> kt_loop k = CChecked \<Longrightarrow> \<not> cc_write_pipe (kt_client k) \<Longrightarrow>
    client_step l pt k CInternal (k\<lparr> kt_loop := CRest \<rparr>)"
| cstep_take: "\<not> kt_raced k \<Longrightarrow> kt_loop k = CChecked \<Longrightarrow>
    cc_write_pipe (kt_client k) \<or> kt_sending k \<noteq> None \<Longrightarrow>
    client_step l pt k CInternal (k\<lparr> kt_loop := CTaking, kt_raced := kt_sending k \<noteq> None \<rparr>)"
| cstep_taken: "\<not> kt_raced k \<Longrightarrow> kt_loop k = CTaking \<Longrightarrow> client_write_take (kt_client k) = Inr (b, c') \<Longrightarrow>
    client_step l pt k CInternal (k\<lparr> kt_client := c', kt_loop := CWriting b \<rparr>)"
| cstep_write: "\<not> kt_raced k \<Longrightarrow> kt_loop k = CWriting b \<Longrightarrow>
    client_write_file io b (kt_client k) = (w, c') \<Longrightarrow>
    client_step l pt k (CWrote b) (k\<lparr> kt_client := c', kt_loop := CRest \<rparr>)"
| cstep_dispatch: "\<not> kt_raced k \<Longrightarrow> kt_loop k = CRest \<Longrightarrow>
    client_dispatch l e pt dw g (kt_client k) = Inr c' \<Longrightarrow>
    client_step l pt k (case arrived l e dw g (kt_client k) of None \<Rightarrow> CInternal | Some m \<Rightarrow> CReceived m)
      (k\<lparr> kt_client := c' \<rparr>)"
| cstep_posted: "\<not> kt_raced k \<Longrightarrow> 0 < cc_posted (kt_client k) \<Longrightarrow>
    client_take_posted (kt_client k) = Inr (m, c') \<Longrightarrow>
    client_step l pt k (CTaken m) (k\<lparr> kt_client := c', kt_acting := kt_acting k @ [m] \<rparr>)"
| cstep_acted: "\<not> kt_raced k \<Longrightarrow> m \<in> set (kt_acting k) \<Longrightarrow> client_act pt m (kt_client k) = Inr c' \<Longrightarrow>
    client_step l pt k (CActed m) (k\<lparr> kt_client := c', kt_acting := remove1 m (kt_acting k) \<rparr>)"
| cstep_lock: "\<not> kt_raced k \<Longrightarrow> kt_sending k = None \<Longrightarrow> client_is_running wr (kt_client k) \<Longrightarrow>
    log_message pt m = Inr u \<Longrightarrow> pack l m = Inr b \<Longrightarrow>
    client_step l pt k CInternal (k\<lparr> kt_sending := Some b, kt_raced := (kt_loop k = CTaking) \<rparr>)"
| cstep_send: "\<not> kt_raced k \<Longrightarrow> kt_sending k = Some b \<Longrightarrow>
    client_step l pt k (CSent b) (k\<lparr> kt_client := client_push b (kt_client k), kt_sending := None \<rparr>)"

inductive_cases client_stepE: "client_step l pt k e k'"


section \<open>Facts\<close>

text \<open>The handler's locked block is entered exactly when \<open>client_send\<close> gets to its push.\<close>

lemma client_send_push:
  "client_send l pt wr m c = Inr c' \<longleftrightarrow> client_is_running wr c \<and>
     (\<exists>u b. log_message pt m = Inr u \<and> pack l m = Inr b \<and> c' = client_push b c)"
  by (auto simp: client_send_def rbind_Inr_iff split: if_splits)

lemma client_dispatch_frame:
  assumes "client_dispatch l e pt dw g c = Inr c'"
  shows "cc_write_queue c' = cc_write_queue c" and "cc_shutdowns c' = cc_shutdowns c"
    and "cc_write_pipe c \<Longrightarrow> cc_write_pipe c'"
  using assms
  by (auto simp: client_dispatch_def client_event_read_def client_event_write_def client_take_def
      Let_def rbind_Inr_iff split: if_splits gor_outcome.splits option.splits)

lemma client_dispatch_arrived:
  assumes "client_dispatch l e pt dw g c = Inr c'"
  shows "cc_read_queue c' = cc_read_queue c @ (case arrived l e dw g c of None \<Rightarrow> [] | Some m \<Rightarrow> [m]) \<and>
    cc_posted c' = cc_posted c + (case arrived l e dw g c of None \<Rightarrow> 0 | Some m \<Rightarrow> 1)"
  using assms
  by (auto simp: arrived_def client_dispatch_def client_event_read_def client_event_write_def
      client_take_def Let_def rbind_Inr_iff WAIT_TIMEOUT_def WAIT_FAILED_def
      split: if_splits gor_outcome.splits option.splits)

lemma client_write_file_frame:
  "client_write_file io b c = (w, c') \<Longrightarrow> cc_read_queue c' = cc_read_queue c \<and>
     cc_posted c' = cc_posted c \<and> cc_shutdowns c' = cc_shutdowns c \<and>
     cc_write_queue c' = cc_write_queue c \<and> cc_write_pipe c' = cc_write_pipe c"
  by (auto simp: client_write_file_def split: io_start.splits)

lemma client_write_take_frame:
  "client_write_take c = Inr (b, c') \<Longrightarrow> cc_write_queue c = b # cc_write_queue c' \<and>
     cc_read_queue c' = cc_read_queue c \<and> cc_posted c' = cc_posted c \<and>
     cc_shutdowns c' = cc_shutdowns c \<and> cc_write_pipe c' = cc_write_pipe c"
  by (auto simp: client_write_take_def split: list.splits)

lemma client_read_frame:
  "client_read io c = Inr c' \<Longrightarrow> cc_read_queue c' = cc_read_queue c \<and>
     cc_posted c' = cc_posted c \<and> cc_shutdowns c' = cc_shutdowns c \<and>
     cc_write_queue c' = cc_write_queue c \<and> cc_write_pipe c' = cc_write_pipe c"
  by (auto simp: client_read_def split: if_splits io_start.splits)

lemma client_connect_frame:
  "client_connect as ok c = Inr c' \<Longrightarrow> cc_read_queue c' = cc_read_queue c \<and>
     cc_posted c' = cc_posted c \<and> cc_shutdowns c' = cc_shutdowns c \<and>
     cc_write_queue c' = cc_write_queue c \<and> cc_write_pipe c' = cc_write_pipe c"
  by (auto simp: client_connect_def rbind_Inr_iff split: if_splits)

lemma client_take_posted_frame:
  "client_take_posted c = Inr (m, c') \<Longrightarrow> cc_read_queue c = m # cc_read_queue c' \<and>
     cc_posted c' = cc_posted c - 1 \<and> cc_shutdowns c' = cc_shutdowns c \<and>
     cc_write_queue c' = cc_write_queue c \<and> cc_write_pipe c' = cc_write_pipe c"
  by (auto simp: client_take_posted_def split: list.splits)

lemma do_action_single:
  "do_action pt [m] = Inr n \<Longrightarrow> n = (if msg_type m = CMD_STOP then 1 else 0)"
  by (auto simp: do_action_def rbind_Inr_iff split: process_message_type.splits)

definition is_stop :: "process_message \<Rightarrow> bool" where
  "is_stop m = (msg_type m = CMD_STOP)"

lemma client_act_frame:
  "client_act pt m c = Inr c' \<Longrightarrow> cc_read_queue c' = cc_read_queue c \<and> cc_posted c' = cc_posted c \<and>
     cc_shutdowns c' = cc_shutdowns c + (if is_stop m then 1 else 0) \<and>
     cc_write_queue c' = cc_write_queue c \<and> cc_write_pipe c' = cc_write_pipe c"
  by (auto simp: client_act_def rbind_Inr_iff is_stop_def dest!: do_action_single)

lemmas client_frames = client_connect_frame client_read_frame client_write_take_frame client_write_file_frame
  client_take_posted_frame client_act_frame

fun received :: "client_event \<Rightarrow> process_message list" where
  "received (CReceived m) = [m]"
| "received _ = []"

fun taken :: "client_event \<Rightarrow> process_message list" where
  "taken (CTaken m) = [m]"
| "taken _ = []"

fun acted :: "client_event \<Rightarrow> process_message list" where
  "acted (CActed m) = [m]"
| "acted _ = []"

definition client_inv :: "client_threads \<Rightarrow> bool" where
  "client_inv k = (cc_posted (kt_client k) = length (cc_read_queue (kt_client k)))"

lemma client_step_facts:
  assumes "client_step l pt k e k'" and "client_inv k"
  shows "client_inv k' \<and>
    cc_read_queue (kt_client k) @ received e = taken e @ cc_read_queue (kt_client k') \<and>
    mset (kt_acting k) + mset (taken e) = mset (acted e) + mset (kt_acting k') \<and>
    cc_shutdowns (kt_client k') = cc_shutdowns (kt_client k) + length (filter is_stop (acted e))"
  using assms(1)
proof cases
  case (cstep_dispatch e' dw g c')
  then show ?thesis
    using client_dispatch_arrived [of l e' pt dw g "kt_client k" c'] assms(2)
      client_dispatch_frame(2) [of l e' pt dw g "kt_client k" c']
    by (auto simp: client_inv_def split: option.splits)
next
  case (cstep_acted m c')
  then show ?thesis using client_act_frame [of pt m "kt_client k" c'] assms(2)
    by (auto simp: client_inv_def)
qed (use assms(2) in \<open>auto simp: client_inv_def client_kernel_read_def client_push_def
      client_write_check_def dest!: client_frames\<close>)

lemma client_run_facts:
  assumes "run (client_step l pt) k es k'" and "client_inv k"
  shows "client_inv k' \<and>
    cc_read_queue (kt_client k) @ concat (map received es)
      = concat (map taken es) @ cc_read_queue (kt_client k') \<and>
    mset (kt_acting k) + mset (concat (map taken es)) = mset (concat (map acted es)) + mset (kt_acting k') \<and>
    cc_shutdowns (kt_client k') = cc_shutdowns (kt_client k) +
      length (filter is_stop (concat (map acted es)))"
  using assms
proof (induction rule: run.induct)
  case (run_cons k e k1 es k2)
  note step = client_step_facts [OF run_cons.hyps(1) run_cons.prems]
  then have "client_inv k1" by blast
  note rest = run_cons.IH [OF this]
  from append_shift [of _ "received e" "taken e"] step rest
  have "cc_read_queue (kt_client k) @ received e @ concat (map received es)
    = taken e @ concat (map taken es) @ cc_read_queue (kt_client k2)" by blast
  moreover have "mset (kt_acting k) + (mset (taken e) + mset (concat (map taken es)))
      = (mset (acted e) + mset (concat (map acted es))) + mset (kt_acting k2)"
    using step rest by (metis add.assoc add.commute)
  ultimately show ?case using step rest by simp
qed simp

lemma client_inv_new: "client_inv new_client_threads" "cc_read_queue (kt_client new_client_threads) = []"
  "cc_shutdowns (kt_client new_client_threads) = 0" "cc_write_queue (kt_client new_client_threads) = []"
  "kt_acting new_client_threads = []"
  by (simp_all add: client_inv_def new_client_def new_client_threads_def)

section \<open>The write queue\<close>

definition client_pop :: "cntrl_client \<Rightarrow> (byte list \<times> cntrl_client) option" where
  "client_pop c = (case client_write IoDone c of Inr (Wrote b, c') \<Rightarrow> Some (b, c') | _ \<Rightarrow> None)"

text \<open>The write queue of the client is drained in order as long as \<open>write_pipe\<close> stays set while
  the queue is not empty, which \<open>send\<close> and the write phase maintain.\<close>

definition client_write_inv :: "cntrl_client \<Rightarrow> bool" where
  "client_write_inv c = (cc_write_queue c \<noteq> [] \<longrightarrow> cc_write_pipe c)"

interpretation cwq: fifo client_write_inv cc_write_queue client_push client_pop
  by unfold_locales
    (auto simp: client_write_inv_def client_push_def client_pop_def client_write_def Let_def
      client_write_check_def client_write_take_def client_write_file_def
      split: if_splits list.splits write_outcome.splits)

definition client_threads_inv :: "client_threads \<Rightarrow> bool" where
  "client_threads_inv k \<longleftrightarrow> client_write_inv (kt_client k) \<and>
     (kt_loop k = CChecked \<longrightarrow> cc_write_pipe (kt_client k) \<longrightarrow> cc_write_queue (kt_client k) \<noteq> []) \<and>
     (kt_loop k = CTaking \<longrightarrow> \<not> kt_raced k \<longrightarrow> cc_write_queue (kt_client k) \<noteq> []) \<and>
     (kt_raced k \<longleftrightarrow> kt_loop k = CTaking \<and> kt_sending k \<noteq> None)"

lemma client_threads_inv_new: "client_threads_inv new_client_threads"
  by (simp add: client_threads_inv_def new_client_threads_def new_client_def client_write_inv_def)

lemma client_threads_inv_step:
  assumes "client_step l pt k e k'" and "client_threads_inv k"
  shows "client_threads_inv k'"
  using assms(1)
proof cases
  case (cstep_dispatch e' dw g c')
  then show ?thesis using client_dispatch_frame [of l e' pt dw g "kt_client k" c'] assms(2)
    by (simp add: client_threads_inv_def client_write_inv_def)
next
  case (cstep_write b io w c')
  then show ?thesis using client_write_file_frame [of io b "kt_client k" w c'] assms(2)
    by (simp add: client_threads_inv_def client_write_inv_def)
next
  case (cstep_taken b c')
  then show ?thesis using client_write_take_frame [of "kt_client k" b c'] assms(2)
    by (simp add: client_threads_inv_def client_write_inv_def)
next
  case (cstep_posted m c')
  then show ?thesis using client_take_posted_frame [of "kt_client k" m c'] assms(2)
    by (simp add: client_threads_inv_def client_write_inv_def)
next
  case (cstep_acted m c')
  then show ?thesis using client_act_frame [of pt m "kt_client k" c'] assms(2)
    by (simp add: client_threads_inv_def client_write_inv_def)
next
  case (cstep_read io c')
  then show ?thesis using client_read_frame [of io "kt_client k" c'] assms(2)
    by (simp add: client_threads_inv_def client_write_inv_def)
next
  case (cstep_open as ok c')
  then show ?thesis using client_connect_frame [of as ok "kt_client k" c'] assms(2)
    by (simp add: client_threads_inv_def client_write_inv_def)
next
  case cstep_take
  then show ?thesis using assms(2)
    by (cases "kt_sending k") (simp_all add: client_threads_inv_def client_write_inv_def)
next
  case cstep_check
  then show ?thesis using assms(2)
    by (simp add: client_threads_inv_def client_write_inv_def client_write_check_def)
next
  case (cstep_send b)
  from cstep_send(3,4) assms(2) have "kt_loop k \<noteq> CTaking"
    by (simp add: client_threads_inv_def)
  with cstep_send(2,3) show ?thesis
    by (simp add: client_threads_inv_def client_write_inv_def client_push_def)
next
  case cstep_kernel
  then show ?thesis using assms(2)
    by (simp add: client_threads_inv_def client_write_inv_def client_kernel_read_def)
next
  case cstep_skip
  then show ?thesis using assms(2) by (simp add: client_threads_inv_def client_write_inv_def)
next
  case cstep_lock
  then show ?thesis using assms(2) by (simp add: client_threads_inv_def client_write_inv_def)
qed

fun client_sent :: "client_event \<Rightarrow> byte list list" where
  "client_sent (CSent b) = [b]"
| "client_sent _ = []"

fun client_wrote :: "client_event \<Rightarrow> byte list list" where
  "client_wrote (CWrote b) = [b]"
| "client_wrote _ = []"

definition client_hand :: "client_threads \<Rightarrow> byte list list" where
  "client_hand k = (case kt_loop k of CWriting b \<Rightarrow> [b] | _ \<Rightarrow> [])"

lemma client_step_queue:
  assumes "client_step l pt k e k'"
  shows "(client_hand k @ cc_write_queue (kt_client k)) @ client_sent e
    = client_wrote e @ client_hand k' @ cc_write_queue (kt_client k')"
  using assms
proof cases
  case (cstep_dispatch e' dw g c')
  then show ?thesis using client_dispatch_frame(1) [of l e' pt dw g "kt_client k" c']
    by (auto simp: client_hand_def split: option.splits)
qed (auto simp: client_hand_def client_kernel_read_def client_push_def client_write_check_def
    dest!: client_frames)

lemma client_run_queue:
  assumes "run (client_step l pt) k es k'"
  shows "(client_hand k @ cc_write_queue (kt_client k)) @ concat (map client_sent es)
    = concat (map client_wrote es) @ client_hand k' @ cc_write_queue (kt_client k')"
  using assms
proof (induction rule: run.induct)
  case (run_cons k e k1 es k2)
  from append_shift [OF client_step_queue [OF run_cons.hyps(1)] run_cons.IH]
  show ?case by simp
qed simp

section \<open>Properties\<close>

text \<open>C6: In every interleaving of the listening thread, the handlers on the thread pool and the senders,
  there is one posted handler for each message in the read queue, so no handler finds it empty,
  and the messages taken by handlers followed by those still queued are exactly the messages that
  the dispatched reads decoded from the buffer, in the order of the reads. Of the messages taken, each
  is acted on once or is still in its handler's hand; in which order they are acted on is left to
  the pool.\<close>

theorem client_handles_in_order:
  assumes "run (client_step l pt) new_client_threads es k"
  shows "cc_posted (kt_client k) = length (cc_read_queue (kt_client k)) \<and>
    concat (map received es) = concat (map taken es) @ cc_read_queue (kt_client k) \<and>
    mset (concat (map taken es)) = mset (concat (map acted es)) + mset (kt_acting k)"
  using client_run_facts [OF assms client_inv_new(1)] client_inv_new
  by (simp add: client_inv_def)

text \<open>What the worker sends to its controller: along every interleaving, the messages sent are exactly those
  passed to \<open>WriteFile\<close>, then the one in the listening thread's hand, then those queued, in order. The
  thread takes the front without a second test and without the mutex; while there is no race the
  queue is not empty then, and the race is there exactly while a sender is in its locked
  block and the thread is at the queue.\<close>

theorem client_write_fifo:
  assumes "run (client_step l pt) new_client_threads es k"
  shows "concat (map client_sent es)
      = concat (map client_wrote es) @ client_hand k @ cc_write_queue (kt_client k) \<and>
    (kt_raced k \<longleftrightarrow> kt_loop k = CTaking \<and> kt_sending k \<noteq> None) \<and>
    (kt_loop k \<noteq> CTaking \<or> kt_raced k \<or> cc_write_queue (kt_client k) \<noteq> [])"
proof -
  have "client_threads_inv k"
    using run_invariant [OF assms, of client_threads_inv] client_threads_inv_new
      client_threads_inv_step by blast
  moreover have "client_hand new_client_threads = []" "cc_write_queue (kt_client new_client_threads) = []"
    by (simp_all add: client_hand_def new_client_threads_def new_client_def)
  ultimately show ?thesis
    using client_run_queue [OF assms] by (auto simp: client_threads_inv_def)
qed

text \<open>\<open>app_shutdown_func\<close> is called once for every CMD_STOP message the posted handlers acted on,
  and for no other reason.\<close>

theorem client_shutdown_count:
  assumes "run (client_step l pt) new_client_threads es k"
  shows "cc_shutdowns (kt_client k) = length (filter is_stop (concat (map acted es)))"
  using client_run_facts [OF assms client_inv_new(1)] client_inv_new by simp

definition sample_stop :: process_message where
  "sample_stop = MsgStop \<lparr> pm_type = CMD_STOP, pm_pid = 1, pm_port = 0, pm_id1 = 1, pm_id2 = 1,
     pm_current_time = 1 \<rparr>"

definition stop_bytes :: "byte list" where
  "stop_bytes = mp_pack_base unary_lib (base_of sample_stop)"

lemma sample_stop_ok [simp]: "class_ok sample_stop" "msg_type sample_stop = CMD_STOP"
  by (simp_all add: sample_stop_def)

lemma stop_bytes_read:
  "process_input unary_lib e (stop_bytes @ junk) (length stop_bytes) = Inr (Some sample_stop)"
proof -
  have "msgpack_base_law unary_lib (base_of sample_stop)"
    by (rule unary_lib_base_law) (simp add: proper_type_def type_of_code_def)
  from process_input_packed_base [OF this, of e junk] show ?thesis
    by (simp add: stop_bytes_def type_of_code_def) (simp add: sample_stop_def)
qed

definition opened_client :: client_threads where
  "opened_client = \<lparr> kt_client = new_client\<lparr> cc_initialized := True \<rparr>, kt_loop = CRest,
     kt_sending = None, kt_acting = [], kt_raced = False \<rparr>"

lemma sample_open: "client_step unary_lib pt new_client_threads CInternal opened_client"
  using cstep_open [of new_client_threads "[Opened]" True "new_client\<lparr> cc_initialized := True \<rparr>"]
  by (simp add: new_client_threads_def opened_client_def client_connect_def)

text \<open>The pipe is opened, the first read is started, its bytes arrive, the event is dispatched, and
  the posted handler takes the message and acts on it.\<close>

lemma sample_client_run:
  "\<exists>k. run (client_step unary_lib (\<lambda>_. [])) new_client_threads
     [CInternal, CInternal, CInternal, CReceived sample_stop, CTaken sample_stop, CActed sample_stop] k"
proof -
  let ?S = "client_step unary_lib (\<lambda>_. [])"
  let ?k = "\<lambda>c ms. opened_client\<lparr> kt_client := c, kt_acting := ms \<rparr>"
  obtain c1 where r: "client_read IoPending (kt_client opened_client) = Inr c1"
    and p: "cc_read_pending c1" "cc_read_queue c1 = []" "cc_posted c1 = 0"
    by (simp add: client_read_def new_client_def opened_client_def)
  let ?c2 = "client_kernel_read stop_bytes c1"
  have ne: "stop_bytes \<noteq> []" by (simp add: stop_bytes_def unary_lib_def)
  obtain c3 where d: "client_dispatch unary_lib sample_env (\<lambda>_. []) 0 (GorOk (length stop_bytes)) ?c2
      = Inr c3" and q: "cc_read_queue c3 = [sample_stop]" "cc_posted c3 = 1"
    using p ne by (simp add: client_dispatch_def client_event_read_def client_take_def Let_def
        client_kernel_read_def stop_bytes_read WAIT_TIMEOUT_def WAIT_FAILED_def)
  have arr: "arrived unary_lib sample_env 0 (GorOk (length stop_bytes)) ?c2 = Some sample_stop"
    using p ne by (simp add: arrived_def client_kernel_read_def stop_bytes_read)
  obtain c4 where h: "client_take_posted c3 = Inr (sample_stop, c4)"
    using q by (simp add: client_take_posted_def)
  obtain c5 where a: "client_act (\<lambda>_. []) sample_stop c4 = Inr c5"
    by (simp add: client_act_def do_action_def)
  have "?S opened_client CInternal (?k c1 [])"
    using cstep_read [OF _ _ r, where pt = "\<lambda>_. []" and l = unary_lib] by (simp add: opened_client_def)
  moreover have "?S (?k c1 []) CInternal (?k ?c2 [])"
    using cstep_kernel [where k = "?k c1 []" and bs = stop_bytes and l = unary_lib and pt = "\<lambda>_. []"] p(1)
    by (simp add: opened_client_def)
  moreover have "?S (?k ?c2 []) (CReceived sample_stop) (?k c3 [])"
    using cstep_dispatch [where k = "?k ?c2 []" and l = unary_lib and e = sample_env and
        pt = "\<lambda>_. []" and dw = 0 and g = "GorOk (length stop_bytes)" and c' = c3] d arr
    by (simp add: opened_client_def)
  moreover have "?S (?k c3 []) (CTaken sample_stop) (?k c4 [sample_stop])"
    using cstep_posted [where k = "?k c3 []" and m = sample_stop and c' = c4 and l = unary_lib and
        pt = "\<lambda>_. []"] h q by (simp add: opened_client_def)
  moreover have "?S (?k c4 [sample_stop]) (CActed sample_stop) (?k c5 [])"
    using cstep_acted [where k = "?k c4 [sample_stop]" and m = sample_stop and c' = c5 and
        l = unary_lib and pt = "\<lambda>_. []"] a by (simp add: opened_client_def)
  ultimately show ?thesis using sample_open [of "\<lambda>_. []"] by blast
qed

theorem client_handles_in_order_witness:
  "\<exists>k :: client_threads. cc_posted (kt_client k) = length (cc_read_queue (kt_client k)) \<and>
    [sample_stop] = [sample_stop] @ cc_read_queue (kt_client k)"
proof -
  obtain k where "run (client_step unary_lib (\<lambda>_. [])) new_client_threads
     [CInternal, CInternal, CInternal, CReceived sample_stop, CTaken sample_stop, CActed sample_stop] k"
    using sample_client_run by blast
  from client_handles_in_order [OF this] show ?thesis by (intro exI [of _ k]) auto
qed

theorem client_write_fifo_witness:
  "\<exists>k. [stop_bytes] = client_hand k @ cc_write_queue (kt_client k) \<and> \<not> kt_raced k"
proof -
  let ?S = "client_step unary_lib (\<lambda>_. [])"
  let ?k = "opened_client\<lparr> kt_sending := Some stop_bytes \<rparr>"
  let ?k2 = "?k\<lparr> kt_client := client_push stop_bytes (kt_client ?k), kt_sending := None \<rparr>"
  have "pack unary_lib sample_stop = Inr stop_bytes"
    by (simp add: pack_def sample_stop_def stop_bytes_def)
  then have "?S opened_client CInternal ?k"
    using cstep_lock [where k = opened_client and wr = WAIT_TIMEOUT and pt = "\<lambda>_. []" and
        m = sample_stop and l = unary_lib and b = stop_bytes and u = "()"]
    by (simp add: opened_client_def client_is_running_def)
  moreover have "?S ?k (CSent stop_bytes) ?k2"
    by (rule cstep_send) (simp_all add: opened_client_def)
  ultimately have "run ?S new_client_threads [CInternal, CInternal, CSent stop_bytes] ?k2"
    using sample_open [of "\<lambda>_. []"] by blast
  from client_write_fifo [OF this] show ?thesis
    by (intro exI [of _ ?k2]) (simp add: opened_client_def)
qed

theorem client_shutdown_count_witness: "\<exists>k :: client_threads. cc_shutdowns (kt_client k) = 1"
proof -
  obtain k where "run (client_step unary_lib (\<lambda>_. [])) new_client_threads
     [CInternal, CInternal, CInternal, CReceived sample_stop, CTaken sample_stop, CActed sample_stop] k"
    using sample_client_run by blast
  from client_shutdown_count [OF this] show ?thesis
    by (intro exI [of _ k]) (simp add: is_stop_def)
qed

end
