(* ===== verification/WorkerControl.thy ===== *)
theory WorkerControl imports ControlServer begin

text \<open>
  The worker controller: \<open>make_server\<close> of \<open>epworkercntl/make-server.cpp\<close>, the registry of worker
  clients (\<open>easyprospect-registry.h\<close>) and the wrapper classes \<open>process\<close> and \<open>process_control\<close>,
  which forward to the Windows classes. One turn of the supervising loop is \<open>controller_pass\<close>;
  what the loop asks the system (is the process running, is the control thread running) is an
  argument.
\<close>

section \<open>Registry\<close>

record worker_client_state =
  wc_port :: "int list"
  wc_pid :: "int list"

definition new_worker_client :: worker_client_state where
  "new_worker_client = \<lparr> wc_port = [], wc_pid = [] \<rparr>"

record registry =
  reg_port :: "int list"
  reg_pid :: "int list"
  reg_clients :: "worker_client_state list"

definition new_registry :: registry where
  "new_registry = \<lparr> reg_port = [], reg_pid = [], reg_clients = [] \<rparr>"

definition add_client :: "registry \<Rightarrow> registry" where
  "add_client r = r\<lparr> reg_clients := reg_clients r @ [new_worker_client] \<rparr>"

text \<open>The two \<open>push_back\<close> calls on \<open>get_worker_clients()[i]\<close>.\<close>

definition register_start :: "nat \<Rightarrow> process_message_base \<Rightarrow> registry \<Rightarrow> registry result" where
  "register_start i s r = rbind (vec_index (reg_clients r) i) (\<lambda>wc.
     Inr (r\<lparr> reg_clients := (reg_clients r)[i :=
       wc\<lparr> wc_pid := wc_pid wc @ [sint (pm_pid s)], wc_port := wc_port wc @ [sint (pm_port s)] \<rparr>] \<rparr>))"

section \<open>Command line\<close>

record wcntl_command =
  wm_exe :: "string option"
  wm_args :: string
  wm_conf :: "string option"
  wm_args_file :: "string option"

definition worker_command_args :: "wcntl_command \<Rightarrow> string" where
  "worker_command_args w =
    (if wm_args w \<noteq> [] then '' '' @ wm_args w
     else case wm_conf w of
       Some f \<Rightarrow> '' --conf '' @ f
     | None \<Rightarrow> (case wm_args_file w of Some f \<Rightarrow> '' --arg-file '' @ f | None \<Rightarrow> []))"

definition worker_command_line :: "wcntl_command \<Rightarrow> (string \<times> string \<times> string) result" where
  "worker_command_line w = (case wm_exe w of
     None \<Rightarrow> Inl (LogicError ''Missing worker command.'')
   | Some cmd \<Rightarrow> Inr (cmd, cmd @ '' '' @ worker_command_args w, worker_command_args w))"

section \<open>The supervising loop\<close>

record controller =
  ct_procs :: "unit option list"
  ct_start_messages :: "process_message list list"
  ct_registry :: registry
  ct_full_exit :: bool
  ct_pipe :: pipe_server

definition proc_count :: nat where "proc_count = 1"

text \<open>The process list after the start-up loop; \<open>None\<close> is a process that was reset.\<close>

definition controller_start :: "registry \<Rightarrow> pipe_server \<Rightarrow> controller" where
  "controller_start r p = \<lparr> ct_procs = replicate proc_count (Some ()),
     ct_start_messages = replicate proc_count [],
     ct_registry = (add_client ^^ proc_count) r, ct_full_exit = False, ct_pipe = p \<rparr>"

definition check_process :: "nat \<Rightarrow> bool \<Rightarrow> controller \<Rightarrow> controller" where
  "check_process i running c =
    (case ct_procs c ! i of
       None \<Rightarrow> c\<lparr> ct_full_exit := True \<rparr>
     | Some _ \<Rightarrow>
        if \<not> running then c\<lparr> ct_procs := (ct_procs c)[i := None], ct_full_exit := True \<rparr> else c)"

text \<open>A START message: the downcast needs the class of that tag; its pid and port enter the
  registry, the message is kept, and a result message whose own fields are uninitialised goes
  back on the same pipe.\<close>

definition handle_start ::
  "'o msgpack_lib \<Rightarrow> msg_env \<Rightarrow> (int \<Rightarrow> string) \<Rightarrow> nat \<Rightarrow> process_message \<Rightarrow> controller
    \<Rightarrow> controller result" where
  "handle_start l e pt i m c = (case m of
     MsgStartup s \<Rightarrow>
       rbind (register_start i s (ct_registry c)) (\<lambda>r.
       rbind (server_send l pt i (new_cmd_result e) (ct_pipe c)) (\<lambda>p.
         Inr (c\<lparr> ct_registry := r,
           ct_start_messages := (ct_start_messages c)[i := ct_start_messages c ! i @ [m]],
           ct_pipe := p \<rparr>)))
   | _ \<Rightarrow> Inl UndefinedBehaviour)"

definition handle_message ::
  "'o msgpack_lib \<Rightarrow> msg_env \<Rightarrow> (int \<Rightarrow> string) \<Rightarrow> nat \<Rightarrow> process_message \<Rightarrow> controller
    \<Rightarrow> controller result" where
  "handle_message l e pt i m c = (case msg_type m of
     START \<Rightarrow> handle_start l e pt i m c
   | _ \<Rightarrow> Inr c)"

definition controller_one ::
  "'o msgpack_lib \<Rightarrow> msg_env \<Rightarrow> (int \<Rightarrow> string) \<Rightarrow> (nat \<Rightarrow> bool) \<Rightarrow> nat \<Rightarrow> controller
    \<Rightarrow> controller result" where
  "controller_one l e pt running i c =
    (let c1 = check_process i (running i) c in
     rbind (next_message i (ct_pipe c1)) (\<lambda>(m, p).
       case m of
         None \<Rightarrow> Inr (c1\<lparr> ct_pipe := p \<rparr>)
       | Some msg \<Rightarrow> handle_message l e pt i msg (c1\<lparr> ct_pipe := p \<rparr>)))"

definition controller_pass ::
  "'o msgpack_lib \<Rightarrow> msg_env \<Rightarrow> (int \<Rightarrow> string) \<Rightarrow> (nat \<Rightarrow> bool) \<Rightarrow> bool \<Rightarrow> controller
    \<Rightarrow> controller result" where
  "controller_pass l e pt running thread_alive c =
    rbind (fold_r (controller_one l e pt running) [0..<proc_count] c) (\<lambda>c1.
      Inr (if thread_alive then c1 else c1\<lparr> ct_full_exit := True \<rparr>))"

text \<open>After the loop: CMD_STOP to every worker, a pause, and \<open>stop()\<close> once per process.\<close>

definition controller_send_stops ::
  "'o msgpack_lib \<Rightarrow> msg_env \<Rightarrow> (int \<Rightarrow> string) \<Rightarrow> controller \<Rightarrow> controller result" where
  "controller_send_stops l e pt =
    fold_r (\<lambda>i c. rbind (server_send l pt i (new_stop e) (ct_pipe c)) (\<lambda>p. Inr (c\<lparr> ct_pipe := p \<rparr>)))
      [0..<proc_count]"

definition controller_stop :: "controller \<Rightarrow> controller" where
  "controller_stop c = c\<lparr> ct_pipe := (server_stop ^^ proc_count) (ct_pipe c) \<rparr>"

text \<open>\<open>ep_win_console_handler\<close> (\<open>epprocess-win.cpp\<close>), which the system calls on a thread of its own: the
  flag of the loop, and whether the signal counts as handled.\<close>

definition CTRL_C_EVENT :: "32 word" where "CTRL_C_EVENT = 0"

definition console_handler :: "32 word \<Rightarrow> controller \<Rightarrow> bool \<times> controller" where
  "console_handler signal c = (True, if signal = CTRL_C_EVENT then c\<lparr> ct_full_exit := True \<rparr> else c)"

text \<open>One turn of the loop: what the constructors of messages read, the answers to "is the process
  running" and "is the control thread running", the console signals that arrive up to the test of
  the flag at the end of the turn, and what the listening thread does to the pipe's state up to the
  turn. The flag is read at the end of a turn only.\<close>

record turn =
  tn_env :: msg_env
  tn_running :: "nat \<Rightarrow> bool"
  tn_alive :: bool
  tn_signals :: "32 word list"
  tn_others :: "pipe_server \<Rightarrow> pipe_server"

definition controller_turn ::
  "'o msgpack_lib \<Rightarrow> (int \<Rightarrow> string) \<Rightarrow> turn \<Rightarrow> controller \<Rightarrow> controller result" where
  "controller_turn l pt t c =
    rbind (controller_pass l (tn_env t) pt (tn_running t) (tn_alive t)
        (c\<lparr> ct_pipe := tn_others t (ct_pipe c) \<rparr>)) (\<lambda>c1.
      Inr (fold (\<lambda>sig c. snd (console_handler sig c)) (tn_signals t) c1))"

text \<open>The loop over its turns, with the list as fuel; \<open>Inl\<close> within the value means the list ended
  first.\<close>

fun controller_loop ::
  "'o msgpack_lib \<Rightarrow> (int \<Rightarrow> string) \<Rightarrow> turn list \<Rightarrow> controller \<Rightarrow> (controller + controller) result" where
  "controller_loop l pt [] c = Inr (Inl c)"
| "controller_loop l pt (t # ts) c =
    rbind (controller_turn l pt t c) (\<lambda>c1.
      if ct_full_exit c1 then rbind (controller_send_stops l (tn_env t) pt c1) (\<lambda>c2. Inr (Inr c2))
      else controller_loop l pt ts c1)"

section \<open>Facts\<close>

definition registry_sync :: "registry \<Rightarrow> bool" where
  "registry_sync r = list_all (\<lambda>w. length (wc_pid w) = length (wc_port w)) (reg_clients r)"

definition controller_inv :: "controller \<Rightarrow> bool" where
  "controller_inv c \<longleftrightarrow> length (ct_procs c) = proc_count \<and>
     length (ct_start_messages c) = proc_count \<and> proc_count \<le> length (reg_clients (ct_registry c)) \<and>
     registry_sync (ct_registry c) \<and> pipe_inv (ct_pipe c)"

lemma server_send_ok:
  assumes "class_ok m" and "pack l m = Inr b" and "i < INSTANCES"
  shows "server_send l pt i m p = Inr (push_write i b p)"
  using assms by (simp add: server_send_def)

lemma pack_new_cmd_result:
  "pack l (new_cmd_result e) = Inr (mp_pack_cmd l
     (base_of (new_cmd_result e), env_uninit_type e, env_uninit_result e))"
  by (simp add: pack_def msg_defs)

lemma pack_new_stop: "pack l (new_stop e) = Inr (mp_pack_base l (base_of (new_stop e)))"
  by (simp add: pack_def msg_defs)

lemma registry_sync_register:
  "register_start i s r = Inr r' \<Longrightarrow> registry_sync r \<Longrightarrow>
   registry_sync r' \<and> length (reg_clients r') = length (reg_clients r)"
  by (auto simp: register_start_def registry_sync_def rbind_Inr_iff vec_index_def
      list_all_update list_all_length nth_list_update split: if_splits)

lemma pipe_inv_server_send:
  "server_send l pt i m p = Inr p' \<Longrightarrow> pipe_inv p \<Longrightarrow> pipe_inv p'"
  by (auto simp: server_send_def rbind_Inr_iff pipe_inv_push_write split: if_splits)

lemma controller_inv_handle_start:
  "handle_start l e pt i m c = Inr c' \<Longrightarrow> controller_inv c \<Longrightarrow> controller_inv c'"
  using registry_sync_register pipe_inv_server_send
  by (fastforce simp: handle_start_def controller_inv_def rbind_Inr_iff
      split: process_message.splits)

lemma controller_inv_check: "controller_inv c \<Longrightarrow> controller_inv (check_process i b c)"
  by (simp add: check_process_def controller_inv_def split: option.split)

lemma controller_inv_one:
  assumes "controller_one l e pt running i c = Inr c'" and "controller_inv c"
  shows "controller_inv c'"
proof -
  let ?c1 = "check_process i (running i) c"
  from assms(1) obtain m p where n: "next_message i (ct_pipe ?c1) = Inr (m, p)"
    and r: "(case m of None \<Rightarrow> Inr (?c1\<lparr> ct_pipe := p \<rparr>)
       | Some msg \<Rightarrow> handle_message l e pt i msg (?c1\<lparr> ct_pipe := p \<rparr>)) = Inr c'"
    by (auto simp: controller_one_def Let_def rbind_Inr_iff)
  have "controller_inv (?c1\<lparr> ct_pipe := p \<rparr>)"
    using controller_inv_check [OF assms(2)] pipe_inv_next_message [OF n]
    by (simp add: controller_inv_def)
  with r show ?thesis
    by (auto simp: handle_message_def controller_inv_handle_start
        split: option.splits process_message_type.splits)
qed

lemma controller_inv_pass:
  "controller_pass l e pt running alive c = Inr c' \<Longrightarrow> controller_inv c \<Longrightarrow> controller_inv c'"
  by (auto simp: controller_pass_def rbind_Inr_iff controller_inv_def
      dest!: fold_r_invariant [where I = controller_inv] intro: controller_inv_one)

lemma controller_inv_start:
  "registry_sync r \<Longrightarrow> pipe_inv p \<Longrightarrow> controller_inv (controller_start r p)"
  by (simp add: controller_inv_def controller_start_def proc_count_def add_client_def
      registry_sync_def new_worker_client_def)


lemma controller_one_start:
  assumes "i < proc_count" and "ct_procs c ! i = Some ()" and "i < length (reg_clients (ct_registry c))"
    and "read_queue (ct_pipe c) ! i = MsgStartup s # q" and "pm_type s = START"
    and "pack l (new_cmd_result e) = Inr b"
  shows "controller_one l e pt (\<lambda>_. True) i c = Inr (c\<lparr>
    ct_registry := (ct_registry c)\<lparr> reg_clients := (reg_clients (ct_registry c))[i :=
      (reg_clients (ct_registry c) ! i)\<lparr>
        wc_pid := wc_pid (reg_clients (ct_registry c) ! i) @ [sint (pm_pid s)],
        wc_port := wc_port (reg_clients (ct_registry c) ! i) @ [sint (pm_port s)] \<rparr>] \<rparr>,
    ct_start_messages := (ct_start_messages c)[i := ct_start_messages c ! i @ [MsgStartup s]],
    ct_pipe := push_write i b ((ct_pipe c)\<lparr> read_queue := (read_queue (ct_pipe c))[i := q] \<rparr>) \<rparr>)"
proof -
  have lt: "i < INSTANCES" and i: "i = 0" using assms(1) by (simp_all add: proc_count_def INSTANCES_def)
  let ?p = "(ct_pipe c)\<lparr> read_queue := (read_queue (ct_pipe c))[i := q] \<rparr>"
  have nm: "next_message i (ct_pipe c) = Inr (Some (MsgStartup s), ?p)"
    using assms(4) i lt by (simp add: next_message_def)
  have send: "server_send l pt i (new_cmd_result e) ?p = Inr (push_write i b ?p)"
    by (rule server_send_ok) (simp_all add: assms(6) lt)
  show ?thesis
    using assms(2,3,5) nm send
    by (simp add: controller_one_def check_process_def handle_message_def handle_start_def
        register_start_def Let_def)
qed

section \<open>Properties\<close>

text \<open>When a worker's START message is at the front of its pipe, one turn of the supervising loop
  takes it off, appends the worker's pid and port at the same position of the registry entry of
  that worker only, keeps the message, and queues exactly one CMD_RESULT message on that pipe.\<close>

theorem start_message_registers:
  assumes "controller_inv c" and "i < proc_count" and "ct_procs c ! i = Some ()"
    and "read_queue (ct_pipe c) ! i = MsgStartup s # q" and "pm_type s = START"
  shows "\<exists>c'. controller_one l e pt (\<lambda>_. True) i c = Inr c' \<and>
    reg_clients (ct_registry c') ! i =
      (reg_clients (ct_registry c) ! i)\<lparr>
        wc_pid := wc_pid (reg_clients (ct_registry c) ! i) @ [sint (pm_pid s)],
        wc_port := wc_port (reg_clients (ct_registry c) ! i) @ [sint (pm_port s)] \<rparr> \<and>
    (\<forall>j. j \<noteq> i \<longrightarrow> reg_clients (ct_registry c') ! j = reg_clients (ct_registry c) ! j) \<and>
    ct_start_messages c' ! i = ct_start_messages c ! i @ [MsgStartup s] \<and>
    read_queue (ct_pipe c') ! i = q \<and>
    (\<exists>b. pack l (new_cmd_result e) = Inr b \<and>
       write_queue (ct_pipe c') ! i = write_queue (ct_pipe c) ! i @ [b])"
proof -
  obtain b where b: "pack l (new_cmd_result e) = Inr b" by (simp add: pack_new_cmd_result)
  have "i < length (reg_clients (ct_registry c))" "i < length (ct_start_messages c)"
    "i < length (read_queue (ct_pipe c))" "i < length (write_queue (ct_pipe c))"
    using assms(1,2) by (auto simp: controller_inv_def pipe_inv_def proc_count_def INSTANCES_def)
  with controller_one_start [OF assms(2,3) this(1) assms(4,5) b] b show ?thesis
    by (simp add: push_write_def)
qed

definition sample_controller :: controller where
  "sample_controller = controller_start new_registry
     (new_pipe_server\<lparr> read_queue := [[sample_start 1 2], [], [], []] \<rparr>)"

lemma controller_inv_sample: "controller_inv sample_controller"
  unfolding sample_controller_def
  by (rule controller_inv_start)
    (use pipe_inv_new in \<open>simp_all add: registry_sync_def new_registry_def pipe_inv_def INSTANCES_def\<close>)

theorem start_message_registers_witness:
  "\<exists>c'. controller_one unary_lib sample_env (\<lambda>_. []) (\<lambda>_. True) 0 sample_controller = Inr c' \<and>
    reg_clients (ct_registry c') ! 0 = \<lparr> wc_port = [2], wc_pid = [7] \<rparr>"
proof -
  have "read_queue (ct_pipe sample_controller) ! 0 = MsgStartup (base_of (sample_start 1 2)) # []"
    "ct_procs sample_controller ! 0 = Some ()"
    "reg_clients (ct_registry sample_controller) ! 0 = new_worker_client"
    by (simp_all add: sample_controller_def controller_start_def sample_start_def proc_count_def
        add_client_def new_registry_def)
  with start_message_registers [OF controller_inv_sample, of 0 "base_of (sample_start 1 2)" "[]"
      unary_lib sample_env "\<lambda>_. []"]
  show ?thesis
    by (auto simp: proc_count_def sample_start_def new_worker_client_def)
qed

section \<open>The loop over its turns\<close>

text \<open>What the loop relies on between its turns: the pipe's threads only add messages to the first read
  queue, built as the constructors of the message classes build them. The steps of the pipe keep
  to it (\<open>pipe_step_only_adds\<close>).\<close>

definition only_adds :: "process_message list \<Rightarrow> (pipe_server \<Rightarrow> pipe_server) \<Rightarrow> bool" where
  "only_adds ms f \<longleftrightarrow> list_all class_ok ms \<and>
     (\<forall>p. pipe_inv p \<longrightarrow> pipe_inv (f p) \<and> read_queue (f p) ! 0 = read_queue p ! 0 @ ms)"

lemma dispatch_only_adds:
  "dispatch l e pt dw g s = Inr (c, s') \<Longrightarrow> pipe_inv s \<Longrightarrow>
   \<exists>ms. read_queue s' ! 0 = read_queue s ! 0 @ ms"
  by (auto simp: dispatch_def dispatch_read_def dispatch_write_def take_message_def pipe_inv_def
      disconnect_and_reconnect_def rbind_Inr_iff Let_def nth_list_update
      split: if_splits option.splits)

lemma pipe_step_only_adds:
  assumes "pipe_step l pt t e t'" and "\<nexists>i m. e = EvNext i m" and "threads_inv t"
  shows "\<exists>ms. read_queue (pt_server t') ! 0 = read_queue (pt_server t) ! 0 @ ms"
  using assms(1)
proof cases
  case (step_dispatch e' dw g c s')
  then show ?thesis using dispatch_only_adds [of l e' pt dw g "pt_server t" c s'] assms(3)
    by (simp add: threads_inv_def)
qed (use assms(2) in \<open>auto simp: read_one_def write_check_def write_take_def write_file_def
      kernel_read_def push_write_def server_stop_def disconnect_and_reconnect_def rbind_Inr_iff Let_def
      split: if_splits io_start.splits list.splits\<close>)

text \<open>Whether a turn ends the loop, and how many turns are taken.\<close>

definition ends_turn :: "turn \<Rightarrow> bool" where
  "ends_turn t \<longleftrightarrow> \<not> tn_running t 0 \<or> \<not> tn_alive t \<or> CTRL_C_EVENT \<in> set (tn_signals t)"

fun turns_taken :: "turn list \<Rightarrow> nat" where
  "turns_taken [] = 0"
| "turns_taken (t # ts) = (if ends_turn t then 1 else Suc (turns_taken ts))"

text \<open>The messages that are handled when the messages of the second list arrive, one element for each turn: the
  first that is waiting, in every turn up to the one that ends the loop.\<close>

fun handled :: "turn list \<Rightarrow> process_message list list \<Rightarrow> process_message list \<Rightarrow> process_message list" where
  "handled (t # ts) (ms # mss) q =
    take 1 (q @ ms) @ (if ends_turn t then [] else handled ts mss (drop 1 (q @ ms)))"
| "handled ts mss q = []"

definition is_start :: "process_message \<Rightarrow> bool" where
  "is_start m = (msg_type m = START)"

definition start_pids :: "process_message list \<Rightarrow> int list" where
  "start_pids ms = map (\<lambda>m. sint (pm_pid (base_of m))) (filter is_start ms)"

definition start_ports :: "process_message list \<Rightarrow> int list" where
  "start_ports ms = map (\<lambda>m. sint (pm_port (base_of m))) (filter is_start ms)"

lemmas start_defs = is_start_def start_pids_def start_ports_def

text \<open>The first worker's entry.\<close>

definition entry :: "controller \<Rightarrow> worker_client_state" where
  "entry c = reg_clients (ct_registry c) ! 0"

definition recorded :: "process_message list \<Rightarrow> controller \<Rightarrow> controller \<Rightarrow> bool" where
  "recorded ms c c' \<longleftrightarrow> wc_pid (entry c') = wc_pid (entry c) @ start_pids ms \<and>
     wc_port (entry c') = wc_port (entry c) @ start_ports ms \<and>
     ct_start_messages c' ! 0 = ct_start_messages c ! 0 @ filter is_start ms"

lemma recorded_trans: "recorded xs a b \<Longrightarrow> recorded ys b c \<Longrightarrow> recorded (xs @ ys) a c"
  by (simp add: recorded_def start_defs)

lemma handle_message_total:
  assumes "controller_inv c" and "class_ok m"
  shows "\<exists>c' bs. handle_message l e pt 0 m c = Inr c' \<and> recorded [m] c c' \<and>
    ct_full_exit c' = ct_full_exit c \<and> ct_procs c' = ct_procs c \<and>
    read_queue (ct_pipe c') = read_queue (ct_pipe c)"
proof (cases "is_start m")
  case True
  with assms(2) obtain s where m: "m = MsgStartup s" "pm_type s = START"
    by (cases m) (auto simp: is_start_def)
  obtain b where "pack l (new_cmd_result e) = Inr b" by (simp add: pack_new_cmd_result)
  then have send: "server_send l pt 0 (new_cmd_result e) p = Inr (push_write 0 b p)" for p
    by (intro server_send_ok) (simp_all add: INSTANCES_def)
  have "0 < length (reg_clients (ct_registry c))" "0 < length (ct_start_messages c)"
    using assms(1) by (auto simp: controller_inv_def proc_count_def)
  then show ?thesis
    using m by (simp add: handle_message_def handle_start_def register_start_def send recorded_def
        start_defs entry_def push_write_def)
next
  case False
  then have "handle_message l e pt 0 m c = Inr c"
    by (auto simp: handle_message_def is_start_def split: process_message_type.splits)
  with False show ?thesis by (simp add: recorded_def start_defs)
qed

text \<open>One message was taken off a queue, unless it was empty.\<close>

definition takes_one :: "'a list \<Rightarrow> 'a list \<Rightarrow> bool" where
  "takes_one one left \<longleftrightarrow> length one \<le> 1 \<and> (one = [] \<longrightarrow> left = [])"

lemma takes_one_split: "takes_one one left \<Longrightarrow> take 1 (one @ left) = one \<and> drop 1 (one @ left) = left"
  by (cases one) (auto simp: takes_one_def)

lemma signals_exit:
  "fold (\<lambda>sig c. snd (console_handler sig c)) sigs c =
    c\<lparr> ct_full_exit := ct_full_exit c \<or> CTRL_C_EVENT \<in> set sigs \<rparr>"
  by (induction sigs arbitrary: c) (auto simp: console_handler_def)

text \<open>One turn: at most one message leaves the queue, it is recorded if it is a START, and the turn
  ends the loop for the three reasons alone.\<close>

lemma controller_turn_total:
  assumes "controller_inv c" and "ct_procs c ! 0 = Some ()" and "\<not> ct_full_exit c"
    and "only_adds ms (tn_others t)" and "list_all class_ok (read_queue (ct_pipe c) ! 0)"
  shows "\<exists>c' one. controller_turn l pt t c = Inr c' \<and> controller_inv c' \<and>
    takes_one one (read_queue (ct_pipe c') ! 0) \<and> recorded one c c' \<and>
    read_queue (ct_pipe c) ! 0 @ ms = one @ read_queue (ct_pipe c') ! 0 \<and>
    (ct_full_exit c' \<longleftrightarrow> ends_turn t) \<and> (ends_turn t \<or> ct_procs c' ! 0 = Some ())"
proof -
  let ?p = "tn_others t (ct_pipe c)" and ?q = "read_queue (ct_pipe c) ! 0 @ ms"
  let ?c = "check_process 0 (tn_running t 0) (c\<lparr> ct_pipe := ?p \<rparr>)"
  have p: "pipe_inv ?p" "read_queue ?p ! 0 = ?q" "list_all class_ok ?q"
    using assms(1,4,5) by (auto simp: only_adds_def controller_inv_def)
  have c0: "controller_inv (c\<lparr> ct_pipe := ?p \<rparr>)" using assms(1) p(1) by (simp add: controller_inv_def)
  have inv: "controller_inv ?c" using controller_inv_check [OF c0] .
  have c: "ct_pipe ?c = ?p" "ct_full_exit ?c = (\<not> tn_running t 0)" "ct_registry ?c = ct_registry c"
    "ct_start_messages ?c = ct_start_messages c" "tn_running t 0 \<Longrightarrow> ct_procs ?c ! 0 = Some ()"
    using assms(2,3) by (simp_all add: check_process_def)
  have "\<exists>c1 one. controller_one l (tn_env t) pt (tn_running t) 0 (c\<lparr> ct_pipe := ?p \<rparr>) = Inr c1 \<and>
      takes_one one (read_queue (ct_pipe c1) ! 0) \<and> recorded one c c1 \<and> ?q = one @ read_queue (ct_pipe c1) ! 0 \<and>
      ct_full_exit c1 = (\<not> tn_running t 0) \<and> (tn_running t 0 \<longrightarrow> ct_procs c1 ! 0 = Some ())"
  proof (cases ?q)
    case Nil
    then show ?thesis using p(2) c
      by (intro exI [of _ ?c] exI [of _ "[]"])
        (simp add: controller_one_def Let_def next_message_def recorded_def start_defs entry_def takes_one_def)
  next
    case (Cons m q)
    let ?p1 = "?p\<lparr> read_queue := (read_queue ?p)[0 := q] \<rparr>"
    have n: "next_message 0 ?p = Inr (Some m, ?p1)"
      using Cons p(2) by (simp add: next_message_def INSTANCES_def)
    have i1: "controller_inv (?c\<lparr> ct_pipe := ?p1 \<rparr>)"
      using inv pipe_inv_next_message [OF n p(1)] by (simp add: controller_inv_def)
    have m: "class_ok m" using p(3) Cons by simp
    have len: "0 < length (read_queue ?p)" using p(1) by (simp add: pipe_inv_def INSTANCES_def)
    obtain c1 where "handle_message l (tn_env t) pt 0 m (?c\<lparr> ct_pipe := ?p1 \<rparr>) = Inr c1"
      "recorded [m] (?c\<lparr> ct_pipe := ?p1 \<rparr>) c1" "ct_full_exit c1 = ct_full_exit ?c"
      "ct_procs c1 = ct_procs ?c" "read_queue (ct_pipe c1) = read_queue ?p1"
      using handle_message_total [OF i1 m, of l "tn_env t" pt] by auto
    then show ?thesis
      using n c Cons len
      by (intro exI [of _ c1] exI [of _ "[m]"])
        (simp add: controller_one_def Let_def recorded_def entry_def takes_one_def)
  qed
  then obtain c1 one where one: "controller_one l (tn_env t) pt (tn_running t) 0 (c\<lparr> ct_pipe := ?p \<rparr>) = Inr c1"
    and c1: "recorded one c c1" "?q = one @ read_queue (ct_pipe c1) ! 0" "takes_one one (read_queue (ct_pipe c1) ! 0)"
      "ct_full_exit c1 = (\<not> tn_running t 0)" "tn_running t 0 \<Longrightarrow> ct_procs c1 ! 0 = Some ()" by blast
  have i1: "controller_inv c1" using controller_inv_one [OF one c0] .
  have "controller_turn l pt t c = Inr (c1\<lparr> ct_full_exit := ends_turn t \<rparr>)"
    using one c1(4) by (cases c1) (auto simp: controller_turn_def controller_pass_def proc_count_def
        signals_exit ends_turn_def)
  with c1 i1 show ?thesis
    by (intro exI [of _ "c1\<lparr> ct_full_exit := ends_turn t \<rparr>"] exI [of _ one])
      (simp add: recorded_def entry_def controller_inv_def ends_turn_def)
qed

text \<open>The whole loop. It never throws, and it ends in the first turn that ends it.\<close>

lemma controller_loop_outcome:
  assumes "controller_inv c" and "ct_procs c ! 0 = Some ()" and "\<not> ct_full_exit c"
    and "list_all2 (\<lambda>t ms. only_adds ms (tn_others t)) ts mss"
    and "list_all class_ok (read_queue (ct_pipe c) ! 0)"
  shows "\<exists>c' seen. controller_loop l pt ts c = Inr (if list_ex ends_turn ts then Inr c' else Inl c') \<and>
    controller_inv c' \<and> recorded seen c c' \<and> seen = handled ts mss (read_queue (ct_pipe c) ! 0) \<and>
    read_queue (ct_pipe c) ! 0 @ concat (take (turns_taken ts) mss) = seen @ read_queue (ct_pipe c') ! 0 \<and>
    (list_ex ends_turn ts \<longrightarrow> (\<exists>t q. ends_turn t \<and> t = ts ! (turns_taken ts - 1) \<and>
       write_queue (ct_pipe c') ! 0 = q @ [mp_pack_base l (base_of (new_stop (tn_env t)))]))"
  using assms
proof (induction ts arbitrary: c mss)
  case Nil
  then show ?case by (auto simp: recorded_def start_defs intro: exI [of _ "[]"])
next
  case (Cons t ts)
  then obtain ms mss' where mss: "mss = ms # mss'" and ms: "only_adds ms (tn_others t)"
    and rest: "list_all2 (\<lambda>t ms. only_adds ms (tn_others t)) ts mss'"
    by (auto simp: list_all2_Cons1)
  let ?q = "read_queue (ct_pipe c) ! 0 @ ms"
  obtain c1 one where t: "controller_turn l pt t c = Inr c1" and c1: "controller_inv c1"
      "recorded one c c1" "?q = one @ read_queue (ct_pipe c1) ! 0"
      "ct_full_exit c1 \<longleftrightarrow> ends_turn t" "ends_turn t \<or> ct_procs c1 ! 0 = Some ()"
      "takes_one one (read_queue (ct_pipe c1) ! 0)"
    using controller_turn_total [OF Cons.prems(1-3) ms Cons.prems(5)] by blast
  show ?case
  proof (cases "ends_turn t")
    case True
    have send: "server_send l pt 0 (new_stop (tn_env t)) p =
        Inr (push_write 0 (mp_pack_base l (base_of (new_stop (tn_env t)))) p)" for p
      by (rule server_send_ok) (simp_all add: pack_new_stop INSTANCES_def)
    let ?c2 = "c1\<lparr> ct_pipe := push_write 0 (mp_pack_base l (base_of (new_stop (tn_env t)))) (ct_pipe c1) \<rparr>"
    have "controller_loop l pt (t # ts) c = Inr (Inr ?c2)"
      using t True c1(4) by (simp add: controller_send_stops_def proc_count_def send)
    moreover have "controller_inv ?c2" using c1(1) by (simp add: controller_inv_def pipe_inv_push_write)
    moreover have "0 < length (write_queue (ct_pipe c1))"
      using c1(1) by (simp add: controller_inv_def pipe_inv_def INSTANCES_def)
    moreover have "one = handled (t # ts) mss (read_queue (ct_pipe c) ! 0)"
      using takes_one_split [OF c1(6)] c1(3) True mss by simp
    ultimately show ?thesis using True c1(2,3) mss
      by (intro exI [of _ ?c2] exI [of _ one])
        (simp add: recorded_def entry_def push_write_def)
  next
    case False
    have ok: "list_all class_ok (read_queue (ct_pipe c1) ! 0)"
    proof -
      have "list_all class_ok (one @ read_queue (ct_pipe c1) ! 0)"
        unfolding c1(3) [symmetric] using Cons.prems(5) ms by (simp add: only_adds_def)
      then show ?thesis by simp
    qed
    from Cons.IH [OF c1(1) _ _ rest ok] False c1(4,5)
    obtain c' seen where ih: "controller_loop l pt ts c1 = Inr (if list_ex ends_turn ts then Inr c' else Inl c')"
      "controller_inv c'" "recorded seen c1 c'" "seen = handled ts mss' (read_queue (ct_pipe c1) ! 0)"
      "read_queue (ct_pipe c1) ! 0 @ concat (take (turns_taken ts) mss') = seen @ read_queue (ct_pipe c') ! 0"
      "list_ex ends_turn ts \<longrightarrow> (\<exists>t q. ends_turn t \<and> t = ts ! (turns_taken ts - 1) \<and>
         write_queue (ct_pipe c') ! 0 = q @ [mp_pack_base l (base_of (new_stop (tn_env t)))])"
      by auto
    have "?q @ concat (take (turns_taken ts) mss') = (one @ seen) @ read_queue (ct_pipe c') ! 0"
      using ih(5) c1(3) by (metis append.assoc)
    moreover have "0 < turns_taken ts" if "list_ex ends_turn ts" using that by (cases ts) auto
    moreover have "one @ seen = handled (t # ts) mss (read_queue (ct_pipe c) ! 0)"
      using takes_one_split [OF c1(6)] c1(3) ih(4) False mss by simp
    ultimately show ?thesis
      using ih(1-3,6) t False c1(4) mss recorded_trans [OF c1(2) ih(3)]
      by (intro exI [of _ c'] exI [of _ "one @ seen"]) (auto simp: nth_Cons')
  qed
qed

text \<open>C11: The registry records exactly the workers' start messages. The supervising loop, over any turns
  in which the pipe's threads only add well-built messages to the worker's read queue, never throws. It
  handles one message in every turn that finds one waiting, up to and with the turn that ends it, in the order they
  arrived, and leaves the others queued; and to the worker's entry it has added the pid and the port of each START
  message it handled, in order and at the same positions of the two lists, and kept those messages, and no other.\<close>

theorem registry_records_starts:
  assumes "controller_inv c" and "ct_procs c ! 0 = Some ()" and "\<not> ct_full_exit c"
    and "list_all2 (\<lambda>t ms. only_adds ms (tn_others t)) ts mss"
    and "list_all class_ok (read_queue (ct_pipe c) ! 0)"
    and "seen = handled ts mss (read_queue (ct_pipe c) ! 0)"
  shows "\<exists>r c'. controller_loop l pt ts c = Inr r \<and> c' = (case r of Inl d \<Rightarrow> d | Inr d \<Rightarrow> d) \<and>
    read_queue (ct_pipe c) ! 0 @ concat (take (turns_taken ts) mss) = seen @ read_queue (ct_pipe c') ! 0 \<and>
    wc_pid (entry c') = wc_pid (entry c) @ start_pids seen \<and>
    wc_port (entry c') = wc_port (entry c) @ start_ports seen \<and>
    ct_start_messages c' ! 0 = ct_start_messages c ! 0 @ filter is_start seen"
  using controller_loop_outcome [OF assms(1-5), of l pt] assms(6) by (auto simp: recorded_def)

definition quiet_turn :: "process_message list \<Rightarrow> turn" where
  "quiet_turn ms = \<lparr> tn_env = sample_env, tn_running = (\<lambda>_. True), tn_alive = True, tn_signals = [],
     tn_others = (\<lambda>p. fold queue_message ms p) \<rparr>"

lemma pipe_inv_queue_message: "pipe_inv p \<Longrightarrow> handled_class m \<Longrightarrow> pipe_inv (queue_message m p)"
  using pipe_inv_queue [of p 0]
  by (simp add: queue_message_def pipe_inv_def list_all_update INSTANCES_def)

lemma quiet_turn_adds:
  assumes "list_all class_ok ms" and "list_all handled_class ms"
  shows "only_adds ms (tn_others (quiet_turn ms))"
proof -
  have "pipe_inv p \<Longrightarrow> pipe_inv (fold queue_message ms p) \<and>
      read_queue (fold queue_message ms p) ! 0 = read_queue p ! 0 @ ms" for p
    using assms(2)
  proof (induction ms arbitrary: p)
    case (Cons m ms)
    have "0 < length (read_queue p)" using Cons.prems(1) by (simp add: pipe_inv_def INSTANCES_def)
    with Cons.IH [of "queue_message m p"] pipe_inv_queue_message [of p m] Cons.prems
    show ?case by (simp add: queue_message_def)
  qed simp
  with assms(1) show ?thesis by (simp add: only_adds_def quiet_turn_def)
qed

theorem registry_records_starts_witness:
  "\<exists>r c'. controller_loop unary_lib (\<lambda>_. []) [quiet_turn [], quiet_turn [sample_start 3 4], quiet_turn []]
      sample_controller = Inr r \<and> c' = (case r of Inl d \<Rightarrow> d | Inr d \<Rightarrow> d) \<and>
    read_queue (ct_pipe c') ! 0 = [] \<and> wc_pid (entry c') = [7, 7] \<and> wc_port (entry c') = [2, 2]"
proof -
  have q: "ct_procs sample_controller ! 0 = Some ()" "\<not> ct_full_exit sample_controller"
    "read_queue (ct_pipe sample_controller) ! 0 = [sample_start 1 2]"
    "entry sample_controller = new_worker_client"
    by (simp_all add: sample_controller_def controller_start_def proc_count_def
        add_client_def new_registry_def entry_def)
  let ?ts = "[quiet_turn [], quiet_turn [sample_start 3 4], quiet_turn []]"
  let ?mss = "[[], [sample_start 3 4], []]"
  have adds: "list_all2 (\<lambda>t ms. only_adds ms (tn_others t)) ?ts ?mss"
    by (simp add: quiet_turn_adds)
  have ok: "list_all class_ok (read_queue (ct_pipe sample_controller) ! 0)" by (simp add: q(3))
  have n: "turns_taken ?ts = 3" by (simp add: ends_turn_def quiet_turn_def)
  have h: "handled ?ts ?mss (read_queue (ct_pipe sample_controller) ! 0) = [sample_start 1 2, sample_start 3 4]"
    by (simp add: q(3) ends_turn_def quiet_turn_def)
  have s: "start_pids [sample_start 1 2, sample_start 3 4] = [7, 7]"
    "start_ports [sample_start 1 2, sample_start 3 4] = [2, 2]"
    by (simp_all add: start_defs sample_start_def)
  from registry_records_starts [OF controller_inv_sample q(1,2) adds ok h [symmetric], where l = unary_lib and pt = "\<lambda>_. []"]
  show ?thesis unfolding n s q(3,4)
    by (auto simp: new_worker_client_def eval_nat_numeral simp del: controller_loop.simps)
qed

end
