(* ===== verification/Rpc.thy ===== *)
theory Rpc imports EpPrelude begin

text \<open>
  The JSON-RPC layer: \<open>rpc.hpp\<close>, \<open>rpc.cpp\<close>, and the handling of one WebSocket message in
  \<open>ws_session_base::operator()\<close> of \<open>session.hpp\<close>. JSON values are a datatype; the numeric
  conversions of the JSON library and \<open>std::stof\<close> are the fields of \<open>json_lib\<close>.
\<close>

section \<open>JSON values\<close>

datatype json =
    JNull
  | JBool bool
  | JInt int
  | JFloat string
  | JStr string
  | JArr "json list"
  | JObj "(string \<times> json) list"

fun is_object :: "json \<Rightarrow> bool" where
  "is_object (JObj _) = True"
| "is_object _ = False"

fun is_array :: "json \<Rightarrow> bool" where
  "is_array (JArr _) = True"
| "is_array _ = False"

text \<open>\<open>find\<close>, and \<open>operator[]\<close> of a non-const object, which inserts null for a missing key.\<close>

fun jfind :: "string \<Rightarrow> json \<Rightarrow> json option" where
  "jfind k (JObj kvs) = map_of kvs k"
| "jfind k _ = None"

definition jindex :: "string \<Rightarrow> json \<Rightarrow> json" where
  "jindex k j = (case jfind k j of None \<Rightarrow> JNull | Some v \<Rightarrow> v)"

datatype stof_result = StofThrows | StofOne | StofTwo | StofOther

text \<open>\<open>None\<close> of a conversion is the library's \<open>type_error\<close>. Of the float that \<open>stof\<close> returns the
  code only asks whether it equals one or two.\<close>

record json_lib =
  jl_int :: "json \<Rightarrow> int option"
  jl_size :: "json \<Rightarrow> 64 word option"
  jl_stof :: "string \<Rightarrow> stof_result"

definition json_lib_ok :: "json_lib \<Rightarrow> bool" where
  "json_lib_ok l \<longleftrightarrow> jl_int l JNull = None \<and> jl_size l JNull = None \<and>
     (\<forall>s. jl_int l (JStr s) = None \<and> jl_size l (JStr s) = None) \<and>
     (\<forall>i. - (2 ^ 31) \<le> i \<and> i < 2 ^ 31 \<longrightarrow> jl_int l (JInt i) = Some i) \<and>
     (\<forall>i. 0 \<le> i \<and> i < 2 ^ 63 \<longrightarrow> jl_size l (JInt i) = Some (word_of_int i)) \<and>
     jl_stof l ''1.0'' = StofOne \<and> jl_stof l ''2.0'' = StofTwo"

definition simple_json_lib :: json_lib where
  "simple_json_lib = \<lparr>
     jl_int = (\<lambda>j. case j of JInt i \<Rightarrow> Some i | _ \<Rightarrow> None),
     jl_size = (\<lambda>j. case j of JInt i \<Rightarrow> Some (word_of_int i) | _ \<Rightarrow> None),
     jl_stof = (\<lambda>s. if s = ''1.0'' \<or> s = ''1'' then StofOne
                else if s = ''2.0'' \<or> s = ''2'' then StofTwo else StofThrows) \<rparr>"

lemma simple_json_lib_ok: "json_lib_ok simple_json_lib"
  by (simp add: json_lib_ok_def simple_json_lib_def)

fun get_string :: "json \<Rightarrow> string option" where
  "get_string (JStr s) = Some s"
| "get_string _ = None"

section \<open>Error codes\<close>

datatype rpc_code =
    parse_error | invalid_request | method_not_found | invalid_params | internal_error
  | expected_object | expected_string_version | unknown_version | invalid_null_id
  | expected_strnum_id | expected_id | missing_method | expected_string_method
  | expected_structured_params | missing_params | expected_array_params

fun rpc_code_value :: "rpc_code \<Rightarrow> int" where
  "rpc_code_value parse_error = - 32700"
| "rpc_code_value invalid_request = - 32600"
| "rpc_code_value method_not_found = - 32601"
| "rpc_code_value invalid_params = - 32602"
| "rpc_code_value internal_error = - 32603"
| "rpc_code_value expected_object = 1"
| "rpc_code_value expected_string_version = 2"
| "rpc_code_value unknown_version = 3"
| "rpc_code_value invalid_null_id = 4"
| "rpc_code_value expected_strnum_id = 5"
| "rpc_code_value expected_id = 6"
| "rpc_code_value missing_method = 7"
| "rpc_code_value expected_string_method = 8"
| "rpc_code_value expected_structured_params = 9"
| "rpc_code_value missing_params = 10"
| "rpc_code_value expected_array_params = 11"

definition rpc_message :: "int \<Rightarrow> string" where
  "rpc_message ev =
    (if ev = - 32700 then ''An error occurred on the server while parsing the JSON text.''
     else if ev = - 32600 then ''The JSON sent is not a valid Request object''
     else if ev = - 32601 then ''The method does not exist or is not available''
     else if ev = - 32602 then ''Invalid method parameters''
     else if ev = - 32603 then ''Internal JSON-RPC error''
     else if ev = 1 then ''Expected object in JSON-RPC request''
     else if ev = 2 then ''Expected string version in JSON-RPC request''
     else if ev = 3 then ''Unknown version in JSON-RPC request''
     else if ev = 4 then ''Invalid null id in JSON-RPC request''
     else if ev = 5 then ''Expected string or number id in JSON-RPC request''
     else if ev = 6 then ''Missing id in JSON-RPC request version 1''
     else if ev = 7 then ''Missing method in JSON-RPC request''
     else if ev = 8 then ''Expected string method in JSON-RPC request''
     else if ev = 9 then ''Expected structured params in JSON-RPC request version 2''
     else if ev = 10 then ''Missing params in JSON-RPC request version 1''
     else if ev = 11 then ''Expected array params in JSON-RPC request version 1''
     else if - 32099 \<le> ev \<and> ev \<le> - 32000
       then ''An implementation defined server error was received''
     else ''Unknown RPC error #'' @ dec_int ev)"

record rpc_error =
  re_code :: int
  re_msg :: string

definition rpc_error_msg :: "rpc_code \<Rightarrow> string \<Rightarrow> rpc_error" where
  "rpc_error_msg c msg = \<lparr> re_code = rpc_code_value c, re_msg = msg \<rparr>"

definition rpc_error_code :: "rpc_code \<Rightarrow> rpc_error" where
  "rpc_error_code c = rpc_error_msg c (rpc_message (rpc_code_value c))"

definition rpc_error_text :: "string \<Rightarrow> rpc_error" where
  "rpc_error_text msg = rpc_error_msg invalid_params msg"

definition rpc_error_default :: rpc_error where
  "rpc_error_default = rpc_error_code internal_error"

text \<open>An error of another category, by value and message.\<close>

definition rpc_error_of_ec :: "int \<Rightarrow> string \<Rightarrow> rpc_error" where
  "rpc_error_of_ec v msg = \<lparr> re_code = v, re_msg = msg \<rparr>"

definition error_to_json :: "int \<Rightarrow> rpc_error \<Rightarrow> json" where
  "error_to_json i e = JObj (
     (''jsonrpc'', JStr ''2.0'') #
     (if 0 \<le> i then [(''id'', JInt i)] else []) @
     [(''error'', JObj [(''code'', JInt (re_code e)), (''message'', JStr (re_msg e))])])"

section \<open>Requests\<close>

record rpc_call =
  rpc_id :: "int option"
  rpc_version :: int
  rpc_method :: string
  rpc_params :: json
  rpc_result :: json

definition new_rpc_call :: rpc_call where
  "new_rpc_call = \<lparr> rpc_id = None, rpc_version = 2, rpc_method = [], rpc_params = JNull,
     rpc_result = JNull \<rparr>"

datatype extract_outcome = ExtractOk | ExtractError rpc_code | ExtractThrow cpp_error

definition extract_params :: "json \<Rightarrow> rpc_call \<Rightarrow> rpc_call \<times> extract_outcome" where
  "extract_params jv c =
    (if rpc_version c = 2 then
       (case jfind ''params'' jv of
          None \<Rightarrow> (c, ExtractOk)
        | Some p \<Rightarrow>
           if \<not> is_object p \<and> \<not> is_array p then (c, ExtractError expected_structured_params)
           else (c\<lparr> rpc_params := p \<rparr>, ExtractOk))
     else
       (case jfind ''params'' jv of
          None \<Rightarrow> (c, ExtractError missing_params)
        | Some p \<Rightarrow>
           if \<not> is_array p then (c, ExtractError expected_array_params)
           else (c\<lparr> rpc_params := p \<rparr>, ExtractOk)))"

definition extract_method :: "json \<Rightarrow> rpc_call \<Rightarrow> rpc_call \<times> extract_outcome" where
  "extract_method jv c =
    (case get_string (jindex ''method'' jv) of
       None \<Rightarrow> (c, ExtractThrow TypeError)
     | Some m \<Rightarrow> extract_params jv (c\<lparr> rpc_method := m \<rparr>))"

definition extract_check_id :: "json \<Rightarrow> rpc_call \<Rightarrow> rpc_call \<times> extract_outcome" where
  "extract_check_id jv c =
    (if rpc_version c = 2 then
       (case rpc_id c of
          Some i \<Rightarrow> if i < 0 then (c, ExtractError invalid_null_id) else extract_method jv c
        | None \<Rightarrow> extract_method jv c)
     else
       (case rpc_id c of
          None \<Rightarrow> (c, ExtractError expected_id)
        | Some _ \<Rightarrow> extract_method jv c))"

definition extract_version :: "json_lib \<Rightarrow> json \<Rightarrow> rpc_call \<Rightarrow> rpc_call \<times> extract_outcome" where
  "extract_version l jv c0 =
    (let c = c0\<lparr> rpc_version := 1 \<rparr> in
     case get_string (jindex ''jsonrpc'' jv) of
       None \<Rightarrow> (c, ExtractThrow TypeError)
     | Some s \<Rightarrow>
        (case jl_stof l s of
           StofThrows \<Rightarrow> (c, ExtractThrow (InvalidArgument ''stof''))
         | StofOther \<Rightarrow> (c, ExtractError unknown_version)
         | StofOne \<Rightarrow> extract_check_id jv (c\<lparr> rpc_version := 1 \<rparr>)
         | StofTwo \<Rightarrow> extract_check_id jv (c\<lparr> rpc_version := 2 \<rparr>)))"

definition rpc_extract :: "json_lib \<Rightarrow> json \<Rightarrow> rpc_call \<Rightarrow> rpc_call \<times> extract_outcome" where
  "rpc_extract l jv c =
    (if \<not> is_object jv then (c, ExtractError expected_object)
     else (case jl_int l (jindex ''id'' jv) of
       None \<Rightarrow> (c, ExtractThrow TypeError)
     | Some i \<Rightarrow> extract_version l jv (c\<lparr> rpc_id := Some i \<rparr>)))"

text \<open>The two \<open>complete\<close> functions: the value handed to the sender, if any.\<close>

definition complete :: "rpc_call \<Rightarrow> json option" where
  "complete c = (case rpc_id c of None \<Rightarrow> None
     | Some i \<Rightarrow> Some (JObj [(''id'', JInt i), (''result'', rpc_result c)]))"

definition complete_error :: "rpc_error \<Rightarrow> rpc_call \<Rightarrow> json option" where
  "complete_error e c = (case rpc_id c of None \<Rightarrow> None | Some i \<Rightarrow> Some (error_to_json i e))"

section \<open>Checked access\<close>

text \<open>A handler ends normally, throws an \<open>rpc_error\<close>, or throws something else.\<close>

datatype rpc_exn = RpcFail rpc_error | OtherExn cpp_error

type_synonym 'a handler = "rpc_exn + 'a"

definition rpc_fail :: "string \<Rightarrow> 'a handler" where
  "rpc_fail msg = Inl (RpcFail (rpc_error_text msg))"

definition rpc_fail_code :: "rpc_code \<Rightarrow> 'a handler" where
  "rpc_fail_code c = Inl (RpcFail (rpc_error_code c))"

definition checked_object :: "json \<Rightarrow> json handler" where
  "checked_object jv = (if is_object jv then Inr jv else rpc_fail ''expected object'')"

definition checked_value :: "string \<Rightarrow> json \<Rightarrow> json handler" where
  "checked_value key jv = rbind (checked_object jv) (\<lambda>obj.
     case jfind key obj of
       None \<Rightarrow> rpc_fail (''key '' @ [CHR 0x27] @ key @ [CHR 0x27] @ '' not found'')
     | Some v \<Rightarrow> Inr v)"

definition checked_text :: "json \<Rightarrow> string handler" where
  "checked_text jv = (case get_string jv of
     None \<Rightarrow> rpc_fail ''expected string'' | Some s \<Rightarrow> Inr s)"

definition checked_string :: "string \<Rightarrow> json \<Rightarrow> string handler" where
  "checked_string key jv = rbind (checked_value key jv) checked_text"

section \<open>One WebSocket message\<close>

text \<open>What the read loop does with one message: it goes on reading after an optional reply, closes
  on a parse error, or an exception other than \<open>rpc_error\<close> leaves the coroutine and, with no
  handler above it, the thread. The dispatcher returns the replies it sent in its state.\<close>

datatype 's ws_outcome =
    WsContinue 's "json option"
  | WsClosed 's
  | WsCrash cpp_error

definition ws_on_message ::
  "json_lib \<Rightarrow> (rpc_call \<Rightarrow> 's \<Rightarrow> 's \<times> unit handler) \<Rightarrow> json option \<Rightarrow> 's \<Rightarrow> 's ws_outcome" where
  "ws_on_message l dispatch_impl parsed s =
    (case parsed of
       None \<Rightarrow> WsClosed s
     | Some jv \<Rightarrow>
        (case rpc_extract l jv new_rpc_call of
           (c, ExtractThrow x) \<Rightarrow> WsCrash x
         | (c, ExtractError e) \<Rightarrow>
             WsContinue s (complete_error
               (rpc_error_msg invalid_request (rpc_message (rpc_code_value e))) c)
         | (c, ExtractOk) \<Rightarrow>
             (case dispatch_impl c s of
                (s', Inr _) \<Rightarrow> WsContinue s' None
              | (s', Inl (RpcFail e)) \<Rightarrow> WsContinue s' (complete_error e c)
              | (s', Inl (OtherExn x)) \<Rightarrow> WsCrash x)))"

section \<open>Facts\<close>

lemma rpc_code_value_inj: "rpc_code_value a = rpc_code_value b \<Longrightarrow> a = b"
  by (cases a; cases b) simp_all

lemma extract_params_cases:
  "extract_params jv c = (c', r) \<Longrightarrow> rpc_version c = 1 \<or> rpc_version c = 2 \<Longrightarrow>
   rpc_id c' = rpc_id c \<and> rpc_version c' = rpc_version c \<and> rpc_method c' = rpc_method c \<and>
   (r = ExtractOk \<longrightarrow> (if rpc_version c' = 2 then rpc_params c' = rpc_params c \<or>
      is_object (rpc_params c') \<or> is_array (rpc_params c') else is_array (rpc_params c')))"
  by (auto simp: extract_params_def split: if_splits option.splits)

lemma extract_method_id:
  "extract_method jv c = (c', r) \<Longrightarrow> rpc_id c' = rpc_id c \<and> rpc_version c' = rpc_version c"
  by (auto simp: extract_method_def extract_params_def split: if_splits option.splits)

lemma extract_method_no_missing: "snd (extract_method jv c) \<noteq> ExtractError missing_method"
  by (auto simp: extract_method_def extract_params_def split: option.split)

lemma extract_check_id_id:
  "extract_check_id jv c = (c', r) \<Longrightarrow> rpc_id c' = rpc_id c \<and> rpc_version c' = rpc_version c"
  by (auto simp: extract_check_id_def dest: extract_method_id split: if_splits option.splits)

lemma extract_version_id: "extract_version l jv c = (c', r) \<Longrightarrow> rpc_id c' = rpc_id c"
  by (auto simp: extract_version_def Let_def dest: extract_check_id_id
      split: option.splits stof_result.splits)


lemma rpc_extract_id:
  "rpc_extract l jv c = (c', ExtractError e) \<Longrightarrow>
   (e = expected_object \<and> c' = c) \<or> (\<exists>i. rpc_id c' = Some i \<and> jl_int l (jindex ''id'' jv) = Some i)"
  by (auto simp: rpc_extract_def dest!: extract_version_id split: if_splits option.splits)

text \<open>What a request that was extracted without an error looks like.\<close>

definition wf_call :: "rpc_call \<Rightarrow> bool" where
  "wf_call c \<longleftrightarrow> (\<exists>i. rpc_id c = Some i \<and> (rpc_version c = 2 \<longrightarrow> 0 \<le> i)) \<and>
     (rpc_version c = 1 \<or> rpc_version c = 2) \<and>
     (rpc_version c = 1 \<longrightarrow> is_array (rpc_params c)) \<and>
     (rpc_version c = 2 \<longrightarrow> rpc_params c = JNull \<or> is_object (rpc_params c) \<or> is_array (rpc_params c))"

lemma extract_method_wf:
  assumes "extract_method jv c = (c', ExtractOk)" and "rpc_id c = Some i"
    and "rpc_version c = 1 \<or> rpc_version c = 2 \<and> 0 \<le> i" and "rpc_params c = JNull"
  shows "wf_call c'"
  using assms
  by (auto simp: extract_method_def extract_params_def wf_call_def split: if_splits option.splits)

section \<open>Properties\<close>

text \<open>C40: A request that is extracted without an error is well formed: it has an integer id, not
  negative in version 2; its version is 1 or 2; its params are an array in version 1, and null,
  an object or an array in version 2.\<close>

theorem extract_ok_wf:
  assumes "rpc_extract l jv new_rpc_call = (c, ExtractOk)"
  shows "wf_call c"
proof -
  obtain i where v: "extract_version l jv (new_rpc_call\<lparr> rpc_id := Some i \<rparr>) = (c, ExtractOk)"
    using assms by (auto simp: rpc_extract_def split: if_splits option.splits)
  then obtain v where "v = 1 \<or> v = 2" and
    "extract_check_id jv (new_rpc_call\<lparr> rpc_id := Some i, rpc_version := v \<rparr>) = (c, ExtractOk)"
    by (auto simp: extract_version_def Let_def split: option.splits stof_result.splits)
  then show ?thesis
    by (auto simp: extract_check_id_def new_rpc_call_def split: if_splits
        elim!: extract_method_wf)
qed

definition sample_request :: json where
  "sample_request = JObj [(''jsonrpc'', JStr ''2.0''), (''id'', JInt 5), (''method'', JStr ''join''),
     (''params'', JObj [(''cid'', JInt 2)])]"

lemma sample_request_extract:
  "\<exists>c. rpc_extract simple_json_lib sample_request new_rpc_call = (c, ExtractOk)"
  by (simp add: rpc_extract_def sample_request_def simple_json_lib_def jindex_def
      extract_version_def extract_check_id_def extract_method_def extract_params_def Let_def)

theorem extract_ok_wf_witness:
  "\<exists>c :: rpc_call. rpc_extract simple_json_lib sample_request new_rpc_call = (c, ExtractOk) \<and> wf_call c"
  using sample_request_extract extract_ok_wf by blast

text \<open>A JSON object without an id, or with a null id, ends the thread: \<open>extract\<close> reads the id
  with a conversion that throws, outside the handler of the read loop, before any error code can
  be reported. The notifications of JSON-RPC are such messages, so one of them, or any request
  without a method, takes the worker down.\<close>

theorem missing_id_crashes:
  assumes "json_lib_ok l"
    and "map_of kvs ''id'' = None \<or> map_of kvs ''id'' = Some JNull"
  shows "ws_on_message l d (Some (JObj kvs)) s = WsCrash TypeError"
  using assms by (auto simp: ws_on_message_def rpc_extract_def jindex_def json_lib_ok_def)

theorem missing_id_crashes_witness:
  "ws_on_message simple_json_lib (\<lambda>c s. (s, Inr ())) (Some (JObj [(''method'', JStr ''say'')])) ()
     = WsCrash TypeError"
  by (rule missing_id_crashes [OF simple_json_lib_ok]) simp

text \<open>When extraction reports an error code, the client that sent an integer id gets exactly one
  reply, an error object with the code of an invalid request, carrying that id when it is not
  negative; a message that is not an object gets no reply at all, and the error code for a
  missing method is never reported.\<close>

theorem extract_error_reply:
  assumes "rpc_extract l jv new_rpc_call = (c, ExtractError e)"
  shows "e \<noteq> missing_method \<and>
    (\<exists>r. ws_on_message l d (Some jv) s = WsContinue s r \<and>
      (if e = expected_object then r = None
       else \<exists>i er. rpc_id c = Some i \<and> r = Some (error_to_json i er) \<and>
         re_code er = rpc_code_value invalid_request \<and>
         jfind ''id'' (error_to_json i er) = (if 0 \<le> i then Some (JInt i) else None)))"
proof -
  have "e \<noteq> missing_method"
    using assms extract_method_no_missing
    by (auto simp: rpc_extract_def extract_version_def extract_check_id_def Let_def
        split: if_splits option.splits stof_result.splits) (metis snd_conv)+
  moreover have "jfind ''id'' (error_to_json i er) = (if 0 \<le> i then Some (JInt i) else None)" for i er
    by (simp add: error_to_json_def)
  moreover have "(e = expected_object \<and> rpc_id c = None) \<or> (\<exists>i. rpc_id c = Some i)"
    using rpc_extract_id [OF assms] by (auto simp: new_rpc_call_def)
  moreover have "e \<noteq> expected_object \<or> rpc_id c = None"
    using assms by (auto simp: rpc_extract_def extract_version_def extract_check_id_def
        extract_method_def extract_params_def new_rpc_call_def Let_def
        split: if_splits option.splits stof_result.splits)
  moreover have "re_code (rpc_error_msg invalid_request m) = rpc_code_value invalid_request" for m
    by (simp add: rpc_error_msg_def)
  ultimately show ?thesis using assms
    by (auto simp: ws_on_message_def complete_error_def simp del: rpc_code_value.simps
        intro!: exI [of _ "rpc_error_msg invalid_request (rpc_message (rpc_code_value e))"])
qed

theorem extract_error_reply_witness:
  "unknown_version \<noteq> missing_method \<and>
    (\<exists>r. ws_on_message (simple_json_lib\<lparr> jl_stof := (\<lambda>_. StofOther) \<rparr>) (\<lambda>c s. (s, Inr ()))
        (Some sample_request) () = WsContinue () r \<and>
      (if unknown_version = expected_object then r = None
       else \<exists>i er. rpc_id (new_rpc_call\<lparr> rpc_id := Some 5, rpc_version := 1 \<rparr>) = Some i \<and>
         r = Some (error_to_json i er) \<and> re_code er = rpc_code_value invalid_request \<and>
         jfind ''id'' (error_to_json i er) = (if 0 \<le> i then Some (JInt i) else None)))"
  by (rule extract_error_reply)
    (simp add: rpc_extract_def sample_request_def simple_json_lib_def jindex_def
      extract_version_def Let_def)

end
