(* ===== verification/Channels.thy ===== *)
theory Channels imports EpInterfaces Rpc begin

text \<open>
  Channels of the web worker: \<open>channel\<close>, \<open>room_impl\<close>, \<open>channel_list_impl\<close> and \<open>system_channel\<close>
  of \<open>worker-server.h\<close> and \<open>ws-user.cpp\<close>. A session is a number, ordered as the pointers of the
  \<open>flat_set\<close> are; with it goes its primary user. The record \<open>lounge\<close> is the shared state: the
  channel vector, the counters, the user names, whether a session object still owns its
  connection, the messages given to sessions, and the requests made of the application. It is
  extended by the theory of the blackjack table, so every operation works on \<open>lounge_scheme\<close>.
\<close>

section \<open>State\<close>

datatype channel_kind = RoomChannel | SystemChannel | TableChannel

record channel =
  ch_uid :: "64 word"
  ch_cid :: "64 word"
  ch_name :: string
  ch_kind :: channel_kind
  ch_sessions :: "nat list"

datatype app_request = AppShutdown nat | AppStop

record lounge =
  lg_slots :: "channel option list"
  lg_next_uid :: "64 word"
  lg_next_cid :: "64 word"
  lg_name :: "nat \<Rightarrow> string"
  lg_attached :: "nat \<Rightarrow> bool"
  lg_sent :: "(nat \<times> json) list"
  lg_app :: "app_request list"

section \<open>The channel list\<close>

definition chan_at :: "64 word \<Rightarrow> 'g lounge_scheme \<Rightarrow> channel option" where
  "chan_at cid lg = (if unat cid < length (lg_slots lg) then lg_slots lg ! unat cid else None)"

definition next_uid :: "'g lounge_scheme \<Rightarrow> 64 word \<times> 'g lounge_scheme" where
  "next_uid lg = (lg_next_uid lg + 1, lg\<lparr> lg_next_uid := lg_next_uid lg + 1 \<rparr>)"

definition next_cid :: "'g lounge_scheme \<Rightarrow> 64 word \<times> 'g lounge_scheme" where
  "next_cid lg = (lg_next_cid lg + 1, lg\<lparr> lg_next_cid := lg_next_cid lg + 1 \<rparr>)"

definition resize :: "nat \<Rightarrow> 'a option list \<Rightarrow> 'a option list" where
  "resize n xs = take n xs @ replicate (n - length xs) None"

definition list_insert :: "channel \<Rightarrow> 'g lounge_scheme \<Rightarrow> 'g lounge_scheme result" where
  "list_insert c lg =
    (let cid = unat (ch_cid c);
         v = resize (max (cid + 1) (length (lg_slots lg))) (lg_slots lg) in
     if v ! cid \<noteq> None then Inl AssertionFailed
     else Inr (lg\<lparr> lg_slots := v[cid := Some c] \<rparr>))"

definition list_erase :: "64 word \<Rightarrow> 'g lounge_scheme \<Rightarrow> 'g lounge_scheme result" where
  "list_erase cid lg =
    (if \<not> unat cid < length (lg_slots lg) then Inl AssertionFailed
     else Inr (lg\<lparr> lg_slots := (lg_slots lg)[unat cid := None] \<rparr>))"

text \<open>The constructors of \<open>channel\<close>: with a reserved id, or with a fresh one.\<close>

definition new_channel_reserved ::
  "64 word \<Rightarrow> string \<Rightarrow> channel_kind \<Rightarrow> 'g lounge_scheme \<Rightarrow> channel \<times> 'g lounge_scheme" where
  "new_channel_reserved cid name k lg =
    (let (u, lg1) = next_uid lg in
     (\<lparr> ch_uid = u, ch_cid = cid, ch_name = name, ch_kind = k, ch_sessions = [] \<rparr>, lg1))"

definition new_channel ::
  "string \<Rightarrow> channel_kind \<Rightarrow> 'g lounge_scheme \<Rightarrow> channel \<times> 'g lounge_scheme" where
  "new_channel name k lg =
    (let (u, lg1) = next_uid lg; (c, lg2) = next_cid lg1 in
     (\<lparr> ch_uid = u, ch_cid = c, ch_name = name, ch_kind = k, ch_sessions = [] \<rparr>, lg2))"

definition make_reserved ::
  "64 word \<Rightarrow> string \<Rightarrow> channel_kind \<Rightarrow> 'g lounge_scheme \<Rightarrow> 'g lounge_scheme result" where
  "make_reserved cid name k lg = (let (c, lg1) = new_channel_reserved cid name k lg in list_insert c lg1)"

definition make_room :: "string \<Rightarrow> 'g lounge_scheme \<Rightarrow> 'g lounge_scheme result" where
  "make_room name = make_reserved 2 name RoomChannel"

definition make_system_channel :: "'g lounge_scheme \<Rightarrow> 'g lounge_scheme result" where
  "make_system_channel = make_reserved 1 ''System'' SystemChannel"

text \<open>The constructor of \<open>channel_list_impl\<close>: element 0 unused, the room General.\<close>

definition init_channel_list :: "'g lounge_scheme \<Rightarrow> 'g lounge_scheme result" where
  "init_channel_list lg =
     make_room ''General'' (lg\<lparr> lg_slots := [None], lg_next_uid := 1000, lg_next_cid := 1000 \<rparr>)"

text \<open>The destructor of a channel.\<close>

definition destroy_channel :: "64 word \<Rightarrow> 'g lounge_scheme \<Rightarrow> 'g lounge_scheme result" where
  "destroy_channel cid lg = (case chan_at cid lg of
     None \<Rightarrow> Inl UndefinedBehaviour
   | Some c \<Rightarrow> if ch_sessions c \<noteq> [] then Inl AssertionFailed else list_erase cid lg)"

section \<open>Sessions of a channel\<close>

definition sessions_of :: "64 word \<Rightarrow> 'g lounge_scheme \<Rightarrow> nat list" where
  "sessions_of cid lg = (case chan_at cid lg of None \<Rightarrow> [] | Some c \<Rightarrow> ch_sessions c)"

definition name_of :: "64 word \<Rightarrow> 'g lounge_scheme \<Rightarrow> string" where
  "name_of cid lg = (case chan_at cid lg of None \<Rightarrow> [] | Some c \<Rightarrow> ch_name c)"

definition set_sessions :: "64 word \<Rightarrow> nat list \<Rightarrow> 'g lounge_scheme \<Rightarrow> 'g lounge_scheme" where
  "set_sessions cid xs lg = (case chan_at cid lg of
     None \<Rightarrow> lg
   | Some c \<Rightarrow> lg\<lparr> lg_slots := (lg_slots lg)[unat cid := Some (c\<lparr> ch_sessions := xs \<rparr>)] \<rparr>)"

definition is_joined :: "64 word \<Rightarrow> nat \<Rightarrow> 'g lounge_scheme \<Rightarrow> bool" where
  "is_joined cid s lg = (s \<in> set (sessions_of cid lg))"

text \<open>\<open>ws_session_t::send\<close> drops the message when the object no longer owns its connection.\<close>

definition session_send :: "nat \<Rightarrow> json \<Rightarrow> 'g lounge_scheme \<Rightarrow> 'g lounge_scheme" where
  "session_send s j lg = (if lg_attached lg s then lg\<lparr> lg_sent := lg_sent lg @ [(s, j)] \<rparr> else lg)"

definition chan_send :: "64 word \<Rightarrow> json \<Rightarrow> 'g lounge_scheme \<Rightarrow> 'g lounge_scheme" where
  "chan_send cid j lg = fold (\<lambda>s. session_send s j) (sessions_of cid lg) lg"

definition event_json :: "string \<Rightarrow> 64 word \<Rightarrow> nat \<Rightarrow> 'g lounge_scheme \<Rightarrow> json" where
  "event_json verb cid s lg = JObj [(''cid'', JInt (uint cid)), (''verb'', JStr verb),
     (''name'', JStr (name_of cid lg)), (''user'', JStr (lg_name lg s))]"

section \<open>Virtual functions\<close>

record 's channel_vtable =
  vt_on_insert :: "64 word \<Rightarrow> nat \<Rightarrow> 's \<Rightarrow> 's"
  vt_on_erase :: "64 word \<Rightarrow> nat \<Rightarrow> 's \<Rightarrow> 's"
  vt_on_dispatch :: "64 word \<Rightarrow> rpc_call \<Rightarrow> nat \<Rightarrow> 's \<Rightarrow> 's \<times> unit handler"

definition chan_insert ::
  "'g lounge_scheme channel_vtable \<Rightarrow> 64 word \<Rightarrow> nat \<Rightarrow> 'g lounge_scheme \<Rightarrow> bool \<times> 'g lounge_scheme" where
  "chan_insert vt cid s lg =
    (if is_joined cid s lg then (False, lg)
     else (let lg1 = set_sessions cid (insort s (sessions_of cid lg)) lg;
               lg2 = chan_send cid (event_json ''join'' cid s lg1) lg1
           in (True, vt_on_insert vt cid s lg2)))"

definition chan_erase ::
  "'g lounge_scheme channel_vtable \<Rightarrow> 64 word \<Rightarrow> nat \<Rightarrow> 'g lounge_scheme \<Rightarrow> bool \<times> 'g lounge_scheme" where
  "chan_erase vt cid s lg =
    (if \<not> is_joined cid s lg then (False, lg)
     else (let lg1 = set_sessions cid (remove1 s (sessions_of cid lg)) lg;
               j = event_json ''leave'' cid s lg1;
               lg2 = session_send s j (chan_send cid j lg1)
           in (True, vt_on_erase vt cid s lg2)))"

definition reply :: "rpc_call \<Rightarrow> nat \<Rightarrow> 'g lounge_scheme \<Rightarrow> 'g lounge_scheme" where
  "reply rpc s lg = (case complete rpc of None \<Rightarrow> lg | Some j \<Rightarrow> session_send s j lg)"

definition do_join ::
  "'g lounge_scheme channel_vtable \<Rightarrow> 64 word \<Rightarrow> rpc_call \<Rightarrow> nat \<Rightarrow> 'g lounge_scheme
    \<Rightarrow> 'g lounge_scheme \<times> unit handler" where
  "do_join vt cid rpc s lg =
    (if lg_name lg s = [] then (lg, rpc_fail ''1'')
     else (case chan_insert vt cid s lg of
       (False, lg1) \<Rightarrow> (lg1, rpc_fail ''Already in channel'')
     | (True, lg1) \<Rightarrow> (reply rpc s lg1, Inr ())))"

definition do_leave ::
  "'g lounge_scheme channel_vtable \<Rightarrow> 64 word \<Rightarrow> rpc_call \<Rightarrow> nat \<Rightarrow> 'g lounge_scheme
    \<Rightarrow> 'g lounge_scheme \<times> unit handler" where
  "do_leave vt cid rpc s lg =
    (case chan_erase vt cid s lg of
       (False, lg1) \<Rightarrow> (lg1, rpc_fail ''Not in channel'')
     | (True, lg1) \<Rightarrow> (reply rpc s lg1, Inr ()))"

definition chan_dispatch ::
  "'g lounge_scheme channel_vtable \<Rightarrow> 64 word \<Rightarrow> rpc_call \<Rightarrow> nat \<Rightarrow> 'g lounge_scheme
    \<Rightarrow> 'g lounge_scheme \<times> unit handler" where
  "chan_dispatch vt cid rpc s lg =
    (if rpc_method rpc = ''join'' then do_join vt cid rpc s lg
     else if rpc_method rpc = ''leave'' then do_leave vt cid rpc s lg
     else vt_on_dispatch vt cid rpc s lg)"

section \<open>Rooms\<close>

definition do_say ::
  "64 word \<Rightarrow> rpc_call \<Rightarrow> nat \<Rightarrow> 'g lounge_scheme \<Rightarrow> 'g lounge_scheme \<times> unit handler" where
  "do_say cid rpc s lg =
    (if lg_name lg s = [] then (lg, rpc_fail ''1'')
     else if \<not> is_joined cid s lg then (lg, rpc_fail ''not in channel'')
     else (case checked_string ''message'' (rpc_params rpc) of
       Inl e \<Rightarrow> (lg, Inl e)
     | Inr text \<Rightarrow>
        (let j = JObj [(''verb'', JStr ''say''), (''cid'', JInt (uint cid)),
                  (''name'', JStr (name_of cid lg)), (''user'', JStr (lg_name lg s)),
                  (''message'', JStr text)]
         in (reply rpc s (chan_send cid j lg), Inr ()))))"

definition do_slash ::
  "64 word \<Rightarrow> rpc_call \<Rightarrow> nat \<Rightarrow> 'g lounge_scheme \<Rightarrow> 'g lounge_scheme \<times> unit handler" where
  "do_slash cid rpc s lg =
    (if lg_name lg s = [] then (lg, rpc_fail ''1'') else (lg, rpc_fail ''Unimplemented''))"

text \<open>The method \<open>slash\<close> is dispatched to \<open>do_say\<close>; \<open>do_slash\<close> is never called.\<close>

definition room_on_dispatch ::
  "64 word \<Rightarrow> rpc_call \<Rightarrow> nat \<Rightarrow> 'g lounge_scheme \<Rightarrow> 'g lounge_scheme \<times> unit handler" where
  "room_on_dispatch cid rpc s lg =
    (if rpc_method rpc = ''say'' then do_say cid rpc s lg
     else if rpc_method rpc = ''slash'' then do_say cid rpc s lg
     else (lg, rpc_fail_code method_not_found))"

definition room_vtable :: "'g lounge_scheme channel_vtable" where
  "room_vtable = \<lparr> vt_on_insert = (\<lambda>_ _ lg. lg), vt_on_erase = (\<lambda>_ _ lg. lg),
     vt_on_dispatch = room_on_dispatch \<rparr>"

section \<open>The system channel\<close>

definition do_identify ::
  "'g lounge_scheme channel_vtable \<Rightarrow> 64 word \<Rightarrow> rpc_call \<Rightarrow> nat \<Rightarrow> 'g lounge_scheme
    \<Rightarrow> 'g lounge_scheme \<times> unit handler" where
  "do_identify vt cid rpc s lg =
    (case checked_string ''name'' (rpc_params rpc) of
       Inl e \<Rightarrow> (lg, Inl e)
     | Inr name \<Rightarrow>
        if 20 < length name then (lg, rpc_fail ''Invalid \"name\": too long'')
        else if lg_name lg s \<noteq> [] then (lg, rpc_fail ''Identity is already set'')
        else (let lg1 = lg\<lparr> lg_name := (lg_name lg)(s := name) \<rparr>;
                  lg2 = snd (chan_insert vt cid s lg1)
              in (reply rpc s lg2, Inr ())))"

definition do_shutdown :: "rpc_call \<Rightarrow> nat \<Rightarrow> 'g lounge_scheme \<Rightarrow> 'g lounge_scheme \<times> unit handler" where
  "do_shutdown rpc s lg = (reply rpc s (lg\<lparr> lg_app := lg_app lg @ [AppShutdown 30] \<rparr>), Inr ())"

definition do_stop :: "rpc_call \<Rightarrow> nat \<Rightarrow> 'g lounge_scheme \<Rightarrow> 'g lounge_scheme \<times> unit handler" where
  "do_stop rpc s lg = (reply rpc s (lg\<lparr> lg_app := lg_app lg @ [AppStop] \<rparr>), Inr ())"

definition system_base :: "'g lounge_scheme channel_vtable" where
  "system_base = \<lparr> vt_on_insert = (\<lambda>_ _ lg. lg), vt_on_erase = (\<lambda>_ _ lg. lg),
     vt_on_dispatch = (\<lambda>_ _ _ lg. (lg, rpc_fail_code method_not_found)) \<rparr>"

definition system_on_dispatch ::
  "64 word \<Rightarrow> rpc_call \<Rightarrow> nat \<Rightarrow> 'g lounge_scheme \<Rightarrow> 'g lounge_scheme \<times> unit handler" where
  "system_on_dispatch cid rpc s lg =
    (if rpc_method rpc = ''identify'' then do_identify system_base cid rpc s lg
     else if rpc_method rpc = ''shutdown'' then do_shutdown rpc s lg
     else if rpc_method rpc = ''stop'' then do_stop rpc s lg
     else (lg, rpc_fail_code method_not_found))"

definition system_vtable :: "'g lounge_scheme channel_vtable" where
  "system_vtable = system_base\<lparr> vt_on_dispatch := system_on_dispatch \<rparr>"

section \<open>Dispatch by channel id\<close>

definition list_dispatch ::
  "json_lib \<Rightarrow> (channel_kind \<Rightarrow> 'g lounge_scheme channel_vtable) \<Rightarrow> nat \<Rightarrow> rpc_call
    \<Rightarrow> 'g lounge_scheme \<Rightarrow> 'g lounge_scheme \<times> unit handler" where
  "list_dispatch l vts s rpc lg =
    (case checked_value ''cid'' (rpc_params rpc) of
       Inl e \<Rightarrow> (lg, Inl e)
     | Inr v \<Rightarrow>
        (case jl_size l v of
           None \<Rightarrow> (lg, Inl (OtherExn TypeError))
         | Some cid \<Rightarrow>
            (case chan_at cid lg of
               None \<Rightarrow> (lg, Inl (RpcFail (rpc_error_msg invalid_params ''Unknown cid'')))
             | Some c \<Rightarrow> chan_dispatch (vts (ch_kind c)) cid rpc s lg)))"

lemmas [chan_defs] = chan_at_def sessions_of_def set_sessions_def is_joined_def session_send_def
  chan_send_def chan_insert_def chan_erase_def do_join_def do_leave_def chan_dispatch_def
  do_say_def room_on_dispatch_def room_vtable_def do_identify_def do_shutdown_def do_stop_def
  system_base_def system_on_dispatch_def system_vtable_def


section \<open>Facts\<close>

text \<open>Every channel sits in the slot of its id and its session set is sorted without
  repetitions.\<close>

definition lounge_inv :: "'g lounge_scheme \<Rightarrow> bool" where
  "lounge_inv lg \<longleftrightarrow> (\<forall>cid c. chan_at cid lg = Some c \<longrightarrow>
     ch_cid c = cid \<and> sorted (ch_sessions c) \<and> distinct (ch_sessions c))"

lemma chan_at_slots: "lg_slots lg' = lg_slots lg \<Longrightarrow> chan_at cid lg' = chan_at cid lg"
  for lg :: "'g lounge_scheme" and lg' :: "'h lounge_scheme"
  by (simp add: chan_at_def)

lemma session_send_frame [simp]:
  "lg_slots (session_send s j lg) = lg_slots lg" "lg_name (session_send s j lg) = lg_name lg"
  "lg_attached (session_send s j lg) = lg_attached lg" "lg_app (session_send s j lg) = lg_app lg"
  by (simp_all add: session_send_def)

lemma session_send_chan [simp]:
  "chan_at cid (session_send s j lg) = chan_at cid lg"
  "sessions_of cid (session_send s j lg) = sessions_of cid lg"
  by (simp_all add: chan_at_def sessions_of_def)

lemma fold_send_frame:
  "lg_slots (fold (\<lambda>s. session_send s j) xs lg) = lg_slots lg \<and>
   lg_name (fold (\<lambda>s. session_send s j) xs lg) = lg_name lg \<and>
   lg_attached (fold (\<lambda>s. session_send s j) xs lg) = lg_attached lg \<and>
   lg_app (fold (\<lambda>s. session_send s j) xs lg) = lg_app lg \<and>
   lg_sent (fold (\<lambda>s. session_send s j) xs lg)
     = lg_sent lg @ map (\<lambda>s. (s, j)) (filter (lg_attached lg) xs)"
  by (induction xs arbitrary: lg) (auto simp: session_send_def)

lemma chan_send_frame [simp]:
  "lg_slots (chan_send cid j lg) = lg_slots lg" "lg_name (chan_send cid j lg) = lg_name lg"
  "lg_attached (chan_send cid j lg) = lg_attached lg" "lg_app (chan_send cid j lg) = lg_app lg"
  "lg_sent (chan_send cid j lg)
     = lg_sent lg @ map (\<lambda>s. (s, j)) (filter (lg_attached lg) (sessions_of cid lg))"
  by (simp_all add: chan_send_def fold_send_frame)

lemma chan_send_chan [simp]:
  "chan_at cid' (chan_send cid j lg) = chan_at cid' lg"
  "sessions_of cid' (chan_send cid j lg) = sessions_of cid' lg"
  by (simp_all add: chan_at_def sessions_of_def)

lemma reply_frame [simp]:
  "lg_slots (reply rpc s lg) = lg_slots lg" "lg_name (reply rpc s lg) = lg_name lg"
  "lg_attached (reply rpc s lg) = lg_attached lg" "lg_app (reply rpc s lg) = lg_app lg"
  "chan_at cid (reply rpc s lg) = chan_at cid lg"
  "sessions_of cid (reply rpc s lg) = sessions_of cid lg"
  by (simp_all add: reply_def split: option.split)

lemma chan_at_set_sessions [simp]:
  "chan_at cid' (set_sessions cid xs lg) =
    (if cid' = cid then map_option (\<lambda>c. c\<lparr> ch_sessions := xs \<rparr>) (chan_at cid lg)
     else chan_at cid' lg)"
  by (auto simp: set_sessions_def chan_at_def nth_list_update word_unat_eq_iff split: option.split)

lemma set_sessions_frame [simp]:
  "lg_name (set_sessions cid xs lg) = lg_name lg" "lg_app (set_sessions cid xs lg) = lg_app lg"
  "lg_attached (set_sessions cid xs lg) = lg_attached lg"
  "lg_sent (set_sessions cid xs lg) = lg_sent lg"
  by (simp_all add: set_sessions_def split: option.split)

lemma sessions_of_set [simp]:
  "chan_at cid lg \<noteq> None \<Longrightarrow> sessions_of cid (set_sessions cid xs lg) = xs"
  "cid' \<noteq> cid \<Longrightarrow> sessions_of cid' (set_sessions cid xs lg) = sessions_of cid' lg"
  by (auto simp: sessions_of_def split: option.split)

lemma lounge_inv_slots: "lg_slots lg' = lg_slots lg \<Longrightarrow> lounge_inv lg' = lounge_inv lg"
  for lg :: "'g lounge_scheme" and lg' :: "'h lounge_scheme"
  by (simp add: lounge_inv_def chan_at_def)

lemma lounge_inv_sessions:
  "lounge_inv lg \<Longrightarrow> sorted (sessions_of cid lg) \<and> distinct (sessions_of cid lg)"
  by (auto simp: lounge_inv_def sessions_of_def split: option.split)

lemma lounge_inv_set_sessions:
  "lounge_inv lg \<Longrightarrow> sorted xs \<Longrightarrow> distinct xs \<Longrightarrow> lounge_inv (set_sessions cid xs lg)"
  by (auto simp: lounge_inv_def split: if_splits)

text \<open>A hook that leaves the channel list and the users alone.\<close>

definition quiet_vtable :: "'g lounge_scheme channel_vtable \<Rightarrow> bool" where
  "quiet_vtable vt \<longleftrightarrow> (\<forall>cid s lg.
     lg_slots (vt_on_insert vt cid s lg) = lg_slots lg \<and>
     lg_name (vt_on_insert vt cid s lg) = lg_name lg \<and>
     lg_slots (vt_on_erase vt cid s lg) = lg_slots lg \<and>
     lg_name (vt_on_erase vt cid s lg) = lg_name lg)"

lemma quiet_room [simp]: "quiet_vtable room_vtable" "quiet_vtable system_base"
  "quiet_vtable system_vtable"
  by (simp_all add: quiet_vtable_def room_vtable_def system_base_def system_vtable_def)

lemma slots_insert:
  "quiet_vtable vt \<Longrightarrow> lg_slots (snd (chan_insert vt cid s lg)) =
     lg_slots (if is_joined cid s lg then lg else set_sessions cid (insort s (sessions_of cid lg)) lg)"
  by (simp add: chan_insert_def Let_def quiet_vtable_def)

lemma slots_erase:
  "quiet_vtable vt \<Longrightarrow> lg_slots (snd (chan_erase vt cid s lg)) =
     lg_slots (if is_joined cid s lg then set_sessions cid (remove1 s (sessions_of cid lg)) lg else lg)"
  by (simp add: chan_erase_def Let_def quiet_vtable_def)

lemma sessions_of_slots: "lg_slots lg' = lg_slots lg \<Longrightarrow> sessions_of cid lg' = sessions_of cid lg"
  for lg :: "'g lounge_scheme" and lg' :: "'h lounge_scheme"
  by (simp add: sessions_of_def chan_at_def)

lemma lounge_inv_insert:
  "quiet_vtable vt \<Longrightarrow> lounge_inv lg \<Longrightarrow> lounge_inv (snd (chan_insert vt cid s lg))"
  using lounge_inv_sessions [of lg cid]
  by (subst lounge_inv_slots [OF slots_insert])
    (auto simp: is_joined_def distinct_insort sorted_insort intro!: lounge_inv_set_sessions)

lemma lounge_inv_erase:
  "quiet_vtable vt \<Longrightarrow> lounge_inv lg \<Longrightarrow> lounge_inv (snd (chan_erase vt cid s lg))"
  using lounge_inv_sessions [of lg cid]
  by (subst lounge_inv_slots [OF slots_erase])
    (auto simp: sorted_remove1 intro!: lounge_inv_set_sessions)

lemma sessions_insert:
  "quiet_vtable vt \<Longrightarrow> chan_at cid lg \<noteq> None \<Longrightarrow>
   sessions_of cid (snd (chan_insert vt cid s lg)) =
     (if is_joined cid s lg then sessions_of cid lg else insort s (sessions_of cid lg))"
  by (subst sessions_of_slots [OF slots_insert]) auto

lemma sessions_erase:
  "quiet_vtable vt \<Longrightarrow> chan_at cid lg \<noteq> None \<Longrightarrow>
   sessions_of cid (snd (chan_erase vt cid s lg)) = remove1 s (sessions_of cid lg)"
  by (subst sessions_of_slots [OF slots_erase]) (auto simp: is_joined_def remove1_idem)

lemma chan_exists_insert:
  "quiet_vtable vt \<Longrightarrow> chan_at cid' (snd (chan_insert vt cid s lg)) = None \<longleftrightarrow> chan_at cid' lg = None"
  by (subst chan_at_slots [OF slots_insert]) auto

lemma chan_exists_erase:
  "quiet_vtable vt \<Longrightarrow> chan_at cid' (snd (chan_erase vt cid s lg)) = None \<longleftrightarrow> chan_at cid' lg = None"
  by (subst chan_at_slots [OF slots_erase]) auto

interpretation room: session_set
  "\<lambda>lg. lounge_inv lg \<and> chan_at cid lg \<noteq> None" "\<lambda>lg. set (sessions_of cid lg)"
  "chan_insert room_vtable cid" "chan_erase room_vtable cid"
  for cid :: "64 word"
proof unfold_locales
  fix lg x
  assume i: "lounge_inv lg \<and> chan_at cid lg \<noteq> None"
  show "lounge_inv (snd (chan_insert room_vtable cid x lg)) \<and>
      chan_at cid (snd (chan_insert room_vtable cid x lg)) \<noteq> None"
    using i by (simp add: lounge_inv_insert chan_exists_insert)
  show "lounge_inv (snd (chan_erase room_vtable cid x lg)) \<and>
      chan_at cid (snd (chan_erase room_vtable cid x lg)) \<noteq> None"
    using i by (simp add: lounge_inv_erase chan_exists_erase)
  show "set (sessions_of cid (snd (chan_insert room_vtable cid x lg)))
      = insert x (set (sessions_of cid lg))"
    using i by (auto simp: sessions_insert set_insort_key is_joined_def)
  show "set (sessions_of cid (snd (chan_erase room_vtable cid x lg)))
      = set (sessions_of cid lg) - {x}"
    using i lounge_inv_sessions [of lg cid] by (simp add: sessions_erase)
qed (auto simp: chan_insert_def chan_erase_def is_joined_def Let_def)


lemma event_json_set_sessions [simp]:
  "event_json v cid s (set_sessions cid' xs lg) = event_json v cid s lg"
  by (simp add: event_json_def name_of_def split: option.split)

lemma reply_sent:
  "lg_sent (reply rpc s lg) = lg_sent lg @
     (case complete rpc of None \<Rightarrow> [] | Some j \<Rightarrow> if lg_attached lg s then [(s, j)] else [])"
  by (simp add: reply_def session_send_def split: option.split)

section \<open>Sequences of requests\<close>

text \<open>The two channels without game state.\<close>

definition lobby_vtable :: "channel_kind \<Rightarrow> 'g lounge_scheme channel_vtable" where
  "lobby_vtable k = (if k = SystemChannel then system_vtable else room_vtable)"

fun run_requests ::
  "json_lib \<Rightarrow> (channel_kind \<Rightarrow> 'g lounge_scheme channel_vtable) \<Rightarrow> (nat \<times> rpc_call) list
    \<Rightarrow> 'g lounge_scheme \<Rightarrow> 'g lounge_scheme" where
  "run_requests l vts [] lg = lg"
| "run_requests l vts ((s, rpc) # rs) lg = run_requests l vts rs (fst (list_dispatch l vts s rpc lg))"

definition named_step :: "nat \<Rightarrow> 'g lounge_scheme \<Rightarrow> 'g lounge_scheme \<Rightarrow> bool" where
  "named_step s lg lg' \<longleftrightarrow> (\<forall>t. lg_name lg' t = lg_name lg t \<or>
     (t = s \<and> lg_name lg t = [] \<and> length (lg_name lg' t) \<le> 20))"

text \<open>What one request may do: name its own unnamed user, and keep the channels well formed.\<close>

definition lobby_step :: "nat \<Rightarrow> 'g lounge_scheme \<Rightarrow> 'g lounge_scheme \<Rightarrow> bool" where
  "lobby_step s lg lg' \<longleftrightarrow> named_step s lg lg' \<and> (lounge_inv lg \<longrightarrow> lounge_inv lg')"

lemma lobby_step_same [simp]:
  "lg_slots lg' = lg_slots lg \<Longrightarrow> lg_name lg' = lg_name lg \<Longrightarrow> lobby_step s lg lg'"
  using lounge_inv_slots [of lg' lg] by (simp add: lobby_step_def named_step_def)

lemma chan_insert_name:
  "quiet_vtable vt \<Longrightarrow> lg_name (snd (chan_insert vt cid s lg)) = lg_name lg"
  by (simp add: chan_insert_def Let_def quiet_vtable_def)

lemma chan_erase_name:
  "quiet_vtable vt \<Longrightarrow> lg_name (snd (chan_erase vt cid s lg)) = lg_name lg"
  by (simp add: chan_erase_def Let_def quiet_vtable_def)

lemma do_join_step:
  assumes "quiet_vtable vt"
  shows "lobby_step s lg (fst (do_join vt cid rpc s lg))"
proof -
  have "named_step s lg (snd (chan_insert vt cid s lg))"
    using assms by (simp add: named_step_def chan_insert_name)
  then have "lobby_step s lg (snd (chan_insert vt cid s lg))"
    using assms by (simp add: lobby_step_def lounge_inv_insert)
  then show ?thesis
    by (auto simp: do_join_def lobby_step_def named_step_def lounge_inv_slots [of "reply _ _ _"]
        split: prod.split bool.split)
qed

lemma do_leave_step:
  assumes "quiet_vtable vt"
  shows "lobby_step s lg (fst (do_leave vt cid rpc s lg))"
proof -
  have "lobby_step s lg (snd (chan_erase vt cid s lg))"
    using assms by (simp add: lobby_step_def named_step_def chan_erase_name lounge_inv_erase)
  then show ?thesis
    by (auto simp: do_leave_def lobby_step_def named_step_def lounge_inv_slots [of "reply _ _ _"]
        split: prod.split bool.split)
qed

lemma do_say_step: "lobby_step s lg (fst (do_say cid rpc s lg))"
  by (simp add: do_say_def Let_def split: sum.split)

lemma do_identify_step:
  assumes "quiet_vtable vt"
  shows "lobby_step s lg (fst (do_identify vt cid rpc s lg))"
proof -
  have "lounge_inv lg \<Longrightarrow> lounge_inv (snd (chan_insert vt cid s (lg\<lparr> lg_name := f \<rparr>)))" for f
    using assms by (simp add: lounge_inv_insert lounge_inv_slots [of "lg\<lparr> lg_name := f \<rparr>" lg])
  then show ?thesis
    using assms by (auto simp: do_identify_def lobby_step_def named_step_def Let_def
        chan_insert_name lounge_inv_slots [of "reply _ _ _"] split: sum.split)
qed

lemma on_dispatch_simps [simp]:
  "vt_on_dispatch room_vtable = room_on_dispatch"
  "vt_on_dispatch system_vtable = system_on_dispatch"
  by (simp_all add: room_vtable_def system_vtable_def)

lemma lobby_quiet [simp]: "quiet_vtable (lobby_vtable k)"
  by (simp add: lobby_vtable_def)

lemma lobby_on_dispatch_step: "lobby_step s lg (fst (vt_on_dispatch (lobby_vtable k) cid rpc s lg))"
  by (simp add: lobby_vtable_def room_on_dispatch_def system_on_dispatch_def do_say_step
      do_identify_step do_shutdown_def do_stop_def)

lemma lobby_dispatch_step: "lobby_step s lg (fst (chan_dispatch (lobby_vtable k) cid rpc s lg))"
  by (simp add: chan_dispatch_def do_join_step do_leave_step lobby_on_dispatch_step)

lemma list_dispatch_step: "lobby_step s lg (fst (list_dispatch l lobby_vtable s rpc lg))"
  by (simp add: list_dispatch_def lobby_dispatch_step split: sum.split option.split)

lemma run_requests_inv:
  assumes "lounge_inv lg" and "\<forall>t. length (lg_name lg t) \<le> 20"
  shows "lounge_inv (run_requests l lobby_vtable rs lg) \<and>
    (\<forall>t. length (lg_name (run_requests l lobby_vtable rs lg) t) \<le> 20) \<and>
    (\<forall>t. lg_name lg t \<noteq> [] \<longrightarrow> lg_name (run_requests l lobby_vtable rs lg) t = lg_name lg t)"
  using assms
proof (induction rs arbitrary: lg)
  case (Cons r rs)
  obtain s rpc where r: "r = (s, rpc)" by (cases r)
  define lg1 where "lg1 = fst (list_dispatch l lobby_vtable s rpc lg)"
  have st: "lobby_step s lg lg1" by (simp add: lg1_def list_dispatch_step)
  then have i: "lounge_inv lg1" and n: "named_step s lg lg1"
    using Cons.prems by (simp_all add: lobby_step_def)
  have len: "\<forall>t. length (lg_name lg1 t) \<le> 20"
    using n Cons.prems(2) by (metis named_step_def)
  have keep: "lg_name lg t \<noteq> [] \<Longrightarrow> lg_name lg1 t = lg_name lg t" for t
    using n by (auto simp: named_step_def)
  show ?case
    using Cons.IH [OF i len] keep by (simp add: r lg1_def)
qed simp

section \<open>Properties\<close>

definition sample_lounge :: lounge where
  "sample_lounge = \<lparr> lg_slots = [None,
       Some \<lparr> ch_uid = 1002, ch_cid = 1, ch_name = ''System'', ch_kind = SystemChannel, ch_sessions = [] \<rparr>,
       Some \<lparr> ch_uid = 1001, ch_cid = 2, ch_name = ''General'', ch_kind = RoomChannel, ch_sessions = [4] \<rparr>],
     lg_next_uid = 1002, lg_next_cid = 1000,
     lg_name = (\<lambda>s. if s = 4 then ''ann'' else if s = 9 then ''bob'' else []),
     lg_attached = (\<lambda>_. True), lg_sent = [], lg_app = [] \<rparr>"

lemma sample_lounge_inv [simp]: "lounge_inv sample_lounge"
  by (auto simp: lounge_inv_def chan_at_def sample_lounge_def nth_Cons word_unat_eq_iff
      split: if_splits nat.splits)

lemma sample_lounge_simps [simp]:
  "chan_at 2 sample_lounge = Some \<lparr> ch_uid = 1001, ch_cid = 2, ch_name = ''General'',
     ch_kind = RoomChannel, ch_sessions = [4] \<rparr>"
  "sessions_of 2 sample_lounge = [4]" "lg_name sample_lounge 4 = ''ann''"
  "lg_name sample_lounge 9 = ''bob''" "lg_name sample_lounge 7 = []"
  by (simp_all add: chan_at_def sessions_of_def sample_lounge_def)

text \<open>Joining a room: a named user who is not a member becomes one, every member of the room,
  the new one included, is told once, the client is answered with its request id, and no other
  channel changes; a user who is already a member gets an error and nothing changes.\<close>

theorem room_join:
  assumes "lounge_inv lg" and "chan_at cid lg \<noteq> None" and "lg_name lg s \<noteq> []"
    and "rpc_id rpc = Some i"
  shows "do_join room_vtable cid rpc s lg =
      (if is_joined cid s lg then (lg, rpc_fail ''Already in channel'')
       else (fst (do_join room_vtable cid rpc s lg), Inr ())) \<and>
    (\<not> is_joined cid s lg \<longrightarrow>
      set (sessions_of cid (fst (do_join room_vtable cid rpc s lg))) = insert s (set (sessions_of cid lg)) \<and>
      (\<forall>cid'. cid' \<noteq> cid \<longrightarrow>
        sessions_of cid' (fst (do_join room_vtable cid rpc s lg)) = sessions_of cid' lg) \<and>
      lg_sent (fst (do_join room_vtable cid rpc s lg)) = lg_sent lg @
        map (\<lambda>m. (m, event_json ''join'' cid s lg))
          (filter (lg_attached lg) (insort s (sessions_of cid lg))) @
        (if lg_attached lg s then [(s, JObj [(''id'', JInt i), (''result'', rpc_result rpc)])] else []))"
  using assms
  by (auto simp: do_join_def chan_insert_def room_vtable_def Let_def reply_sent complete_def
      set_insort_key)

theorem room_join_witness:
  "\<exists>lg'. do_join room_vtable 2 (new_rpc_call\<lparr> rpc_id := Some 5 \<rparr>) 9 sample_lounge = (lg', Inr ()) \<and>
    set (sessions_of 2 lg') = {4, 9}"
proof -
  have "\<not> is_joined 2 9 sample_lounge" by (simp add: is_joined_def)
  then show ?thesis
    using room_join [of sample_lounge 2 9 "new_rpc_call\<lparr> rpc_id := Some 5 \<rparr>" 5]
    by (intro exI [of _ "fst (do_join room_vtable 2 (new_rpc_call\<lparr> rpc_id := Some 5 \<rparr>) 9 sample_lounge)"])
      auto
qed

text \<open>C31: Only members speak: whatever request reaches a room other than join and leave, the state
  changes only if the sender is named and a member of that room; then every member of the room
  and nobody else receives the text once, under the sender's name, and membership is unchanged.\<close>

theorem room_say_members_only:
  assumes "room_on_dispatch cid rpc s lg = (lg', r)" and "lg' \<noteq> lg"
  shows "is_joined cid s lg \<and> lg_name lg s \<noteq> [] \<and> r = Inr () \<and>
    lg_slots lg' = lg_slots lg \<and>
    (\<exists>text. checked_string ''message'' (rpc_params rpc) = Inr text \<and>
      lg_sent lg' = lg_sent lg @
        map (\<lambda>m. (m, JObj [(''verb'', JStr ''say''), (''cid'', JInt (uint cid)),
            (''name'', JStr (name_of cid lg)), (''user'', JStr (lg_name lg s)),
            (''message'', JStr text)]))
          (filter (lg_attached lg) (sessions_of cid lg)) @
        (case complete rpc of None \<Rightarrow> [] | Some j \<Rightarrow> if lg_attached lg s then [(s, j)] else []))"
  using assms
  by (auto simp: room_on_dispatch_def do_say_def Let_def reply_sent rpc_fail_def rpc_fail_code_def
      split: if_splits sum.splits option.splits)

definition sample_say :: rpc_call where
  "sample_say = new_rpc_call\<lparr> rpc_id := Some 5, rpc_method := ''say'',
     rpc_params := JObj [(''cid'', JInt 2), (''message'', JStr ''hi'')] \<rparr>"

theorem room_say_members_only_witness:
  "is_joined 2 4 sample_lounge \<and> lg_name sample_lounge 4 \<noteq> []"
proof -
  obtain lg' r where d: "room_on_dispatch 2 sample_say 4 sample_lounge = (lg', r)" by fastforce
  have "length (lg_sent lg') = 2"
    using d by (auto simp: room_on_dispatch_def do_say_def sample_say_def new_rpc_call_def
        is_joined_def checked_string_def checked_value_def checked_object_def checked_text_def
        Let_def reply_sent complete_def) (auto simp: sample_lounge_def)
  then have "lg' \<noteq> sample_lounge" by (auto simp: sample_lounge_def)
  from room_say_members_only [OF d this] show ?thesis by blast
qed

text \<open>C32: Over any sequence of requests to the rooms and the system channel, every session set stays
  sorted without repetitions in the slot of its own id, no user name ever exceeds 20 characters,
  and a name once set is never changed.\<close>

theorem names_set_once:
  assumes "lounge_inv lg" and "\<forall>t. length (lg_name lg t) \<le> 20"
  shows "lounge_inv (run_requests l lobby_vtable rs lg) \<and>
    (\<forall>t. length (lg_name (run_requests l lobby_vtable rs lg) t) \<le> 20) \<and>
    (\<forall>t. lg_name lg t \<noteq> [] \<longrightarrow> lg_name (run_requests l lobby_vtable rs lg) t = lg_name lg t)"
  using assms by (rule run_requests_inv)

theorem names_set_once_witness:
  "lg_name (run_requests simple_json_lib lobby_vtable [(4, sample_say), (9, sample_say)] sample_lounge) 4
    = ''ann''"
proof -
  have "\<forall>t. length (lg_name sample_lounge t) \<le> 20" by (simp add: sample_lounge_def)
  from names_set_once [OF sample_lounge_inv this, of simple_json_lib "[(4, sample_say), (9, sample_say)]"]
  show ?thesis by simp
qed

text \<open>Any client can stop the server: a request for the method stop on channel 1 is carried out for
  every session, without a name, without having joined and without any permission.\<close>

theorem any_session_stops_server:
  assumes "chan_at 1 lg = Some c" and "ch_kind c = SystemChannel"
    and "rpc_method rpc = ''stop''" and "rpc_params rpc = JObj [(''cid'', JInt 1)]"
    and "json_lib_ok l"
  shows "lg_app (fst (list_dispatch l lobby_vtable s rpc lg)) = lg_app lg @ [AppStop] \<and>
    snd (list_dispatch l lobby_vtable s rpc lg) = Inr ()"
  using assms
  by (simp add: list_dispatch_def checked_value_def checked_object_def json_lib_ok_def
      chan_dispatch_def lobby_vtable_def system_on_dispatch_def do_stop_def)

theorem any_session_stops_server_witness:
  "lg_app (fst (list_dispatch simple_json_lib lobby_vtable 7
      (new_rpc_call\<lparr> rpc_method := ''stop'', rpc_params := JObj [(''cid'', JInt 1)] \<rparr>) sample_lounge))
    = lg_app sample_lounge @ [AppStop] \<and>
   snd (list_dispatch simple_json_lib lobby_vtable 7
      (new_rpc_call\<lparr> rpc_method := ''stop'', rpc_params := JObj [(''cid'', JInt 1)] \<rparr>) sample_lounge) = Inr ()"
  by (rule any_session_stops_server [of _ "the (chan_at 1 sample_lounge)"])
    (simp_all add: sample_lounge_def chan_at_def simple_json_lib_ok)

text \<open>Joining a room and leaving it again restores its membership, and a second join in between is
  refused without effect.\<close>

theorem room_insert_erase:
  assumes "lounge_inv lg" and "chan_at cid lg \<noteq> None" and "\<not> is_joined cid s lg"
  shows "let lg1 = snd (chan_insert room_vtable cid s lg) in
    chan_insert room_vtable cid s lg1 = (False, lg1) \<and>
    fst (chan_erase room_vtable cid s lg1) \<and>
    set (sessions_of cid (snd (chan_erase room_vtable cid s lg1))) = set (sessions_of cid lg)"
  using assms room.ins_again [of lg cid s] room.del_after_ins [of lg cid s]
  by (simp add: Let_def is_joined_def)

theorem room_insert_erase_witness:
  "let lg1 = snd (chan_insert room_vtable 2 9 sample_lounge) in
    chan_insert room_vtable 2 9 lg1 = (False, lg1) \<and>
    fst (chan_erase room_vtable 2 9 lg1) \<and>
    set (sessions_of 2 (snd (chan_erase room_vtable 2 9 lg1))) = set (sessions_of 2 sample_lounge)"
  by (rule room_insert_erase) (simp_all add: is_joined_def)

section \<open>The channels of a user\<close>

text \<open>\<open>user\<close> keeps the set of its channels, with checks that abort; channels are named by their id.\<close>

definition user_on_insert :: "64 word \<Rightarrow> 64 word list \<Rightarrow> 64 word list result" where
  "user_on_insert c cs = (if c \<in> set cs then Inl AssertionFailed else Inr (insort c cs))"

definition user_on_erase :: "64 word \<Rightarrow> 64 word list \<Rightarrow> 64 word list result" where
  "user_on_erase c cs = (if c \<in> set cs then Inr (remove1 c cs) else Inl AssertionFailed)"

text \<open>The destructor: the call that would erase an element of the set is commented out, so its loop
  leaves the set as it is.\<close>

partial_function (option) user_destroy :: "64 word list \<Rightarrow> unit option" where
  "user_destroy cs = (if cs = [] then Some () else user_destroy cs)"

lemma user_destroy_Some: "user_destroy cs = Some u \<Longrightarrow> cs = []"
  by (rule user_destroy.raw_induct [where P = "\<lambda>cs u. cs = []", rotated]) (auto split: if_splits)

text \<open>a user that is still on a channel is never destroyed: the destructor returns exactly when
  the set of channels is empty.\<close>

theorem user_destructor_returns: "user_destroy cs \<noteq> None \<longleftrightarrow> cs = []"
  using user_destroy_Some [of cs] by (auto simp: user_destroy.simps [of "[]"])

definition user_inv :: "64 word list \<Rightarrow> bool" where
  "user_inv cs \<longleftrightarrow> sorted cs \<and> distinct cs"

lemma user_set_laws:
  assumes "user_inv cs"
  shows "user_on_insert c cs = Inr cs' \<Longrightarrow> user_inv cs' \<and> set cs' = insert c (set cs)"
    and "user_on_erase c cs = Inr cs' \<Longrightarrow> user_inv cs' \<and> set cs' = set cs - {c}"
  using assms
  by (auto simp: user_inv_def user_on_insert_def user_on_erase_def sorted_insort distinct_insort
      set_insort_key sorted_remove1 split: if_splits)

lemma user_erase_insert:
  "user_inv cs \<Longrightarrow> c \<notin> set cs \<Longrightarrow> rbind (user_on_insert c cs) (user_on_erase c) = Inr cs"
  by (simp add: user_inv_def user_on_insert_def user_on_erase_def set_insort_key remove1_insort_key)

end
