(* ===== verification/Blackjack.thy ===== *)
theory Blackjack imports Channels "HOL-Library.Multiset" begin

text \<open>
  The blackjack table of \<open>ws-user.cpp\<close>: the shoe, hands, seats, the game, and the table channel
  whose handlers run as tasks posted to its strand. The random numbers of a shuffle, the bytes of
  the uninitialised \<open>chips\<close>, the addresses of the user copies that the posted handlers own and
  what a moved-from string holds are arguments. The record \<open>parlor\<close> extends the lounge by the game
  and the queue of posted tasks.
\<close>

section \<open>Shoe\<close>

record shoe =
  sh_cards :: "byte list"
  sh_pos :: nat

definition fresh_cards :: "nat \<Rightarrow> byte list" where
  "fresh_cards n = map (\<lambda>i. of_nat (1 + i mod 52)) [0..<n]"

definition swap :: "nat \<Rightarrow> nat \<Rightarrow> 'a list \<Rightarrow> 'a list" where
  "swap i j xs = xs[i := xs ! j, j := xs ! i]"

definition shuffle_swap :: "(nat \<Rightarrow> nat) \<Rightarrow> nat \<Rightarrow> byte list \<Rightarrow> byte list" where
  "shuffle_swap rnd i xs = swap i (i + rnd i mod (length xs - i)) xs"

definition shuffle :: "(nat \<Rightarrow> nat) \<Rightarrow> shoe \<Rightarrow> shoe" where
  "shuffle rnd s =
    (let n = length (sh_cards s) in
     \<lparr> sh_cards = fold (shuffle_swap rnd) [0..<n - 1] (fresh_cards n), sh_pos = 0 \<rparr>)"

definition new_shoe :: "(nat \<Rightarrow> nat) \<Rightarrow> nat \<Rightarrow> shoe" where
  "new_shoe rnd decks = shuffle rnd \<lparr> sh_cards = replicate (decks * 52) 0, sh_pos = 0 \<rparr>"

definition shoe_deal :: "(nat \<Rightarrow> nat) \<Rightarrow> shoe \<Rightarrow> byte \<times> shoe" where
  "shoe_deal rnd s =
    (let s1 = if sh_pos s = length (sh_cards s) then shuffle rnd s else s in
     (sh_cards s1 ! sh_pos s1, s1\<lparr> sh_pos := sh_pos s1 + 1 \<rparr>))"

section \<open>Hands\<close>

record hand =
  hd_cards :: "byte list"
  hd_wager :: int
  hd_busted :: bool
  hd_twenty_one :: bool
  hd_blackjack :: bool

definition empty_hand :: hand where
  "empty_hand = \<lparr> hd_cards = [], hd_wager = 0, hd_busted = False, hd_twenty_one = False,
     hd_blackjack = False \<rparr>"

definition hand_clear :: "hand \<Rightarrow> hand" where
  "hand_clear h = empty_hand"

definition card_value :: "byte \<Rightarrow> int" where
  "card_value c = (let v = 1 + (sint c - 1) mod 13 in if v > 10 then 10 else v)"

fun count_cards :: "byte list \<Rightarrow> int \<times> nat \<Rightarrow> int \<times> nat" where
  "count_cards [] (tot, aces) = (tot, aces)"
| "count_cards (c # cs) (tot, aces) =
    (if c \<noteq> 1 then count_cards cs (tot + sint c, aces)
     else count_cards cs (tot + 11, Suc aces))"

text \<open>\<open>while (total > 21 && aces--) total -= 10\<close>\<close>

fun soften :: "int \<Rightarrow> nat \<Rightarrow> int" where
  "soften tot 0 = tot"
| "soften tot (Suc a) = (if tot > 21 then soften (tot - 10) a else tot)"

definition hand_total :: "byte list \<Rightarrow> int" where
  "hand_total cs = (case count_cards cs (0, 0) of (t, a) \<Rightarrow> soften t a)"

definition hand_eval :: "hand \<Rightarrow> hand" where
  "hand_eval h = (let t = hand_total (hd_cards h) in
     h\<lparr> hd_busted := (t > 21), hd_twenty_one := (t = 21),
        hd_blackjack := (t = 21 \<and> length (hd_cards h) = 2) \<rparr>)"

definition is_finished :: "hand \<Rightarrow> bool" where
  "is_finished h = (hd_busted h \<or> hd_twenty_one h)"

text \<open>The cards are a \<open>static_string<22>\<close>, whose \<open>push_back\<close> throws when it is full.\<close>

definition hand_deal :: "(nat \<Rightarrow> nat) \<Rightarrow> shoe \<Rightarrow> hand \<Rightarrow> (hand \<times> shoe) result" where
  "hand_deal rnd s h =
    (let (c, s1) = shoe_deal rnd s in
     if 22 \<le> length (hd_cards h) then Inl (LogicError ''static_string'')
     else Inr (h\<lparr> hd_cards := hd_cards h @ [c] \<rparr>, s1))"

section \<open>Seats\<close>

datatype seat_state = SeatDealer | SeatWaiting | SeatPlaying | SeatLeaving | SeatOpen

record seat =
  se_user :: "nat option"
  se_state :: seat_state
  se_hands :: "hand list"
  se_chips :: int
  se_wager :: int

definition new_seat :: "int \<Rightarrow> seat" where
  "new_seat garbage = \<lparr> se_user = None, se_state = SeatOpen, se_hands = [empty_hand],
     se_chips = garbage, se_wager = 0 \<rparr>"

definition seat_clear :: "seat \<Rightarrow> seat" where
  "seat_clear s = s\<lparr> se_hands := (se_hands s)[0 := hand_clear (se_hands s ! 0)],
     se_wager := 0, se_chips := 1000 \<rparr>"

section \<open>Game\<close>

datatype game_state = GameWait | GamePlay

record game =
  gm_state :: game_state
  gm_shoe :: shoe
  gm_seats :: "seat list"
  gm_turn :: nat

datatype game_error = not_playing | already_playing | already_leaving | no_open_seat | no_more_bets

fun game_error_value :: "game_error \<Rightarrow> int" where
  "game_error_value not_playing = 1"
| "game_error_value already_playing = 2"
| "game_error_value already_leaving = 3"
| "game_error_value no_open_seat = 4"
| "game_error_value no_more_bets = 5"

text \<open>The texts of the category declared beside the enumeration.\<close>

fun game_error_message :: "game_error \<Rightarrow> string" where
  "game_error_message not_playing = ''Not playing''"
| "game_error_message already_playing = ''Already playing''"
| "game_error_message already_leaving = ''Already playing''"
| "game_error_message no_open_seat = ''No open seat''"
| "game_error_message no_more_bets = ''No more bets''"

text \<open>The category of the game's errors, any other number having the text of the first, and the function that
  makes an error code of one: it takes the category of Beast's HTTP errors, whose texts are Beast's.\<close>

datatype error_category = HttpErrors | BlackjackErrors

type_synonym error_code = "int \<times> error_category"

definition error_codes_name :: string where
  "error_codes_name = ''beast-lounge.blackjack''"

definition error_codes_message :: "int \<Rightarrow> string" where
  "error_codes_message ev =
    (if ev = 2 then ''Already playing'' else if ev = 3 then ''Already playing''
     else if ev = 4 then ''No open seat'' else if ev = 5 then ''No more bets'' else ''Not playing'')"

definition default_error_condition :: "int \<Rightarrow> error_code" where
  "default_error_condition ev = (ev, BlackjackErrors)"

definition make_error_code :: "game_error \<Rightarrow> error_code" where
  "make_error_code e = (game_error_value e, HttpErrors)"

definition error_text :: "(int \<Rightarrow> string) \<Rightarrow> error_code \<Rightarrow> string" where
  "error_text http c = (case snd c of HttpErrors \<Rightarrow> http (fst c) | BlackjackErrors \<Rightarrow> error_codes_message (fst c))"

lemma error_codes_message_value: "error_codes_message (game_error_value e) = game_error_message e"
  by (cases e) (simp_all add: error_codes_message_def)

definition new_game :: "(nat \<Rightarrow> nat) \<Rightarrow> int \<Rightarrow> nat \<Rightarrow> game result" where
  "new_game rnd garbage decks =
    (if \<not> (1 \<le> decks \<and> decks \<le> 6) then Inl AssertionFailed
     else Inr \<lparr> gm_state = GameWait, gm_shoe = new_shoe rnd decks,
       gm_seats = (replicate 6 (new_seat garbage))[0 := (new_seat garbage)\<lparr> se_state := SeatDealer \<rparr>],
       gm_turn = 0 \<rparr>)"

text \<open>\<open>find\<close>: the index of the first seat that is not open and belongs to the user, 0 if none.\<close>

fun find_from :: "nat \<Rightarrow> nat \<Rightarrow> seat list \<Rightarrow> nat" where
  "find_from u i [] = 0"
| "find_from u i (s # ss) =
    (if se_state s \<noteq> SeatOpen \<and> se_user s = Some u then i else find_from u (Suc i) ss)"

definition game_find :: "nat \<Rightarrow> game \<Rightarrow> nat" where
  "game_find u g = find_from u 0 (gm_seats g)"

text \<open>\<open>get_seat()\<close> returns a copy of the vector. \<open>join\<close> therefore marks a seat of the copy; the
  number it returns is the difference of pointers into two copies, which is not determined
  (\<open>None\<close>) and which no caller reads.\<close>

fun join_copy :: "nat \<Rightarrow> seat list \<Rightarrow> seat list option" where
  "join_copy u [] = None"
| "join_copy u (s # ss) =
    (if se_state s = SeatOpen then Some (s\<lparr> se_user := Some u, se_state := SeatPlaying \<rparr> # ss)
     else map_option (Cons s) (join_copy u ss))"

definition game_join :: "nat \<Rightarrow> game \<Rightarrow> (int option \<times> game_error option) \<times> game" where
  "game_join u g =
    (if game_find u g \<noteq> 0 then ((Some 0, Some already_playing), g)
     else (case join_copy u (gm_seats g) of
       Some copy \<Rightarrow> ((None, None), g)
     | None \<Rightarrow> ((Some 0, Some no_open_seat), g)))"

text \<open>\<open>leave\<close> assigns to elements of temporary copies.\<close>

definition game_leave :: "nat \<Rightarrow> game \<Rightarrow> ((int \<times> game_error option) \<times> game) result" where
  "game_leave u g =
    (let i = game_find u g in
     if i = 0 then Inr ((0, Some not_playing), g)
     else (case se_state (gm_seats g ! i) of
         SeatWaiting \<Rightarrow> Inr ((2, None), g)
       | SeatPlaying \<Rightarrow> Inr ((1, None), g)
       | SeatLeaving \<Rightarrow> Inr ((0, Some already_leaving), g)
       | _ \<Rightarrow> Inl AssertionFailed))"

definition game_surrender :: "nat \<Rightarrow> game \<Rightarrow> int \<times> game" where
  "game_surrender u g = (if game_find u g = 0 then (- 1, g) else (1, g))"

text \<open>\<open>bet\<close> works on the real seat; the flag says whether \<open>on_game_bet\<close> is called.\<close>

definition game_bet :: "nat \<Rightarrow> game \<Rightarrow> (game_error option \<times> bool) \<times> game" where
  "game_bet u g =
    (let i = game_find u g in
     if i = 0 then ((Some not_playing, False), g)
     else (if se_state (gm_seats g ! i) = SeatPlaying \<or> se_state (gm_seats g ! i) = SeatLeaving
       then ((None, True), g\<lparr> gm_seats := (gm_seats g)[i := (gm_seats g ! i)\<lparr>
               se_wager := se_wager (gm_seats g ! i) + 5, se_chips := se_chips (gm_seats g ! i) - 5 \<rparr>] \<rparr>)
       else ((Some no_more_bets, False), g)))"

definition deal_one :: "(nat \<Rightarrow> nat) \<Rightarrow> game \<Rightarrow> game result" where
  "deal_one rnd g =
    rbind (vec_index (gm_seats g) (gm_turn g)) (\<lambda>s.
    rbind (vec_index (se_hands s) 0) (\<lambda>h.
    rbind (hand_deal rnd (gm_shoe g) h) (\<lambda>(h', sh).
      (let t = gm_turn g + 1 in
       Inr (g\<lparr> gm_shoe := sh,
         gm_seats := (gm_seats g)[gm_turn g := s\<lparr> se_hands := (se_hands s)[0 := h'] \<rparr>],
         gm_turn := if length (gm_seats g) \<le> t then 0 else t \<rparr>)))))"

text \<open>\<open>insert\<close>, which nothing calls.\<close>

fun seat_insert_from :: "nat \<Rightarrow> nat \<Rightarrow> seat list \<Rightarrow> nat \<times> seat list" where
  "seat_insert_from u i [] = (0, [])"
| "seat_insert_from u i (s # ss) =
    (if se_state s = SeatOpen then (i, s\<lparr> se_state := SeatWaiting, se_user := Some u \<rparr> # ss)
     else (let (j, ss') = seat_insert_from u (Suc i) ss in (j, s # ss')))"

section \<open>JSON of the game\<close>

definition hand_json :: "hand \<Rightarrow> json" where
  "hand_json h = JArr (map (\<lambda>c. JInt (sint c)) (hd_cards h))"

text \<open>Printing a taken seat reads the name of its user.\<close>

definition seat_json :: "(nat \<Rightarrow> string) \<Rightarrow> seat \<Rightarrow> json" where
  "seat_json nm s =
    (let hands = (''hands'', JArr (map hand_json (se_hands s)));
         user = (''user'', JStr (case se_user s of None \<Rightarrow> [] | Some u \<Rightarrow> nm u));
         chips = (''chips'', JInt (se_chips s)); wager = (''wager'', JInt (se_wager s)) in
     case se_state s of
       SeatDealer \<Rightarrow> JObj [hands, (''state'', JStr ''dealer'')]
     | SeatWaiting \<Rightarrow> JObj [hands, (''state'', JStr ''waiting''), user, chips]
     | SeatPlaying \<Rightarrow> JObj [hands, (''state'', JStr ''playing''), user, chips, wager]
     | SeatLeaving \<Rightarrow> JObj [hands, (''state'', JStr ''leaving''), user, chips, wager]
     | SeatOpen \<Rightarrow> JObj [hands, (''state'', JStr ''open'')])"

definition game_json :: "(nat \<Rightarrow> string) \<Rightarrow> game \<Rightarrow> json" where
  "game_json nm g = JObj [
     (''message'', JStr (case gm_state g of GameWait \<Rightarrow> ''Waiting for players'' | GamePlay \<Rightarrow> ''Playing'')),
     (''seats'', JArr (map (seat_json nm) (gm_seats g)))]"

section \<open>The table\<close>

datatype table_call = CallPlay | CallWatch | CallBet | CallStart | CallHit | CallStand

text \<open>A posted call owns the request, the user and the session it was moved from: the name the user
  had and whether the session had a connection.\<close>

datatype table_task =
    TaskInsert nat
  | TaskErase nat
  | TaskCall table_call rpc_call nat bool

record parlor = lounge +
  pl_game :: game
  pl_posted :: "table_task list"

definition table_cid :: "64 word" where "table_cid = 3"

definition post :: "table_task \<Rightarrow> parlor \<Rightarrow> parlor" where
  "post t p = p\<lparr> pl_posted := pl_posted p @ [t] \<rparr>"

definition table_update :: "(nat \<Rightarrow> string) \<Rightarrow> string \<Rightarrow> parlor \<Rightarrow> parlor" where
  "table_update nm action p = chan_send table_cid (JObj [(''cid'', JInt (uint table_cid)),
     (''verb'', JStr ''update''), (''action'', JStr action), (''game'', game_json nm (pl_game p))]) p"

definition post_call ::
  "(string \<Rightarrow> string) \<Rightarrow> table_call \<Rightarrow> rpc_call \<Rightarrow> nat \<Rightarrow> parlor \<Rightarrow> parlor" where
  "post_call moved c rpc s p = post (TaskCall c rpc s (lg_attached p s))
     (p\<lparr> lg_name := (lg_name p)(s := moved (lg_name p s)),
        lg_attached := (lg_attached p)(s := False) \<rparr>)"

definition table_on_dispatch ::
  "(string \<Rightarrow> string) \<Rightarrow> 64 word \<Rightarrow> rpc_call \<Rightarrow> nat \<Rightarrow> parlor \<Rightarrow> parlor \<times> unit handler" where
  "table_on_dispatch moved cid rpc s p =
    (if rpc_method rpc = ''play'' then (post_call moved CallPlay rpc s p, Inr ())
     else if rpc_method rpc = ''watch'' then (post_call moved CallWatch rpc s p, Inr ())
     else if rpc_method rpc = ''bet'' then (post_call moved CallBet rpc s p, Inr ())
     else if rpc_method rpc = ''start'' then (post_call moved CallStart rpc s p, Inr ())
     else if rpc_method rpc = ''hit'' then (post_call moved CallHit rpc s p, Inr ())
     else if rpc_method rpc = ''stand'' then (post_call moved CallStand rpc s p, Inr ())
     else (p, rpc_fail_code method_not_found))"

definition table_vtable :: "(string \<Rightarrow> string) \<Rightarrow> parlor channel_vtable" where
  "table_vtable moved = \<lparr> vt_on_insert = (\<lambda>_ s. post (TaskInsert s)),
     vt_on_erase = (\<lambda>_ s. post (TaskErase s)), vt_on_dispatch = table_on_dispatch moved \<rparr>"

text \<open>The reply of a posted call goes through the session object it owns.\<close>

definition owned_send :: "nat \<Rightarrow> bool \<Rightarrow> json option \<Rightarrow> 'g lounge_scheme \<Rightarrow> 'g lounge_scheme" where
  "owned_send s conn j p = (case j of
     Some v \<Rightarrow> if conn then p\<lparr> lg_sent := lg_sent p @ [(s, v)] \<rparr> else p
   | None \<Rightarrow> p)"

text \<open>\<open>make_error_code\<close> does not use that category: it gives the value to the category of the Beast
  library, whose texts are \<open>msgs\<close>.\<close>

definition fail_reply :: "(int \<Rightarrow> string) \<Rightarrow> game_error \<Rightarrow> rpc_call \<Rightarrow> json option" where
  "fail_reply msgs e rpc = complete_error (rpc_error_text (error_text msgs (make_error_code e))) rpc"

definition do_play ::
  "(int \<Rightarrow> string) \<Rightarrow> (nat \<Rightarrow> string) \<Rightarrow> nat \<Rightarrow> rpc_call \<Rightarrow> nat \<Rightarrow> bool \<Rightarrow> parlor \<Rightarrow> parlor result" where
  "do_play msgs nm u rpc s conn p =
    (case game_join u (pl_game p) of
       ((_, Some e), g) \<Rightarrow> Inr (owned_send s conn (fail_reply msgs e rpc) (p\<lparr> pl_game := g \<rparr>))
     | ((_, None), g) \<Rightarrow>
         Inr (owned_send s conn (complete rpc) (table_update nm ''play'' (p\<lparr> pl_game := g \<rparr>))))"

definition do_watch ::
  "(int \<Rightarrow> string) \<Rightarrow> (nat \<Rightarrow> string) \<Rightarrow> nat \<Rightarrow> rpc_call \<Rightarrow> nat \<Rightarrow> bool \<Rightarrow> parlor \<Rightarrow> parlor result" where
  "do_watch msgs nm u rpc s conn p = rbind (game_leave u (pl_game p)) (\<lambda>r. case r of
       ((_, Some e), g) \<Rightarrow> Inr (owned_send s conn (fail_reply msgs e rpc) (p\<lparr> pl_game := g \<rparr>))
     | ((_, None), g) \<Rightarrow>
         Inr (owned_send s conn (complete rpc) (table_update nm ''watch'' (p\<lparr> pl_game := g \<rparr>))))"

definition do_bet ::
  "(int \<Rightarrow> string) \<Rightarrow> (nat \<Rightarrow> string) \<Rightarrow> nat \<Rightarrow> rpc_call \<Rightarrow> nat \<Rightarrow> bool \<Rightarrow> parlor \<Rightarrow> parlor result" where
  "do_bet msgs nm u rpc s conn p = (case game_bet u (pl_game p) of ((e, notify), g) \<Rightarrow>
     let p1 = p\<lparr> pl_game := g \<rparr>; p2 = if notify then table_update nm ''bet'' p1 else p1 in
     Inr (owned_send s conn (case e of Some x \<Rightarrow> fail_reply msgs x rpc | None \<Rightarrow> complete rpc) p2))"

definition do_start ::
  "(nat \<Rightarrow> nat) \<Rightarrow> (nat \<Rightarrow> string) \<Rightarrow> rpc_call \<Rightarrow> nat \<Rightarrow> bool \<Rightarrow> parlor \<Rightarrow> parlor result" where
  "do_start rnd nm rpc s conn p = rbind (deal_one rnd (pl_game p)) (\<lambda>g.
     Inr (owned_send s conn (complete rpc) (table_update nm ''deal'' (p\<lparr> pl_game := g \<rparr>))))"

definition run_task ::
  "(int \<Rightarrow> string) \<Rightarrow> (nat \<Rightarrow> nat) \<Rightarrow> (nat \<Rightarrow> string) \<Rightarrow> nat \<Rightarrow> table_task \<Rightarrow> parlor \<Rightarrow> parlor result" where
  "run_task msgs rnd nm u t p = (case t of
     TaskInsert s \<Rightarrow> Inr (session_send s (JObj [(''cid'', JInt (uint table_cid)),
        (''verb'', JStr ''update''), (''action'', JStr ''init''), (''game'', game_json nm (pl_game p))]) p)
   | TaskErase s \<Rightarrow> (case game_surrender s (pl_game p) of (r, g) \<Rightarrow>
        let p1 = p\<lparr> pl_game := g \<rparr> in Inr (if r = 1 then table_update nm ''surrender'' p1 else p1))
   | TaskCall CallPlay rpc s conn \<Rightarrow> do_play msgs nm u rpc s conn p
   | TaskCall CallWatch rpc s conn \<Rightarrow> do_watch msgs nm u rpc s conn p
   | TaskCall CallBet rpc s conn \<Rightarrow> do_bet msgs nm u rpc s conn p
   | TaskCall CallStart rpc s conn \<Rightarrow> do_start rnd nm rpc s conn p
   | TaskCall CallHit rpc s conn \<Rightarrow> Inr (owned_send s conn (complete rpc) p)
   | TaskCall CallStand rpc s conn \<Rightarrow> Inr (owned_send s conn (complete rpc) p))"

text \<open>The strand runs the tasks in the order they were posted.\<close>

definition run_next ::
  "(int \<Rightarrow> string) \<Rightarrow> (nat \<Rightarrow> nat) \<Rightarrow> (nat \<Rightarrow> string) \<Rightarrow> nat \<Rightarrow> parlor \<Rightarrow> parlor result" where
  "run_next msgs rnd nm u p = (case pl_posted p of
     [] \<Rightarrow> Inr p | t # ts \<Rightarrow> run_task msgs rnd nm u t (p\<lparr> pl_posted := ts \<rparr>))"

lemmas [game_defs] = game_find_def game_join_def game_leave_def game_surrender_def game_bet_def
  deal_one_def hand_deal_def shoe_deal_def

text \<open>The table is channel 3 of the lounge.\<close>

definition make_table :: "game \<Rightarrow> parlor \<Rightarrow> parlor result" where
  "make_table g p = make_reserved table_cid ''Blackjack'' TableChannel (p\<lparr> pl_game := g \<rparr>)"

definition parlor_vtable :: "(string \<Rightarrow> string) \<Rightarrow> channel_kind \<Rightarrow> parlor channel_vtable" where
  "parlor_vtable moved k = (if k = TableChannel then table_vtable moved else lobby_vtable k)"


section \<open>Facts about the shoe\<close>

lemma length_swap [simp]: "length (swap i j xs) = length xs"
  by (simp add: swap_def)

lemma mset_swap_fn: "i < length xs \<Longrightarrow> j < length xs \<Longrightarrow> mset (swap i j xs) = mset xs"
  using mset_swap [of i xs j] mset_swap [of j xs i] by (simp add: swap_def)

lemma shuffle_swap_facts:
  "i < length xs \<Longrightarrow> length (shuffle_swap rnd i xs) = length xs \<and> mset (shuffle_swap rnd i xs) = mset xs"
proof -
  assume i: "i < length xs"
  have "rnd i mod (length xs - i) < length xs - i" using i by simp
  then have "i + rnd i mod (length xs - i) < length xs" using i by linarith
  then show ?thesis using i by (simp add: shuffle_swap_def mset_swap_fn)
qed

lemma fold_shuffle_facts:
  "\<forall>i\<in>set is. i < length xs \<Longrightarrow>
   length (fold (shuffle_swap rnd) is xs) = length xs \<and> mset (fold (shuffle_swap rnd) is xs) = mset xs"
proof (induction "is" arbitrary: xs)
  case (Cons i "is")
  then show ?case using shuffle_swap_facts [of i xs rnd] by simp
qed simp

lemma length_fresh [simp]: "length (fresh_cards n) = n"
  by (simp add: fresh_cards_def)

lemma shuffle_facts:
  "length (sh_cards (shuffle rnd s)) = length (sh_cards s)"
  "mset (sh_cards (shuffle rnd s)) = mset (fresh_cards (length (sh_cards s)))"
  "sh_pos (shuffle rnd s) = 0"
proof -
  have "\<forall>i\<in>set [0..<length (sh_cards s) - 1]. i < length (fresh_cards (length (sh_cards s)))"
    by auto
  from fold_shuffle_facts [OF this, of rnd]
  show "length (sh_cards (shuffle rnd s)) = length (sh_cards s)"
    "mset (sh_cards (shuffle rnd s)) = mset (fresh_cards (length (sh_cards s)))"
    "sh_pos (shuffle rnd s) = 0"
    by (simp_all add: shuffle_def Let_def)
qed

fun deal_many :: "(nat \<Rightarrow> nat) \<Rightarrow> nat \<Rightarrow> shoe \<Rightarrow> byte list \<times> shoe" where
  "deal_many rnd 0 s = ([], s)"
| "deal_many rnd (Suc n) s =
    (let (c, s1) = shoe_deal rnd s; (cs, s2) = deal_many rnd n s1 in (c # cs, s2))"

lemma deal_many_take:
  "sh_pos s + n \<le> length (sh_cards s) \<Longrightarrow>
   fst (deal_many rnd n s) = take n (drop (sh_pos s) (sh_cards s))"
proof (induction n arbitrary: s)
  case (Suc n)
  then have lt: "sh_pos s < length (sh_cards s)" by simp
  then have d: "shoe_deal rnd s = (sh_cards s ! sh_pos s, s\<lparr> sh_pos := sh_pos s + 1 \<rparr>)"
    by (simp add: shoe_deal_def)
  have "fst (deal_many rnd n (s\<lparr> sh_pos := sh_pos s + 1 \<rparr>)) = take n (drop (sh_pos s + 1) (sh_cards s))"
    using Suc.IH [of "s\<lparr> sh_pos := sh_pos s + 1 \<rparr>"] Suc.prems by simp
  moreover have "drop (sh_pos s) (sh_cards s) = sh_cards s ! sh_pos s # drop (sh_pos s + 1) (sh_cards s)"
    using Cons_nth_drop_Suc [OF lt] by simp
  ultimately show ?case by (auto simp: d Let_def split: prod.split)
qed simp

lemma fresh_cards_deck:
  "fresh_cards (Suc d * 52) = fresh_cards (d * 52) @ map (\<lambda>i. of_nat (Suc i)) [0..<52]"
proof -
  have "[0..<Suc d * 52] = [0..<d * 52] @ map (\<lambda>i. d * 52 + i) [0..<52]"
    using upt_add_eq_append [of 0 "d * 52" 52] map_add_upt [of "d * 52" 52]
    by (simp add: add.commute)
  then show ?thesis by (simp add: fresh_cards_def del: upt_Suc)
qed

lemma count_deck:
  "count (mset (map (\<lambda>i. of_nat (Suc i) :: byte) [0..<52])) c = (if 1 \<le> unat c \<and> unat c \<le> 52 then 1 else 0)"
proof -
  have inj: "inj_on (\<lambda>i. of_nat (Suc i) :: byte) {0..<52}"
    by (auto simp: inj_on_def word_unat_eq_iff unat_of_nat simp del: of_nat_Suc)
  then have d: "distinct (map (\<lambda>i. of_nat (Suc i) :: byte) [0..<52])"
    by (simp add: distinct_map del: of_nat_Suc)
  have "c \<in> set (map (\<lambda>i. of_nat (Suc i) :: byte) [0..<52]) \<longleftrightarrow> 1 \<le> unat c \<and> unat c \<le> 52"
  proof
    assume "1 \<le> unat c \<and> unat c \<le> 52"
    then have "c = of_nat (Suc (unat c - 1))" "unat c - 1 < 52" by auto
    then show "c \<in> set (map (\<lambda>i. of_nat (Suc i) :: byte) [0..<52])" by (auto simp del: of_nat_Suc)
  qed (auto simp: unat_of_nat simp del: of_nat_Suc)
  with d show ?thesis by (simp add: count_mset_0_iff distinct_count_atmost_1 del: of_nat_Suc set_map)
qed

lemma count_fresh:
  "count (mset (fresh_cards (d * 52))) c = (if 1 \<le> unat c \<and> unat c \<le> 52 then d else 0)"
proof (induction d)
  case 0
  then show ?case by (simp add: fresh_cards_def)
next
  case (Suc d)
  then show ?case using count_deck [of c]
    by (simp only: fresh_cards_deck mset_append count_union) simp
qed

section \<open>Facts about hands\<close>

text \<open>The rule of the game: aces count one, one of them eleven when that does not bust.\<close>

definition best_total :: "byte list \<Rightarrow> int" where
  "best_total cs = (let low = sum_list (map card_value cs) in
     if 1 \<in> card_value ` set cs \<and> low + 10 \<le> 21 then low + 10 else low)"

lemma soften_step: "(2 \<le> b \<or> a \<le> 1) \<Longrightarrow>
  soften (b + 10 * int a) a = (if 0 < a \<and> b + 10 \<le> 21 then b + 10 else b)"
proof (induction a)
  case (Suc a)
  show ?case
  proof (cases "a = 0")
    case False
    then have "2 \<le> b" using Suc.prems by simp
    moreover have "b + 10 * int (Suc a) > 21" using calculation False by simp
    ultimately show ?thesis using Suc.IH False by (simp add: algebra_simps)
  qed auto
qed simp

lemma count_cards_eq:
  "count_cards cs (t, a) =
    (t + sum_list (map (\<lambda>c. if c = 1 then 11 else sint c) cs), a + count_list cs 1)"
  by (induction cs arbitrary: t a) auto

lemma card_value_low: "1 \<le> sint c \<Longrightarrow> sint c \<le> 10 \<Longrightarrow> card_value c = sint c"
  by (simp add: card_value_def Let_def)

lemma sint_eq_1: "sint c = 1 \<longleftrightarrow> c = 1" for c :: byte
  using signed_word_eqI [of c 1] by auto


lemma sum_split_aces:
  "list_all (\<lambda>c. 1 \<le> sint c \<and> sint c \<le> 10) cs \<Longrightarrow>
   sum_list (map (\<lambda>c. if c = 1 then 11 else sint c) cs)
     = sum_list (map card_value cs) + 10 * int (count_list cs 1) \<and>
   int (count_list cs 1) \<le> sum_list (map card_value cs) \<and>
   (1 \<in> card_value ` set cs \<longleftrightarrow> 0 < count_list cs 1)"
  by (induction cs) (auto simp: card_value_low sint_eq_1 dest: sint_eq_1 [THEN iffD1])

lemma hand_total_low:
  assumes "list_all (\<lambda>c. 1 \<le> sint c \<and> sint c \<le> 10) cs"
  shows "hand_total cs = best_total cs"
proof -
  have "2 \<le> sum_list (map card_value cs) \<or> count_list cs 1 \<le> 1"
    using sum_split_aces [OF assms] by linarith
  from soften_step [OF this] sum_split_aces [OF assms] show ?thesis
    by (auto simp: hand_total_def count_cards_eq best_total_def Let_def)
qed

lemma soften_lower: "t - 10 * int a \<le> soften t a"
  by (induction t a rule: soften.induct) auto

section \<open>Facts about the game\<close>

text \<open>No seat has ever been taken.\<close>

definition seats_idle :: "game \<Rightarrow> bool" where
  "seats_idle g \<longleftrightarrow> length (gm_seats g) = 6 \<and>
     list_all (\<lambda>s. se_user s = None \<and> length (se_hands s) = 1) (gm_seats g) \<and>
     se_state (gm_seats g ! 0) = SeatDealer \<and>
     (\<forall>i. 0 < i \<longrightarrow> i < 6 \<longrightarrow> se_state (gm_seats g ! i) = SeatOpen)"

lemma find_from_none: "list_all (\<lambda>s. se_user s = None) ss \<Longrightarrow> find_from u i ss = 0"
  by (induction ss arbitrary: i) auto

lemma seats_idle_find [simp]: "seats_idle g \<Longrightarrow> game_find u g = 0"
  unfolding game_find_def seats_idle_def by (rule find_from_none) (auto simp: list_all_iff)

lemma join_copy_some: "(\<exists>s\<in>set ss. se_state s = SeatOpen) \<Longrightarrow> join_copy u ss \<noteq> None"
  by (induction ss) auto

lemma seats_idle_join: "seats_idle g \<Longrightarrow> game_join u g = ((None, None), g)"
proof -
  assume i: "seats_idle g"
  then have "se_state (gm_seats g ! 1) = SeatOpen" "gm_seats g ! 1 \<in> set (gm_seats g)"
    by (auto simp: seats_idle_def)
  then have "join_copy u (gm_seats g) \<noteq> None" by (intro join_copy_some) auto
  then show ?thesis using i by (auto simp: game_join_def)
qed

lemma new_game_idle: "new_game rnd gb d = Inr g \<Longrightarrow> seats_idle g"
  by (auto simp: new_game_def seats_idle_def new_seat_def list_all_length nth_list_update
      split: if_splits)

lemma deal_one_idle: "deal_one rnd g = Inr g' \<Longrightarrow> seats_idle g \<Longrightarrow> seats_idle g'"
  by (auto simp: deal_one_def vec_index_def rbind_Inr_iff seats_idle_def Let_def list_all_length
      nth_list_update split: if_splits)

text \<open>The hands after \<open>n\<close> cards: they go round the six seats.\<close>

definition dealt :: "nat \<Rightarrow> game \<Rightarrow> bool" where
  "dealt n g \<longleftrightarrow> seats_idle g \<and> gm_turn g = n mod 6 \<and>
     (\<forall>i<6. length (hd_cards (se_hands (gm_seats g ! i) ! 0)) = n div 6 + (if i < n mod 6 then 1 else 0))"

fun deal_times :: "(nat \<Rightarrow> nat) \<Rightarrow> nat \<Rightarrow> game \<Rightarrow> game result" where
  "deal_times rnd 0 g = Inr g"
| "deal_times rnd (Suc n) g = rbind (deal_times rnd n g) (deal_one rnd)"

lemma dealt_new: "new_game rnd gb d = Inr g \<Longrightarrow> dealt 0 g"
  using new_game_idle [of rnd gb d g]
  by (auto simp: dealt_def new_game_def new_seat_def empty_hand_def nth_list_update split: if_splits)

lemma hands_idle: "seats_idle g \<Longrightarrow> i < 6 \<Longrightarrow> length (se_hands (gm_seats g ! i)) = 1"
  by (simp add: seats_idle_def list_all_length)

lemma deal_one_eq:
  assumes "dealt n g"
  shows "deal_one rnd g =
    (let t = n mod 6; h = se_hands (gm_seats g ! t) ! 0; (c, sh) = shoe_deal rnd (gm_shoe g) in
     if 132 \<le> n then Inl (LogicError ''static_string'')
     else Inr (g\<lparr> gm_shoe := sh, gm_seats := (gm_seats g)[t := (gm_seats g ! t)\<lparr>
            se_hands := (se_hands (gm_seats g ! t))[0 := h\<lparr> hd_cards := hd_cards h @ [c] \<rparr>] \<rparr>],
          gm_turn := Suc n mod 6 \<rparr>))"
proof -
  have t: "n mod 6 < 6" by simp
  have len: "length (gm_seats g) = 6" "gm_turn g = n mod 6"
    and h1: "length (se_hands (gm_seats g ! (n mod 6))) = 1"
    and hc: "length (hd_cards (se_hands (gm_seats g ! (n mod 6)) ! 0)) = n div 6"
    using assms hands_idle [OF _ t] by (auto simp: dealt_def seats_idle_def)
  have "22 \<le> n div 6 \<longleftrightarrow> 132 \<le> n" by auto
  moreover have "(if 6 \<le> n mod 6 + 1 then 0 else n mod 6 + 1) = Suc n mod 6"
    using mod_less_divisor [of 6 n] by (auto simp: mod_Suc)
  ultimately show ?thesis using len h1 hc
    by (auto simp: deal_one_def hand_deal_def Let_def split: prod.split if_splits)
qed

lemma dealt_Suc:
  assumes "dealt n g" and "deal_one rnd g = Inr g'"
  shows "dealt (Suc n) g'"
proof -
  let ?t = "n mod 6"
  have idle: "seats_idle g'" using deal_one_idle assms by (auto simp: dealt_def)
  have len: "length (gm_seats g) = 6" "length (se_hands (gm_seats g ! ?t)) = 1"
    and all: "\<And>i. i < 6 \<Longrightarrow> length (hd_cards (se_hands (gm_seats g ! i) ! 0))
      = n div 6 + (if i < ?t then 1 else 0)"
    using assms(1) hands_idle by (auto simp: dealt_def seats_idle_def)
  obtain c sh where g': "g' = g\<lparr> gm_shoe := sh, gm_seats := (gm_seats g)[?t := (gm_seats g ! ?t)\<lparr>
            se_hands := (se_hands (gm_seats g ! ?t))[0 := (se_hands (gm_seats g ! ?t) ! 0)\<lparr>
              hd_cards := hd_cards (se_hands (gm_seats g ! ?t) ! 0) @ [c] \<rparr>] \<rparr>],
          gm_turn := Suc n mod 6 \<rparr>"
    using assms(2) by (auto simp: deal_one_eq [OF assms(1)] Let_def split: prod.splits if_splits)
  have "length (hd_cards (se_hands (gm_seats g' ! i) ! 0))
      = Suc n div 6 + (if i < Suc n mod 6 then 1 else 0)" if "i < 6" for i
  proof -
    have d: "Suc n div 6 = (if ?t = 5 then Suc (n div 6) else n div 6)"
      "Suc n mod 6 = (if ?t = 5 then 0 else Suc ?t)"
      by (auto simp: div_Suc mod_Suc)
    show ?thesis
      using that all [OF that] len by (cases "i = ?t") (auto simp: g' d)
  qed
  then show ?thesis using idle by (simp add: dealt_def g')
qed

lemma deal_times_dealt:
  "dealt 0 g \<Longrightarrow> n \<le> 132 \<Longrightarrow> \<exists>g'. deal_times rnd n g = Inr g' \<and> dealt n g'"
proof (induction n)
  case (Suc n)
  then obtain g' where g': "deal_times rnd n g = Inr g'" "dealt n g'" by auto
  then obtain g'' where "deal_one rnd g' = Inr g''"
    using Suc.prems(2) by (cases "shoe_deal rnd (gm_shoe g')") (simp add: deal_one_eq Let_def)
  with g' dealt_Suc show ?case by auto
qed simp


section \<open>The parlor under requests and posted tasks\<close>

datatype parlor_event = EvRequest nat rpc_call | EvTask

text \<open>Requests reach the channels in any order; the strand runs the next task at any time, with
  any random numbers and any address for the user copy it owns.\<close>

inductive parlor_step :: "json_lib \<Rightarrow> (string \<Rightarrow> string) \<Rightarrow> parlor \<Rightarrow> parlor_event \<Rightarrow> parlor \<Rightarrow> bool"
  for l :: json_lib and moved :: "string \<Rightarrow> string" where
  pstep_request: "list_dispatch l (parlor_vtable moved) s rpc p = (p', r) \<Longrightarrow>
    parlor_step l moved p (EvRequest s rpc) p'"
| pstep_task: "run_next msgs rnd nm u p = Inr p' \<Longrightarrow> parlor_step l moved p EvTask p'"

inductive_cases parlor_stepE: "parlor_step l moved p e p'"

lemma pl_game_send [simp]:
  "pl_game (session_send s j p) = pl_game p" "pl_game (chan_send cid j p) = pl_game p"
  "pl_game (set_sessions cid xs p) = pl_game p" "pl_game (reply rpc s p) = pl_game p"
  "pl_game (owned_send s conn jo p) = pl_game p" "pl_game (post t p) = pl_game p"
  "pl_game (table_update nm a p) = pl_game p"
proof -
  show send: "pl_game (session_send s j p) = pl_game p" for s j and p :: parlor
    by (simp add: session_send_def)
  have "pl_game (fold (\<lambda>s. session_send s j) xs p) = pl_game p" for xs j and p :: parlor
    by (induction xs arbitrary: p) (simp_all add: send)
  then show chan: "pl_game (chan_send cid j p) = pl_game p" for cid j and p :: parlor
    by (simp add: chan_send_def)
  show "pl_game (table_update nm a p) = pl_game p" by (simp add: table_update_def chan)
qed (simp_all add: set_sessions_def reply_def owned_send_def post_def session_send_def
    split: option.split)

lemma pl_game_hooks:
  "pl_game (vt_on_insert (parlor_vtable moved k) cid s p) = pl_game p"
  "pl_game (vt_on_erase (parlor_vtable moved k) cid s p) = pl_game p"
  by (simp_all add: parlor_vtable_def table_vtable_def lobby_vtable_def room_vtable_def
      system_vtable_def system_base_def)

lemma pl_game_insert: "pl_game (snd (chan_insert (parlor_vtable moved k) cid s p)) = pl_game p"
    "pl_game (snd (chan_insert system_base cid s p)) = pl_game p"
    "pl_game (snd (chan_erase (parlor_vtable moved k) cid s p)) = pl_game p"
  by (simp_all add: chan_insert_def chan_erase_def Let_def pl_game_hooks) (simp add: system_base_def)

lemma pl_game_dispatch: "pl_game (fst (list_dispatch l (parlor_vtable moved) s rpc p)) = pl_game p"
proof -
  have join: "pl_game (fst (do_join (parlor_vtable moved k) cid rpc s p)) = pl_game p" for k cid
    using pl_game_insert(1) [of moved k cid s p] by (auto simp: do_join_def split: prod.split bool.split)
  have leave: "pl_game (fst (do_leave (parlor_vtable moved k) cid rpc s p)) = pl_game p" for k cid
    using pl_game_insert(3) [of moved k cid s p] by (auto simp: do_leave_def split: prod.split bool.split)
  have say: "pl_game (fst (do_say cid rpc s p)) = pl_game p" for cid
    by (simp add: do_say_def Let_def split: sum.split)
  have ident: "pl_game (fst (do_identify system_base cid rpc s p)) = pl_game p" for cid
    by (simp add: do_identify_def Let_def pl_game_insert(2) split: sum.split)
  have tab: "pl_game (fst (table_on_dispatch moved cid rpc s p)) = pl_game p" for cid
    by (simp add: table_on_dispatch_def post_call_def)
  have "pl_game (fst (vt_on_dispatch (parlor_vtable moved k) cid rpc s p)) = pl_game p" for k cid
    by (simp add: parlor_vtable_def lobby_vtable_def tab table_vtable_def
        room_on_dispatch_def system_on_dispatch_def say ident do_shutdown_def do_stop_def)
  with join leave show ?thesis
    by (simp add: list_dispatch_def chan_dispatch_def split: sum.split option.split)
qed

lemma run_task_idle:
  assumes "run_task msgs rnd nm u t p = Inr p'" and "seats_idle (pl_game p)"
  shows "seats_idle (pl_game p')"
proof (cases t)
  case (TaskCall c rpc s conn)
  then show ?thesis using assms
    by (cases c) (auto simp: run_task_def do_play_def do_watch_def do_bet_def do_start_def
        seats_idle_join game_leave_def game_bet_def Let_def rbind_Inr_iff deal_one_idle)
qed (use assms in \<open>auto simp: run_task_def game_surrender_def Let_def\<close>)

lemma parlor_step_idle: "parlor_step l moved p e p' \<Longrightarrow> seats_idle (pl_game p) \<Longrightarrow> seats_idle (pl_game p')"
proof (erule parlor_stepE)
  fix s rpc r
  assume "list_dispatch l (parlor_vtable moved) s rpc p = (p', r)" "seats_idle (pl_game p)"
  then show ?thesis using pl_game_dispatch [of l moved s rpc p] by simp
next
  fix msgs rnd nm u
  assume "run_next msgs rnd nm u p = Inr p'" "seats_idle (pl_game p)"
  then show ?thesis
    by (auto simp: run_next_def dest: run_task_idle split: list.splits)
qed

section \<open>Properties\<close>

text \<open>C33: Nobody can play blackjack: after any sequence of requests and table tasks no seat is taken,
  because joining marks a seat of a copy. Every bet is refused with \<open>not_playing\<close>, while every
  request to play is answered as a success that leaves the game as it was.\<close>

theorem nobody_ever_seated:
  assumes "run (parlor_step l moved) p es p'" and "new_game rnd garbage decks = Inr (pl_game p)"
  shows "seats_idle (pl_game p') \<and>
    (\<forall>u. game_bet u (pl_game p') = ((Some not_playing, False), pl_game p')) \<and>
    (\<forall>u. game_join u (pl_game p') = ((None, None), pl_game p'))"
proof -
  have "seats_idle (pl_game p')"
    using run_invariant [OF assms(1), of "\<lambda>p. seats_idle (pl_game p)"] new_game_idle [OF assms(2)]
      parlor_step_idle by blast
  then show ?thesis by (simp add: seats_idle_join game_bet_def Let_def)
qed

definition sample_game :: game where
  "sample_game = (case new_game (\<lambda>_. 0) 0 1 of Inr g \<Rightarrow> g | Inl _ \<Rightarrow> undefined)"

lemma sample_game_new: "new_game (\<lambda>_. 0) 0 1 = Inr sample_game"
proof -
  obtain g where g: "new_game (\<lambda>_. 0) 0 1 = Inr g" unfolding new_game_def by fastforce
  show ?thesis unfolding sample_game_def g by (simp only: sum.case)
qed

definition sample_parlor :: parlor where
  "sample_parlor = \<lparr> lg_slots = [None, None, None,
       Some \<lparr> ch_uid = 1003, ch_cid = 3, ch_name = ''Blackjack'', ch_kind = TableChannel, ch_sessions = [4] \<rparr>],
     lg_next_uid = 1003, lg_next_cid = 1000, lg_name = (\<lambda>s. if s = 4 then ''ann'' else []),
     lg_attached = (\<lambda>_. True), lg_sent = [], lg_app = [],
     pl_game = sample_game, pl_posted = [TaskCall CallPlay new_rpc_call 4 True] \<rparr>"

theorem nobody_ever_seated_witness:
  "\<exists>p'. run (parlor_step simple_json_lib (\<lambda>_. [])) sample_parlor [EvTask] p' \<and> seats_idle (pl_game p')"
proof -
  obtain p' where "run_next (\<lambda>_. []) (\<lambda>_. 0) (\<lambda>_. []) 77 sample_parlor = Inr p'"
    by (simp add: run_next_def sample_parlor_def run_task_def do_play_def
        seats_idle_join new_game_idle [OF sample_game_new])
  then have r: "run (parlor_step simple_json_lib (\<lambda>_. [])) sample_parlor [EvTask] p'"
    using pstep_task by blast
  have "new_game (\<lambda>_. 0) 0 1 = Inr (pl_game sample_parlor)"
    using sample_game_new by (simp add: sample_parlor_def)
  from nobody_ever_seated [OF r this] r show ?thesis by blast
qed

text \<open>C34: The shoe: the cards dealt from a new shoe, before it has to be shuffled again, are every
  card value from 1 to 52 exactly once per deck, whatever the random numbers.\<close>

theorem shoe_deals_every_card:
  "count (mset (fst (deal_many rnd' (decks * 52) (new_shoe rnd decks)))) c
    = (if 1 \<le> unat c \<and> unat c \<le> 52 then decks else 0)"
proof -
  let ?s = "new_shoe rnd decks"
  have "fst (deal_many rnd' (decks * 52) ?s) = sh_cards ?s"
    using deal_many_take [of ?s "decks * 52" rnd'] by (simp add: new_shoe_def shuffle_facts)
  moreover have "mset (sh_cards ?s) = mset (fresh_cards (decks * 52))"
    by (simp add: new_shoe_def shuffle_facts)
  ultimately show ?thesis by (simp add: count_fresh)
qed

text \<open>Cards are dealt round the six seats and no hand is ever cleared: from a new game exactly 132
  start requests succeed; the next one overflows the 22 characters of a hand, an exception that no
  handler of the table catches.\<close>

theorem start_overflows_hand:
  assumes "new_game rnd0 garbage decks = Inr g"
  shows "(\<forall>n \<le> 132. is_ok (deal_times rnd n g)) \<and>
    deal_times rnd 133 g = Inl (LogicError ''static_string'')"
proof -
  have d0: "dealt 0 g" by (rule dealt_new [OF assms])
  obtain g' where g': "deal_times rnd 132 g = Inr g'" "dealt 132 g'"
    using deal_times_dealt [OF d0, of 132] by auto
  have "deal_times rnd 133 g = rbind (deal_times rnd 132 g) (deal_one rnd)"
    using deal_times.simps(2) [of rnd 132 g] by simp
  also have "\<dots> = Inl (LogicError ''static_string'')"
    using g' by (simp add: deal_one_eq Let_def split: prod.split)
  finally show ?thesis using deal_times_dealt [OF d0] by (metis is_ok.simps(2))
qed

theorem start_overflows_hand_witness:
  "is_ok (deal_times (\<lambda>_. 0) 132 sample_game) \<and>
    deal_times (\<lambda>_. 0) 133 sample_game = Inl (LogicError ''static_string'')"
  using start_overflows_hand [OF sample_game_new] by blast

text \<open>On hands of the cards 1 to 10 the evaluation is the rule of blackjack: aces count one, and
  one of them eleven when that does not exceed 21.\<close>

theorem hand_eval_low_cards:
  assumes "list_all (\<lambda>c. 1 \<le> sint c \<and> sint c \<le> 10) (hd_cards h)"
  shows "hd_busted (hand_eval h) = (21 < best_total (hd_cards h)) \<and>
    hd_twenty_one (hand_eval h) = (best_total (hd_cards h) = 21)"
  using hand_total_low [OF assms] by (simp add: hand_eval_def Let_def)

theorem hand_eval_low_cards_witness:
  "hd_busted (hand_eval (empty_hand\<lparr> hd_cards := [1, 10, 10] \<rparr>))
      = (21 < best_total (hd_cards (empty_hand\<lparr> hd_cards := [1, 10, 10] \<rparr>))) \<and>
    hd_twenty_one (hand_eval (empty_hand\<lparr> hd_cards := [1, 10, 10] \<rparr>))
      = (best_total (hd_cards (empty_hand\<lparr> hd_cards := [1, 10, 10] \<rparr>)) = 21)"
  by (rule hand_eval_low_cards) simp

text \<open>The evaluation adds card numbers, not card values: 31 of the 52 cards, those numbered 22 and
  above, bust the hand they are in, whatever else it holds.\<close>

theorem high_card_busts:
  assumes "list_all (\<lambda>c. 1 \<le> sint c) (hd_cards h)" and "c \<in> set (hd_cards h)" and "22 \<le> sint c"
  shows "hd_busted (hand_eval h)"
proof -
  have le: "list_all (\<lambda>c. 1 \<le> sint c) cs \<Longrightarrow> 
      int (count_list cs 1) + sum_list (map (\<lambda>c. if c = 1 then 0 else sint c) cs) + 10 * int (count_list cs 1)
        = sum_list (map (\<lambda>c. if c = 1 then 11 else sint c) cs)" for cs :: "byte list"
    by (induction cs) auto
  have ge: "list_all (\<lambda>c. 1 \<le> sint c) cs \<Longrightarrow> 0 \<le> sum_list (map (\<lambda>c. if c = 1 then 0 else sint c) cs)
      \<and> (c \<in> set cs \<longrightarrow> 22 \<le> sum_list (map (\<lambda>c. if c = 1 then 0 else sint c) cs))" for cs
  proof (induction cs)
    case (Cons a cs)
    have IH: "0 \<le> sum_list (map (\<lambda>c. if c = 1 then 0 else sint c) cs)"
      "c \<in> set cs \<Longrightarrow> 22 \<le> sum_list (map (\<lambda>c. if c = 1 then 0 else sint c) cs)" and a: "1 \<le> sint a"
      using Cons by auto
    have "0 \<le> (if a = 1 then 0 else sint a)" using a by simp
    moreover have "a = c \<Longrightarrow> 22 \<le> (if a = 1 then 0 else sint a)" using assms(3) by (cases "a = 1") simp_all
    ultimately show ?case using IH by (cases "a = c") (simp_all only: list.map sum_list.Cons set_simps insert_iff, auto)
  qed simp
  have "22 \<le> hand_total (hd_cards h)"
    using le [OF assms(1)] ge [OF assms(1)] assms(2)
      soften_lower [of "sum_list (map (\<lambda>c. if c = 1 then 11 else sint c) (hd_cards h))"
        "count_list (hd_cards h) 1"]
    unfolding hand_total_def count_cards_eq prod.case add_0 by linarith
  then show ?thesis by (simp add: hand_eval_def Let_def)
qed

theorem high_card_busts_witness:
  "hd_busted (hand_eval (empty_hand\<lparr> hd_cards := [26] \<rparr>)) \<and> best_total [26] = 10"
  using high_card_busts [of "empty_hand\<lparr> hd_cards := [26] \<rparr>" 26]
  by (simp add: best_total_def card_value_def Let_def)

lemma table_calls:
  assumes "rpc_method rpc \<in> {''play'', ''watch'', ''bet'', ''start'', ''hit'', ''stand''}"
  obtains k where "fst (chan_dispatch (table_vtable moved) cid rpc s p) = post_call moved k rpc s p"
  using assms by (auto simp: chan_dispatch_def table_vtable_def table_on_dispatch_def)

text \<open>Any call to the table moves the caller's session and user into the posted task: from then on
  a message sent to that session, by a channel or as a reply, is dropped, and the user's name is
  what the moved-from string holds.\<close>

theorem table_call_detaches:
  assumes "chan_at cid p = Some c" and "ch_kind c = TableChannel"
    and "rpc_method rpc \<in> {''play'', ''watch'', ''bet'', ''start'', ''hit'', ''stand''}"
  shows "let p' = fst (chan_dispatch (parlor_vtable moved (ch_kind c)) cid rpc s p) in
    (\<forall>j. session_send s j p' = p') \<and>
    (\<forall>cid' j. s \<notin> fst ` set (drop (length (lg_sent p')) (lg_sent (chan_send cid' j p')))) \<and>
    lg_name p' s = moved (lg_name p s)"
proof -
  let ?p = "fst (chan_dispatch (parlor_vtable moved (ch_kind c)) cid rpc s p)"
  obtain k where k: "?p = post_call moved k rpc s p"
    by (rule table_calls [OF assms(3), of moved cid s p]) (simp add: chan_dispatch_def parlor_vtable_def assms(2))
  have d: "\<not> lg_attached ?p s" "lg_name ?p s = moved (lg_name p s)"
    unfolding k by (simp_all add: post_call_def post_def)
  have "s \<notin> fst ` set (drop (length (lg_sent ?p)) (lg_sent (chan_send cid' j ?p)))" for cid' j
    using d(1) by auto
  with d show ?thesis by (simp add: Let_def session_send_def)
qed

theorem table_call_detaches_witness:
  "let p' = fst (chan_dispatch (parlor_vtable (\<lambda>_. []) TableChannel) 3
      (new_rpc_call\<lparr> rpc_method := ''play'' \<rparr>) 4 sample_parlor) in lg_name p' 4 = []"
proof -
  have "chan_at 3 sample_parlor = Some \<lparr> ch_uid = 1003, ch_cid = 3, ch_name = ''Blackjack'',
      ch_kind = TableChannel, ch_sessions = [4] \<rparr>"
    by (simp add: chan_at_def sample_parlor_def)
  from table_call_detaches [OF this, of "new_rpc_call\<lparr> rpc_method := ''play'' \<rparr>" "\<lambda>_. []" 4]
  show ?thesis by (simp add: Let_def)
qed

end
