(* ===== verification/Shutdown.thy ===== *)
theory Shutdown imports Channels ControlMessage begin

text \<open>
  The two programs' main objects: \<open>server_impl\<close> of the proxy (\<open>easyprospect-web/server.cpp\<close>) and
  \<open>application_impl\<close> of the web worker (\<open>worker-server-app.h\<close>, \<open>worker-server-app.cpp\<close>). Both keep
  a list of services, run until \<open>stop\<close> is called, and count a shutdown down on one timer; the
  worker also announces the countdown on a channel. Times are nanoseconds of the steady clock;
  an expiry \<open>None\<close> is the value \<open>never\<close>, the largest time point. Handlers take the clock readings they make, in order.
  The contract of the countdown is a locale, with both classes as its interpretations.
\<close>

section \<open>Time\<close>

definition second :: int where "second = 1000000000"

definition never :: int where "never = 2 ^ 63 - 1"

text \<open>\<open>duration_cast\<close> truncates towards zero.\<close>

definition trunc_secs :: "int \<Rightarrow> int" where
  "trunc_secs d = (if 0 \<le> d then d div second else - ((- d) div second))"

definition ceil_secs :: "int \<Rightarrow> int" where
  "ceil_secs d = (let t = trunc_secs d in if t * second < d then t + 1 else t)"

section \<open>State\<close>

datatype strand_task = TaskShutdown int | TaskStop

datatype service_event = OnStart nat | OnStop nat

record server_core =
  sv_running :: bool
  sv_stop :: bool
  sv_expiry :: "int option"
  sv_shutdown_time :: int
  sv_waiting :: bool
  sv_signals :: bool
  sv_posted :: "strand_task list"
  sv_services :: "nat list"
  sv_log :: "service_event list"

definition new_server :: server_core where
  "new_server = \<lparr> sv_running = False, sv_stop = False, sv_expiry = None, sv_shutdown_time = never,
     sv_waiting = False, sv_signals = False, sv_posted = [], sv_services = [], sv_log = [] \<rparr>"

text \<open>What boost does for both: \<open>expires_after\<close> cancels a pending wait and sets the expiry,
  \<open>async_wait\<close> starts one, \<open>cancel\<close> ends it and leaves the expiry.\<close>

definition rearm :: "int \<Rightarrow> 'a server_core_scheme \<Rightarrow> 'a server_core_scheme" where
  "rearm e s = s\<lparr> sv_expiry := Some e, sv_waiting := True \<rparr>"

definition cancel_io :: "'a server_core_scheme \<Rightarrow> 'a server_core_scheme" where
  "cancel_io s = s\<lparr> sv_waiting := False, sv_signals := False \<rparr>"

section \<open>The proxy\<close>

definition srv_insert :: "nat \<Rightarrow> server_core \<Rightarrow> server_core result" where
  "srv_insert n s = (if sv_running s then Inl (LogicError ''server already running'')
     else Inr (s\<lparr> sv_services := sv_services s @ [n] \<rparr>))"

definition srv_is_shutting_down :: "server_core \<Rightarrow> bool" where
  "srv_is_shutting_down s = sv_stop s"

definition srv_stop :: "bool \<Rightarrow> server_core \<Rightarrow> server_core" where
  "srv_stop on_strand s =
    (if \<not> on_strand then s\<lparr> sv_posted := sv_posted s @ [TaskStop] \<rparr>
     else if sv_stop s then s
     else cancel_io (s\<lparr> sv_stop := True \<rparr>))"

definition srv_on_timer :: "bool \<Rightarrow> int \<Rightarrow> int \<Rightarrow> server_core \<Rightarrow> server_core result" where
  "srv_on_timer aborted now arm s =
    (if aborted then Inr s
     else let remain = ceil_secs (sv_shutdown_time s - now) in
       if remain \<le> 0 then Inr (srv_stop True s)
       else let amount = (if remain > 10 then 10 else remain) in
         Inr (rearm (arm + amount * second) s))"

definition srv_shutdown ::
  "bool \<Rightarrow> int \<Rightarrow> int \<Rightarrow> int \<Rightarrow> int \<Rightarrow> server_core \<Rightarrow> server_core result" where
  "srv_shutdown on_strand cooldown at now arm s =
    (if \<not> on_strand then Inr (s\<lparr> sv_posted := sv_posted s @ [TaskShutdown cooldown] \<rparr>)
     else if sv_expiry s \<noteq> None then Inr s
     else srv_on_timer False now arm (s\<lparr> sv_shutdown_time := at + cooldown * second \<rparr>))"

definition srv_on_signal ::
  "bool \<Rightarrow> int \<Rightarrow> int \<Rightarrow> int \<Rightarrow> server_core \<Rightarrow> server_core result" where
  "srv_on_signal aborted at now arm s =
    (if aborted then Inr s
     else if sv_expiry s = None then srv_shutdown True 30 at now arm (s\<lparr> sv_signals := True \<rparr>)
     else Inr (srv_stop True s))"

text \<open>\<open>run\<close> up to the wait for \<open>stop_\<close>, and from there on.\<close>

definition srv_run_start :: "server_core \<Rightarrow> server_core result" where
  "srv_run_start s = (if sv_running s then Inl (LogicError ''server already running'')
     else Inr (s\<lparr> sv_running := True, sv_log := sv_log s @ map OnStart (sv_services s),
       sv_signals := True \<rparr>))"

definition srv_run_finish :: "server_core \<Rightarrow> server_core option" where
  "srv_run_finish s = (if \<not> sv_stop s then None
     else Some (s\<lparr> sv_services := [], sv_log := sv_log s @ map OnStop (sv_services s) \<rparr>))"

section \<open>The worker\<close>

record worker_app = server_core +
  wa_lounge :: lounge
  wa_control :: bool
  wa_messages :: "process_message list"

definition app_insert :: "nat \<Rightarrow> worker_app \<Rightarrow> worker_app result" where
  "app_insert n s = (if sv_running s then Inl (LogicError ''server already running'')
     else Inr (s\<lparr> sv_services := sv_services s @ [n] \<rparr>))"

definition app_is_shutting_down :: "worker_app \<Rightarrow> bool" where
  "app_is_shutting_down s = sv_stop s"

definition app_stop :: "bool \<Rightarrow> worker_app \<Rightarrow> worker_app" where
  "app_stop on_strand s =
    (if \<not> on_strand then s\<lparr> sv_posted := sv_posted s @ [TaskStop] \<rparr>
     else if sv_stop s then s
     else cancel_io (s\<lparr> sv_stop := True \<rparr>))"

definition notice_json :: "channel \<Rightarrow> int \<Rightarrow> json" where
  "notice_json c remain = JObj [(''verb'', JStr ''say''), (''cid'', JInt (uint (ch_cid c))),
     (''name'', JStr (ch_name c)),
     (''message'', JStr (''Server is shutting down in '' @ dec_int remain @ '' seconds''))]"

definition app_on_timer :: "bool \<Rightarrow> int \<Rightarrow> int \<Rightarrow> worker_app \<Rightarrow> worker_app result" where
  "app_on_timer aborted now arm s =
    (if aborted then Inr s
     else let remain = ceil_secs (sv_shutdown_time s - now) in
       if remain \<le> 0 then Inr (app_stop True s)
       else let amount = (if remain > 10 then 10 else remain) in
         (case chan_at 1 (wa_lounge s) of
            None \<Rightarrow> Inl UndefinedBehaviour
          | Some c \<Rightarrow> Inr (rearm (arm + amount * second)
              (s\<lparr> wa_lounge := chan_send 1 (notice_json c remain) (wa_lounge s) \<rparr>))))"

definition app_shutdown ::
  "bool \<Rightarrow> int \<Rightarrow> int \<Rightarrow> int \<Rightarrow> int \<Rightarrow> worker_app \<Rightarrow> worker_app result" where
  "app_shutdown on_strand cooldown at now arm s =
    (if \<not> on_strand then Inr (s\<lparr> sv_posted := sv_posted s @ [TaskShutdown cooldown] \<rparr>)
     else if sv_expiry s \<noteq> None then Inr s
     else app_on_timer False now arm (s\<lparr> sv_shutdown_time := at + cooldown * second \<rparr>))"

definition app_on_signal ::
  "bool \<Rightarrow> int \<Rightarrow> int \<Rightarrow> int \<Rightarrow> worker_app \<Rightarrow> worker_app result" where
  "app_on_signal aborted at now arm s =
    (if aborted then Inr s
     else if sv_expiry s = None then app_shutdown True 30 at now arm (s\<lparr> sv_signals := True \<rparr>)
     else Inr (app_stop True s))"

text \<open>The callback given to the control client.\<close>

definition app_shutdown_func :: "bool \<Rightarrow> int \<Rightarrow> int \<Rightarrow> int \<Rightarrow> worker_app \<Rightarrow> worker_app result" where
  "app_shutdown_func on_strand = app_shutdown on_strand 5"

text \<open>The constructor: the channel list with its room, then the system channel. \<open>lg0\<close> is the lounge
  before. When a control protocol is configured the control client is made in between, which starts its
  thread and cannot fail: what goes wrong with the pipe does so in that thread, and the handlers the
  constructor has for a failure are never reached.\<close>

definition new_app :: "bool \<Rightarrow> lounge \<Rightarrow> worker_app result" where
  "new_app control lg0 =
    rbind (init_channel_list lg0) (\<lambda>lg1.
    rbind (make_system_channel lg1) (\<lambda>lg2.
      Inr \<lparr> sv_running = False, sv_stop = False, sv_expiry = None, sv_shutdown_time = never,
        sv_waiting = False, sv_signals = False, sv_posted = [], sv_services = [], sv_log = [],
        wa_lounge = lg2, wa_control = control, wa_messages = [] \<rparr>))"

text \<open>\<open>run\<close> up to the start of its threads. \<open>connected\<close> is the control client's \<open>is_running\<close>, which its
  \<open>send\<close> asks first: its thread has opened the pipe and has not ended.\<close>

definition app_run_start :: "bool \<Rightarrow> msg_env \<Rightarrow> 32 word list \<Rightarrow> worker_app \<Rightarrow> worker_app result" where
  "app_run_start connected e ports s = (if sv_running s then Inl (LogicError ''server already running'')
     else (let s1 = s\<lparr> sv_running := True, sv_log := sv_log s @ map OnStart (sv_services s),
              sv_signals := True \<rparr> in
       if \<not> wa_control s then Inr s1
       else if \<not> connected then Inl (LogicError ''Control thread not running.'')
       else Inr (s1\<lparr> wa_messages := wa_messages s
                   @ [new_startup e (case ports of [] \<Rightarrow> 0 | p # _ \<Rightarrow> p)] \<rparr>)))"

definition app_run_finish :: "worker_app \<Rightarrow> worker_app option" where
  "app_run_finish s = (if \<not> sv_stop s then None
     else Some (s\<lparr> sv_services := [], sv_log := sv_log s @ map OnStop (sv_services s) \<rparr>))"

section \<open>The countdown\<close>

text \<open>Firings of the timer: each handler runs \<open>late\<close> after the expiry and takes \<open>dt\<close> to arm again.
  Nothing fires once the server has stopped.\<close>

fun ticks :: "('s \<Rightarrow> bool) \<Rightarrow> ('s \<Rightarrow> int option) \<Rightarrow> (int \<Rightarrow> int \<Rightarrow> 's \<Rightarrow> 's result)
    \<Rightarrow> (int \<times> int) list \<Rightarrow> 's \<Rightarrow> 's result" where
  "ticks stopped expiry fire [] s = Inr s"
| "ticks stopped expiry fire ((late, dt) # ds) s =
    (if stopped s then Inr s
     else case expiry s of
       None \<Rightarrow> Inr s
     | Some e \<Rightarrow> rbind (fire (e + late) (e + late + dt) s) (ticks stopped expiry fire ds))"

lemma ceil_secs_le: "ceil_secs d \<le> 0 \<longleftrightarrow> d \<le> 0"
proof (cases "0 \<le> d")
  case True
  then have "0 \<le> d div second" by (simp add: second_def pos_imp_zdiv_nonneg_iff)
  moreover have "d div second * second \<le> d" "d < d div second * second + second"
    using div_mult_mod_eq [of d second] pos_mod_bound [of second d] pos_mod_sign [of second d]
    by (simp_all add: second_def)
  ultimately show ?thesis using True
    by (cases "d div second = 0") (auto simp: ceil_secs_def trunc_secs_def Let_def)
next
  case False
  have "(- d) div second * second \<le> - d" "0 \<le> (- d) div second"
    using False div_mult_mod_eq [of "- d" second]
    by (simp_all add: second_def pos_imp_zdiv_nonneg_iff)
  then show ?thesis using False by (auto simp: ceil_secs_def trunc_secs_def Let_def second_def)
qed

lemma ceil_secs_cover: "0 < d \<Longrightarrow> d \<le> ceil_secs d * second"
  by (auto simp: ceil_secs_def trunc_secs_def second_def Let_def)

locale countdown =
  fixes ok :: "'s \<Rightarrow> bool"
    and stopped :: "'s \<Rightarrow> bool"
    and expiry :: "'s \<Rightarrow> int option"
    and deadline :: "'s \<Rightarrow> int"
    and fire :: "int \<Rightarrow> int \<Rightarrow> 's \<Rightarrow> 's result"
  assumes fire_due: "ok s \<Longrightarrow> deadline s \<le> now \<Longrightarrow> \<exists>s'. fire now arm s = Inr s' \<and> ok s' \<and> stopped s'"
    and fire_early: "ok s \<Longrightarrow> now < deadline s \<Longrightarrow>
      \<exists>s'. fire now arm s = Inr s' \<and> ok s' \<and> stopped s' = stopped s \<and> deadline s' = deadline s \<and>
        expiry s' = Some (arm + min 10 (ceil_secs (deadline s - now)) * second)"
begin

lemma ticks_stop:
  assumes "ok s" and "stopped s \<or> (\<exists>e. expiry s = Some e \<and> deadline s - e \<le> int k * (10 * second))"
    and "k < length ds" and "\<forall>(late, dt) \<in> set ds. 0 \<le> late \<and> 0 \<le> dt"
  shows "\<exists>s'. ticks stopped expiry fire ds s = Inr s' \<and> ok s' \<and> stopped s'"
  using assms
proof (induction k arbitrary: s ds)
  case k: (0 s ds)
  then show ?case
  proof (cases ds)
    case (Cons p ds')
    obtain late dt where p: "p = (late, dt)" by (cases p)
    show ?thesis
    proof (cases "stopped s")
      case False
      then obtain e where e: "expiry s = Some e" "deadline s \<le> e + late"
        using k Cons p by fastforce
      from fire_due [OF k(1) e(2), of "e + late + dt"]
      show ?thesis using e(1) False Cons p by (cases ds') auto
    qed (use k Cons p in simp)
  qed simp
next
  case (Suc k s ds)
  obtain late dt ds' where ds: "ds = (late, dt) # ds'" "0 \<le> late" "0 \<le> dt" "k < length ds'"
    "\<forall>(late, dt) \<in> set ds'. 0 \<le> late \<and> 0 \<le> dt"
    using Suc.prems(3,4) by (cases ds) auto
  show ?case
  proof (cases "stopped s")
    case False
    then obtain e where e: "expiry s = Some e" "deadline s - e \<le> int (Suc k) * (10 * second)"
      using Suc.prems(2) by auto
    let ?n = "e + late" and ?a = "e + late + dt"
    show ?thesis
    proof (cases "deadline s \<le> ?n")
      case True
      from fire_due [OF Suc.prems(1) this, of ?a] obtain s' where
        "fire ?n ?a s = Inr s'" "ok s'" "stopped s'" by blast
      then show ?thesis using Suc.IH [of s' ds'] ds e(1) False by simp
    next
      case early: False
      then obtain s' where s': "fire ?n ?a s = Inr s'" "ok s'" "deadline s' = deadline s"
        "expiry s' = Some (?a + min 10 (ceil_secs (deadline s - ?n)) * second)"
        using fire_early [OF Suc.prems(1), of ?n ?a] by auto
      let ?e = "?a + min 10 (ceil_secs (deadline s - ?n)) * second"
      have "deadline s - ?e \<le> int k * (10 * second)"
      proof (cases "10 \<le> ceil_secs (deadline s - ?n)")
        case True
        then have "?e = ?a + 10 * second" by simp
        moreover have "int (Suc k) * (10 * second) = int k * (10 * second) + 10 * second"
          by (simp add: algebra_simps)
        ultimately show ?thesis using e(2) ds(2,3) by linarith
      next
        case False
        then have "?e = ?a + ceil_secs (deadline s - ?n) * second" by simp
        moreover have "0 \<le> int k * (10 * second)" by (simp add: second_def)
        ultimately show ?thesis using ceil_secs_cover [of "deadline s - ?n"] early ds(3) by linarith
      qed
      then show ?thesis using Suc.IH [of s' ds'] s' ds e(1) False by simp
    qed
  qed (use Suc.prems ds in simp)
qed

text \<open>A countdown begun with the handler at \<open>now\<close>, armed at \<open>arm\<close>, is over after at most
  \<open>(c + 9) div 10\<close> firings when \<open>c\<close> seconds were left.\<close>

lemma countdown_stops:
  assumes "ok s" and "deadline s \<le> now + int c * second" and "now \<le> arm"
    and "(c + 9) div 10 \<le> length ds" and "\<forall>(late, dt) \<in> set ds. 0 \<le> late \<and> 0 \<le> dt"
  shows "\<exists>s'. rbind (fire now arm s) (ticks stopped expiry fire ds) = Inr s' \<and> ok s' \<and> stopped s'"
proof (cases "deadline s \<le> now")
  case True
  from fire_due [OF assms(1) this, of arm] obtain s1 where
    s1: "fire now arm s = Inr s1" "ok s1" "stopped s1" by blast
  then have "ticks stopped expiry fire ds s1 = Inr s1" by (cases ds) auto
  with s1 show ?thesis by simp
next
  case early: False
  then obtain s1 where s1: "fire now arm s = Inr s1" "ok s1" "deadline s1 = deadline s"
    "expiry s1 = Some (arm + min 10 (ceil_secs (deadline s - now)) * second)"
    using fire_early [OF assms(1), of now arm] by auto
  let ?e = "arm + min 10 (ceil_secs (deadline s - now)) * second" and ?k = "(c + 9) div 10 - 1"
  have c: "0 < c" using assms(2) early by (cases c) auto
  have "deadline s - ?e \<le> int ?k * (10 * second)"
  proof (cases "10 \<le> ceil_secs (deadline s - now)")
    case True
    then have "?e = arm + 10 * second" by simp
    moreover have "c \<le> 10 * ?k + 10" using c by linarith
    then have "int c * second \<le> (10 * int ?k + 10) * second"
      by (intro mult_right_mono) (simp_all add: second_def)
    moreover have "(10 * int ?k + 10) * second = 10 * second + int ?k * (10 * second)"
      by (simp add: algebra_simps)
    ultimately show ?thesis using assms(2,3) by linarith
  next
    case False
    then have "?e = arm + ceil_secs (deadline s - now) * second" by simp
    moreover have "0 \<le> int ?k * (10 * second)" by (simp add: second_def)
    ultimately show ?thesis using ceil_secs_cover [of "deadline s - now"] early assms(3) by linarith
  qed
  moreover have "?k < length ds" using assms(4) c by linarith
  ultimately show ?thesis using ticks_stop [of s1 ?k ds] s1 assms(5) by auto
qed

end

interpretation proxy: countdown "\<lambda>_. True" sv_stop sv_expiry sv_shutdown_time "srv_on_timer False"
  by unfold_locales
    (auto simp: srv_on_timer_def srv_stop_def cancel_io_def rearm_def ceil_secs_le Let_def min_def)

definition app_ok :: "worker_app \<Rightarrow> bool" where
  "app_ok s = (chan_at 1 (wa_lounge s) \<noteq> None)"

interpretation worker: countdown app_ok sv_stop sv_expiry sv_shutdown_time "app_on_timer False"
  by unfold_locales
    (auto simp: app_on_timer_def app_ok_def app_stop_def cancel_io_def rearm_def ceil_secs_le Let_def
      min_def split: option.split)

section \<open>The worker does what the proxy does\<close>

definition core_of :: "worker_app \<Rightarrow> server_core" where
  "core_of s = \<lparr> sv_running = sv_running s, sv_stop = sv_stop s, sv_expiry = sv_expiry s,
     sv_shutdown_time = sv_shutdown_time s, sv_waiting = sv_waiting s, sv_signals = sv_signals s,
     sv_posted = sv_posted s, sv_services = sv_services s, sv_log = sv_log s \<rparr>"

lemma core_of_stop: "core_of (app_stop b s) = srv_stop b (core_of s)"
  by (simp add: core_of_def app_stop_def srv_stop_def cancel_io_def)

lemma core_of_on_timer:
  "app_ok s \<Longrightarrow> map_sum id core_of (app_on_timer b now arm s) = srv_on_timer b now arm (core_of s)"
  by (cases "chan_at 1 (wa_lounge s)")
    (auto simp: app_ok_def app_on_timer_def srv_on_timer_def app_stop_def
      srv_stop_def cancel_io_def Let_def rearm_def core_of_def)

lemma core_of_shutdown:
  assumes "app_ok s"
  shows "map_sum id core_of (app_shutdown b cd at now arm s) = srv_shutdown b cd at now arm (core_of s)"
proof -
  let ?s = "s\<lparr> sv_shutdown_time := at + cd * second \<rparr>"
  have "app_ok ?s" using assms by (simp add: app_ok_def)
  moreover have "core_of ?s = (core_of s)\<lparr> sv_shutdown_time := at + cd * second \<rparr>"
    by (simp add: core_of_def)
  ultimately show ?thesis using core_of_on_timer [of ?s False now arm]
    by (simp add: app_shutdown_def srv_shutdown_def core_of_def)
qed

section \<open>Histories\<close>

datatype server_event =
    EvInsert nat
  | EvStart
  | EvFinish
  | EvShutdown int
  | EvStop
  | EvTask int int int
  | EvTimer int int
  | EvTimerAborted
  | EvSignal int int int
  | EvSignalAborted

definition run_task_on_strand :: "strand_task \<Rightarrow> int \<Rightarrow> int \<Rightarrow> int \<Rightarrow> server_core \<Rightarrow> server_core result" where
  "run_task_on_strand t at now arm s = (case t of
     TaskShutdown cd \<Rightarrow> srv_shutdown True cd at now arm s
   | TaskStop \<Rightarrow> Inr (srv_stop True s))"

text \<open>A timer completion is delivered at the expiry or later; it may have been queued before
  \<open>stop\<close> cancelled the wait.\<close>

inductive server_step :: "server_core \<Rightarrow> server_event \<Rightarrow> server_core \<Rightarrow> bool" where
  ss_insert: "srv_insert n s = Inr s' \<Longrightarrow> server_step s (EvInsert n) s'"
| ss_start: "srv_run_start s = Inr s' \<Longrightarrow> server_step s EvStart s'"
| ss_finish: "sv_running s \<Longrightarrow> srv_run_finish s = Some s' \<Longrightarrow> server_step s EvFinish s'"
| ss_shutdown: "srv_shutdown False cd 0 0 0 s = Inr s' \<Longrightarrow> server_step s (EvShutdown cd) s'"
| ss_stop: "server_step s EvStop (srv_stop False s)"
| ss_task: "sv_posted s = t # ts \<Longrightarrow> at \<le> now \<Longrightarrow> now \<le> arm \<Longrightarrow>
    run_task_on_strand t at now arm (s\<lparr> sv_posted := ts \<rparr>) = Inr s' \<Longrightarrow>
    server_step s (EvTask at now arm) s'"
| ss_timer: "sv_expiry s = Some e \<Longrightarrow> e \<le> now \<Longrightarrow> now \<le> arm \<Longrightarrow>
    srv_on_timer False now arm s = Inr s' \<Longrightarrow> server_step s (EvTimer now arm) s'"
| ss_aborted: "srv_on_timer True 0 0 s = Inr s' \<Longrightarrow> server_step s EvTimerAborted s'"
| ss_signal: "sv_signals s \<Longrightarrow> at \<le> now \<Longrightarrow> now \<le> arm \<Longrightarrow>
    srv_on_signal False at now arm (s\<lparr> sv_signals := False \<rparr>) = Inr s' \<Longrightarrow>
    server_step s (EvSignal at now arm) s'"
| ss_signal_aborted: "srv_on_signal True 0 0 0 s = Inr s' \<Longrightarrow> server_step s EvSignalAborted s'"

inductive_cases server_stepE: "server_step s e s'"

lemmas server_defs = srv_insert_def srv_run_start_def srv_run_finish_def srv_shutdown_def
  srv_stop_def srv_on_timer_def srv_on_signal_def run_task_on_strand_def cancel_io_def
  rearm_def Let_def

lemma server_step_frame:
  assumes "server_step s e s'"
  shows "sv_stop s \<Longrightarrow> sv_stop s'"
    and "sv_expiry s \<noteq> None \<Longrightarrow> sv_expiry s' \<noteq> None \<and> sv_shutdown_time s' = sv_shutdown_time s"
  using assms by (cases; auto simp: server_defs split: if_splits strand_task.splits)+

section \<open>Properties\<close>

text \<open>C14: A shutdown of the worker comes to its end: with \<open>c\<close> seconds of cooldown, at most \<open>(c + 9) div 10\<close>
  timer firings later the server is stopped, however late the handlers run; the channel 1 the
  notices go to exists, so the announcements never fault.\<close>

theorem worker_shutdown_stops:
  assumes "app_ok s" and "sv_expiry s = None" and "at \<le> now" and "now \<le> arm"
    and "(c + 9) div 10 \<le> length ds" and "\<forall>(late, dt) \<in> set ds. 0 \<le> late \<and> 0 \<le> dt"
  shows "\<exists>s'. rbind (app_shutdown True (int c) at now arm s)
      (ticks sv_stop sv_expiry (app_on_timer False) ds) = Inr s' \<and> sv_stop s'"
proof -
  let ?s = "s\<lparr> sv_shutdown_time := at + int c * second \<rparr>"
  have "app_ok ?s" using assms(1) by (simp add: app_ok_def)
  from worker.countdown_stops [OF this _ assms(4,5,6)] assms(2,3)
  show ?thesis by (auto simp: app_shutdown_def)
qed

text \<open>The worker as its constructor leaves it.\<close>

definition empty_lounge :: lounge where
  "empty_lounge = \<lparr> lg_slots = [], lg_next_uid = 0, lg_next_cid = 0, lg_name = (\<lambda>_. []),
     lg_attached = (\<lambda>_. True), lg_sent = [], lg_app = [] \<rparr>"

definition sample_app :: worker_app where
  "sample_app = \<lparr> sv_running = False, sv_stop = False, sv_expiry = None, sv_shutdown_time = never,
     sv_waiting = False, sv_signals = False, sv_posted = [], sv_services = [], sv_log = [],
     wa_lounge = \<lparr> lg_slots = [None, Some \<lparr> ch_uid = 1002, ch_cid = 1, ch_name = ''System'',
         ch_kind = SystemChannel, ch_sessions = [] \<rparr>, Some \<lparr> ch_uid = 1001, ch_cid = 2,
         ch_name = ''General'', ch_kind = RoomChannel, ch_sessions = [] \<rparr>],
       lg_next_uid = 1002, lg_next_cid = 1000, lg_name = (\<lambda>_. []), lg_attached = (\<lambda>_. True),
       lg_sent = [], lg_app = [] \<rparr>,
     wa_control = True, wa_messages = [] \<rparr>"


lemma resize_sample:
  "resize 3 [None] = [None, None, None]" "[a, b, c][2 := x] = [a, b, x]" "[a, b, c] ! 2 = c"
  "resize (Suc (Suc (Suc 0))) [a, b, c] = [a, b, c]" "[a, b, c][Suc 0 := x] = [a, x, c]"
  by (simp_all add: resize_def numeral_eq_Suc)

lemma sample_app_new: "new_app True empty_lounge = Inr sample_app"
  by (simp add: new_app_def sample_app_def empty_lounge_def init_channel_list_def make_room_def
      make_system_channel_def make_reserved_def new_channel_reserved_def next_uid_def list_insert_def
      resize_sample Let_def)

lemma sample_app_ok: "app_ok sample_app"
  by (simp add: app_ok_def chan_at_def sample_app_def)

theorem worker_shutdown_stops_witness:
  "\<exists>s'. rbind (app_shutdown True 30 0 5 7 sample_app)
      (ticks sv_stop sv_expiry (app_on_timer False) [(0, 1), (2, 3), (9, 4)]) = Inr s' \<and> sv_stop s'"
  using worker_shutdown_stops [OF sample_app_ok, of 0 5 7 30 "[(0, 1), (2, 3), (9, 4)]"]
  by (simp add: sample_app_def)

text \<open>C15: The proxy's functions are the worker's without the announcement: on a worker whose channel
  1 exists, stopping, a timer completion, a shutdown request and a signal change the common state,
  and fail, exactly as in the proxy.\<close>

theorem worker_refines_proxy:
  assumes "app_ok s"
  shows "core_of (app_stop on_strand s) = srv_stop on_strand (core_of s) \<and>
    map_sum id core_of (app_on_timer aborted now arm s) = srv_on_timer aborted now arm (core_of s) \<and>
    map_sum id core_of (app_shutdown on_strand cd at now arm s)
      = srv_shutdown on_strand cd at now arm (core_of s) \<and>
    map_sum id core_of (app_on_signal aborted at now arm s)
      = srv_on_signal aborted at now arm (core_of s)"
proof -
  have "app_ok (s\<lparr> sv_signals := True \<rparr>)" using assms by (simp add: app_ok_def)
  from core_of_shutdown [OF this]
  have "map_sum id core_of (app_on_signal aborted at now arm s)
      = srv_on_signal aborted at now arm (core_of s)"
    by (auto simp: app_on_signal_def srv_on_signal_def core_of_stop) (simp_all add: core_of_def)
  with assms show ?thesis by (simp add: core_of_stop core_of_on_timer core_of_shutdown)
qed

theorem worker_refines_proxy_witness:
  "map_sum id core_of (app_shutdown True 30 0 0 0 sample_app) = srv_shutdown True 30 0 0 0 (core_of sample_app)"
  using worker_refines_proxy [OF sample_app_ok] by blast

text \<open>C21: A shutdown can be asked for only once: from the moment its timer is set, nothing that happens
  later moves its deadline, whoever asks again; and a stopped server never runs again.\<close>

theorem shutdown_deadline_fixed:
  assumes "run server_step s es s'" and "sv_expiry s \<noteq> None"
  shows "sv_shutdown_time s' = sv_shutdown_time s \<and> sv_expiry s' \<noteq> None \<and> (sv_stop s \<longrightarrow> sv_stop s')"
proof -
  let ?I = "\<lambda>t. sv_shutdown_time t = sv_shutdown_time s \<and> sv_expiry t \<noteq> None \<and> (sv_stop s \<longrightarrow> sv_stop t)"
  show ?thesis
    by (rule run_invariant [OF assms(1), of ?I]) (use assms(2) server_step_frame in fastforce)+
qed

definition sample_server :: server_core where
  "sample_server = new_server\<lparr> sv_expiry := Some 10, sv_shutdown_time := 30000000000,
     sv_posted := [TaskShutdown 5] \<rparr>"

theorem shutdown_deadline_fixed_witness:
  "\<exists>s'. run server_step sample_server [EvTask 1 2 3] s' \<and> sv_shutdown_time s' = 30000000000"
proof -
  let ?s = "sample_server\<lparr> sv_posted := [] \<rparr>"
  have "server_step sample_server (EvTask 1 2 3) ?s"
    by (rule ss_task [where t = "TaskShutdown 5" and ts = "[]"])
      (simp_all add: sample_server_def server_defs)
  then have r: "run server_step sample_server [EvTask 1 2 3] ?s" by blast
  from shutdown_deadline_fixed [OF this] r show ?thesis
    by (intro exI [of _ ?s]) (simp add: sample_server_def)
qed

text \<open>What can stop a counting server without a stop request or a signal.\<close>

lemma quiet_step:
  assumes "server_step s e s'" and "sv_expiry s \<noteq> None" and "TaskStop \<notin> set (sv_posted s)"
    and "e \<noteq> EvStop" and "\<And>a n m. e \<noteq> EvSignal a n m"
  shows "TaskStop \<notin> set (sv_posted s') \<and>
    (sv_stop s' \<longrightarrow> sv_stop s \<or> (\<exists>now arm. e = EvTimer now arm \<and> sv_shutdown_time s \<le> now))"
  using assms
  by cases (auto simp: server_defs ceil_secs_le split: if_splits strand_task.splits)

text \<open>A countdown is never cut short by itself: once counting, with no stop request made or pending
  and no signal, the server stops only at a timer completion at or after the deadline.\<close>

theorem no_early_stop:
  assumes "run server_step s es s'" and "sv_expiry s \<noteq> None" and "TaskStop \<notin> set (sv_posted s)"
    and "EvStop \<notin> set es" and "\<And>a n m. EvSignal a n m \<notin> set es"
    and "\<not> sv_stop s" and "sv_stop s'"
  shows "\<exists>now arm. EvTimer now arm \<in> set es \<and> sv_shutdown_time s \<le> now"
  using assms
proof (induction rule: run.induct)
  case (run_cons s e s1 es s2)
  note q = quiet_step [OF run_cons.hyps(1) run_cons.prems(1,2)]
  have e: "e \<noteq> EvStop" using run_cons.prems(3) by auto
  have e': "e \<noteq> EvSignal a n m" for a n m using run_cons.prems(4) [of a n m] by auto
  show ?case
  proof (cases "sv_stop s1")
    case True
    with q [OF e e'] run_cons.prems(5) show ?thesis by auto
  next
    case False
    have f: "sv_expiry s1 \<noteq> None" "sv_shutdown_time s1 = sv_shutdown_time s"
      using server_step_frame(2) [OF run_cons.hyps(1) run_cons.prems(1)] by simp_all
    have "\<exists>now arm. EvTimer now arm \<in> set es \<and> sv_shutdown_time s1 \<le> now"
      using run_cons.IH [OF f(1)] q [OF e e'] run_cons.prems(3,4,6) False by auto
    then show ?thesis using f(2) by auto
  qed
qed simp

theorem no_early_stop_witness:
  "\<exists>s' es. run server_step (sample_server\<lparr> sv_posted := [] \<rparr>) es s' \<and> sv_stop s' \<and>
    (\<exists>now arm. EvTimer now arm \<in> set es \<and> 30000000000 \<le> now)"
proof -
  let ?s = "sample_server\<lparr> sv_posted := [] \<rparr>" and ?t = 30000000001
  let ?s' = "srv_stop True ?s"
  have "server_step ?s (EvTimer ?t ?t) ?s'"
    by (rule ss_timer [where e = 10]) (simp_all add: sample_server_def server_defs ceil_secs_le)
  then have r: "run server_step ?s [EvTimer ?t ?t] ?s'" by blast
  have "\<exists>now arm. EvTimer now arm \<in> set [EvTimer ?t ?t] \<and> sv_shutdown_time ?s \<le> now"
    by (rule no_early_stop [OF r]) (simp_all add: sample_server_def new_server_def server_defs)
  with r show ?thesis
    by (intro exI [of _ ?s'] exI [of _ "[EvTimer ?t ?t]"])
      (simp add: sample_server_def new_server_def server_defs)
qed

text \<open>The second signal, and any signal during a countdown, stops at once; but a stop does not
  forbid a later shutdown: on a server stopped before any countdown, \<open>shutdown\<close> still announces and
  arms the timer, because it asks for the timer's expiry and not for \<open>stop_\<close>.\<close>

theorem signal_stops_but_shutdown_revives:
  assumes "app_ok s"
  shows "(sv_expiry s \<noteq> None \<longrightarrow> (\<exists>s'. app_on_signal False at now arm s = Inr s' \<and> sv_stop s')) \<and>
    (sv_expiry s = None \<and> now < at + c * second \<longrightarrow>
      (\<exists>s'. app_shutdown True c at now arm (app_stop True s) = Inr s' \<and> sv_stop s' \<and> sv_waiting s' \<and>
        sv_expiry s' \<noteq> None))"
  using assms
  by (auto simp: app_on_signal_def app_stop_def app_shutdown_def app_on_timer_def app_ok_def
      cancel_io_def rearm_def Let_def ceil_secs_le)

theorem signal_stops_but_shutdown_revives_witness:
  "\<exists>s'. app_shutdown True 5 0 0 0 (app_stop True sample_app) = Inr s' \<and> sv_stop s' \<and> sv_waiting s'"
proof -
  have "sv_expiry sample_app = None \<and> (0::int) < 0 + 5 * second"
    by (simp add: sample_app_def second_def)
  then show ?thesis
    using signal_stops_but_shutdown_revives [OF sample_app_ok, of 0 0 0 5] by blast
qed

text \<open>The announcement of a shutdown goes to channel 1, which is the channel System and not the room
  General: only the sessions that joined it are told, and the lounge is otherwise unchanged.\<close>

theorem notice_reaches_system_only:
  assumes "chan_at 1 (wa_lounge s) = Some c" and "now < sv_shutdown_time s"
  shows "\<exists>s'. app_on_timer False now arm s = Inr s' \<and>
    lg_sent (wa_lounge s') = lg_sent (wa_lounge s) @
      map (\<lambda>t. (t, notice_json c (ceil_secs (sv_shutdown_time s - now))))
        (filter (lg_attached (wa_lounge s)) (ch_sessions c)) \<and>
    lg_slots (wa_lounge s') = lg_slots (wa_lounge s)"
  using assms ceil_secs_le [of "sv_shutdown_time s - now"]
  by (simp add: app_on_timer_def rearm_def Let_def sessions_of_def)

theorem notice_reaches_system_only_witness:
  "\<exists>s'. app_on_timer False 0 0 sample_app = Inr s' \<and> lg_sent (wa_lounge s') = []"
proof -
  have "chan_at 1 (wa_lounge sample_app) = Some \<lparr> ch_uid = 1002, ch_cid = 1, ch_name = ''System'',
      ch_kind = SystemChannel, ch_sessions = [] \<rparr>" "0 < sv_shutdown_time sample_app"
    by (simp_all add: sample_app_def chan_at_def never_def)
  from notice_reaches_system_only [OF this, of 0] show ?thesis by (auto simp: sample_app_def)
qed

text \<open>Services are started and stopped in the order of their insertion.\<close>

definition lifecycle_ok :: "server_core \<Rightarrow> bool" where
  "lifecycle_ok s = (if \<not> sv_running s then sv_log s = []
     else sv_log s = map OnStart (sv_services s) \<or>
       (\<exists>xs. sv_services s = [] \<and> sv_log s = map OnStart xs @ map OnStop xs))"

lemma server_ops_frame:
  "sv_running (srv_stop b s) = sv_running s" "sv_services (srv_stop b s) = sv_services s"
  "sv_log (srv_stop b s) = sv_log s"
  "srv_on_timer b now arm s = Inr s' \<Longrightarrow>
    sv_running s' = sv_running s \<and> sv_services s' = sv_services s \<and> sv_log s' = sv_log s"
  "srv_shutdown b cd at now arm s = Inr s' \<Longrightarrow>
    sv_running s' = sv_running s \<and> sv_services s' = sv_services s \<and> sv_log s' = sv_log s"
  by (auto simp: server_defs split: if_splits)

lemma lifecycle_step:
  assumes "server_step s e s'" and "lifecycle_ok s"
  shows "lifecycle_ok s'"
  using assms(1)
proof cases
  case ss_finish
  then show ?thesis using assms(2)
    by (auto simp: lifecycle_ok_def srv_run_finish_def split: if_splits)
next
  case (ss_task t ts at now arm)
  then show ?thesis using assms(2)
    by (cases t) (auto simp: lifecycle_ok_def run_task_on_strand_def server_ops_frame
        dest!: server_ops_frame(4,5))
qed (use assms(2) in \<open>auto simp: lifecycle_ok_def srv_insert_def srv_run_start_def server_ops_frame
    srv_on_signal_def dest!: server_ops_frame(4,5) split: if_splits\<close>)

text \<open>Every service is started once and stopped once, in the order of insertion, and the list does
  not change while the server runs: whatever requests, signals and timer completions happen, the
  calls made of the services are all the starts and, once \<open>run\<close> has returned, all the stops.\<close>

theorem services_start_and_stop_once:
  assumes "run server_step new_server es s"
  shows "sv_running s \<longrightarrow> sv_log s = map OnStart (sv_services s) \<or>
    (\<exists>xs. sv_services s = [] \<and> sv_log s = map OnStart xs @ map OnStop xs)"
proof -
  have "lifecycle_ok new_server" by (simp add: lifecycle_ok_def new_server_def)
  then have "lifecycle_ok s"
    using run_invariant [OF assms, of lifecycle_ok] lifecycle_step by blast
  then show ?thesis unfolding lifecycle_ok_def by presburger
qed

theorem services_start_and_stop_once_witness:
  "\<exists>s. run server_step new_server [EvInsert 7, EvStart, EvStop, EvTask 0 0 0, EvFinish] s \<and>
    sv_log s = [OnStart 7, OnStop 7]"
proof -
  let ?a = "new_server\<lparr> sv_services := [7] \<rparr>"
  let ?b = "?a\<lparr> sv_running := True, sv_log := [OnStart 7], sv_signals := True \<rparr>"
  let ?c = "?b\<lparr> sv_posted := [TaskStop] \<rparr>"
  let ?d = "?b\<lparr> sv_stop := True, sv_signals := False \<rparr>"
  let ?e = "?d\<lparr> sv_services := [], sv_log := [OnStart 7, OnStop 7] \<rparr>"
  have "server_step new_server (EvInsert 7) ?a" "server_step ?a EvStart ?b"
    by (rule ss_insert ss_start; simp add: new_server_def server_defs)+
  moreover have "server_step ?b EvStop ?c"
    using ss_stop [of ?b] by (simp add: new_server_def server_defs)
  moreover have "server_step ?c (EvTask 0 0 0) ?d"
    by (rule ss_task [where t = TaskStop and ts = "[]"]) (simp_all add: new_server_def server_defs)
  moreover have "server_step ?d EvFinish ?e"
    by (rule ss_finish) (simp_all add: new_server_def server_defs)
  ultimately have r: "run server_step new_server [EvInsert 7, EvStart, EvStop, EvTask 0 0 0, EvFinish] ?e"
    by (meson run.intros)
  from services_start_and_stop_once [OF r] r show ?thesis by (intro exI [of _ ?e]) simp
qed

end
