(* ===== verification/HttpRequest.thy ===== *)
theory HttpRequest imports EpInterfaces begin

text \<open>
  The proxy's view of a request (\<open>easyprospect-http-request.h\<close>): the immutable request object and
  its accessors, the builder that makes it from a beast parser or from another request, the
  continuation that carries a piece of the body, and the conversion to the beast request that is
  written to a worker. A uuid is a number, 0 the nil uuid; what the code asks of beast (the verb of a
  method name) and of the uuid generator is an argument.
\<close>

type_synonym uuid = nat

abbreviation (input) nil_uuid :: uuid where "nil_uuid \<equiv> 0"

record http_req =
  hr_content_length :: "nat option"
  hr_body :: "string option"
  hr_raw :: "string option"
  hr_content_type :: "string option"
  hr_url :: string
  hr_host :: string
  hr_method :: string
  hr_headers :: "(string \<times> string) list"
  hr_done :: bool
  hr_session :: uuid

text \<open>The constructor has no argument for the host.\<close>

definition new_http_req ::
  "nat option \<Rightarrow> string option \<Rightarrow> string option \<Rightarrow> string option \<Rightarrow> string \<Rightarrow> string \<Rightarrow> bool \<Rightarrow> uuid
    \<Rightarrow> (string \<times> string) list \<Rightarrow> http_req" where
  "new_http_req cl b r ct u m d s h = \<lparr> hr_content_length = cl, hr_body = b, hr_raw = r,
     hr_content_type = ct, hr_url = u, hr_host = [], hr_method = m, hr_headers = h, hr_done = d,
     hr_session = s \<rparr>"

definition get_content_length :: "http_req \<Rightarrow> nat result" where
  "get_content_length r = (case hr_content_length r of
     Some n \<Rightarrow> Inr n | None \<Rightarrow> Inl (LogicError ''Content Length not found''))"

definition get_raw :: "http_req \<Rightarrow> string result" where
  "get_raw r = (case hr_raw r of
     Some s \<Rightarrow> Inr s | None \<Rightarrow> Inl (LogicError ''Raw request not found''))"

definition get_body :: "http_req \<Rightarrow> string result" where
  "get_body r = (case hr_body r of
     Some s \<Rightarrow> Inr s | None \<Rightarrow> Inl (LogicError ''Request body not found''))"

definition get_content_type :: "http_req \<Rightarrow> string result" where
  "get_content_type r = (case hr_content_type r of
     Some s \<Rightarrow> Inr s | None \<Rightarrow> Inl (LogicError ''Content type not found''))"

definition http_req_to_string :: "(uuid \<Rightarrow> string) \<Rightarrow> http_req \<Rightarrow> string" where
  "http_req_to_string uu r =
    ''url     : '' @ hr_url r @ newline @
    ''method  : '' @ hr_method r @ newline @
    ''session : '' @ uu (hr_session r) @ newline @
    (case hr_content_length r of
       Some n \<Rightarrow> ''content length: '' @ dec_nat n @ newline
     | None \<Rightarrow> ''content length: (uninitialized)'' @ newline) @
    (case hr_content_type r of
       Some c \<Rightarrow> ''content type: '' @ c @ newline
     | None \<Rightarrow> ''content type: (uninitialized)'' @ newline) @
    ''is done: '' @ (if hr_done r then ''1'' else ''0'') @ newline @
    ''headers: '' @ dec_nat (length (hr_headers r)) @ newline @
    concat (map (\<lambda>(n, v). ''    '' @ n @ '': '' @ v @ newline) (hr_headers r)) @ newline"

section \<open>The request sent on\<close>

text \<open>\<open>basic_fields::set\<close> removes every field of the name, case-insensitively, and adds one.\<close>

definition set_field :: "string \<Rightarrow> string \<Rightarrow> (string \<times> string) list \<Rightarrow> (string \<times> string) list" where
  "set_field n v fs = filter (\<lambda>(m, _). \<not> iequals m n) fs @ [(n, v)]"

definition field_values :: "string \<Rightarrow> (string \<times> string) list \<Rightarrow> string list" where
  "field_values n fs = map snd (filter (\<lambda>(m, _). iequals m n) fs)"

definition field_at :: "(string \<times> string) list \<Rightarrow> string \<Rightarrow> string" where
  "field_at fs n = (case field_values n fs of [] \<Rightarrow> [] | v # _ \<Rightarrow> v)"

record beast_request =
  br_method :: string
  br_target :: string
  br_version :: nat
  br_fields :: "(string \<times> string) list"
  br_body :: string

definition session_header :: string where "session_header = ''X-EP-SESSION-ID''"

text \<open>\<open>known\<close> tells the method names that are not \<open>verb::unknown\<close>, which \<open>method\<close> refuses.\<close>

definition to_beast_request :: "(string \<Rightarrow> bool) \<Rightarrow> (uuid \<Rightarrow> string) \<Rightarrow> http_req \<Rightarrow> beast_request result" where
  "to_beast_request known uu r =
    (if \<not> known (hr_method r) then Inl (InvalidArgument ''unknown verb'')
     else Inr \<lparr> br_method = hr_method r, br_target = hr_url r, br_version = 11,
       br_fields = fold (\<lambda>(n, v). set_field n v) (hr_headers r)
         (if hr_session r \<noteq> nil_uuid then [(session_header, uu (hr_session r))] else []),
       br_body = (case hr_body r of Some b \<Rightarrow> b | None \<Rightarrow> []) \<rparr>)"

section \<open>Builders\<close>

record http_req_builder =
  hb_content_length :: "nat option"
  hb_body :: "string option"
  hb_raw :: "string option"
  hb_content_type :: "string option"
  hb_url :: string
  hb_host :: string
  hb_method :: string
  hb_headers :: "(string \<times> string) list"
  hb_input_buffer :: string
  hb_header_done :: bool
  hb_done :: bool
  hb_total_bytes_read :: int
  hb_session :: uuid

text \<open>The members before a constructor's body; the uuid is not initialised.\<close>

definition blank_builder :: "uuid \<Rightarrow> http_req_builder" where
  "blank_builder garbage = \<lparr> hb_content_length = None, hb_body = None, hb_raw = None,
     hb_content_type = None, hb_url = [], hb_host = [], hb_method = [], hb_headers = [],
     hb_input_buffer = [], hb_header_done = False, hb_done = False, hb_total_bytes_read = 0,
     hb_session = garbage \<rparr>"

definition set_input_buffer_contents :: "string \<Rightarrow> nat \<Rightarrow> http_req_builder \<Rightarrow> http_req_builder result" where
  "set_input_buffer_contents val sz b =
    (if length val < sz then Inl UndefinedBehaviour
     else Inr (b\<lparr> hb_input_buffer := hb_input_buffer b @ take sz val \<rparr>))"

definition builder_of_request :: "uuid \<Rightarrow> http_req \<Rightarrow> http_req_builder" where
  "builder_of_request garbage r =
    (let b = (blank_builder garbage)\<lparr> hb_url := hr_url r, hb_headers := hr_headers r \<rparr>;
         b = (case hr_content_length r of Some n \<Rightarrow> b\<lparr> hb_content_length := Some n \<rparr> | None \<Rightarrow> b);
         b = (case hr_content_type r of Some c \<Rightarrow> b\<lparr> hb_content_type := Some c \<rparr> | None \<Rightarrow> b) in
     b\<lparr> hb_host := hr_host r, hb_method := hr_method r, hb_done := hr_done r,
        hb_session := hr_session r \<rparr>)"

text \<open>What the builder reads of a beast parser.\<close>

record parser_view =
  pv_content_length :: "nat option"
  pv_fields :: "(string \<times> string) list"
  pv_method :: string
  pv_target :: string
  pv_header_done :: bool
  pv_done :: bool

definition builder_of_parser :: "uuid \<Rightarrow> uuid \<Rightarrow> parser_view \<Rightarrow> uuid \<Rightarrow> http_req_builder" where
  "builder_of_parser fresh garbage p sess =
    (blank_builder garbage)\<lparr>
      hb_session := (if sess = nil_uuid then fresh else sess),
      hb_content_length := pv_content_length p,
      hb_content_type := Some (field_at (pv_fields p) ''Content-Type''),
      hb_host := field_at (pv_fields p) ''Host'',
      hb_method := pv_method p,
      hb_url := pv_target p,
      hb_done := pv_done p,
      hb_header_done := pv_header_done p,
      hb_headers := pv_fields p \<rparr>"

definition to_request :: "http_req_builder \<Rightarrow> http_req" where
  "to_request b = new_http_req (hb_content_length b) (hb_body b) (hb_raw b) (hb_content_type b)
     (hb_url b) (hb_method b) (hb_done b) (hb_session b) (hb_headers b)"

section \<open>Continuations\<close>

record 'b continuation =
  co_first :: "http_req option"
  co_buffer :: "'b list"
  co_done :: bool

text \<open>The first \<open>n\<close> bytes of the buffer the parser writes its body to.\<close>

definition build_continuation :: "bool \<Rightarrow> http_req option \<Rightarrow> 'b list \<Rightarrow> nat \<Rightarrow> 'b continuation result" where
  "build_continuation fin first buf n =
    (if length buf < n then Inl UndefinedBehaviour
     else Inr \<lparr> co_first = first, co_buffer = take n buf, co_done = fin \<rparr>)"

section \<open>Facts\<close>

lemma set_field_values:
  "field_values m (set_field n v fs) = (if iequals n m then [v] else field_values m fs)"
proof (cases "iequals n m")
  case True
  have "\<not> (iequals k m \<and> \<not> iequals k n)" for k
    using True iequals_trans [of k m n] iequals_sym [of n m] by auto
  then show ?thesis using True by (auto simp: set_field_def field_values_def filter_empty_conv)
next
  case False
  have "iequals k m \<Longrightarrow> \<not> iequals k n" for k
    using False iequals_trans [of n k m] iequals_sym [of n k] by auto
  then have "filter (\<lambda>x. (case x of (k, _) \<Rightarrow> iequals k m) \<and> (case x of (k, _) \<Rightarrow> \<not> iequals k n)) fs
      = filter (\<lambda>(k, _). iequals k m) fs"
    by (intro filter_cong) auto
  with False show ?thesis by (simp add: set_field_def field_values_def conj_commute)
qed

lemma field_values_simps [simp]:
  "field_values m [] = []"
  "field_values m ((n, v) # hs) = (if iequals n m then v # field_values m hs else field_values m hs)"
  by (simp_all add: field_values_def)

lemma fold_set_field:
  "field_values m (fold (\<lambda>(n, v). set_field n v) hs fs) =
    (if field_values m hs = [] then field_values m fs else [last (field_values m hs)])"
proof (induction hs arbitrary: fs)
  case (Cons h hs)
  obtain n v where h: "h = (n, v)" by (cases h)
  show ?case unfolding h using Cons.IH [of "set_field n v fs"]
    by (simp add: set_field_values)
qed simp

section \<open>Properties\<close>

text \<open>Rebuilding a request that the proxy made from a parsed one gives the same request, so nothing
  of it is lost on the way to the worker but the host, which the first \<open>to_request\<close> already drops.\<close>

theorem rebuild_request:
  "let r = to_request (builder_of_parser fresh g p sess) in
    to_request (builder_of_request g' r) = r \<and> hr_host r = [] \<and> hr_body r = None \<and>
    hr_headers r = pv_fields p \<and> hr_session r = (if sess = nil_uuid then fresh else sess)"
  by (simp add: builder_of_parser_def builder_of_request_def to_request_def new_http_req_def
      blank_builder_def Let_def split: option.split)

text \<open>The headers of the request sent on: of several fields of one name only the last survives, and
  the session header is the proxy's only when the client sent none; a client that sends the header
  itself chooses the session the worker sees.\<close>

theorem forwarded_headers:
  assumes "to_beast_request known uu r = Inr q"
  shows "field_values n (br_fields q) =
    (if field_values n (hr_headers r) \<noteq> [] then [last (field_values n (hr_headers r))]
     else if hr_session r \<noteq> nil_uuid \<and> iequals session_header n then [uu (hr_session r)]
     else [])"
  using assms by (auto simp: to_beast_request_def fold_set_field split: if_splits)

definition sample_req :: http_req where
  "sample_req = new_http_req None None None (Some []) ''/a'' ''GET'' True 5
     [(''Host'', ''h''), (''x-ep-session-id'', ''mine''), (''Cookie'', ''a''), (''cookie'', ''b'')]"

theorem forwarded_headers_witness:
  "\<exists>q. to_beast_request (\<lambda>_. True) (\<lambda>_. ''u'') sample_req = Inr q \<and>
    field_values session_header (br_fields q) = [''mine''] \<and> field_values ''Cookie'' (br_fields q) = [''b'']"
proof -
  obtain q where q: "to_beast_request (\<lambda>_. True) (\<lambda>_. ''u'') sample_req = Inr q"
    by (simp add: to_beast_request_def)
  have "field_values session_header (hr_headers sample_req) = [''mine'']"
    "field_values ''Cookie'' (hr_headers sample_req) = [''a'', ''b'']"
    by code_simp+
  with forwarded_headers [OF q, of session_header] forwarded_headers [OF q, of "''Cookie''"] q
  show ?thesis by simp
qed

end
