(* ===== verification/WsSession.thy ===== *)
theory WsSession imports EpInterfaces Rpc "HOL-Library.Multiset" begin

text \<open>
  The session side of the network code, \<open>session.hpp\<close>, \<open>session.cpp\<close> and \<open>message.cpp\<close>: building a
  message, the queue of outgoing messages of a WebSocket session with its single write in flight,
  the wrapper that owns a plain or a TLS session, and the worker's answer to an HTTP request
  (\<open>mime_type\<close>, \<open>handle_request\<close>). Paths, regular expressions and files are boost and standard
  library code: the record \<open>fs_lib\<close>, an argument of the definitions.
\<close>

section \<open>Messages\<close>

text \<open>\<open>make_message\<close> copies the text with its terminating zero to a buffer of 16384 bytes.\<close>

definition message_buffer :: nat where "message_buffer = 16384"

definition make_message :: "(json \<Rightarrow> string) \<Rightarrow> json \<Rightarrow> string result" where
  "make_message dump jv =
    (if message_buffer < length (dump jv) + 1 then Inl UndefinedBehaviour else Inr (dump jv))"

section \<open>The queue of a session\<close>

record 'm ws_queue =
  wq_open :: bool
  wq_mq :: "'m list"
  wq_flight :: "nat list"
  wq_written :: "'m list"

definition new_ws_queue :: "'m ws_queue" where
  "new_ws_queue = \<lparr> wq_open = True, wq_mq = [], wq_flight = [], wq_written = [] \<rparr>"

text \<open>\<open>async_write\<close> is given the last element; the completion handler is bound to its index.
  \<open>wq_flight\<close> lists the indices of the writes begun and not completed.\<close>

definition do_write :: "'m ws_queue \<Rightarrow> 'm ws_queue result" where
  "do_write q = (if wq_mq q = [] then Inl AssertionFailed
     else Inr (q\<lparr> wq_flight := wq_flight q @ [length (wq_mq q) - 1] \<rparr>))"

definition do_send :: "'m \<Rightarrow> 'm ws_queue \<Rightarrow> 'm ws_queue result" where
  "do_send m q =
    (if \<not> wq_open q then Inr q
     else let q' = q\<lparr> wq_mq := wq_mq q @ [m] \<rparr> in
       if length (wq_mq q') = 1 then do_write q' else Inr q')"

definition swap_at :: "nat \<Rightarrow> nat \<Rightarrow> 'm list \<Rightarrow> 'm list" where
  "swap_at i j xs = xs[i := xs ! j, j := xs ! i]"

text \<open>The completion of the write of index \<open>idx\<close>; \<open>wq_written\<close> records the messages whose write
  succeeded.\<close>

definition on_write :: "nat \<Rightarrow> bool \<Rightarrow> 'm ws_queue \<Rightarrow> 'm ws_queue result" where
  "on_write idx failed q =
    (if wq_mq q = [] then Inl AssertionFailed
     else if failed then Inr (q\<lparr> wq_flight := remove1 idx (wq_flight q) \<rparr>)
     else let last = length (wq_mq q) - 1;
              mq = (if idx \<noteq> last then swap_at idx last (wq_mq q) else wq_mq q);
              q' = q\<lparr> wq_mq := take last mq, wq_flight := remove1 idx (wq_flight q),
                     wq_written := wq_written q @ [wq_mq q ! idx] \<rparr> in
       if wq_mq q' \<noteq> [] then do_write q' else Inr q')"

definition do_stop_session :: "'m ws_queue \<Rightarrow> 'm ws_queue" where
  "do_stop_session q = q\<lparr> wq_open := False \<rparr>"

text \<open>What happens to the queue: a send on the strand, the completion of the write in flight,
  the socket closed by \<open>do_stop\<close> or by the peer.\<close>

datatype 'm ws_event = WsSend 'm | WsWritten bool | WsStop

inductive ws_step :: "'m ws_queue \<Rightarrow> 'm ws_event \<Rightarrow> 'm ws_queue \<Rightarrow> bool" where
  ws_send: "do_send m q = Inr q' \<Longrightarrow> ws_step q (WsSend m) q'"
| ws_written: "i \<in> set (wq_flight q) \<Longrightarrow> on_write i b q = Inr q' \<Longrightarrow> ws_step q (WsWritten b) q'"
| ws_stop: "ws_step q WsStop (do_stop_session q)"

inductive_cases ws_stepE: "ws_step q e q'"

text \<open>Executable runs: completions with success until nothing is in flight.\<close>

fun complete_writes :: "nat \<Rightarrow> 'm ws_queue \<Rightarrow> 'm ws_queue result" where
  "complete_writes 0 q = Inr q"
| "complete_writes (Suc n) q = (case wq_flight q of
     [] \<Rightarrow> Inr q
   | i # _ \<Rightarrow> rbind (on_write i False q) (complete_writes n))"

fun send_all :: "'m list \<Rightarrow> 'm ws_queue \<Rightarrow> 'm ws_queue result" where
  "send_all [] q = Inr q"
| "send_all (m # ms) q = rbind (do_send m q) (send_all ms)"

section \<open>The wrapper\<close>

text \<open>\<open>ws_session_t\<close>: the constructor for a plain stream fills the plain pointer, the one for a TLS
  stream the other; every call goes through the plain pointer.\<close>

record 'm ws_session_t =
  wst_plain :: "'m ws_queue option"
  wst_ssl :: "'m ws_queue option"

definition new_session_plain :: "'m ws_session_t" where
  "new_session_plain = \<lparr> wst_plain = Some new_ws_queue, wst_ssl = None \<rparr>"

definition new_session_ssl :: "'m ws_session_t" where
  "new_session_ssl = \<lparr> wst_plain = None, wst_ssl = Some new_ws_queue \<rparr>"

definition wrapper_send :: "'m \<Rightarrow> 'm ws_session_t \<Rightarrow> 'm ws_session_t result" where
  "wrapper_send m w = (case wst_plain w of
     None \<Rightarrow> Inr w
   | Some q \<Rightarrow> rbind (do_send m q) (\<lambda>q'. Inr (w\<lparr> wst_plain := Some q' \<rparr>)))"

section \<open>HTTP requests\<close>

definition extension_of :: "string \<Rightarrow> string" where
  "extension_of path = (if CHR ''.'' \<in> set path
     then CHR ''.'' # rev (takeWhile (\<lambda>c. c \<noteq> CHR ''.'') (rev path)) else [])"

definition mime_table :: "(string \<times> string) list" where
  "mime_table = [(''.htm'', ''text/html''), (''.html'', ''text/html''), (''.php'', ''text/html''),
     (''.css'', ''text/css''), (''.txt'', ''text/plain''), (''.js'', ''application/javascript''),
     (''.json'', ''application/json''), (''.xml'', ''application/xml''),
     (''.swf'', ''application/x-shockwave-flash''), (''.flv'', ''video/x-flv''),
     (''.png'', ''image/png''), (''.jpe'', ''image/jpeg''), (''.jpeg'', ''image/jpeg''),
     (''.jpg'', ''image/jpeg''), (''.gif'', ''image/gif''), (''.bmp'', ''image/bmp''),
     (''.ico'', ''image/vnd.microsoft.icon''), (''.tiff'', ''image/tiff''), (''.tif'', ''image/tiff''),
     (''.svg'', ''image/svg+xml''), (''.svgz'', ''image/svg+xml'')]"

fun first_match :: "string \<Rightarrow> (string \<times> string) list \<Rightarrow> string" where
  "first_match ext [] = ''application/text''"
| "first_match ext ((e, t) # ts) = (if iequals ext e then t else first_match ext ts)"

definition mime_type :: "string \<Rightarrow> string" where
  "mime_type path = first_match (extension_of path) mime_table"

datatype http_verb = VerbGet | VerbHead | VerbOther string

record http_request =
  rq_method :: http_verb
  rq_target :: string
  rq_version :: nat
  rq_keep_alive :: bool

datatype http_body = EmptyBody | StringBody string | FileBody string

record http_response =
  rs_status :: nat
  rs_version :: nat
  rs_content_type :: "string option"
  rs_keep_alive :: bool
  rs_length :: "nat option"
  rs_body :: http_body

datatype file_opened = FileOpened nat | FileMissing | FileError string

record 'rx fs_lib =
  fs_concat :: "string \<Rightarrow> string \<Rightarrow> string"
  fs_append :: "string \<Rightarrow> string \<Rightarrow> string"
  fs_regex_match :: "'rx \<Rightarrow> string \<Rightarrow> bool"
  fs_open :: "string \<Rightarrow> file_opened"

definition text_response :: "nat \<Rightarrow> http_request \<Rightarrow> string \<Rightarrow> http_response" where
  "text_response st req body = \<lparr> rs_status = st, rs_version = rq_version req,
     rs_content_type = Some ''text/html'', rs_keep_alive = rq_keep_alive req,
     rs_length = Some (length body), rs_body = StringBody body \<rparr>"

definition bad_request :: "http_request \<Rightarrow> string \<Rightarrow> http_response" where
  "bad_request req why = text_response 400 req why"

definition not_found :: "http_request \<Rightarrow> string \<Rightarrow> http_response" where
  "not_found req target = text_response 404 req (''The resource '' @ [CHR 0x27] @ target @ [CHR 0x27] @ '' was not found.'')"

definition server_error :: "http_request \<Rightarrow> string \<Rightarrow> http_response" where
  "server_error req what = text_response 500 req (''An error occurred: '' @ [CHR 0x27] @ what @ [CHR 0x27])"

fun has_dotdot :: "string \<Rightarrow> bool" where
  "has_dotdot (a # b # cs) = ((a = CHR ''.'' \<and> b = CHR ''.'') \<or> has_dotdot (b # cs))"
| "has_dotdot _ = False"

definition target_ok :: "string \<Rightarrow> bool" where
  "target_ok t = (\<not> (t = [] \<or> hd t \<noteq> CHR ''/'' \<or> has_dotdot t))"

definition request_path :: "'rx fs_lib \<Rightarrow> string \<Rightarrow> string \<Rightarrow> string" where
  "request_path l root t =
    (let p = fs_concat l root t in if last t = CHR ''/'' then fs_append l p ''index.html'' else p)"

definition handle_request ::
  "'rx fs_lib \<Rightarrow> string option \<Rightarrow> 'rx list \<Rightarrow> (string \<Rightarrow> string \<Rightarrow> string \<Rightarrow> string result) option
    \<Rightarrow> http_request \<Rightarrow> http_response result" where
  "handle_request l doc_root exts epjs req = (case doc_root of
     None \<Rightarrow> Inl AssertionFailed
   | Some root \<Rightarrow>
      (if rq_method req \<noteq> VerbGet \<and> rq_method req \<noteq> VerbHead
       then Inr (bad_request req ''Unknown HTTP-method'')
       else if \<not> target_ok (rq_target req) then Inr (bad_request req ''Illegal request-target'')
       else let path = request_path l root (rq_target req) in
         if list_ex (\<lambda>r. fs_regex_match l r path) exts
         then (case epjs of
             None \<Rightarrow> Inl (LogicError ''Missing epjs_process_req'')
           | Some f \<Rightarrow> rbind (f path root (rq_target req)) (\<lambda>output.
               Inr \<lparr> rs_status = 200, rs_version = rq_version req, rs_content_type = None,
                 rs_keep_alive = rq_keep_alive req, rs_length = Some (length output),
                 rs_body = StringBody output \<rparr>))
         else (case fs_open l path of
             FileMissing \<Rightarrow> Inr (not_found req (rq_target req))
           | FileError e \<Rightarrow> Inr (server_error req e)
           | FileOpened sz \<Rightarrow>
               Inr \<lparr> rs_status = 200, rs_version = rq_version req,
                 rs_content_type = Some (mime_type path), rs_keep_alive = rq_keep_alive req,
                 rs_length = Some sz,
                 rs_body = (if rq_method req = VerbHead then EmptyBody else FileBody path) \<rparr>)))"

section \<open>Facts about the queue\<close>

text \<open>At most one write is in flight, of an element of the queue.\<close>

definition ws_inv :: "'m ws_queue \<Rightarrow> bool" where
  "ws_inv q = (wq_flight q = [] \<or> (\<exists>i < length (wq_mq q). wq_flight q = [i]))"

lemma length_swap_at [simp]: "length (swap_at i j xs) = length xs"
  by (simp add: swap_at_def)

lemma swap_take_mset:
  assumes "i < length xs"
  shows "add_mset (xs ! i) (mset (take (length xs - 1)
    (if i \<noteq> length xs - 1 then swap_at i (length xs - 1) xs else xs))) = mset xs"
proof -
  obtain ys z where xs: "xs = ys @ [z]" using assms by (cases xs rule: rev_cases) auto
  show ?thesis
  proof (cases "i = length ys")
    case False
    then have i: "i < length ys" using assms xs by simp
    then have "take (length ys) (swap_at i (length ys) xs) = ys[i := z]"
      by (simp add: swap_at_def xs nth_append list_update_append)
    then show ?thesis using i xs by (simp add: nth_append mset_update)
  qed (simp add: xs nth_append)
qed

lemma ws_inv_send:
  "ws_inv q \<Longrightarrow> \<exists>q'. do_send m q = Inr q' \<and> ws_inv q' \<and> wq_written q' = wq_written q \<and>
    wq_open q' = wq_open q \<and> mset (wq_mq q') = mset (wq_mq q) + (if wq_open q then {#m#} else {#})"
  by (auto simp: ws_inv_def do_send_def do_write_def Let_def)

lemma on_write_single:
  assumes "wq_flight q = [i]" and "i < length (wq_mq q)"
    and "M = take (length (wq_mq q) - 1)
      (if i \<noteq> length (wq_mq q) - 1 then swap_at i (length (wq_mq q) - 1) (wq_mq q) else wq_mq q)"
  shows "on_write i b q = Inr (if b then q\<lparr> wq_flight := [] \<rparr>
    else q\<lparr> wq_mq := M, wq_flight := (if M = [] then [] else [length M - 1]),
      wq_written := wq_written q @ [wq_mq q ! i] \<rparr>)"
  unfolding on_write_def do_write_def Let_def assms(3)
  using assms(1,2) by auto

lemma ws_inv_write:
  assumes "ws_inv q" and "i \<in> set (wq_flight q)"
  shows "\<exists>q'. on_write i b q = Inr q' \<and> ws_inv q' \<and> wq_open q' = wq_open q \<and>
    mset (wq_written q') + mset (wq_mq q') = mset (wq_written q) + mset (wq_mq q)"
proof -
  have f: "wq_flight q = [i]" "i < length (wq_mq q)" using assms by (auto simp: ws_inv_def)
  let ?M = "take (length (wq_mq q) - 1)
    (if i \<noteq> length (wq_mq q) - 1 then swap_at i (length (wq_mq q) - 1) (wq_mq q) else wq_mq q)"
  show ?thesis unfolding on_write_single [OF f refl] using swap_take_mset [OF f(2)]
    by (simp add: ws_inv_def del: length_take)
qed

text \<open>The messages accepted by a session: those sent before it is closed.\<close>

fun accepted :: "'m ws_event list \<Rightarrow> 'm list" where
  "accepted [] = []"
| "accepted (WsSend m # es) = m # accepted es"
| "accepted (WsWritten b # es) = accepted es"
| "accepted (WsStop # es) = []"

lemma ws_run_facts:
  "run ws_step q es q' \<Longrightarrow> ws_inv q \<Longrightarrow> ws_inv q' \<and>
    mset (wq_written q') + mset (wq_mq q') = mset (wq_written q) + mset (wq_mq q) +
      (if wq_open q then mset (accepted es) else {#})"
proof (induction rule: run.induct)
  case (run_cons q e q1 es q2)
  from run_cons.hyps(1) show ?case
  proof cases
    case (ws_send m)
    have "ws_inv q1" "wq_written q1 = wq_written q" "wq_open q1 = wq_open q"
      "mset (wq_mq q1) = mset (wq_mq q) + (if wq_open q then {#m#} else {#})"
      using ws_inv_send [OF run_cons.prems, of m] ws_send(2) by auto
    then show ?thesis using run_cons.IH ws_send(1) by simp
  next
    case (ws_written i b)
    have "ws_inv q1" "wq_open q1 = wq_open q"
      "mset (wq_written q1) + mset (wq_mq q1) = mset (wq_written q) + mset (wq_mq q)"
      using ws_inv_write [OF run_cons.prems ws_written(2), of b] ws_written(3) by auto
    then show ?thesis using run_cons.IH ws_written(1) by simp
  next
    case ws_stop
    then show ?thesis using run_cons.IH run_cons.prems by (auto simp: do_stop_session_def ws_inv_def)
  qed
qed simp

section \<open>Properties\<close>

text \<open>C26: The outgoing queue of a WebSocket session: whatever is sent, completes, fails or closes, at most
  one write is in flight, no assertion fails, and the messages written together with those still
  queued are exactly the messages accepted, each as often as it was sent.\<close>

theorem ws_queue_conserves_messages:
  assumes "run ws_step new_ws_queue es q"
  shows "length (wq_flight q) \<le> 1 \<and> mset (wq_written q) + mset (wq_mq q) = mset (accepted es) \<and>
    (\<forall>m. is_ok (do_send m q)) \<and> (\<forall>i \<in> set (wq_flight q). \<forall>b. is_ok (on_write i b q))"
proof -
  have "ws_inv new_ws_queue" by (simp add: ws_inv_def new_ws_queue_def)
  from ws_run_facts [OF assms this] have q: "ws_inv q"
    "mset (wq_written q) + mset (wq_mq q) = mset (accepted es)"
    by (simp_all add: new_ws_queue_def)
  have "is_ok (do_send m q)" for m using ws_inv_send [OF q(1), of m] by auto
  moreover have "is_ok (on_write i b q)" if "i \<in> set (wq_flight q)" for i b
    using ws_inv_write [OF q(1) that, of b] by auto
  ultimately show ?thesis using q by (auto simp: ws_inv_def)
qed

theorem ws_queue_conserves_messages_witness:
  "\<exists>q. run ws_step new_ws_queue [WsSend (1::nat), WsSend 2, WsWritten False, WsStop, WsSend 3] q \<and>
    mset (wq_written q) + mset (wq_mq q) = {#1, 2#}"
proof -
  let ?q = "\<lambda>b mq f w. \<lparr> wq_open = b, wq_mq = mq, wq_flight = f, wq_written = w \<rparr> :: nat ws_queue"
  have "ws_step new_ws_queue (WsSend 1) (?q True [1] [0] [])"
    "ws_step (?q True [1] [0] []) (WsSend 2) (?q True [1, 2] [0] [])"
    "ws_step (?q False [2] [0] [1]) (WsSend 3) (?q False [2] [0] [1])"
    by (rule ws_send; simp add: do_send_def do_write_def new_ws_queue_def)+
  moreover have "ws_step (?q True [1, 2] [0] []) (WsWritten False) (?q True [2] [0] [1])"
    by (rule ws_written [of 0]) (simp_all add: on_write_def do_write_def swap_at_def)
  moreover have "ws_step (?q True [2] [0] [1]) WsStop (?q False [2] [0] [1])"
    using ws_stop [of "?q True [2] [0] [1]"] by (simp add: do_stop_session_def)
  ultimately have r: "run ws_step new_ws_queue [WsSend 1, WsSend 2, WsWritten False, WsStop, WsSend 3]
      (?q False [2] [0] [1])"
    by (meson run.intros)
  from ws_queue_conserves_messages [OF r] r show ?thesis
    by (intro exI [of _ "?q False [2] [0] [1]"]) simp
qed

text \<open>Order of a burst.\<close>

lemma send_all_flight:
  "wq_open q \<Longrightarrow> wq_mq q \<noteq> [] \<Longrightarrow> send_all ms q = Inr (q\<lparr> wq_mq := wq_mq q @ ms \<rparr>)"
proof (induction ms arbitrary: q)
  case (Cons m ms)
  have "do_send m q = Inr (q\<lparr> wq_mq := wq_mq q @ [m] \<rparr>)"
    using Cons.prems by (simp add: do_send_def)
  then show ?case using Cons by simp
qed simp

lemma drain_back:
  "wq_flight q = [length (wq_mq q) - 1] \<Longrightarrow> wq_mq q \<noteq> [] \<Longrightarrow> length (wq_mq q) \<le> n \<Longrightarrow>
   complete_writes n q =
     Inr (q\<lparr> wq_mq := [], wq_flight := [], wq_written := wq_written q @ rev (wq_mq q) \<rparr>)"
proof (induction n arbitrary: q)
  case (Suc n)
  obtain xs x where x: "wq_mq q = xs @ [x]" using Suc.prems(2) by (cases "wq_mq q" rule: rev_cases) auto
  have w: "on_write (length (wq_mq q) - 1) False q = Inr (q\<lparr> wq_mq := xs,
      wq_flight := (if xs = [] then [] else [length xs - 1]), wq_written := wq_written q @ [x] \<rparr>)"
    by (subst on_write_single [OF Suc.prems(1), of xs]) (simp_all add: x)
  show ?case
  proof (cases "xs = []")
    case True
    then show ?thesis using w Suc.prems(1) x by (cases n) simp_all
  next
    case False
    then show ?thesis using w Suc.prems x by (simp add: Suc.IH)
  qed
qed simp

text \<open>Messages are not written in the order they were sent: of a burst sent while the first one is
  being written, the last but one comes second, and so on backwards, and the last comes at the end.
  So three messages in a row keep their order and four do not.\<close>

theorem burst_order:
  "map_sum id wq_written (rbind (send_all (m # ms) new_ws_queue) (complete_writes (Suc (length ms))))
    = Inr (m # (case ms of [] \<Rightarrow> [] | _ \<Rightarrow> rev (butlast ms) @ [last ms]))"
proof -
  let ?q = "\<lparr> wq_open = True, wq_mq = m # ms, wq_flight = [0], wq_written = [] \<rparr>"
  have s: "send_all (m # ms) new_ws_queue = Inr ?q"
    by (simp add: new_ws_queue_def do_send_def do_write_def send_all_flight)
  show ?thesis
  proof (cases ms rule: rev_cases)
    case Nil
    then show ?thesis unfolding s by (simp add: on_write_def)
  next
    case (snoc xs l)
    let ?r = "?q\<lparr> wq_mq := l # xs, wq_flight := [length xs], wq_written := [m] \<rparr>"
    have "l # xs = take (length (wq_mq ?q) - 1) (if 0 \<noteq> length (wq_mq ?q) - 1
        then swap_at 0 (length (wq_mq ?q) - 1) (wq_mq ?q) else wq_mq ?q)"
      using snoc by (simp add: swap_at_def nth_append list_update_append)
    from on_write_single [OF _ _ this, of False] have "on_write 0 False ?q = Inr ?r" by simp
    then have "rbind (send_all (m # ms) new_ws_queue) (complete_writes (Suc (length ms)))
        = complete_writes (length ms) ?r"
      unfolding s by simp
    also have "\<dots> = Inr (?r\<lparr> wq_mq := [], wq_flight := [], wq_written := [m] @ rev (l # xs) \<rparr>)"
      using drain_back [of ?r "length ms"] snoc by simp
    finally show ?thesis using snoc by (cases xs) simp_all
  qed
qed

text \<open>A failed write stalls the session for good: the failed message stays queued, so no later send
  starts a write, although every send is still accepted and kept.\<close>

theorem failed_write_stalls:
  assumes "run ws_step new_ws_queue es0 q0" and "i \<in> set (wq_flight q0)"
    and "on_write i True q0 = Inr q" and "run ws_step q es q'"
  shows "wq_written q' = wq_written q0 \<and> wq_flight q' = [] \<and>
    (wq_open q0 \<longrightarrow> wq_mq q' = wq_mq q0 @ accepted es)"
proof -
  have "ws_inv q0" using ws_run_facts [OF assms(1)] by (simp add: ws_inv_def new_ws_queue_def)
  then have f: "wq_flight q0 = [i]" "i < length (wq_mq q0)" using assms(2) by (auto simp: ws_inv_def)
  then have q: "q = q0\<lparr> wq_flight := [] \<rparr>" using assms(3) on_write_single [OF f refl, of True] by simp
  have "run ws_step q es q' \<Longrightarrow> wq_flight q = [] \<Longrightarrow> wq_mq q \<noteq> [] \<Longrightarrow>
    wq_written q' = wq_written q \<and> wq_flight q' = [] \<and>
    wq_mq q' = wq_mq q @ (if wq_open q then accepted es else [])" for q es q'
  proof (induction rule: run.induct)
    case (run_cons q e q1 es q2)
    from run_cons.hyps(1) run_cons.prems run_cons.IH show ?case
      by cases (auto simp: do_send_def do_stop_session_def Let_def split: if_splits)
  qed simp
  from this [OF assms(4)] q have "wq_mq q0 \<noteq> [] \<Longrightarrow> ?thesis" by simp
  with f(2) show ?thesis by (cases "wq_mq q0") simp_all
qed

theorem failed_write_stalls_witness:
  "\<exists>q'. run ws_step (\<lparr> wq_open = True, wq_mq = [1::nat], wq_flight = [], wq_written = [] \<rparr>) [WsSend 2] q' \<and>
    wq_mq q' = [1, 2] \<and> wq_written q' = []"
proof -
  let ?q = "\<lambda>mq f. \<lparr> wq_open = True, wq_mq = mq, wq_flight = f, wq_written = [] \<rparr> :: nat ws_queue"
  have "ws_step new_ws_queue (WsSend 1) (?q [1] [0])" "ws_step (?q [1] []) (WsSend 2) (?q [1, 2] [])"
    by (rule ws_send; simp add: do_send_def do_write_def new_ws_queue_def)+
  then have r: "run ws_step new_ws_queue [WsSend 1] (?q [1] [0])"
    "run ws_step (?q [1] []) [WsSend 2] (?q [1, 2] [])" by blast+
  from failed_write_stalls [OF r(1) _ _ r(2), of 0] r(2) show ?thesis
    by (intro exI [of _ "?q [1, 2] []"]) (simp add: on_write_def)
qed

section \<open>Requests\<close>

text \<open>\<open>path / target\<close> of an absolute target appends it, and \<open>append\<close> to a path that ends in a slash
  appends the name: the documented behaviour of \<open>boost::filesystem\<close>.\<close>

definition fs_lib_ok :: "'rx fs_lib \<Rightarrow> bool" where
  "fs_lib_ok l = ((\<forall>r t. fs_concat l r (CHR ''/'' # t) = r @ CHR ''/'' # t) \<and>
     (\<forall>p n. fs_append l (p @ [CHR ''/'']) n = p @ CHR ''/'' # n))"

lemma has_dotdot_append:
  "has_dotdot (xs @ ys) \<longleftrightarrow> has_dotdot xs \<or> has_dotdot ys \<or>
    (xs \<noteq> [] \<and> ys \<noteq> [] \<and> last xs = CHR ''.'' \<and> hd ys = CHR ''.'')"
proof (induction xs rule: has_dotdot.induct)
  case "2_2"
  then show ?case by (cases ys) auto
qed auto

lemma request_path_no_dotdot:
  assumes "fs_lib_ok l" and "target_ok t" and "\<not> has_dotdot root"
  shows "\<not> has_dotdot (request_path l root t) \<and> (\<exists>x. request_path l root t = root @ t @ x)"
proof -
  obtain u where t: "t = CHR ''/'' # u" using assms(2) by (cases t) (auto simp: target_ok_def)
  have c: "fs_concat l root t = root @ t" using assms(1) t by (simp add: fs_lib_ok_def)
  have d: "\<not> has_dotdot (root @ t)"
    using assms(2,3) by (simp add: has_dotdot_append target_ok_def t)
  show ?thesis
  proof (cases "last t = CHR ''/''")
    case True
    then have "t = butlast t @ [CHR ''/'']" using t append_butlast_last_id [of t] by simp
    then have "fs_append l (root @ t) ''index.html'' = (root @ t) @ ''index.html''"
      using assms(1) unfolding fs_lib_ok_def
      by (metis append.assoc append_Cons append_Nil)
    moreover have "\<not> has_dotdot ((root @ t) @ ''index.html'')"
      using d True by (subst has_dotdot_append) (simp add: t)
    ultimately show ?thesis using True by (simp add: request_path_def c Let_def)
  qed (use d in \<open>simp add: request_path_def c Let_def\<close>)
qed

text \<open>C27: No request reaches outside the web root by its target: when the root has no \<open>..\<close> in it, the
  path of every file the worker answers with, and of every script it hands to the interpreter, is
  the root followed by the target (and \<open>index.html\<close> for a directory) and has no \<open>..\<close>.\<close>

theorem no_path_traversal:
  assumes "fs_lib_ok l" and "\<not> has_dotdot root"
    and "handle_request l (Some root) exts (Some (\<lambda>p _ _. Inr (js p))) req = Inr r"
    and "rs_status r = 200"
  shows "\<exists>x. \<not> has_dotdot (root @ rq_target req @ x) \<and>
    (rs_body r = EmptyBody \<or> rs_body r = FileBody (root @ rq_target req @ x) \<or>
     rs_body r = StringBody (js (root @ rq_target req @ x)))"
proof -
  let ?p = "request_path l root (rq_target req)"
  have t: "target_ok (rq_target req)"
    using assms(3,4) by (auto simp: handle_request_def bad_request_def text_response_def split: if_splits)
  have "rs_body r = EmptyBody \<or> rs_body r = FileBody ?p \<or> rs_body r = StringBody (js ?p)"
    using assms(3,4) by (auto simp: handle_request_def bad_request_def not_found_def server_error_def
        text_response_def Let_def split: if_splits file_opened.splits)
  with request_path_no_dotdot [OF assms(1) t assms(2)] show ?thesis by auto
qed

definition sample_fs :: "string fs_lib" where
  "sample_fs = \<lparr> fs_concat = (\<lambda>r t. r @ t),
     fs_append = (\<lambda>p n. if p \<noteq> [] \<and> last p = CHR ''/'' then p @ n else p @ CHR ''/'' # n),
     fs_regex_match = (\<lambda>rx p. extension_of p = rx),
     fs_open = (\<lambda>p. if p = ''/www/index.html'' then FileOpened 120 else FileMissing) \<rparr>"

lemma sample_fs_ok: "fs_lib_ok sample_fs"
  by (simp add: fs_lib_ok_def sample_fs_def)

definition sample_get :: http_request where
  "sample_get = \<lparr> rq_method = VerbGet, rq_target = ''/'', rq_version = 11, rq_keep_alive = True \<rparr>"

lemma handle_sample_get:
  "handle_request sample_fs (Some ''/www'') [''.epjs''] e sample_get = Inr \<lparr> rs_status = 200,
     rs_version = 11, rs_content_type = Some ''text/html'', rs_keep_alive = True, rs_length = Some 120,
     rs_body = FileBody ''/www/index.html'' \<rparr>"
  by (simp add: handle_request_def sample_fs_def sample_get_def request_path_def target_ok_def
      extension_of_def mime_type_def mime_table_def iequals_def to_lower_char_def Let_def)

theorem no_path_traversal_witness:
  "\<exists>x. \<not> has_dotdot (''/www'' @ ''/'' @ x) \<and> FileBody ''/www/index.html'' = FileBody (''/www'' @ ''/'' @ x)"
proof -
  have "\<not> has_dotdot ''/www''" by simp
  from no_path_traversal [OF sample_fs_ok this handle_sample_get [of "Some (\<lambda>p _ _. Inr p)"]]
  show ?thesis by (auto simp: sample_get_def)
qed

text \<open>Every request is answered, and how: no exception leaves \<open>handle_request\<close> unless the root is
  missing, or the path is a script and the interpreter is missing or throws. A HEAD request is
  answered as the same GET request with the file left out.\<close>

theorem handle_request_answers:
  assumes "\<not> list_ex (\<lambda>r. fs_regex_match l r (request_path l root (rq_target req))) exts"
  shows "(\<exists>r. handle_request l (Some root) exts epjs req = Inr r \<and> rs_status r \<in> {200, 400, 404, 500}) \<and>
    map_sum id (\<lambda>r. r\<lparr> rs_body := EmptyBody \<rparr>)
        (handle_request l (Some root) exts epjs (req\<lparr> rq_method := VerbHead \<rparr>))
      = map_sum id (\<lambda>r. r\<lparr> rs_body := EmptyBody \<rparr>)
        (handle_request l (Some root) exts epjs (req\<lparr> rq_method := VerbGet \<rparr>))"
  using assms
  by (auto simp: handle_request_def bad_request_def not_found_def server_error_def text_response_def
      Let_def split: file_opened.split)

theorem handle_request_answers_witness:
  "\<exists>r. handle_request sample_fs (Some ''/www'') [] None (sample_get\<lparr> rq_target := ''/../x'' \<rparr>) = Inr r"
  using handle_request_answers [of sample_fs "''/www''" "sample_get\<lparr> rq_target := ''/../x'' \<rparr>" "[]" None]
  by auto

text \<open>A TLS session never sends: the wrapper forwards to its plain connection only, so whatever is
  sent to a wrapper made for a TLS stream is dropped, while a plain wrapper behaves as its queue.\<close>

theorem tls_session_silent:
  "wrapper_send m new_session_ssl = Inr new_session_ssl \<and>
   wrapper_send m \<lparr> wst_plain = Some q, wst_ssl = None \<rparr>
     = rbind (do_send m q) (\<lambda>q'. Inr \<lparr> wst_plain = Some q', wst_ssl = None \<rparr>)"
  by (simp add: wrapper_send_def new_session_ssl_def)

end
