(* ===== verification/HttpSession.thy ===== *)
theory HttpSession imports HttpRequest WsSession begin

text \<open>
  The HTTP session (\<open>http-session-base.cpp\<close>), a coroutine resumed by the completion of each
  asynchronous operation. In the proxy it feeds a beast parser, forwards the header as a first
  request and each further piece as a continuation; in the worker it reads one request, upgrades it
  to a WebSocket session or answers it. The locals of \<open>operator()\<close> are declared before \<open>reenter\<close>,
  so they are initialised again at every resumption. The parser is an argument.
\<close>

section \<open>The proxy\<close>

datatype put_code = PutOk | PutNeedMore | PutError int

text \<open>\<open>put\<close> on the bytes stored: the parser afterwards, the error code, how many bytes it took, and
  what it wrote to the body buffer.\<close>

record 'p parser_lib =
  pl_new :: 'p
  pl_put :: "'p \<Rightarrow> byte list \<Rightarrow> 'p \<times> put_code \<times> nat \<times> byte list"
  pl_view :: "'p \<Rightarrow> parser_view"

datatype http_phase = NotStarted | AwaitHeader | AwaitBody | AwaitRequest | AwaitResponse | Finished

type_synonym worker_call = "http_req option \<times> int \<times> byte continuation option"

record 'p proxy_session =
  ps_phase :: http_phase
  ps_parser :: 'p
  ps_storage :: "byte list"
  ps_buffer :: "byte list"
  ps_req :: "http_req option"
  ps_calls :: "worker_call list"

definition buffer_size :: nat where "buffer_size = 4096"

definition write_buffer :: "byte list \<Rightarrow> byte list \<Rightarrow> byte list" where
  "write_buffer out buf = take buffer_size out @ drop (length out) buf"

definition proxy_start :: "'p parser_lib \<Rightarrow> 'p proxy_session \<Rightarrow> 'p proxy_session" where
  "proxy_start l s = s\<lparr> ps_parser := pl_new l, ps_phase := AwaitHeader \<rparr>"

text \<open>A completed read while the header is parsed: \<open>bytes\<close> is empty when the read failed; the error
  is logged and cleared.\<close>

definition on_header_read ::
  "'p parser_lib \<Rightarrow> uuid \<Rightarrow> uuid \<Rightarrow> byte list \<Rightarrow> 'p proxy_session \<Rightarrow> 'p proxy_session" where
  "on_header_read l fresh garbage bytes s =
    (let data = ps_storage s @ bytes;
         (p, code, n, out) = pl_put l (ps_parser s) data;
         s1 = s\<lparr> ps_parser := p, ps_storage := drop n data, ps_buffer := write_buffer out (ps_buffer s) \<rparr> in
     if \<not> pv_header_done (pl_view l p) then s1
     else let r = to_request (builder_of_parser fresh garbage (pl_view l p) nil_uuid) in
       s1\<lparr> ps_req := Some r, ps_calls := ps_calls s @ [(Some r, 0, None)],
          ps_phase := (if pv_done (pl_view l p) then Finished else AwaitBody) \<rparr>)"

text \<open>A completed read while the body is parsed. \<open>current_pos\<close> is a local of the coroutine.\<close>

definition on_body_read ::
  "'p parser_lib \<Rightarrow> byte list \<Rightarrow> 'p proxy_session \<Rightarrow> 'p proxy_session result" where
  "on_body_read l bytes s =
    (let current_pos = 1;
         data = ps_storage s @ bytes;
         buf = replicate buffer_size 0;
         (p, code, n, out) = pl_put l (ps_parser s) data;
         buf = write_buffer out buf in
     rbind (build_continuation (pv_done (pl_view l p)) (ps_req s) buf n) (\<lambda>c.
       Inr (s\<lparr> ps_parser := p, ps_storage := drop n data, ps_buffer := buf,
         ps_calls := ps_calls s @ [(None, current_pos, Some c)],
         ps_phase := (if pv_done (pl_view l p) then Finished else AwaitBody) \<rparr>)))"

definition proxy_resume ::
  "'p parser_lib \<Rightarrow> uuid \<Rightarrow> uuid \<Rightarrow> byte list \<Rightarrow> 'p proxy_session \<Rightarrow> 'p proxy_session result" where
  "proxy_resume l fresh garbage bytes s = (case ps_phase s of
     AwaitHeader \<Rightarrow> Inr (on_header_read l fresh garbage bytes s)
   | AwaitBody \<Rightarrow> on_body_read l bytes s
   | _ \<Rightarrow> Inr s)"

fun proxy_reads ::
  "'p parser_lib \<Rightarrow> uuid \<Rightarrow> uuid \<Rightarrow> byte list list \<Rightarrow> 'p proxy_session \<Rightarrow> 'p proxy_session result" where
  "proxy_reads l fresh garbage [] s = Inr s"
| "proxy_reads l fresh garbage (b # bs) s =
    rbind (proxy_resume l fresh garbage b s) (proxy_reads l fresh garbage bs)"

section \<open>The worker\<close>

datatype http_action = CloseStream | LogFailure | Upgrade | Respond http_response

datatype read_outcome = ReadEnd | ReadError | ReadRequest bool http_request

datatype worker_event = RequestRead read_outcome | ResponseWritten bool bool

record worker_session =
  wk_phase :: http_phase
  wk_actions :: "http_action list"

definition act :: "http_action \<Rightarrow> http_phase \<Rightarrow> worker_session \<Rightarrow> worker_session" where
  "act a ph s = s\<lparr> wk_phase := ph, wk_actions := wk_actions s @ [a] \<rparr>"

text \<open>\<open>RequestRead\<close> is the completion of \<open>async_read\<close>, \<open>ResponseWritten failed need_eof\<close> that of the
  write; there is no loop around them.\<close>

definition worker_resume ::
  "(http_request \<Rightarrow> http_response result) \<Rightarrow> worker_event \<Rightarrow> worker_session \<Rightarrow> worker_session result" where
  "worker_resume handler e s = (case (wk_phase s, e) of
     (AwaitRequest, RequestRead ReadEnd) \<Rightarrow> Inr (act CloseStream Finished s)
   | (AwaitRequest, RequestRead ReadError) \<Rightarrow> Inr (act LogFailure Finished s)
   | (AwaitRequest, RequestRead (ReadRequest upgrade req)) \<Rightarrow>
       (if upgrade then Inr (act Upgrade Finished s)
        else rbind (handler req) (\<lambda>r. Inr (act (Respond r) AwaitResponse s)))
   | (AwaitResponse, ResponseWritten failed need_eof) \<Rightarrow>
       (if failed then Inr (act LogFailure Finished s)
        else if need_eof then Inr (act CloseStream Finished s)
        else Inr (s\<lparr> wk_phase := Finished \<rparr>))
   | _ \<Rightarrow> Inr s)"

definition worker_start :: worker_session where
  "worker_start = \<lparr> wk_phase = AwaitRequest, wk_actions = [] \<rparr>"

fun worker_events ::
  "(http_request \<Rightarrow> http_response result) \<Rightarrow> worker_event list \<Rightarrow> worker_session \<Rightarrow> worker_session result" where
  "worker_events h [] s = Inr s"
| "worker_events h (e # es) s = rbind (worker_resume h e s) (worker_events h es)"

section \<open>Facts\<close>

text \<open>The calls made of the worker side so far.\<close>

definition calls_ok :: "'p proxy_session \<Rightarrow> bool" where
  "calls_ok s = (case ps_phase s of
     AwaitHeader \<Rightarrow> ps_calls s = []
   | NotStarted \<Rightarrow> ps_calls s = []
   | _ \<Rightarrow> \<exists>r cs. ps_req s = Some r \<and> ps_calls s = (Some r, 0, None) # map (\<lambda>c. (None, 1, Some c)) cs \<and>
       (\<forall>c \<in> set cs. co_first c = Some r))"

lemma calls_ok_resume:
  assumes "proxy_resume l f g b s = Inr s'" and "calls_ok s"
  shows "calls_ok s'"
proof (cases "ps_phase s")
  case AwaitHeader
  then show ?thesis using assms
    by (auto simp: proxy_resume_def on_header_read_def calls_ok_def Let_def split: prod.split)
next
  case AwaitBody
  obtain r cs where r: "ps_req s = Some r" "ps_calls s = (Some r, 0, None) # map (\<lambda>c. (None, 1, Some c)) cs"
    "\<forall>c \<in> set cs. co_first c = Some r" using assms(2) AwaitBody by (auto simp: calls_ok_def)
  obtain c where "ps_calls s' = ps_calls s @ [(None, 1, Some c)]" "co_first c = Some r"
    "ps_req s' = Some r" "ps_phase s' \<in> {AwaitBody, Finished}"
    using assms(1) AwaitBody r(1)
    by (auto simp: proxy_resume_def on_body_read_def build_continuation_def rbind_Inr_iff Let_def
        split: prod.splits if_splits)
  with r have "ps_req s' = Some r \<and> ps_calls s' = (Some r, 0, None) # map (\<lambda>c. (None, 1, Some c)) (cs @ [c]) \<and>
      (\<forall>c \<in> set (cs @ [c]). co_first c = Some r)" by auto
  then have "\<exists>r cs. ps_req s' = Some r \<and> ps_calls s' = (Some r, 0, None) # map (\<lambda>c. (None, 1, Some c)) cs \<and>
      (\<forall>c \<in> set cs. co_first c = Some r)" by blast
  with \<open>ps_phase s' \<in> {AwaitBody, Finished}\<close> show ?thesis
    unfolding calls_ok_def by (elim insertE emptyE) (simp_all only: http_phase.case)
qed (use assms in \<open>auto simp: proxy_resume_def\<close>)

lemma calls_ok_reads: "proxy_reads l f g bs s = Inr s' \<Longrightarrow> calls_ok s \<Longrightarrow> calls_ok s'"
  by (induction bs arbitrary: s) (auto simp: rbind_Inr_iff dest: calls_ok_resume)

text \<open>A body sent with a length: the parser copies what it takes.\<close>

definition identity_body :: "'p parser_lib \<Rightarrow> bool" where
  "identity_body l = (\<forall>p data p' code n out. pv_header_done (pl_view l p) \<longrightarrow>
     pl_put l p data = (p', code, n, out) \<longrightarrow>
       n \<le> length data \<and> n \<le> buffer_size \<and> out = take n data \<and> pv_header_done (pl_view l p'))"

definition pieces :: "worker_call list \<Rightarrow> byte list" where
  "pieces cs = concat (map (\<lambda>(_, _, c). case c of Some k \<Rightarrow> co_buffer k | None \<Rightarrow> []) cs)"

lemma pieces_snoc [simp]: "pieces (cs @ [(r, i, Some c)]) = pieces cs @ co_buffer c"
  by (simp add: pieces_def)

lemma body_read_pieces:
  assumes "identity_body l" and "pv_header_done (pl_view l (ps_parser s))"
  shows "\<exists>s'. on_body_read l b s = Inr s' \<and> pv_header_done (pl_view l (ps_parser s')) \<and>
    pieces (ps_calls s') @ ps_storage s' = pieces (ps_calls s) @ ps_storage s @ b \<and>
    (ps_phase s' = AwaitBody \<or> ps_phase s' = Finished)"
proof -
  obtain p code n out where pu: "pl_put l (ps_parser s) (ps_storage s @ b) = (p, code, n, out)"
    by (metis prod_cases4)
  then have n: "n \<le> length (ps_storage s @ b)" "n \<le> buffer_size" "out = take n (ps_storage s @ b)"
    "pv_header_done (pl_view l p)"
    using assms unfolding identity_body_def by blast+
  have len: "length out = n" using n(1,3) by simp
  then have w: "take n (write_buffer out (replicate buffer_size 0)) = out"
    "n \<le> length (write_buffer out (replicate buffer_size 0))"
    using n(2) by (simp_all add: write_buffer_def)
  show ?thesis
    using pu w n(3,4)
    by (simp add: on_body_read_def build_continuation_def Let_def del: take_append drop_append)
qed

section \<open>Properties\<close>

text \<open>What the proxy passes on: first the request of the header at position 0, then continuations
  of that request, in the order of the reads; but every continuation has position 1, because the
  counter is a local of the coroutine and starts again at each resumption.\<close>

theorem proxy_calls_shape:
  assumes "proxy_reads l fresh garbage bs (proxy_start l s) = Inr s'" and "ps_calls s = []"
  shows "ps_calls s' = [] \<or>
    (\<exists>r cs. ps_calls s' = (Some r, 0, None) # map (\<lambda>c. (None, 1, Some c)) cs \<and>
      (\<forall>c \<in> set cs. co_first c = Some r))"
proof -
  have "calls_ok s'"
    by (rule calls_ok_reads [OF assms(1)]) (simp add: calls_ok_def proxy_start_def assms(2))
  then show ?thesis by (auto simp: calls_ok_def split: http_phase.splits)
qed

text \<open>A parser for the examples: the first byte is the header and gives the length of the body.\<close>

definition tiny_parser :: "nat option parser_lib" where
  "tiny_parser = \<lparr> pl_new = None,
     pl_put = (\<lambda>p data. case p of
        None \<Rightarrow> (case data of [] \<Rightarrow> (None, PutNeedMore, 0, []) | b # _ \<Rightarrow> (Some (unat b), PutOk, 1, []))
      | Some k \<Rightarrow> (let n = min buffer_size (min k (length data)) in
          (Some (k - n), PutOk, n, take n data))),
     pl_view = (\<lambda>p. \<lparr> pv_content_length = p, pv_fields = [], pv_method = ''POST'', pv_target = ''/'',
        pv_header_done = (p \<noteq> None), pv_done = (p = Some 0) \<rparr>) \<rparr>"

lemma tiny_identity: "identity_body tiny_parser"
  by (auto simp: identity_body_def tiny_parser_def Let_def split: option.splits)

definition fresh_session :: "nat option proxy_session" where
  "fresh_session = \<lparr> ps_phase = NotStarted, ps_parser = None, ps_storage = [], ps_buffer = [],
     ps_req = None, ps_calls = [] \<rparr>"

lemma tiny_reads:
  "\<exists>s' r c d. proxy_reads tiny_parser 9 0 [[3], [1, 2], [3]] (proxy_start tiny_parser fresh_session) = Inr s' \<and>
    ps_calls s' = [(Some r, 0, None), (None, 1, Some c), (None, 1, Some d)] \<and>
    co_buffer c = [1, 2] \<and> co_buffer d = [3] \<and> ps_phase s' = Finished"
  by (simp add: proxy_start_def fresh_session_def proxy_resume_def on_header_read_def on_body_read_def
      tiny_parser_def build_continuation_def write_buffer_def buffer_size_def Let_def)

theorem proxy_calls_shape_witness:
  "\<exists>s' c d. proxy_reads tiny_parser 9 0 [[3], [1, 2], [3]] (proxy_start tiny_parser fresh_session) = Inr s' \<and>
    map (fst \<circ> snd) (ps_calls s') = [0, 1, 1] \<and> snd (snd (ps_calls s' ! 2)) = Some d \<and> co_first d = Some c"
proof -
  obtain s' r c d where s: "proxy_reads tiny_parser 9 0 [[3], [1, 2], [3]] (proxy_start tiny_parser fresh_session)
      = Inr s'" "ps_calls s' = [(Some r, 0, None), (None, 1, Some c), (None, 1, Some d)]"
    using tiny_reads by blast
  from proxy_calls_shape [OF s(1)] s(2) have "co_first d = Some r"
    by (auto simp: fresh_session_def Cons_eq_map_conv)
  with s show ?thesis by (intro exI [of _ s'] exI [of _ r] exI [of _ d]) (simp add: numeral_2_eq_2)
qed

text \<open>C24: Body bytes are forwarded in order and without loss while the parser copies what it takes (a
  body sent with its length): the pieces passed on, followed by what is still stored, are what was
  stored when the header was done followed by every byte read since. Bytes of the body that came
  with the header wait for the next read.\<close>

theorem proxy_body_conserved:
  assumes "identity_body l" and "ps_phase s = AwaitBody" and "pv_header_done (pl_view l (ps_parser s))"
  shows "\<exists>s' k. proxy_reads l fresh garbage bs s = Inr s' \<and> k \<le> length bs \<and>
    (ps_phase s' = AwaitBody \<longrightarrow> k = length bs) \<and>
    pieces (ps_calls s') @ ps_storage s' = pieces (ps_calls s) @ ps_storage s @ concat (take k bs)"
  using assms
proof (induction bs arbitrary: s)
  case (Cons b bs)
  obtain s1 where s1: "on_body_read l b s = Inr s1" "pv_header_done (pl_view l (ps_parser s1))"
    "pieces (ps_calls s1) @ ps_storage s1 = pieces (ps_calls s) @ ps_storage s @ b"
    "ps_phase s1 = AwaitBody \<or> ps_phase s1 = Finished"
    using body_read_pieces [OF Cons.prems(1,3)] by blast
  have r: "proxy_reads l fresh garbage (b # bs) s = proxy_reads l fresh garbage bs s1"
    using s1(1) Cons.prems(2) by (simp add: proxy_resume_def)
  show ?case
  proof (cases "ps_phase s1 = AwaitBody")
    case True
    from Cons.IH [OF Cons.prems(1) True s1(2)] obtain s' k where
      "proxy_reads l fresh garbage bs s1 = Inr s'" "k \<le> length bs" "ps_phase s' = AwaitBody \<longrightarrow> k = length bs"
      "pieces (ps_calls s') @ ps_storage s' = pieces (ps_calls s1) @ ps_storage s1 @ concat (take k bs)"
      by blast
    with s1(3) r show ?thesis by (intro exI [of _ s'] exI [of _ "Suc k"]) simp
  next
    case False
    then have f: "ps_phase s1 = Finished" using s1(4) by simp
    then have "proxy_reads l fresh garbage bs s1 = Inr s1"
      by (induction bs) (simp_all add: proxy_resume_def)
    with f r s1(3) show ?thesis by (intro exI [of _ s1] exI [of _ 1]) simp
  qed
qed simp

theorem proxy_body_conserved_witness:
  "\<exists>s' k. proxy_reads tiny_parser 9 0 [[2], [3, 4]]
      (fresh_session\<lparr> ps_phase := AwaitBody, ps_parser := Some 5, ps_storage := [1] \<rparr>) = Inr s' \<and>
    pieces (ps_calls s') @ ps_storage s' = [1] @ concat (take k [[2], [3, 4]])"
  using proxy_body_conserved [OF tiny_identity, of
      "fresh_session\<lparr> ps_phase := AwaitBody, ps_parser := Some 5, ps_storage := [1] \<rparr>" 9 0 "[[2], [3, 4]]"]
  by (auto simp: fresh_session_def tiny_parser_def pieces_def)

text \<open>A client that closes before its header is complete is never given up: the read error is
  cleared, the parser asks for more, and the session goes back to the same state and reads again,
  however often the read fails.\<close>

theorem proxy_spins_on_closed_client:
  assumes "ps_phase s = AwaitHeader" and "pl_put l (ps_parser s) (ps_storage s) = (ps_parser s, code, 0, [])"
    and "\<not> pv_header_done (pl_view l (ps_parser s))" and "length (ps_buffer s) \<le> buffer_size"
  shows "proxy_reads l fresh garbage (replicate n []) s = Inr s"
proof -
  have "on_header_read l fresh garbage [] s = s"
    using assms by (simp add: on_header_read_def write_buffer_def)
  then show ?thesis using assms(1) by (induction n) (simp_all add: proxy_resume_def)
qed

theorem proxy_spins_on_closed_client_witness:
  "proxy_reads tiny_parser 9 0 (replicate 1000 []) (proxy_start tiny_parser fresh_session)
    = Inr (proxy_start tiny_parser fresh_session)"
  by (rule proxy_spins_on_closed_client [where code = PutNeedMore])
    (simp_all add: proxy_start_def fresh_session_def tiny_parser_def)

text \<open>C25: The worker serves one request per connection: whatever arrives, at most one request is answered
  or upgraded, also when the response keeps the connection alive, since nothing leads back to the
  read.\<close>

theorem worker_answers_once:
  assumes "worker_events h es worker_start = Inr s"
  shows "length (filter (\<lambda>a. case a of Respond _ \<Rightarrow> True | Upgrade \<Rightarrow> True | _ \<Rightarrow> False) (wk_actions s)) \<le> 1"
proof -
  let ?f = "\<lambda>t. length (filter (\<lambda>a. case a of Respond _ \<Rightarrow> True | Upgrade \<Rightarrow> True | _ \<Rightarrow> False) (wk_actions t))"
  have "worker_events h es t = Inr s \<Longrightarrow> ?f t \<le> 1 \<Longrightarrow> (wk_phase t = AwaitRequest \<Longrightarrow> ?f t = 0) \<Longrightarrow> ?f s \<le> 1" for t
  proof (induction es arbitrary: t)
    case (Cons e es)
    then obtain t' where t': "worker_resume h e t = Inr t'" "worker_events h es t' = Inr s"
      by (auto simp: rbind_Inr_iff)
    have "?f t' \<le> 1 \<and> (wk_phase t' = AwaitRequest \<longrightarrow> ?f t' = 0)"
      using t'(1) Cons.prems(2,3)
      by (auto simp: worker_resume_def act_def rbind_Inr_iff split: http_phase.splits worker_event.splits
          read_outcome.splits if_splits)
    then show ?case using Cons.IH [OF t'(2)] by blast
  qed simp
  from this [OF assms] show ?thesis by (simp add: worker_start_def)
qed

theorem worker_answers_once_witness:
  "\<exists>s. worker_events (handle_request sample_fs (Some ''/www'') [''.epjs''] None)
      [RequestRead (ReadRequest False sample_get), ResponseWritten False False,
       RequestRead (ReadRequest False sample_get)] worker_start = Inr s \<and> length (wk_actions s) = 1"
proof -
  obtain s where s: "worker_events (handle_request sample_fs (Some ''/www'') [''.epjs''] None)
      [RequestRead (ReadRequest False sample_get), ResponseWritten False False,
       RequestRead (ReadRequest False sample_get)] worker_start = Inr s" "length (wk_actions s) = 1"
    by (simp add: worker_resume_def worker_start_def act_def handle_sample_get)
  from worker_answers_once [OF s(1)] s show ?thesis by blast
qed

end
