(* ===== verification/Downstream.thy ===== *)
theory Downstream imports HttpRequest begin

text \<open>
  The proxy's side towards the workers (\<open>easyprospect-server-downstream.h\<close>): connections with the
  session that owns them, the per-backend connection lists, the session map, and \<open>start_request\<close>.
  Connections are shared objects, so the state keeps them in a store \<open>dn_heap\<close> and everything else
  holds indices into it. The network is an oracle: one record of outcomes per request.
\<close>

section \<open>State\<close>

record ds_connection =
  cn_session :: uuid
  cn_stream :: bool
  cn_initialized :: bool

datatype ('b, 'r) ds_effect =
    DsWrite nat beast_request
  | DsWriteRaw nat "'b list"
  | DsReply 'r

record ('b, 'r) downstream =
  dn_heap :: "ds_connection list"
  dn_pool :: "nat list list"
  dn_sessions :: "uuid \<rightharpoonup> nat option"
  dn_backends :: "(string \<times> string) list"
  dn_log :: "('b, 'r) ds_effect list"

definition new_downstream :: "('b, 'r) downstream" where
  "new_downstream = \<lparr> dn_heap = [], dn_pool = [], dn_sessions = Map.empty, dn_backends = [],
     dn_log = [] \<rparr>"

text \<open>\<open>resize\<close> to the number of backends.\<close>

definition set_backends :: "(string \<times> string) list \<Rightarrow> ('b, 'r) downstream \<Rightarrow> ('b, 'r) downstream" where
  "set_backends bs d = d\<lparr> dn_backends := bs,
     dn_pool := take (length bs) (dn_pool d) @ replicate (length bs - length (dn_pool d)) [] \<rparr>"

section \<open>Connections\<close>

definition new_connection :: ds_connection where
  "new_connection = \<lparr> cn_session = nil_uuid, cn_stream = False, cn_initialized = False \<rparr>"

definition acquire :: "uuid \<Rightarrow> ds_connection \<Rightarrow> bool \<times> ds_connection" where
  "acquire s c =
    (if cn_session c = nil_uuid then (True, c\<lparr> cn_session := s \<rparr>)
     else if cn_session c = s then (True, c)
     else (False, c))"

datatype init_outcome = ResolveFails | ConnectFails | Connected

definition init_connection :: "init_outcome \<Rightarrow> ds_connection \<Rightarrow> ds_connection" where
  "init_connection r c = (let c' = c\<lparr> cn_stream := True \<rparr> in
     case r of
       ResolveFails \<Rightarrow> c'
     | ConnectFails \<Rightarrow> c'
     | Connected \<Rightarrow> c'\<lparr> cn_initialized := True \<rparr>)"

section \<open>Sessions and their connection\<close>

definition get_session ::
  "uuid \<Rightarrow> uuid \<Rightarrow> bool \<Rightarrow> ('b, 'r) downstream \<Rightarrow> (uuid \<times> ('b, 'r) downstream) result" where
  "get_session fresh sess throw_on_missing d = (case dn_sessions d sess of
     Some _ \<Rightarrow> Inr (sess, d)
   | None \<Rightarrow>
      (if throw_on_missing then Inl (LogicError ''session not found.'')
       else let i = (if sess = nil_uuid then fresh else sess) in
         Inr (i, d\<lparr> dn_sessions := (dn_sessions d)(i \<mapsto> None) \<rparr>)))"

fun find_acquire :: "uuid \<Rightarrow> nat list \<Rightarrow> ds_connection list \<Rightarrow> nat option \<times> ds_connection list" where
  "find_acquire s [] heap = (None, heap)"
| "find_acquire s (i # is) heap = (let (ok, c) = acquire s (heap ! i); heap' = heap[i := c] in
     if ok then (Some i, heap') else find_acquire s is heap')"

text \<open>The connection list is copied before the search, so a new connection goes into the copy.\<close>

definition get_connection ::
  "int \<Rightarrow> uuid \<Rightarrow> ('b, 'r) downstream \<Rightarrow> (nat \<times> ('b, 'r) downstream) result" where
  "get_connection backend sess d =
    (if backend < 0 \<or> int (length (dn_pool d)) \<le> backend
     then Inl (LogicError (dec_int backend @ '' larger than connections size '' @
       dec_nat (length (dn_pool d))))
     else let con = dn_pool d ! nat backend in
       (case find_acquire sess con (dn_heap d) of
          (None, heap) \<Rightarrow>
            (let c = snd (acquire sess new_connection); con' = con @ [length heap] in
             Inr (length heap, d\<lparr> dn_heap := heap @ [c\<lparr> cn_session := sess \<rparr>] \<rparr>))
        | (Some i, heap) \<Rightarrow>
            Inr (i, d\<lparr> dn_heap := heap[i := (heap ! i)\<lparr> cn_session := sess \<rparr>] \<rparr>)))"

section \<open>A request\<close>

text \<open>The outcome of each operation on the network, in the order they are tried: connecting, the
  write (and how many bytes of a continuation went out), the response read back.\<close>

record 'r ds_io =
  io_fresh :: uuid
  io_init :: init_outcome
  io_write_ok :: bool
  io_written :: nat
  io_read :: "'r option"

definition ensure_connection ::
  "'r ds_io \<Rightarrow> int \<Rightarrow> uuid \<Rightarrow> ('b, 'r) downstream \<Rightarrow> (nat \<times> ('b, 'r) downstream) result" where
  "ensure_connection io backend sid d =
    rbind (case dn_sessions d sid of
        Some (Some i) \<Rightarrow> Inr (i, d)
      | _ \<Rightarrow> rbind (get_connection backend sid d) (\<lambda>(i, d1).
          Inr (i, d1\<lparr> dn_sessions := (dn_sessions d1)(sid \<mapsto> Some i) \<rparr>)))
    (\<lambda>(i, d1).
      if cn_initialized (dn_heap d1 ! i) then Inr (i, d1)
      else if backend < 0 \<or> int (length (dn_backends d1)) \<le> backend then Inl UndefinedBehaviour
      else Inr (i, d1\<lparr> dn_heap := (dn_heap d1)[i := init_connection (io_init io) (dn_heap d1 ! i)] \<rparr>))"

definition log_effect :: "('b, 'r) ds_effect \<Rightarrow> ('b, 'r) downstream \<Rightarrow> ('b, 'r) downstream" where
  "log_effect e d = d\<lparr> dn_log := dn_log d @ [e] \<rparr>"

text \<open>The write: \<open>Some\<close> the state after it, or \<open>None\<close> when the handler returns because it failed.\<close>

definition write_request ::
  "(string \<Rightarrow> bool) \<Rightarrow> (uuid \<Rightarrow> string) \<Rightarrow> 'r ds_io \<Rightarrow> nat \<Rightarrow> http_req option \<Rightarrow> 'b continuation option
    \<Rightarrow> ('b, 'r) downstream \<Rightarrow> (('b, 'r) downstream option) result" where
  "write_request known uu io i first cont d = (case first of
     Some r \<Rightarrow>
       rbind (to_beast_request known uu (to_request (builder_of_request nil_uuid r))) (\<lambda>q.
         if \<not> cn_stream (dn_heap d ! i) then Inl UndefinedBehaviour
         else Inr (if io_write_ok io then Some (log_effect (DsWrite i q) d) else None))
   | None \<Rightarrow> (case cont of
       Some c \<Rightarrow>
         (if \<not> cn_stream (dn_heap d ! i) then Inl UndefinedBehaviour
          else Inr (if io_write_ok io
            then Some (log_effect (DsWriteRaw i (take (io_written io) (co_buffer c))) d) else None))
     | None \<Rightarrow> Inr (Some d)))"

definition unfinished :: "http_req option \<Rightarrow> 'b continuation option \<Rightarrow> bool" where
  "unfinished first cont = (case first of
     Some r \<Rightarrow> if \<not> hr_done r then True
       else (case cont of Some c \<Rightarrow> \<not> co_done c | None \<Rightarrow> False)
   | None \<Rightarrow> (case cont of Some c \<Rightarrow> \<not> co_done c | None \<Rightarrow> False))"

text \<open>What follows the write: nothing while the message goes on, otherwise the response is read and
  handed to \<open>send_res\<close>.\<close>

definition finish_request ::
  "'r ds_io \<Rightarrow> http_req option \<Rightarrow> 'b continuation option \<Rightarrow> ('b, 'r) downstream
    \<Rightarrow> ('b, 'r) downstream option \<Rightarrow> ('b, 'r) downstream" where
  "finish_request io first cont d w = (case w of
     None \<Rightarrow> d
   | Some d' \<Rightarrow>
      (if unfinished first cont then d'
       else case io_read io of
         None \<Rightarrow> d'
       | Some res \<Rightarrow> log_effect (DsReply res) d'))"

text \<open>The session of the request is found or made, and a connection for it; then the request or the
  continuation is written.\<close>

definition start_request ::
  "(string \<Rightarrow> bool) \<Rightarrow> (uuid \<Rightarrow> string) \<Rightarrow> 'r ds_io \<Rightarrow> int \<Rightarrow> http_req option \<Rightarrow> 'b continuation option
    \<Rightarrow> ('b, 'r) downstream \<Rightarrow> (('b, 'r) downstream) result" where
  "start_request known uu io backend first cont d =
    rbind (case first of
        Some r \<Rightarrow> Inr r
      | None \<Rightarrow> (case cont of
          None \<Rightarrow> Inl UndefinedBehaviour
        | Some c \<Rightarrow> (case co_first c of None \<Rightarrow> Inl UndefinedBehaviour | Some r \<Rightarrow> Inr r))) (\<lambda>curr.
    rbind (get_session (io_fresh io) (hr_session curr) False d) (\<lambda>(sid, d1).
    rbind (ensure_connection io backend sid d1) (\<lambda>(i, d2).
    rbind (write_request known uu io i first cont d2) (\<lambda>w.
      Inr (finish_request io first cont d2 w)))))"

text \<open>A history of requests.\<close>

inductive ds_step ::
  "(string \<Rightarrow> bool) \<Rightarrow> (uuid \<Rightarrow> string) \<Rightarrow> ('b, 'r) downstream
    \<Rightarrow> http_req option \<times> 'b continuation option \<Rightarrow> ('b, 'r) downstream \<Rightarrow> bool" for known uu where
  ds_request: "io_fresh io \<noteq> nil_uuid \<Longrightarrow> dn_sessions d (io_fresh io) = None \<Longrightarrow>
    start_request known uu io 0 first cont d = Inr d' \<Longrightarrow> ds_step known uu d (first, cont) d'"

inductive_cases ds_stepE: "ds_step known uu d e d'"

section \<open>Facts\<close>

text \<open>No connection is ever in a list; every session's connection is its own.\<close>

definition ds_inv :: "('b, 'r) downstream \<Rightarrow> bool" where
  "ds_inv d = ((\<forall>con \<in> set (dn_pool d). con = []) \<and> dn_sessions d nil_uuid = None \<and>
     (\<forall>s i. dn_sessions d s = Some (Some i) \<longrightarrow> i < length (dn_heap d) \<and> cn_session (dn_heap d ! i) = s \<and>
        (cn_initialized (dn_heap d ! i) \<longrightarrow> cn_stream (dn_heap d ! i))))"

lemma ds_inv_new: "ds_inv (set_backends bs new_downstream)"
  by (auto simp: ds_inv_def set_backends_def new_downstream_def)

lemma ds_inv_log [simp]: "ds_inv (log_effect e d) = ds_inv d"
  by (simp add: ds_inv_def log_effect_def)

lemma log_effect_frame [simp]:
  "dn_heap (log_effect e d) = dn_heap d" "dn_pool (log_effect e d) = dn_pool d"
  "dn_sessions (log_effect e d) = dn_sessions d" "dn_backends (log_effect e d) = dn_backends d"
  by (simp_all add: log_effect_def)

lemma get_session_facts:
  assumes "get_session fresh sess t d = Inr (sid, d')" and "ds_inv d" and "fresh \<noteq> nil_uuid"
    and "dn_sessions d fresh = None"
  shows "ds_inv d' \<and> sid \<noteq> nil_uuid \<and> dn_heap d' = dn_heap d \<and> dn_pool d' = dn_pool d \<and>
    dn_backends d' = dn_backends d \<and> dn_log d' = dn_log d \<and> dn_sessions d' sid \<noteq> None \<and>
    (sess \<noteq> nil_uuid \<longrightarrow> sid = sess) \<and> (\<forall>s. s \<noteq> sid \<longrightarrow> dn_sessions d' s = dn_sessions d s) \<and>
    (dn_sessions d sess \<noteq> None \<longrightarrow> d' = d)"
  using assms
  by (auto simp: get_session_def ds_inv_def Let_def split: option.splits if_splits intro!: gr0I)

text \<open>The search finds nothing, so the connection is new.\<close>

lemma get_connection_new:
  assumes "get_connection b s d = Inr (i, d')" and "ds_inv d" and "s \<noteq> nil_uuid"
  shows "i = length (dn_heap d) \<and> d' = d\<lparr> dn_heap := dn_heap d @
    [\<lparr> cn_session = s, cn_stream = False, cn_initialized = False \<rparr>] \<rparr>"
proof -
  have "\<not> (b < 0 \<or> int (length (dn_pool d)) \<le> b)" using assms(1) by (auto simp: get_connection_def)
  then have "dn_pool d ! nat b \<in> set (dn_pool d)" by (intro nth_mem) linarith
  then have "dn_pool d ! nat b = []" using assms(2) by (simp add: ds_inv_def)
  with assms(1,3) show ?thesis
    by (auto simp: get_connection_def acquire_def new_connection_def Let_def split: if_splits)
qed

lemma init_connection_facts [simp]:
  "cn_session (init_connection r c) = cn_session c" "cn_stream (init_connection r c)"
  by (simp_all add: init_connection_def Let_def split: init_outcome.split)

text \<open>The connection of a session: its own, with a stream, and in the store.\<close>

definition owns :: "uuid \<Rightarrow> nat \<Rightarrow> ('b, 'r) downstream \<Rightarrow> bool" where
  "owns s i d = (dn_sessions d s = Some (Some i) \<and> i < length (dn_heap d) \<and>
     cn_session (dn_heap d ! i) = s \<and> cn_stream (dn_heap d ! i))"

text \<open>Storing a connection under a session, the session's own or a new one, keeps the invariant.\<close>

lemma ds_inv_store:
  assumes "ds_inv d" and "sid \<noteq> nil_uuid" and "h = (dn_heap d)[i := c] \<or> h = dn_heap d @ [c]"
    and "i < length h" and "h ! i = c" and "cn_session c = sid" and "cn_initialized c \<longrightarrow> cn_stream c"
    and "i < length (dn_heap d) \<longrightarrow> cn_session (dn_heap d ! i) = sid"
  shows "ds_inv (d\<lparr> dn_heap := h, dn_sessions := (dn_sessions d)(sid \<mapsto> Some i) \<rparr>)"
  unfolding ds_inv_def
proof (intro conjI allI impI)
  fix s j
  assume s: "dn_sessions (d\<lparr> dn_heap := h, dn_sessions := (dn_sessions d)(sid \<mapsto> Some i) \<rparr>) s
    = Some (Some j)"
  have "j < length h \<and> cn_session (h ! j) = s \<and> (cn_initialized (h ! j) \<longrightarrow> cn_stream (h ! j))"
  proof (cases "s = sid")
    case True
    with s have "j = i" by simp
    with True assms(4,5,6,7) show ?thesis by simp
  next
    case False
    with s have d: "dn_sessions d s = Some (Some j)" by simp
    then have j: "j < length (dn_heap d)" "cn_session (dn_heap d ! j) = s"
      "cn_initialized (dn_heap d ! j) \<longrightarrow> cn_stream (dn_heap d ! j)"
      using assms(1) by (auto simp: ds_inv_def)
    then have "j \<noteq> i" using assms(8) False by auto
    with j assms(3) show ?thesis by (auto simp: nth_append)
  qed
  then show "j < length (dn_heap (d\<lparr> dn_heap := h, dn_sessions := (dn_sessions d)(sid \<mapsto> Some i) \<rparr>))"
    and "cn_session (dn_heap (d\<lparr> dn_heap := h, dn_sessions := (dn_sessions d)(sid \<mapsto> Some i) \<rparr>) ! j) = s"
    and "cn_initialized (dn_heap (d\<lparr> dn_heap := h, dn_sessions := (dn_sessions d)(sid \<mapsto> Some i) \<rparr>) ! j)
      \<Longrightarrow> cn_stream (dn_heap (d\<lparr> dn_heap := h, dn_sessions := (dn_sessions d)(sid \<mapsto> Some i) \<rparr>) ! j)"
    by simp_all
qed (use assms(1,2) in \<open>auto simp: ds_inv_def\<close>)

lemma ensure_shape:
  assumes "ensure_connection io b sid d = Inr (i, d')" and "ds_inv d" and "sid \<noteq> nil_uuid"
    and "dn_sessions d sid \<noteq> None"
  obtains h c where "d' = d\<lparr> dn_heap := h, dn_sessions := (dn_sessions d)(sid \<mapsto> Some i) \<rparr>"
    and "h = (dn_heap d)[i := c] \<and> i < length (dn_heap d) \<and> dn_sessions d sid = Some (Some i) \<or>
         h = dn_heap d @ [c] \<and> i = length (dn_heap d) \<and> dn_sessions d sid = Some None"
    and "h ! i = c" and "cn_session c = sid" and "cn_stream c"
proof (cases "dn_sessions d sid")
  case (Some o')
  show ?thesis
  proof (cases o')
    case None
    with Some assms(1) obtain j d1 where g: "get_connection b sid d = Inr (j, d1)"
      by (cases "get_connection b sid d") (auto simp: ensure_connection_def)
    let ?c = "\<lparr> cn_session = sid, cn_stream = False, cn_initialized = False \<rparr>"
    have n: "j = length (dn_heap d)" "d1 = d\<lparr> dn_heap := dn_heap d @ [?c] \<rparr>"
      using get_connection_new [OF g assms(2,3)] by auto
    have "i = length (dn_heap d)" "d' = d\<lparr> dn_heap := dn_heap d @ [init_connection (io_init io) ?c],
        dn_sessions := (dn_sessions d)(sid \<mapsto> Some i) \<rparr>"
      using assms(1) Some None g n by (auto simp: ensure_connection_def split: if_splits)
    then show ?thesis using Some None
      by (intro that [where h = "dn_heap d @ [init_connection (io_init io) ?c]"]) auto
  next
    case (Some j)
    have s: "dn_sessions d sid = Some (Some j)" using Some \<open>dn_sessions d sid = Some o'\<close> by simp
    then have j: "j < length (dn_heap d)" "cn_session (dn_heap d ! j) = sid"
      "cn_initialized (dn_heap d ! j) \<longrightarrow> cn_stream (dn_heap d ! j)"
      using assms(2) by (auto simp: ds_inv_def)
    let ?c = "if cn_initialized (dn_heap d ! j) then dn_heap d ! j
      else init_connection (io_init io) (dn_heap d ! j)"
    have e: "i = j" "d' = d\<lparr> dn_heap := (dn_heap d)[j := ?c], dn_sessions := (dn_sessions d)(sid \<mapsto> Some i) \<rparr>"
      using assms(1) s by (auto simp: ensure_connection_def fun_upd_idem split: if_splits)
    show ?thesis using e j s
      by (intro that [where h = "(dn_heap d)[j := ?c]" and c = ?c]) auto
  qed
qed (use assms(4) in simp)

lemma ensure_facts:
  assumes "ensure_connection io b sid d = Inr (i, d')" and "ds_inv d" and "sid \<noteq> nil_uuid"
    and "dn_sessions d sid \<noteq> None"
  shows "ds_inv d'" and "owns sid i d'" and "dn_pool d' = dn_pool d" and "dn_log d' = dn_log d"
    and "length (dn_heap d') = length (dn_heap d) + (if dn_sessions d sid = Some None then 1 else 0)"
    and "dn_sessions d' = (dn_sessions d)(sid \<mapsto> Some i)"
proof -
  obtain h c where d': "d' = d\<lparr> dn_heap := h, dn_sessions := (dn_sessions d)(sid \<mapsto> Some i) \<rparr>"
    and h: "h = (dn_heap d)[i := c] \<and> i < length (dn_heap d) \<and> dn_sessions d sid = Some (Some i) \<or>
         h = dn_heap d @ [c] \<and> i = length (dn_heap d) \<and> dn_sessions d sid = Some None"
    and c: "h ! i = c" "cn_session c = sid" "cn_stream c"
    by (rule ensure_shape [OF assms])
  have l: "i < length h" using h by auto
  have o: "i < length (dn_heap d) \<longrightarrow> cn_session (dn_heap d ! i) = sid"
    using h assms(2) by (auto simp: ds_inv_def)
  show "ds_inv d'" unfolding d'
    by (rule ds_inv_store [OF assms(2,3) _ l c(1,2) _ o]) (use h c(3) in auto)
  show "owns sid i d'" unfolding d' owns_def using l c by simp
  show "length (dn_heap d') = length (dn_heap d) + (if dn_sessions d sid = Some None then 1 else 0)"
    unfolding d' using h by auto
  show "dn_pool d' = dn_pool d" "dn_log d' = dn_log d" "dn_sessions d' = (dn_sessions d)(sid \<mapsto> Some i)"
    unfolding d' by simp_all
qed

lemma write_request_frame:
  assumes "write_request known uu io i first cont d = Inr (Some d')"
  shows "dn_heap d' = dn_heap d \<and> dn_pool d' = dn_pool d \<and> dn_sessions d' = dn_sessions d"
  using assms
  by (auto simp: write_request_def rbind_Inr_iff split: option.splits if_splits)

text \<open>One request: the session is the one asked for, it owns a connection, and a connection is made
  exactly when the session had none.\<close>

lemma start_request_facts:
  assumes "start_request known uu io b first cont d = Inr d'" and "ds_inv d"
    and "io_fresh io \<noteq> nil_uuid" and "dn_sessions d (io_fresh io) = None"
  shows "\<exists>sid i. ds_inv d' \<and> owns sid i d' \<and> sid \<noteq> nil_uuid \<and> dn_pool d' = dn_pool d \<and>
    dn_sessions d' = (dn_sessions d)(sid \<mapsto> Some i) \<and>
    length (dn_heap d') = length (dn_heap d)
      + (if dn_sessions d sid = None \<or> dn_sessions d sid = Some None then 1 else 0)"
proof -
  obtain curr :: http_req and sid d1 i d2 w where s: "get_session (io_fresh io) (hr_session curr) False d = Inr (sid, d1)"
    "ensure_connection io b sid d1 = Inr (i, d2)" "write_request known uu io i first cont d2 = Inr w"
    and d': "d' = finish_request io first cont d2 w"
    using assms(1) unfolding start_request_def by (auto simp: rbind_Inr_iff intro: that)
  note g = get_session_facts [OF s(1) assms(2-4)]
  have g2: "ds_inv d1" "sid \<noteq> nil_uuid" "dn_sessions d1 sid \<noteq> None" using g by blast+
  note e = ensure_facts [OF s(2) g2]
  have f: "dn_heap d' = dn_heap d2 \<and> dn_pool d' = dn_pool d2 \<and> dn_sessions d' = dn_sessions d2"
    using s(3) write_request_frame [of known uu io i first cont d2]
    by (cases w) (auto simp: d' finish_request_def split: option.split)
  have d1: "dn_sessions d1 = dn_sessions d \<and> dn_sessions d sid \<noteq> None \<or>
      dn_sessions d sid = None \<and> dn_sessions d1 = (dn_sessions d)(sid \<mapsto> None)"
  proof (cases "dn_sessions d (hr_session curr)")
    case None
    then show ?thesis using s(1) assms(4) by (auto simp: get_session_def Let_def)
  qed (use s(1) in \<open>simp add: get_session_def\<close>)
  have "ds_inv d'" "owns sid i d'" using e(1,2) f by (simp_all add: ds_inv_def owns_def)
  moreover have "dn_sessions d' = (dn_sessions d)(sid \<mapsto> Some i)" using e(6) f d1 by auto
  moreover have "length (dn_heap d') = length (dn_heap d)
      + (if dn_sessions d sid = None \<or> dn_sessions d sid = Some None then 1 else 0)"
    using e(5) f g d1 g2(3) by auto
  ultimately show ?thesis using g2(2) e(3) f g by auto
qed

text \<open>Every session that is known has its connection, and each connection was made for one.\<close>

definition ds_full :: "('b, 'r) downstream \<Rightarrow> bool" where
  "ds_full d = (ds_inv d \<and> finite (dom (dn_sessions d)) \<and> (\<forall>s. dn_sessions d s \<noteq> Some None) \<and>
     length (dn_heap d) = card (dom (dn_sessions d)))"

lemma ds_full_step:
  assumes "ds_step known uu d e d'" and "ds_full d"
  shows "ds_full d'"
  using assms(1)
proof cases
  case (ds_request io first cont)
  have i: "ds_inv d" and f: "finite (dom (dn_sessions d))" and n: "\<forall>s. dn_sessions d s \<noteq> Some None"
    and l: "length (dn_heap d) = card (dom (dn_sessions d))"
    using assms(2) by (simp_all add: ds_full_def)
  obtain sid j where s: "ds_inv d'" "dn_sessions d' = (dn_sessions d)(sid \<mapsto> Some j)"
    "length (dn_heap d') = length (dn_heap d)
      + (if dn_sessions d sid = None \<or> dn_sessions d sid = Some None then 1 else 0)"
    using start_request_facts [OF ds_request(4) i ds_request(2,3)] by blast
  have "card (dom (dn_sessions d')) = length (dn_heap d')"
  proof (cases "dn_sessions d sid")
    case None
    then have "sid \<notin> dom (dn_sessions d)" by (simp add: domIff)
    with None f l s(2,3) show ?thesis by simp
  next
    case (Some a)
    with n have "a \<noteq> None" by metis
    with Some have "sid \<in> dom (dn_sessions d)" "\<not> (dn_sessions d sid = None \<or> dn_sessions d sid = Some None)"
      by auto
    then show ?thesis using l s(2,3) by (simp add: insert_absorb)
  qed
  with s f n show ?thesis by (simp add: ds_full_def)
qed

section \<open>Properties\<close>

text \<open>C22: Requests of different sessions never share a connection to a worker, and no connection is ever
  used again: whatever requests the proxy has forwarded, each session owns its own connection, there
  are as many connections as sessions, and the lists of reusable connections are empty, because a new
  connection is added to a copy of the list.\<close>

theorem connections_exclusive:
  assumes "run (ds_step known uu) (set_backends bs new_downstream) es d"
    and "dn_sessions d s = Some c" and "dn_sessions d s' = Some c'" and "s \<noteq> s'"
  shows "c \<noteq> c' \<and> (\<exists>i. c = Some i \<and> i < length (dn_heap d) \<and> cn_session (dn_heap d ! i) = s) \<and>
    length (dn_heap d) = card (dom (dn_sessions d)) \<and> (\<forall>con \<in> set (dn_pool d). con = [])"
proof -
  have "ds_full (set_backends bs new_downstream)"
    using ds_inv_new [of bs] by (simp add: ds_full_def) (simp add: set_backends_def new_downstream_def)
  then have d: "ds_full d" using run_invariant [OF assms(1), of ds_full] ds_full_step by blast
  then obtain i j where "c = Some i" "c' = Some j"
    using assms(2,3) by (metis ds_full_def option.exhaust)
  moreover have "i < length (dn_heap d) \<and> cn_session (dn_heap d ! i) = t"
    if "dn_sessions d t = Some (Some i)" for t i
    using d that by (auto simp: ds_full_def ds_inv_def)
  ultimately show ?thesis using d assms(2-4) by (simp add: ds_full_def ds_inv_def) metis
qed

definition sample_io :: "nat ds_io" where
  "sample_io = \<lparr> io_fresh = 9, io_init = Connected, io_write_ok = True, io_written = 1, io_read = Some 200 \<rparr>"

definition sample_get_req :: "uuid \<Rightarrow> http_req" where
  "sample_get_req s = new_http_req None None None None ''/'' ''GET'' True s []"

lemmas start_defs = start_request_def finish_request_def write_request_def ensure_connection_def
  get_connection_def get_session_def unfinished_def log_effect_def to_beast_request_def
  init_connection_def acquire_def new_connection_def set_backends_def new_downstream_def

definition sample_forward :: "uuid \<Rightarrow> (byte, nat) downstream \<Rightarrow> (byte, nat) downstream result" where
  "sample_forward s d = start_request (\<lambda>_. True) (\<lambda>_. ''u'') sample_io 0 (Some (sample_get_req s)) None d"

lemma sample_forward_run:
  assumes "sample_forward 7 (set_backends [(''localhost'', ''8082'')] new_downstream) = Inr d"
    and "sample_forward 8 d = Inr d'" and "dn_sessions d 9 = None"
  shows "run (ds_step (\<lambda>_. True) (\<lambda>_. ''u'')) (set_backends [(''localhost'', ''8082'')] new_downstream)
    [(Some (sample_get_req 7), None), (Some (sample_get_req 8), None)] d'"
  using assms ds_request [of sample_io] unfolding sample_forward_def
  by (intro run_cons [where s' = d] run_cons [where s' = d'] run_nil ds_request [of sample_io])
    (simp_all add: sample_io_def set_backends_def new_downstream_def)

theorem connections_exclusive_witness:
  "\<exists>d. rbind (sample_forward 7 (set_backends [(''localhost'', ''8082'')] new_downstream)) (sample_forward 8)
      = Inr d \<and> length (dn_heap d) = card (dom (dn_sessions d)) \<and> dn_sessions d 7 \<noteq> dn_sessions d 8"
proof -
  obtain d where d: "sample_forward 7 (set_backends [(''localhost'', ''8082'')] new_downstream) = Inr d"
    "dn_sessions d = [7 \<mapsto> Some 0]" "dn_heap d = [\<lparr> cn_session = 7, cn_stream = True, cn_initialized = True \<rparr>]"
    "dn_pool d = [[]]" "dn_backends d = [(''localhost'', ''8082'')]"
    by (simp add: sample_forward_def sample_get_req_def sample_io_def start_defs builder_of_request_def
        to_request_def new_http_req_def blank_builder_def Let_def)
  obtain d' where d': "sample_forward 8 d = Inr d'" "dn_sessions d' = [7 \<mapsto> Some 0, 8 \<mapsto> Some 1]"
    using d(2-5) by (simp add: sample_forward_def sample_get_req_def sample_io_def start_defs
        builder_of_request_def to_request_def new_http_req_def blank_builder_def Let_def)
  have "run (ds_step (\<lambda>_. True) (\<lambda>_. ''u'')) (set_backends [(''localhost'', ''8082'')] new_downstream)
    [(Some (sample_get_req 7), None), (Some (sample_get_req 8), None)] d'"
    by (rule sample_forward_run [OF d(1) d'(1)]) (simp add: d(2))
  from connections_exclusive [OF this, of 7 "Some 0" 8 "Some 1"] d d' show ?thesis by auto
qed

text \<open>With a backend configured a session always gets a connection.\<close>

definition has_backend :: "('b, 'r) downstream \<Rightarrow> bool" where
  "has_backend d = (dn_backends d \<noteq> [] \<and> length (dn_pool d) = length (dn_backends d))"

lemma ensure_ok:
  assumes "ds_inv d" and "has_backend d" and "sid \<noteq> nil_uuid"
  shows "\<exists>i d'. ensure_connection io 0 sid d = Inr (i, d')"
proof -
  have "dn_pool d \<noteq> []" using assms(2) by (auto simp: has_backend_def)
  then have "dn_pool d ! 0 = []" and l: "\<not> int (length (dn_pool d)) \<le> 0"
    using assms(1) by (simp_all add: ds_inv_def)
  then have "\<exists>i d'. get_connection 0 sid d = Inr (i, d') \<and> dn_backends d' = dn_backends d"
    by (simp add: get_connection_def)
  moreover have "dn_backends d \<noteq> []" using assms(2) by (simp add: has_backend_def)
  ultimately show ?thesis by (auto simp: ensure_connection_def split: option.split)
qed

lemma session_ok:
  assumes "ds_inv d" and "has_backend d" and "sess \<noteq> nil_uuid"
  obtains i d1 d2 where "get_session fresh sess False d = Inr (sess, d1)"
    and "ensure_connection io 0 sess d1 = Inr (i, d2)" and "owns sess i d2" and "dn_log d2 = dn_log d"
proof -
  obtain d1 where d1: "get_session fresh sess False d = Inr (sess, d1)" "ds_inv d1" "has_backend d1"
    "dn_sessions d1 sess \<noteq> None" "dn_log d1 = dn_log d"
    using assms by (cases "dn_sessions d sess") (auto simp: get_session_def ds_inv_def has_backend_def)
  obtain i d2 where "ensure_connection io 0 sess d1 = Inr (i, d2)"
    using ensure_ok [OF d1(2,3) assms(3)] by blast
  then show thesis using d1 ensure_facts [OF _ d1(2) assms(3) d1(4)] that by metis
qed

text \<open>C23: A complete request is written once, as rebuilt by the builder, to the connection its session
  owns, and its response is handed back once, unless the network fails: then the client gets no
  answer at all, not an error response.\<close>

theorem request_answered:
  assumes "ds_inv d" and "has_backend d" and "hr_session r \<noteq> nil_uuid" and "hr_done r"
    and "to_beast_request known uu (to_request (builder_of_request nil_uuid r)) = Inr q"
  shows "\<exists>d' i. start_request known uu io 0 (Some r) None d = Inr d' \<and> owns (hr_session r) i d' \<and>
    dn_log d' = dn_log d @ (if io_write_ok io
      then DsWrite i q # (case io_read io of Some res \<Rightarrow> [DsReply res] | None \<Rightarrow> []) else [])"
proof -
  obtain i d1 d2 where s: "get_session (io_fresh io) (hr_session r) False d = Inr (hr_session r, d1)"
    "ensure_connection io 0 (hr_session r) d1 = Inr (i, d2)" and o: "owns (hr_session r) i d2"
    and l: "dn_log d2 = dn_log d"
    by (rule session_ok [OF assms(1-3)])
  have w: "write_request known uu io i (Some r) None d2
      = Inr (if io_write_ok io then Some (log_effect (DsWrite i q) d2) else None)"
    using o assms(5) by (simp add: write_request_def owns_def)
  let ?d = "finish_request io (Some r) None d2
    (if io_write_ok io then Some (log_effect (DsWrite i q) d2) else None)"
  have "start_request known uu io 0 (Some r) None d = Inr ?d"
    by (simp add: start_request_def s w)
  moreover have "owns (hr_session r) i ?d"
    using o by (simp add: finish_request_def owns_def split: option.split)
  moreover have "dn_log ?d = dn_log d @ (if io_write_ok io
      then DsWrite i q # (case io_read io of Some res \<Rightarrow> [DsReply res] | None \<Rightarrow> []) else [])"
    using assms(4) l by (simp add: finish_request_def unfinished_def log_effect_def split: option.split)
  ultimately show ?thesis by blast
qed

lemma has_backend_sample: "has_backend (set_backends [(''localhost'', ''8082'')] new_downstream)"
  by (simp add: has_backend_def set_backends_def new_downstream_def)

theorem request_answered_witness:
  "\<exists>d'. sample_forward 7 (set_backends [(''localhost'', ''8082'')] new_downstream) = Inr d' \<and>
    DsReply 200 \<in> set (dn_log d')"
proof -
  obtain q where q: "to_beast_request (\<lambda>_. True) (\<lambda>_. ''u'')
      (to_request (builder_of_request nil_uuid (sample_get_req 7))) = Inr q"
    by (simp add: to_beast_request_def)
  have "hr_session (sample_get_req 7) \<noteq> nil_uuid" "hr_done (sample_get_req 7)"
    by (simp_all add: sample_get_req_def new_http_req_def)
  from request_answered [OF ds_inv_new has_backend_sample this q, of sample_io]
  show ?thesis unfolding sample_forward_def by (auto simp: sample_io_def)
qed

text \<open>The body of a request is forwarded piece by piece, but each piece by a single partial write: the
  worker receives the bytes the network took at once, and the rest of the piece is lost.\<close>

theorem continuation_partial_write:
  assumes "ds_inv d" and "has_backend d" and "hr_session r \<noteq> nil_uuid" and "co_first c = Some r"
    and "io_write_ok io"
  shows "\<exists>d' i. start_request known uu io 0 None (Some c) d = Inr d' \<and> owns (hr_session r) i d' \<and>
    dn_log d' = dn_log d @ DsWriteRaw i (take (io_written io) (co_buffer c)) #
      (if co_done c then (case io_read io of Some res \<Rightarrow> [DsReply res] | None \<Rightarrow> []) else [])"
proof -
  obtain i d1 d2 where s: "get_session (io_fresh io) (hr_session r) False d = Inr (hr_session r, d1)"
    "ensure_connection io 0 (hr_session r) d1 = Inr (i, d2)" and o: "owns (hr_session r) i d2"
    and l: "dn_log d2 = dn_log d"
    by (rule session_ok [OF assms(1-3)])
  let ?d3 = "log_effect (DsWriteRaw i (take (io_written io) (co_buffer c))) d2"
  have w: "write_request known uu io i None (Some c) d2 = Inr (Some ?d3)"
    using o assms(5) by (simp add: write_request_def owns_def)
  let ?d = "finish_request io None (Some c) d2 (Some ?d3)"
  have "start_request known uu io 0 None (Some c) d = Inr ?d"
    using assms(4) by (simp add: start_request_def s w)
  moreover have "owns (hr_session r) i ?d"
    using o by (simp add: finish_request_def owns_def split: option.split)
  moreover have "dn_log ?d = dn_log d @ DsWriteRaw i (take (io_written io) (co_buffer c)) #
      (if co_done c then (case io_read io of Some res \<Rightarrow> [DsReply res] | None \<Rightarrow> []) else [])"
    using l by (simp add: finish_request_def unfinished_def log_effect_def split: option.split)
  ultimately show ?thesis by blast
qed

theorem continuation_partial_write_witness:
  "\<exists>d' i. start_request (\<lambda>_. True) (\<lambda>_. ''u'') sample_io 0 None
      (Some \<lparr> co_first = Some (sample_get_req 7), co_buffer = [1, 2, 3], co_done = True \<rparr>)
      (set_backends [(''localhost'', ''8082'')] new_downstream) = Inr d' \<and>
    dn_log d' = [DsWriteRaw i [1::byte], DsReply 200]"
proof -
  have "hr_session (sample_get_req 7) \<noteq> nil_uuid" by (simp add: sample_get_req_def new_http_req_def)
  from continuation_partial_write [OF ds_inv_new has_backend_sample this, of
      "\<lparr> co_first = Some (sample_get_req 7), co_buffer = [1::byte, 2, 3], co_done = True \<rparr>" sample_io "\<lambda>_. True" "\<lambda>_. ''u''"]
  show ?thesis by (auto simp: sample_io_def set_backends_def new_downstream_def)
qed

end
