(* ===== verification/Config.thy ===== *)
theory Config imports EpInterfaces Rpc begin

text \<open>
  Configuration (\<open>easyprospect-config\<close>): the enumerations and their texts, the listener and backend
  descriptions, the builders of the four programs with what they read from a JSON file and from the
  command line, and the configuration objects made of them. The parsed command line is a map of
  option values; the tokenizer, the compiler of regular expressions and the file are arguments. A
  path and a compiled regular expression are their text.
\<close>

section \<open>Enumerations\<close>

datatype listener_kind = KindNone | KindNoTls | KindAllowTls | KindRequireTls

fun listener_kind_to_string :: "listener_kind \<Rightarrow> string" where
  "listener_kind_to_string KindAllowTls = ''allow_tls''"
| "listener_kind_to_string KindNoTls = ''no_tls''"
| "listener_kind_to_string KindRequireTls = ''require_tls''"
| "listener_kind_to_string KindNone = ''none''"

definition str_to_listener_kind :: "string \<Rightarrow> listener_kind" where
  "str_to_listener_kind k =
    (if k = ''allow_tls'' then KindAllowTls
     else if k = ''no_tls'' then KindNoTls
     else if k = ''require_tls'' then KindRequireTls
     else KindNone)"

datatype backend_kind = BackendNone | BackendStandard

fun backend_kind_to_string :: "backend_kind \<Rightarrow> string" where
  "backend_kind_to_string BackendStandard = ''standard''"
| "backend_kind_to_string BackendNone = ''none''"

definition str_to_backend_kind :: "string \<Rightarrow> backend_kind" where
  "str_to_backend_kind k = (if k = ''standard'' then BackendStandard else BackendNone)"

datatype verbosity = VerbNone | VerbQuiet | VerbMinimum | VerbNormal | VerbDebug | VerbMaximum

text \<open>There is no case for \<open>debug\<close>.\<close>

fun verbosity_to_string :: "verbosity \<Rightarrow> string" where
  "verbosity_to_string VerbNone = ''none''"
| "verbosity_to_string VerbQuiet = ''quiet''"
| "verbosity_to_string VerbNormal = ''normal''"
| "verbosity_to_string VerbMinimum = ''minimum''"
| "verbosity_to_string VerbMaximum = ''maximum''"
| "verbosity_to_string VerbDebug = []"

definition verbosity_from :: "string \<Rightarrow> verbosity result" where
  "verbosity_from v =
    (if iequals v ''none'' then Inr VerbNone
     else if iequals v ''quiet'' then Inr VerbQuiet
     else if iequals v ''minimum'' then Inr VerbMinimum
     else if iequals v ''normal'' then Inr VerbNormal
     else if iequals v ''maximum'' then Inr VerbMaximum
     else if iequals v ''debug'' then Inr VerbDebug
     else Inl (LogicError ''Invalid verbosity''))"

datatype debug_level =
    DbgNone | DbgOff | DbgFatal | DbgError | DbgWarn | DbgInfo | DbgDebug | DbgTrace | DbgAll

fun debug_level_to_string :: "debug_level \<Rightarrow> string" where
  "debug_level_to_string DbgNone = ''ep_none''"
| "debug_level_to_string DbgAll = ''ep_all''"
| "debug_level_to_string DbgDebug = ''ep_debug''"
| "debug_level_to_string DbgTrace = ''ep_trace''"
| "debug_level_to_string DbgInfo = ''ep_info''"
| "debug_level_to_string DbgWarn = ''ep_warn''"
| "debug_level_to_string DbgError = ''ep_error''"
| "debug_level_to_string DbgFatal = ''ep_fatal''"
| "debug_level_to_string DbgOff = ''ep_off''"

definition debug_level_from :: "string \<Rightarrow> debug_level result" where
  "debug_level_from d =
    (if iequals d ''ep_none'' then Inr DbgNone
     else if iequals d ''ep_all'' then Inr DbgAll
     else if iequals d ''ep_debug'' then Inr DbgDebug
     else if iequals d ''ep_trace'' then Inr DbgTrace
     else if iequals d ''ep_info'' then Inr DbgInfo
     else if iequals d ''ep_warn'' then Inr DbgWarn
     else if iequals d ''ep_error'' then Inr DbgError
     else if iequals d ''ep_fatal'' then Inr DbgFatal
     else if iequals d ''ep_off'' then Inr DbgOff
     else Inl (LogicError ''Invalid debug level''))"

section \<open>Listeners and backends\<close>

record listener_conf =
  lc_name :: string
  lc_address :: string
  lc_port :: string
  lc_min_port :: string
  lc_max_port :: string
  lc_kind :: string

definition blank_listener :: listener_conf where
  "blank_listener = \<lparr> lc_name = [], lc_address = [], lc_port = [], lc_min_port = [],
     lc_max_port = [], lc_kind = [] \<rparr>"

text \<open>\<open>find('=')\<close> and the two \<open>substr\<close>.\<close>

definition split_eq :: "string \<Rightarrow> (string \<times> string) option" where
  "split_eq a = (if CHR ''='' \<in> set a
     then Some (takeWhile (\<lambda>c. c \<noteq> CHR ''='') a, tl (dropWhile (\<lambda>c. c \<noteq> CHR ''='') a))
     else None)"

definition listener_field :: "string \<Rightarrow> listener_conf \<Rightarrow> listener_conf" where
  "listener_field a l = (case split_eq a of
     None \<Rightarrow> l
   | Some (n, v) \<Rightarrow>
      (if n = ''name'' then l\<lparr> lc_name := v \<rparr>
       else if n = ''address'' then l\<lparr> lc_address := v \<rparr>
       else if n = ''port'' then l\<lparr> lc_port := v \<rparr>
       else if n = ''min-port'' then l\<lparr> lc_min_port := v \<rparr>
       else if n = ''max-port'' then l\<lparr> lc_max_port := v \<rparr>
       else if n = ''kind'' then l\<lparr> lc_kind := v \<rparr>
       else l))"

definition quote :: char where "quote = CHR 0x27"

definition listener_format :: string where
  "listener_format = ''listener config should be provided in the format '' @
     [quote] @ ''name=<name>,address=<address>,port=<port>[,min-port=<min '' @
     ''port>,max-port=<max port>],kind=<kind>'' @ [quote] @ '' ( without the quote ).''"

definition parse_listener :: "(string \<Rightarrow> string list result) \<Rightarrow> string \<Rightarrow> listener_conf result" where
  "parse_listener tok s = rbind (tok s) (\<lambda>args.
     if args = [] then Inl (LogicError ''listener config is empty.'')
     else if length args < 3 then Inl (LogicError listener_format)
     else Inr (fold listener_field args blank_listener))"

fun parse_listeners :: "(string \<Rightarrow> string list result) \<Rightarrow> string list \<Rightarrow> listener_conf list result" where
  "parse_listeners tok [] = Inr []"
| "parse_listeners tok (s # ss) =
    rbind (parse_listener tok s) (\<lambda>l. rbind (parse_listeners tok ss) (\<lambda>ls. Inr (l # ls)))"

definition tab :: string where "tab = [char_of (9::nat)]"

definition listener_str :: "listener_conf \<Rightarrow> string" where
  "listener_str l = ''name'' @ tab @ tab @ '':'' @ lc_name l @ newline @
     ''port'' @ tab @ tab @ '':'' @ lc_port l @ newline @
     ''min-port'' @ tab @ '':'' @ lc_min_port l @ newline @
     ''max-port'' @ tab @ '':'' @ lc_max_port l @ newline @
     ''address'' @ tab @ '':'' @ lc_address l @ newline @
     ''kind'' @ tab @ '':'' @ lc_kind l @ newline"

record backend_conf =
  bc_name :: string
  bc_address :: string
  bc_port :: string
  bc_kind :: string

definition backend_field :: "string \<Rightarrow> backend_conf \<Rightarrow> backend_conf" where
  "backend_field a b = (case split_eq a of
     None \<Rightarrow> b
   | Some (n, v) \<Rightarrow>
      (if n = ''name'' then b\<lparr> bc_name := v \<rparr>
       else if n = ''address'' then b\<lparr> bc_address := v \<rparr>
       else if n = ''port'' then b\<lparr> bc_port := v \<rparr>
       else b))"

definition parse_backend :: "(string \<Rightarrow> string list result) \<Rightarrow> string \<Rightarrow> backend_conf result" where
  "parse_backend tok s = rbind (tok s) (\<lambda>args.
     if args = [] then Inl (LogicError ''backend config is empty.'')
     else if length args < 3 then Inl (LogicError (''backend config should be provided in the format '' @
       ''be1=127.0.0.1:9101,be2=127.0.0.1:9102''))
     else Inr (fold backend_field args
       \<lparr> bc_name = [], bc_address = [], bc_port = [], bc_kind = [] \<rparr>))"

fun parse_backends :: "(string \<Rightarrow> string list result) \<Rightarrow> string list \<Rightarrow> backend_conf list result" where
  "parse_backends tok [] = Inr []"
| "parse_backends tok (s # ss) =
    rbind (parse_backend tok s) (\<lambda>b. rbind (parse_backends tok ss) (\<lambda>bs. Inr (b # bs)))"

definition backend_str :: "backend_conf \<Rightarrow> string" where
  "backend_str b = ''name'' @ tab @ tab @ '':'' @ bc_name b @ newline @
     ''port'' @ tab @ tab @ '':'' @ bc_port b @ newline @
     ''address'' @ tab @ '':'' @ bc_address b @ newline @
     ''kind'' @ tab @ '':'' @ bc_kind b @ newline"

section \<open>Builders\<close>

record core_builder =
  cb_help :: bool
  cb_version :: bool
  cb_verbosity :: verbosity
  cb_debug :: debug_level
  cb_regex :: "string list"
  cb_regex_str :: "string list"
  cb_mime :: "(string \<times> string) list"
  cb_remainder :: "string list option"
  cb_out_file :: "string option"
  cb_log_file :: "string option"
  cb_arg_file :: "string option"
  cb_cnf_file :: "string option"
  cb_pid_file :: "string option"
  cb_pid_dir :: "string option"
  cb_help_str :: string

record service_builder = core_builder +
  sb_threads :: int
  sb_webroot :: "string option"
  sb_listeners :: "listener_conf list"
  sb_listen_file :: "string option"
  sb_listen_dir :: "string option"

record server_builder = service_builder +
  vb_backends :: "backend_conf list"

record worker_builder = service_builder +
  kb_control :: bool

record wcntl_builder = service_builder +
  nb_use_path :: bool
  nb_workers :: int
  nb_args :: string
  nb_conf :: "string option"
  nb_args_file :: "string option"
  nb_exe :: "string option"

definition default_regexes :: "string list" where
  "default_regexes = [''.*'' @ [CHR 0x5C] @ ''.epjs$'', ''.*'' @ [CHR 0x5C] @ ''.ep.js$'']"

definition new_service_builder :: service_builder where
  "new_service_builder = \<lparr> cb_help = False, cb_version = False, cb_verbosity = VerbNone,
     cb_debug = DbgNone, cb_regex = default_regexes, cb_regex_str = default_regexes, cb_mime = [],
     cb_remainder = None, cb_out_file = None, cb_log_file = None, cb_arg_file = None,
     cb_cnf_file = None, cb_pid_file = None, cb_pid_dir = None, cb_help_str = [],
     sb_threads = 1, sb_webroot = Some ''wwwroot'', sb_listeners = [], sb_listen_file = None,
     sb_listen_dir = None \<rparr>"

definition new_server_builder :: server_builder where
  "new_server_builder = service_builder.extend new_service_builder (server_builder.fields [])"

text \<open>The other two leave their own scalars uninitialised: \<open>garbage\<close>.\<close>

definition new_worker_builder :: "bool \<Rightarrow> worker_builder" where
  "new_worker_builder garbage = service_builder.extend new_service_builder (worker_builder.fields garbage)"

definition new_wcntl_builder :: "bool \<Rightarrow> int \<Rightarrow> wcntl_builder" where
  "new_wcntl_builder garbage garbage_int = service_builder.extend new_service_builder
     (wcntl_builder.fields garbage garbage_int [] None None None)"

definition set_verbosity_text :: "string \<Rightarrow> 'a core_builder_scheme \<Rightarrow> 'a core_builder_scheme result" where
  "set_verbosity_text s b = rbind (verbosity_from s) (\<lambda>v. Inr (b\<lparr> cb_verbosity := v \<rparr>))"

definition set_debug_level_text :: "string \<Rightarrow> 'a core_builder_scheme \<Rightarrow> 'a core_builder_scheme result" where
  "set_debug_level_text s b = rbind (debug_level_from s) (\<lambda>d. Inr (b\<lparr> cb_debug := d \<rparr>))"

text \<open>\<open>compile s\<close> is the text of the regex error, \<open>None\<close> when \<open>s\<close> compiles.\<close>

fun add_regexes ::
  "(string \<Rightarrow> string option) \<Rightarrow> string list \<Rightarrow> 'a core_builder_scheme \<Rightarrow> 'a core_builder_scheme result" where
  "add_regexes compile [] b = Inr b"
| "add_regexes compile (s # ss) b = (case compile s of
     Some e \<Rightarrow> Inl (LogicError (''Error parsing regex '' @ [quote] @ e @ [quote]))
   | None \<Rightarrow> add_regexes compile ss
       (b\<lparr> cb_regex := cb_regex b @ [s], cb_regex_str := cb_regex_str b @ [s] \<rparr>))"

definition set_epjs_url_path_regex ::
  "(string \<Rightarrow> string option) \<Rightarrow> string list \<Rightarrow> bool \<Rightarrow> 'a core_builder_scheme \<Rightarrow> 'a core_builder_scheme result" where
  "set_epjs_url_path_regex compile ss clear b = add_regexes compile ss
     (if clear then b\<lparr> cb_regex := [], cb_regex_str := [] \<rparr> else b)"

section \<open>The configuration file\<close>

fun json_empty :: "json \<Rightarrow> bool" where
  "json_empty JNull = True"
| "json_empty (JArr xs) = (xs = [])"
| "json_empty (JObj kvs) = (kvs = [])"
| "json_empty _ = False"

fun json_items :: "json \<Rightarrow> json list" where
  "json_items JNull = []"
| "json_items (JArr xs) = xs"
| "json_items (JObj kvs) = map snd kvs"
| "json_items j = [j]"

definition json_str :: "json \<Rightarrow> string result" where
  "json_str j = (case get_string j of Some s \<Rightarrow> Inr s | None \<Rightarrow> Inl TypeError)"

text \<open>\<open>operator[]\<close> with a key: null becomes an object, another non-object is a type error.\<close>

definition json_field :: "string \<Rightarrow> json \<Rightarrow> json result" where
  "json_field k j = (if is_object j \<or> j = JNull then Inr (jindex k j) else Inl TypeError)"

fun json_strs :: "json list \<Rightarrow> string list result" where
  "json_strs [] = Inr []"
| "json_strs (j # js) = rbind (json_str j) (\<lambda>s. rbind (json_strs js) (\<lambda>ss. Inr (s # ss)))"

fun mime_entries :: "json list \<Rightarrow> (string \<times> string) list result" where
  "mime_entries [] = Inr []"
| "mime_entries (j # js) =
    rbind (json_field ''type'' j) (\<lambda>t.
    rbind (json_str t) (\<lambda>ty.
    rbind (json_field ''ext'' j) (\<lambda>e.
    rbind (json_strs (json_items e)) (\<lambda>exts.
    rbind (mime_entries js) (\<lambda>rest. Inr (map (\<lambda>x. (x, ty)) exts @ rest))))))"

datatype conf_file = NoFile | BadJson string | Json json

definition read_debug_level :: "json \<Rightarrow> 'a core_builder_scheme \<Rightarrow> 'a core_builder_scheme result" where
  "read_debug_level conf b = rbind (json_field ''debug_level'' conf) (\<lambda>dl.
     if json_empty dl then Inr b
     else rbind (json_str dl) (\<lambda>s. if trim s = [] then Inr b else set_debug_level_text (trim s) b))"

definition read_regexes ::
  "(string \<Rightarrow> string option) \<Rightarrow> json \<Rightarrow> 'a core_builder_scheme \<Rightarrow> 'a core_builder_scheme result" where
  "read_regexes compile conf b = rbind (json_field ''epjs_url_path_regex'' conf) (\<lambda>e.
     if json_empty e then Inr b
     else rbind (json_strs (json_items e)) (\<lambda>ss.
       if ss = [] then Inr b else set_epjs_url_path_regex compile ss True b))"

definition read_mime_types :: "json \<Rightarrow> 'a core_builder_scheme \<Rightarrow> 'a core_builder_scheme result" where
  "read_mime_types conf b = rbind (json_field ''mime_types'' conf) (\<lambda>mt.
     if json_empty mt then Inr b
     else rbind (mime_entries (json_items mt)) (\<lambda>ms. Inr (b\<lparr> cb_mime := ms \<rparr>)))"

definition read_from_file ::
  "(string \<Rightarrow> string option) \<Rightarrow> conf_file \<Rightarrow> string \<Rightarrow> 'a core_builder_scheme \<Rightarrow> 'a core_builder_scheme result" where
  "read_from_file compile f path b = (case f of
     NoFile \<Rightarrow> Inr b
   | BadJson e \<Rightarrow> Inl (LogicError (''Error parsing config '' @ path @ newline @ e))
   | Json conf \<Rightarrow>
       rbind (read_debug_level conf b) (\<lambda>b1.
       rbind (read_regexes compile conf b1) (\<lambda>b2.
       read_mime_types conf b2)))"

section \<open>The command line\<close>

text \<open>The value stored for an option has the type the option was declared with; \<open>as\<close> of another type
  throws.\<close>

datatype opt_value = OptStr string | OptBool bool | OptList "string list"

type_synonym variables_map = "string \<rightharpoonup> opt_value"

fun as_string :: "opt_value \<Rightarrow> string result" where
  "as_string (OptStr s) = Inr s"
| "as_string _ = Inl BadAnyCast"

fun as_bool :: "opt_value \<Rightarrow> bool result" where
  "as_bool (OptBool b) = Inr b"
| "as_bool _ = Inl BadAnyCast"

fun as_strings :: "opt_value \<Rightarrow> string list result" where
  "as_strings (OptList ss) = Inr ss"
| "as_strings _ = Inl BadAnyCast"

text \<open>The declared types: core, service, and what each program adds.\<close>

definition string_options :: "string list" where
  "string_options = [''verbosity'', ''debug-level'', ''log-file'', ''output-file'', ''arg-file'',
     ''config-file'', ''pid-file'', ''pid-file-dir'', ''webroot-dir'', ''num-threads'', ''listen-file'',
     ''listen-exe-dir'', ''num-workers'', ''worker-args'', ''worker-conf'', ''worker-args-file'', ''worker-exe'']"

definition vm_ok :: "variables_map \<Rightarrow> bool" where
  "vm_ok vm = ((\<forall>o' \<in> set string_options. \<forall>v. vm o' = Some v \<longrightarrow> (\<exists>s. v = OptStr s)) \<and>
     (\<forall>v. vm ''--'' = Some v \<or> vm ''listener'' = Some v \<or> vm ''backend'' = Some v \<longrightarrow> (\<exists>ss. v = OptList ss)) \<and>
     (\<forall>v. vm ''control-protocol'' = Some v \<or> vm ''worker-exe-use-path'' = Some v \<longrightarrow> (\<exists>b. v = OptBool b)))"

text \<open>\<open>if (vm.count(name)) ...\<close>\<close>

definition on_option :: "variables_map \<Rightarrow> string \<Rightarrow> (opt_value \<Rightarrow> 'b \<Rightarrow> 'b result) \<Rightarrow> 'b \<Rightarrow> 'b result" where
  "on_option vm name f b = (case vm name of None \<Rightarrow> Inr b | Some v \<Rightarrow> f v b)"

definition on_string :: "variables_map \<Rightarrow> string \<Rightarrow> (string \<Rightarrow> 'b \<Rightarrow> 'b result) \<Rightarrow> 'b \<Rightarrow> 'b result" where
  "on_string vm name f = on_option vm name (\<lambda>v b. rbind (as_string v) (\<lambda>s. f s b))"

definition parse_file_options :: "variables_map \<Rightarrow> 'a core_builder_scheme \<Rightarrow> 'a core_builder_scheme result" where
  "parse_file_options vm b =
    rbind (on_string vm ''log-file'' (\<lambda>s b. Inr (b\<lparr> cb_log_file := Some s \<rparr>)) b) (\<lambda>b.
    rbind (on_string vm ''output-file'' (\<lambda>s b. Inr (b\<lparr> cb_out_file := Some s \<rparr>)) b) (\<lambda>b.
    rbind (on_string vm ''arg-file'' (\<lambda>s b. Inr (b\<lparr> cb_arg_file := Some s \<rparr>)) b) (\<lambda>b.
    rbind (on_string vm ''config-file'' (\<lambda>s b. Inr (b\<lparr> cb_cnf_file := Some s \<rparr>)) b) (\<lambda>b.
    rbind (on_string vm ''pid-file'' (\<lambda>s b. Inr (b\<lparr> cb_pid_file := Some s \<rparr>)) b) (\<lambda>b.
    rbind (on_string vm ''pid-file-dir'' (\<lambda>s b. Inr (b\<lparr> cb_pid_dir := Some s \<rparr>)) b) (\<lambda>b.
    on_option vm ''--'' (\<lambda>v b. rbind (as_strings v) (\<lambda>ss. Inr (b\<lparr> cb_remainder := Some ss \<rparr>))) b))))))"

definition parse_flag_options :: "string \<Rightarrow> variables_map \<Rightarrow> 'a core_builder_scheme \<Rightarrow> 'a core_builder_scheme result" where
  "parse_flag_options desc vm b =
    rbind (Inr (b\<lparr> cb_help_str := desc \<rparr>)) (\<lambda>b.
    rbind (on_option vm ''help'' (\<lambda>_ b. Inr (b\<lparr> cb_help := True \<rparr>)) b) (\<lambda>b.
    rbind (on_option vm ''version'' (\<lambda>_ b. Inr (b\<lparr> cb_version := True \<rparr>)) b) (\<lambda>b.
    on_string vm ''verbosity'' set_verbosity_text b)))"

definition parse_core_options :: "string \<Rightarrow> variables_map \<Rightarrow> 'a core_builder_scheme \<Rightarrow> 'a core_builder_scheme result" where
  "parse_core_options desc vm b =
    rbind (parse_flag_options desc vm b) (\<lambda>b.
    rbind (on_string vm ''debug-level'' set_debug_level_text b) (\<lambda>b.
    parse_file_options vm b))"

definition parse_service_options ::
  "(string \<Rightarrow> string list result) \<Rightarrow> string \<Rightarrow> variables_map \<Rightarrow> 'a service_builder_scheme
    \<Rightarrow> 'a service_builder_scheme result" where
  "parse_service_options tok desc vm b =
    rbind (on_string vm ''webroot-dir'' (\<lambda>s b. Inr (b\<lparr> sb_webroot := Some s \<rparr>)) b) (\<lambda>b.
    rbind (on_string vm ''num-threads'' (\<lambda>s b. rbind (stoi s) (\<lambda>n. Inr (b\<lparr> sb_threads := n \<rparr>))) b) (\<lambda>b.
    rbind (on_option vm ''listener'' (\<lambda>v b. rbind (as_strings v) (\<lambda>ss.
        if ss = [] then Inl (LogicError (''Missing Listener configuration '' @ [quote] @ ''name,address,port'' @ [quote]))
        else rbind (parse_listeners tok ss) (\<lambda>ls. Inr (b\<lparr> sb_listeners := sb_listeners b @ ls \<rparr>)))) b) (\<lambda>b.
    parse_core_options desc vm b)))"

definition parse_server_options ::
  "(string \<Rightarrow> string list result) \<Rightarrow> string \<Rightarrow> variables_map \<Rightarrow> server_builder \<Rightarrow> server_builder result" where
  "parse_server_options tok desc vm b =
    rbind (on_option vm ''backend'' (\<lambda>v b. rbind (as_strings v) (\<lambda>ss.
        if ss = [] then Inl (LogicError ''Backend configurations. e.g. be1=127.0.0.1:9101,be2=127.0.0.1:9102'')
        else rbind (parse_backends tok ss) (\<lambda>bs. Inr (b\<lparr> vb_backends := vb_backends b @ bs \<rparr>)))) b) (\<lambda>b.
    parse_service_options tok desc vm b)"

definition parse_worker_options ::
  "(string \<Rightarrow> string list result) \<Rightarrow> string \<Rightarrow> variables_map \<Rightarrow> worker_builder \<Rightarrow> worker_builder result" where
  "parse_worker_options tok desc vm b =
    rbind (on_option vm ''control-protocol'' (\<lambda>v b. rbind (as_bool v) (\<lambda>c. Inr (b\<lparr> kb_control := c \<rparr>))) b) (\<lambda>b.
    parse_service_options tok desc vm b)"

text \<open>\<open>lexical_cast<bool>\<close>.\<close>

definition lexical_bool :: "string \<Rightarrow> bool result" where
  "lexical_bool s = (if s = ''1'' then Inr True else if s = ''0'' then Inr False
     else Inl (RuntimeError ''bad_lexical_cast''))"

definition parse_wcntl_options ::
  "(string \<Rightarrow> string list result) \<Rightarrow> string \<Rightarrow> variables_map \<Rightarrow> wcntl_builder \<Rightarrow> wcntl_builder result" where
  "parse_wcntl_options tok desc vm b =
    rbind (on_string vm ''worker-exe-use-path'' (\<lambda>s b. rbind (lexical_bool s) (\<lambda>c. Inr (b\<lparr> nb_use_path := c \<rparr>))) b) (\<lambda>b.
    rbind (on_string vm ''num-workers'' (\<lambda>s b. rbind (stoi s) (\<lambda>n. Inr (b\<lparr> nb_workers := n \<rparr>))) b) (\<lambda>b.
    rbind (on_string vm ''worker-exe'' (\<lambda>s b. Inr (b\<lparr> nb_exe := Some s \<rparr>)) b) (\<lambda>b.
    rbind (on_string vm ''worker-args'' (\<lambda>s b. Inr (b\<lparr> nb_args := s \<rparr>)) b) (\<lambda>b.
    rbind (on_string vm ''worker-conf'' (\<lambda>s b. Inr (b\<lparr> nb_conf := Some s \<rparr>)) b) (\<lambda>b.
    rbind (on_string vm ''worker-args-file'' (\<lambda>s b. Inr (b\<lparr> nb_args_file := Some s \<rparr>)) b) (\<lambda>b.
    parse_service_options tok desc vm b))))))"

text \<open>\<open>init_args\<close>: the configuration file first, then the options. \<open>file\<close> gives the content of a path.\<close>

definition read_config_file ::
  "(string \<Rightarrow> string option) \<Rightarrow> (string \<Rightarrow> conf_file) \<Rightarrow> variables_map \<Rightarrow> 'a core_builder_scheme
    \<Rightarrow> 'a core_builder_scheme result" where
  "read_config_file compile file vm = on_string vm ''config-file'' (\<lambda>cf b.
     read_from_file compile (file cf) cf (b\<lparr> cb_cnf_file := Some cf \<rparr>))"

definition init_service ::
  "(string \<Rightarrow> string option) \<Rightarrow> (string \<Rightarrow> conf_file) \<Rightarrow> (string \<Rightarrow> string list result) \<Rightarrow> string
    \<Rightarrow> variables_map \<Rightarrow> service_builder result" where
  "init_service compile file tok desc vm =
    rbind (read_config_file compile file vm new_service_builder) (parse_service_options tok desc vm)"

definition init_server ::
  "(string \<Rightarrow> string option) \<Rightarrow> (string \<Rightarrow> conf_file) \<Rightarrow> (string \<Rightarrow> string list result) \<Rightarrow> string
    \<Rightarrow> variables_map \<Rightarrow> server_builder result" where
  "init_server compile file tok desc vm =
    rbind (read_config_file compile file vm new_server_builder) (parse_server_options tok desc vm)"

definition init_worker ::
  "(string \<Rightarrow> string option) \<Rightarrow> (string \<Rightarrow> conf_file) \<Rightarrow> (string \<Rightarrow> string list result) \<Rightarrow> string
    \<Rightarrow> bool \<Rightarrow> variables_map \<Rightarrow> worker_builder result" where
  "init_worker compile file tok desc garbage vm =
    rbind (read_config_file compile file vm (new_worker_builder garbage)) (parse_worker_options tok desc vm)"

definition init_wcntl ::
  "(string \<Rightarrow> string option) \<Rightarrow> (string \<Rightarrow> conf_file) \<Rightarrow> (string \<Rightarrow> string list result) \<Rightarrow> string
    \<Rightarrow> bool \<Rightarrow> int \<Rightarrow> variables_map \<Rightarrow> wcntl_builder result" where
  "init_wcntl compile file tok desc garbage garbage_int vm =
    rbind (read_config_file compile file vm (new_wcntl_builder garbage garbage_int))
      (parse_wcntl_options tok desc vm)"

section \<open>Configurations\<close>

record core_config =
  cf_help :: bool
  cf_version :: bool
  cf_verbosity :: verbosity
  cf_debug :: debug_level
  cf_regex :: "string list"
  cf_regex_str :: "string list"
  cf_mime :: "(string \<times> string) list"
  cf_remainder :: "string list option"
  cf_out_file :: "string option"
  cf_log_file :: "string option"
  cf_arg_file :: "string option"
  cf_cnf_file :: "string option"
  cf_pid_file :: "string option"
  cf_pid_dir :: "string option"

record service_config = core_config +
  sf_threads :: int
  sf_webroot :: "string option"
  sf_listeners :: "listener_conf list"
  sf_listen_file :: "string option"
  sf_listen_dir :: "string option"

record server_config = service_config +
  vf_backends :: "backend_conf list"

record worker_config = service_config +
  kf_control :: bool

record wcntl_config = service_config +
  nf_use_path :: bool
  nf_workers :: int
  nf_args :: string
  nf_conf :: "string option"
  nf_args_file :: "string option"
  nf_exe :: "string option"

definition to_config_core :: "'a core_builder_scheme \<Rightarrow> core_config" where
  "to_config_core b = \<lparr> cf_help = cb_help b, cf_version = cb_version b, cf_verbosity = cb_verbosity b,
     cf_debug = cb_debug b, cf_regex = cb_regex b, cf_regex_str = cb_regex_str b, cf_mime = cb_mime b,
     cf_remainder = cb_remainder b, cf_out_file = cb_out_file b, cf_log_file = cb_log_file b,
     cf_arg_file = cb_arg_file b, cf_cnf_file = cb_cnf_file b, cf_pid_file = cb_pid_file b,
     cf_pid_dir = cb_pid_dir b \<rparr>"

definition to_service_config :: "'a service_builder_scheme \<Rightarrow> service_config" where
  "to_service_config b = core_config.extend (to_config_core b)
     (service_config.fields (sb_threads b) (sb_webroot b) (sb_listeners b) (sb_listen_file b) (sb_listen_dir b))"

definition to_server_config :: "server_builder \<Rightarrow> server_config" where
  "to_server_config b = service_config.extend (to_service_config b) (server_config.fields (vb_backends b))"

definition to_worker_config :: "worker_builder \<Rightarrow> worker_config" where
  "to_worker_config b = service_config.extend (to_service_config b) (worker_config.fields (kb_control b))"

text \<open>The controller passes its log file where the listen file goes.\<close>

definition to_wcntl_config :: "wcntl_builder \<Rightarrow> wcntl_config" where
  "to_wcntl_config b = service_config.extend
     (core_config.extend (to_config_core b)
       (service_config.fields (sb_threads b) (sb_webroot b) (sb_listeners b) (cb_log_file b) (sb_listen_dir b)))
     (wcntl_config.fields (nb_use_path b) (nb_workers b) (nb_args b) (nb_conf b) (nb_args_file b) (nb_exe b))"

section \<open>The enumerations as codecs\<close>

interpretation listener_codec: text_codec "\<lambda>_. True" listener_kind_to_string "\<lambda>s. Inr (str_to_listener_kind s)"
proof unfold_locales
  fix t show "(Inr (str_to_listener_kind (listener_kind_to_string t)) :: listener_kind result) = Inr t"
    by (cases t) (simp_all add: str_to_listener_kind_def)
qed

interpretation backend_codec: text_codec "\<lambda>_. True" backend_kind_to_string "\<lambda>s. Inr (str_to_backend_kind s)"
proof unfold_locales
  fix t show "(Inr (str_to_backend_kind (backend_kind_to_string t)) :: backend_kind result) = Inr t"
    by (cases t) (simp_all add: str_to_backend_kind_def)
qed

lemma iequals_ci: "iequals a b \<Longrightarrow> iequals a c = iequals b c"
  by (simp add: iequals_def)

interpretation verbosity_codec: text_codec_ci "\<lambda>v. v \<noteq> VerbDebug" verbosity_to_string verbosity_from
proof unfold_locales
  fix t assume "t \<noteq> VerbDebug" then show "verbosity_from (verbosity_to_string t) = Inr t"
    by (cases t) (simp_all add: verbosity_from_def iequals_def to_lower_char_def)
qed (simp add: verbosity_from_def iequals_ci)

interpretation debug_codec: text_codec_ci "\<lambda>_. True" debug_level_to_string debug_level_from
proof unfold_locales
  fix t show "debug_level_from (debug_level_to_string t) = Inr t"
    by (cases t) (simp_all add: debug_level_from_def iequals_def to_lower_char_def)
qed (simp add: debug_level_from_def iequals_ci)

section \<open>What a step keeps\<close>

definition keeps :: "('a \<Rightarrow> 'c) \<Rightarrow> ('a \<Rightarrow> 'a result) \<Rightarrow> bool" where
  "keeps P f = (\<forall>b b'. f b = Inr b' \<longrightarrow> P b' = P b)"

lemma keepsD: "keeps P f \<Longrightarrow> f b = Inr b' \<Longrightarrow> P b' = P b"
  by (simp add: keeps_def)

lemma keeps_bind [intro]: "keeps P f \<Longrightarrow> keeps P g \<Longrightarrow> keeps P (\<lambda>b. rbind (f b) g)"
  by (auto simp: keeps_def rbind_Inr_iff)

lemma keeps_Inr [intro]: "(\<And>b. P (f b) = P b) \<Longrightarrow> keeps P (\<lambda>b. Inr (f b))"
  by (simp add: keeps_def)

lemma keeps_const [intro]: "(\<And>x. keeps P (f x)) \<Longrightarrow> keeps P (\<lambda>b. rbind m (\<lambda>x. f x b))"
  by (auto simp: keeps_def rbind_Inr_iff)

lemma keeps_option [intro]: "(\<And>v. keeps P (f v)) \<Longrightarrow> keeps P (on_option vm n f)"
  by (auto simp: keeps_def on_option_def split: option.splits)

lemma keeps_string [intro]: "(\<And>s. keeps P (f s)) \<Longrightarrow> keeps P (on_string vm n f)"
  unfolding on_string_def by (intro keeps_option) (auto simp: keeps_def rbind_Inr_iff)

lemma keeps_core_rest:
  assumes "\<And>b f. P (b\<lparr> cb_help_str := f \<rparr>) = P b" "\<And>b f. P (b\<lparr> cb_help := f \<rparr>) = P b"
    "\<And>b f. P (b\<lparr> cb_version := f \<rparr>) = P b" "\<And>b f. P (b\<lparr> cb_verbosity := f \<rparr>) = P b"
    "\<And>b f. P (b\<lparr> cb_debug := f \<rparr>) = P b" "\<And>b f. P (b\<lparr> cb_log_file := f \<rparr>) = P b"
    "\<And>b f. P (b\<lparr> cb_out_file := f \<rparr>) = P b" "\<And>b f. P (b\<lparr> cb_arg_file := f \<rparr>) = P b"
    "\<And>b f. P (b\<lparr> cb_cnf_file := f \<rparr>) = P b" "\<And>b f. P (b\<lparr> cb_pid_file := f \<rparr>) = P b"
    "\<And>b f. P (b\<lparr> cb_pid_dir := f \<rparr>) = P b" "\<And>b f. P (b\<lparr> cb_remainder := f \<rparr>) = P b"
  shows "keeps P (parse_core_options desc vm)"
  unfolding parse_core_options_def [abs_def] parse_flag_options_def [abs_def]
    parse_file_options_def [abs_def] set_verbosity_text_def [abs_def] set_debug_level_text_def [abs_def]
  by (intro keeps_bind keeps_Inr keeps_option keeps_string keeps_const assms)

lemma keeps_service_own:
  assumes "keeps P (parse_core_options desc vm)" and "\<And>b f. P (b\<lparr> sb_webroot := f \<rparr>) = P b"
    "\<And>b f. P (b\<lparr> sb_threads := f \<rparr>) = P b" "\<And>b f. P (b\<lparr> sb_listeners := f \<rparr>) = P b"
  shows "keeps P (parse_service_options tok desc vm)"
proof -
  have l: "keeps P (\<lambda>b. rbind (as_strings v) (\<lambda>ss.
      if ss = [] then Inl (LogicError e)
      else rbind (parse_listeners tok ss) (\<lambda>ls. Inr (b\<lparr> sb_listeners := sb_listeners b @ ls \<rparr>))))" for v e
    using assms(4) by (auto simp: keeps_def rbind_Inr_iff)
  show ?thesis unfolding parse_service_options_def [abs_def]
    by (intro keeps_bind keeps_Inr keeps_option keeps_string keeps_const l assms)
qed

text \<open>The debug level after the options.\<close>

lemma core_debug:
  assumes "parse_core_options desc vm b = Inr b'"
  shows "case vm ''debug-level'' of None \<Rightarrow> cb_debug b' = cb_debug b
    | Some v \<Rightarrow> \<exists>s. v = OptStr s \<and> debug_level_from s = Inr (cb_debug b')"
proof -
  have k1: "keeps cb_debug (parse_flag_options desc vm)"
    unfolding parse_flag_options_def [abs_def] set_verbosity_text_def [abs_def]
    by (intro keeps_bind keeps_Inr keeps_option keeps_string keeps_const; simp)
  have k2: "keeps cb_debug (parse_file_options vm)"
    unfolding parse_file_options_def [abs_def]
    by (intro keeps_bind keeps_Inr keeps_option keeps_string keeps_const; simp)
  obtain b3 b4 where b: "parse_flag_options desc vm b = Inr b3"
    "on_string vm ''debug-level'' set_debug_level_text b3 = Inr b4" "parse_file_options vm b4 = Inr b'"
    using assms unfolding parse_core_options_def rbind_Inr_iff by blast
  have "cb_debug b3 = cb_debug b" "cb_debug b' = cb_debug b4"
    by (rule keepsD [OF k1 b(1)], rule keepsD [OF k2 b(3)])
  moreover have "case vm ''debug-level'' of None \<Rightarrow> cb_debug b4 = cb_debug b3
      | Some v \<Rightarrow> \<exists>s. v = OptStr s \<and> debug_level_from s = Inr (cb_debug b4)"
  proof (cases "vm ''debug-level''")
    case (Some v)
    then show ?thesis using b(2)
      by (cases v) (auto simp: on_string_def on_option_def set_debug_level_text_def rbind_Inr_iff)
  qed (use b(2) in \<open>simp add: on_string_def on_option_def\<close>)
  ultimately show ?thesis by (simp split: option.splits)
qed

section \<open>Writing a listener description\<close>

fun join_commas :: "string list \<Rightarrow> string" where
  "join_commas [] = []"
| "join_commas [x] = x"
| "join_commas (x # y # ys) = x @ CHR '','' # join_commas (y # ys)"

definition plain :: "string \<Rightarrow> bool" where
  "plain s = (CHR '','' \<notin> set s \<and> CHR 0x22 \<notin> set s \<and> CHR 0x5C \<notin> set s)"

text \<open>What the code relies on of \<open>escaped_list_separator\<close>: text without its special characters is cut
  at the commas.\<close>

definition tokenizer_ok :: "(string \<Rightarrow> string list result) \<Rightarrow> bool" where
  "tokenizer_ok tok = (\<forall>xs. xs \<noteq> [] \<longrightarrow> list_all plain xs \<longrightarrow> tok (join_commas xs) = Inr xs)"

definition listener_fields :: "listener_conf \<Rightarrow> string list" where
  "listener_fields l = [''name='' @ lc_name l, ''address='' @ lc_address l, ''port='' @ lc_port l,
     ''min-port='' @ lc_min_port l, ''max-port='' @ lc_max_port l, ''kind='' @ lc_kind l]"

fun split_commas :: "string \<Rightarrow> string list" where
  "split_commas [] = [[]]"
| "split_commas (c # cs) = (if c = CHR '','' then [] # split_commas cs
     else case split_commas cs of [] \<Rightarrow> [[c]] | x # xs \<Rightarrow> (c # x) # xs)"

lemma split_commas_prefix:
  "CHR '','' \<notin> set x \<Longrightarrow> split_commas (x @ CHR '','' # s) = x # split_commas s"
  by (induction x) auto

lemma split_commas_plain: "CHR '','' \<notin> set x \<Longrightarrow> split_commas x = [x]"
  by (induction x) auto

lemma split_commas_ok: "tokenizer_ok (\<lambda>s. Inr (split_commas s))"
proof -
  have "xs \<noteq> [] \<Longrightarrow> list_all plain xs \<Longrightarrow> split_commas (join_commas xs) = xs" for xs
    by (induction xs rule: join_commas.induct)
      (simp_all add: plain_def split_commas_prefix split_commas_plain)
  then show ?thesis by (simp add: tokenizer_ok_def)
qed

section \<open>Properties\<close>

text \<open>Writing a listener in the documented format and parsing it gives the listener back, for texts
  without a comma, a quote or a backslash.\<close>

theorem listener_roundtrip:
  assumes "tokenizer_ok tok" and "list_all plain (listener_fields l)"
  shows "parse_listener tok (join_commas (listener_fields l)) = Inr l"
proof -
  have "listener_fields l \<noteq> []" by (simp add: listener_fields_def)
  then have t: "tok (join_commas (listener_fields l)) = Inr (listener_fields l)"
    using assms unfolding tokenizer_ok_def by blast
  show ?thesis unfolding parse_listener_def t
    by (simp add: listener_fields_def listener_field_def blank_listener_def split_eq_def)
qed

definition sample_listener :: listener_conf where
  "sample_listener = \<lparr> lc_name = ''main'', lc_address = ''0.0.0.0'', lc_port = ''8080'',
     lc_min_port = [], lc_max_port = [], lc_kind = ''no_tls'' \<rparr>"

theorem listener_roundtrip_witness:
  "parse_listener (\<lambda>s. Inr (split_commas s)) ''name=main,address=0.0.0.0,port=8080,min-port=,max-port=,kind=no_tls''
    = Inr sample_listener"
  using listener_roundtrip [OF split_commas_ok, of sample_listener]
  by (simp add: sample_listener_def listener_fields_def plain_def)

text \<open>The names of the enumerations: every debug level is read back from its text in any case, and
  so is every verbosity but \<open>debug\<close>, whose text is empty and is not accepted.\<close>

theorem enum_texts:
  "(\<forall>d s. iequals s (debug_level_to_string d) \<longrightarrow> debug_level_from s = Inr d) \<and>
   (\<forall>v s. v \<noteq> VerbDebug \<and> iequals s (verbosity_to_string v) \<longrightarrow> verbosity_from s = Inr v) \<and>
   verbosity_from (verbosity_to_string VerbDebug) = Inl (LogicError ''Invalid verbosity'') \<and>
   verbosity_from ''debug'' = Inr VerbDebug"
proof (intro conjI allI impI)
  show "debug_level_from s = Inr d" if "iequals s (debug_level_to_string d)" for d s
    using debug_codec.of_text_variant [OF TrueI that] .
  show "verbosity_from s = Inr v" if "v \<noteq> VerbDebug \<and> iequals s (verbosity_to_string v)" for v s
    using verbosity_codec.of_text_variant [of v s] that by blast
qed (simp_all add: verbosity_from_def iequals_def to_lower_char_def)

theorem enum_texts_witness: "debug_level_from ''EP_Trace'' = Inr DbgTrace"
proof -
  have "iequals ''EP_Trace'' (debug_level_to_string DbgTrace)" by code_simp
  with enum_texts show ?thesis by blast
qed

text \<open>The command line wins over the configuration file: whatever the file says, a debug level given
  as an option is the one of the program's configuration, and without the option the file's, or the
  default, stays.\<close>

theorem command_line_wins:
  assumes "init_service compile file tok desc vm = Inr b"
  shows "(\<forall>s. vm ''debug-level'' = Some (OptStr s) \<longrightarrow> debug_level_from s = Inr (cf_debug (to_service_config b))) \<and>
    (vm ''debug-level'' = None \<longrightarrow> (\<exists>b0. read_config_file compile file vm new_service_builder = Inr b0 \<and>
      cf_debug (to_service_config b) = cb_debug b0))"
proof -
  obtain b0 where b0: "read_config_file compile file vm new_service_builder = Inr b0"
    "parse_service_options tok desc vm b0 = Inr b"
    using assms unfolding init_service_def rbind_Inr_iff by blast
  obtain b1 where b1: "cb_debug b1 = cb_debug b0" "parse_core_options desc vm b1 = Inr b"
  proof -
    let ?f = "\<lambda>b. rbind (on_string vm ''webroot-dir'' (\<lambda>s b. Inr (b\<lparr> sb_webroot := Some s \<rparr>)) b) (\<lambda>b.
      rbind (on_string vm ''num-threads'' (\<lambda>s b. rbind (stoi s) (\<lambda>n. Inr (b\<lparr> sb_threads := n \<rparr>))) b)
      (on_option vm ''listener'' (\<lambda>v b. rbind (as_strings v) (\<lambda>ss.
        if ss = [] then Inl (LogicError (''Missing Listener configuration '' @ [quote] @ ''name,address,port'' @ [quote]))
        else rbind (parse_listeners tok ss) (\<lambda>ls. Inr (b\<lparr> sb_listeners := sb_listeners b @ ls \<rparr>))))))
      :: service_builder result"
    have l: "keeps cb_debug (\<lambda>b :: service_builder. rbind (as_strings v) (\<lambda>ss.
        if ss = [] then Inl (LogicError e)
        else rbind (parse_listeners tok ss) (\<lambda>ls. Inr (b\<lparr> sb_listeners := sb_listeners b @ ls \<rparr>))))" for v e
      by (auto simp: keeps_def rbind_Inr_iff)
    have k: "keeps cb_debug ?f"
      by (intro keeps_bind keeps_Inr keeps_option keeps_string keeps_const l; simp)
    obtain b1 where "?f b0 = Inr b1" "parse_core_options desc vm b1 = Inr b"
      using b0(2) unfolding parse_service_options_def rbind_assoc rbind_Inr_iff by blast
    with keepsD [OF k this(1)] that show thesis by blast
  qed
  have "cf_debug (to_service_config b) = cb_debug b"
    by (simp add: to_service_config_def to_config_core_def core_config.defs service_config.defs)
  with core_debug [OF b1(2)] b0(1) b1(1) show ?thesis by (auto split: option.splits)
qed

lemma init_sample:
  "init_service (\<lambda>_. None) (\<lambda>_. Json (JObj [(''debug_level'', JStr ''ep_info'')])) (\<lambda>s. Inr (split_commas s)) []
     [''config-file'' \<mapsto> OptStr ''c.json'', ''debug-level'' \<mapsto> OptStr ''ep_trace'']
   = Inr (new_service_builder\<lparr> cb_cnf_file := Some ''c.json'', cb_debug := DbgTrace \<rparr>)"
  by (simp add: init_service_def read_config_file_def read_from_file_def read_debug_level_def
      read_regexes_def read_mime_types_def json_field_def json_str_def jindex_def on_string_def on_option_def
      set_debug_level_text_def debug_level_from_def iequals_def to_lower_char_def trim_def is_space_def
      parse_service_options_def parse_core_options_def parse_flag_options_def parse_file_options_def
      new_service_builder_def Let_def)

theorem command_line_wins_witness:
  "\<exists>b. init_service (\<lambda>_. None) (\<lambda>_. Json (JObj [(''debug_level'', JStr ''ep_info'')])) (\<lambda>s. Inr (split_commas s)) []
     [''config-file'' \<mapsto> OptStr ''c.json'', ''debug-level'' \<mapsto> OptStr ''ep_trace''] = Inr b \<and>
   debug_level_from ''ep_trace'' = Inr (cf_debug (to_service_config b))"
  using command_line_wins [OF init_sample] init_sample by auto

text \<open>What reading the file keeps.\<close>

lemma add_regexes_keeps:
  assumes "\<And>b f. P (b\<lparr> cb_regex := f \<rparr>) = P b" "\<And>b f. P (b\<lparr> cb_regex_str := f \<rparr>) = P b"
  shows "keeps P (add_regexes compile ss)"
proof -
  have "add_regexes compile ss b = Inr b' \<Longrightarrow> P b' = P b" for b b'
    by (induction ss arbitrary: b) (auto simp: assms split: option.splits)
  then show ?thesis by (simp add: keeps_def)
qed

lemma read_file_keeps:
  assumes "\<And>b f. P (b\<lparr> cb_cnf_file := f \<rparr>) = P b" "\<And>b f. P (b\<lparr> cb_debug := f \<rparr>) = P b"
    "\<And>b f. P (b\<lparr> cb_regex := f \<rparr>) = P b" "\<And>b f. P (b\<lparr> cb_regex_str := f \<rparr>) = P b"
    "\<And>b f. P (b\<lparr> cb_mime := f \<rparr>) = P b"
  shows "keeps P (read_config_file compile file vm)"
proof -
  have d: "keeps P (read_debug_level conf)" for conf
    using assms(2) by (auto simp: keeps_def read_debug_level_def set_debug_level_text_def rbind_Inr_iff split: if_splits)
  have r: "keeps P (read_regexes compile conf)" for conf
    using keepsD [OF add_regexes_keeps [OF assms(3,4)]] assms(3,4)
    by (auto simp: keeps_def read_regexes_def set_epjs_url_path_regex_def rbind_Inr_iff split: if_splits)
  have m: "keeps P (read_mime_types conf)" for conf
    using assms(5) by (auto simp: keeps_def read_mime_types_def rbind_Inr_iff split: if_splits)
  have "keeps P (read_from_file compile f cf)" for f cf
    using keepsD [OF d] keepsD [OF r] keepsD [OF m]
    by (cases f) (auto simp: keeps_def read_from_file_def rbind_Inr_iff)
  then show ?thesis using assms(1)
    by (auto simp: keeps_def read_config_file_def on_string_def on_option_def rbind_Inr_iff split: option.splits)
qed

text \<open>The option \<open>worker-exe-use-path\<close> of the controller cannot be used: it is declared with a boolean
  and read as a string, so giving it ends in an exception, and the flag of every configuration that
  comes out of \<open>init_args\<close> is the uninitialised value of the builder.\<close>

theorem use_path_never_set:
  assumes "vm_ok vm" and "init_wcntl compile file tok desc garbage n vm = Inr b"
  shows "vm ''worker-exe-use-path'' = None \<and> nf_use_path (to_wcntl_config b) = garbage"
proof -
  obtain b0 where b0: "read_config_file compile file vm (new_wcntl_builder garbage n) = Inr b0"
    "parse_wcntl_options tok desc vm b0 = Inr b"
    using assms(2) unfolding init_wcntl_def rbind_Inr_iff by blast
  obtain b1 where b1: "on_string vm ''worker-exe-use-path'' (\<lambda>s b. rbind (lexical_bool s)
      (\<lambda>c. Inr (b\<lparr> nb_use_path := c \<rparr>))) b0 = Inr b1"
    and r: "rbind (on_string vm ''num-workers'' (\<lambda>s b. rbind (stoi s) (\<lambda>n. Inr (b\<lparr> nb_workers := n \<rparr>))) b1) (\<lambda>b.
    rbind (on_string vm ''worker-exe'' (\<lambda>s b. Inr (b\<lparr> nb_exe := Some s \<rparr>)) b) (\<lambda>b.
    rbind (on_string vm ''worker-args'' (\<lambda>s b. Inr (b\<lparr> nb_args := s \<rparr>)) b) (\<lambda>b.
    rbind (on_string vm ''worker-conf'' (\<lambda>s b. Inr (b\<lparr> nb_conf := Some s \<rparr>)) b) (\<lambda>b.
    rbind (on_string vm ''worker-args-file'' (\<lambda>s b. Inr (b\<lparr> nb_args_file := Some s \<rparr>)) b) (\<lambda>b.
    parse_service_options tok desc vm b))))) = Inr b"
    using b0(2) unfolding parse_wcntl_options_def rbind_Inr_iff by blast
  have none: "vm ''worker-exe-use-path'' = None"
  proof (cases "vm ''worker-exe-use-path''")
    case (Some v)
    then obtain c where "v = OptBool c" using assms(1) by (auto simp: vm_ok_def)
    with Some b1 show ?thesis by (simp add: on_string_def on_option_def)
  qed simp
  then have "b1 = b0" using b1 by (simp add: on_string_def on_option_def)
  moreover have s: "keeps nb_use_path (parse_service_options tok desc vm)"
    by (rule keeps_service_own [OF keeps_core_rest]) simp_all
  have "keeps nb_use_path (\<lambda>b1. rbind (on_string vm ''num-workers'' (\<lambda>s b. rbind (stoi s) (\<lambda>n. Inr (b\<lparr> nb_workers := n \<rparr>))) b1) (\<lambda>b.
    rbind (on_string vm ''worker-exe'' (\<lambda>s b. Inr (b\<lparr> nb_exe := Some s \<rparr>)) b) (\<lambda>b.
    rbind (on_string vm ''worker-args'' (\<lambda>s b. Inr (b\<lparr> nb_args := s \<rparr>)) b) (\<lambda>b.
    rbind (on_string vm ''worker-conf'' (\<lambda>s b. Inr (b\<lparr> nb_conf := Some s \<rparr>)) b) (\<lambda>b.
    rbind (on_string vm ''worker-args-file'' (\<lambda>s b. Inr (b\<lparr> nb_args_file := Some s \<rparr>)) b) (\<lambda>b.
    parse_service_options tok desc vm b))))))"
    by (intro keeps_bind keeps_Inr keeps_option keeps_string keeps_const s; simp)
  from keepsD [OF this r] have "nb_use_path b = nb_use_path b1" .
  moreover have "nb_use_path b0 = nb_use_path (new_wcntl_builder garbage n)"
    by (rule keepsD [OF read_file_keeps b0(1)]) simp_all
  ultimately show ?thesis using none
    by (simp add: to_wcntl_config_def new_wcntl_builder_def service_builder.defs wcntl_builder.defs
        core_config.defs service_config.defs wcntl_config.defs)
qed

lemma init_wcntl_empty:
  "init_wcntl (\<lambda>_. None) (\<lambda>_. NoFile) (\<lambda>s. Inr (split_commas s)) [] True 7 Map.empty = Inr (new_wcntl_builder True 7)"
  by (simp add: init_wcntl_def read_config_file_def on_string_def on_option_def parse_wcntl_options_def
      parse_service_options_def parse_core_options_def parse_flag_options_def parse_file_options_def
      new_wcntl_builder_def new_service_builder_def service_builder.defs)

theorem use_path_never_set_witness:
  "nf_use_path (to_wcntl_config (new_wcntl_builder True 7)) = True"
  using use_path_never_set [OF _ init_wcntl_empty] by (simp add: vm_ok_def)

text \<open>The option \<open>listen-file\<close> is accepted and never used: no configuration made from the command line
  has a listen file, except the controller's, whose listen file is its log file.\<close>

theorem listen_file_ignored:
  assumes "init_service compile file tok desc vm = Inr b" and "init_wcntl compile file tok desc g n vm = Inr w"
  shows "sf_listen_file (to_service_config b) = None \<and>
    sf_listen_file (to_wcntl_config w) = cf_log_file (to_wcntl_config w) \<and> sb_listen_file b = None"
proof -
  obtain b0 where b0: "read_config_file compile file vm new_service_builder = Inr b0"
    "parse_service_options tok desc vm b0 = Inr b"
    using assms(1) unfolding init_service_def rbind_Inr_iff by blast
  have "sb_listen_file b0 = sb_listen_file new_service_builder"
    by (rule keepsD [OF read_file_keeps b0(1)]) simp_all
  moreover have "keeps sb_listen_file (parse_service_options tok desc vm :: service_builder \<Rightarrow> _)"
    by (rule keeps_service_own [OF keeps_core_rest]) simp_all
  from keepsD [OF this b0(2)] have "sb_listen_file b = sb_listen_file b0" .
  ultimately show ?thesis
    by (simp add: new_service_builder_def to_service_config_def to_wcntl_config_def to_config_core_def
        core_config.defs service_config.defs wcntl_config.defs)
qed

theorem listen_file_ignored_witness: "sf_listen_file (to_service_config new_service_builder) = None"
proof -
  have "init_service (\<lambda>_. None) (\<lambda>_. NoFile) (\<lambda>s. Inr (split_commas s)) [] Map.empty = Inr new_service_builder"
    by (simp add: init_service_def read_config_file_def on_string_def on_option_def
        parse_service_options_def parse_core_options_def parse_flag_options_def parse_file_options_def
        new_service_builder_def)
  from listen_file_ignored [OF this init_wcntl_empty] show ?thesis by blast
qed

end
