(* ===== verification/Listener.thy ===== *)
theory Listener imports Config WorkerControl begin

text \<open>
  The listener of a program (\<open>listener.cpp\<close>): opening the port of its configuration or one of a range,
  registering it, launching a session for each connection, the set of live sessions, and stopping.
  The acceptor's behaviour is that of asio: \<open>open\<close> fails when it is open already, \<open>bind\<close> fails
  on the ports \<open>busy\<close> tells. A session is a number.
\<close>

section \<open>State\<close>

record listener =
  li_conf :: listener_conf
  li_reg :: registry
  li_open :: bool
  li_bound :: "int option"
  li_listening :: bool
  li_sessions :: "nat set"
  li_running :: bool

text \<open>The constructor replaces the configured kind.\<close>

definition new_listener :: "listener_conf \<Rightarrow> registry \<Rightarrow> listener" where
  "new_listener cfg reg = \<lparr> li_conf = cfg\<lparr> lc_kind := listener_kind_to_string KindAllowTls \<rparr>,
     li_reg = reg, li_open = False, li_bound = None, li_listening = False, li_sessions = {},
     li_running = False \<rparr>"

definition set_ports :: "int list \<Rightarrow> registry \<Rightarrow> registry" where
  "set_ports ps r = r\<lparr> reg_port := ps \<rparr>"

section \<open>Opening\<close>

text \<open>An endpoint's port is an \<open>unsigned short\<close>; the registry keeps the \<open>int\<close>.\<close>

definition endpoint_port :: "int \<Rightarrow> int" where
  "endpoint_port p = p mod 65536"

definition open_port :: "(int \<Rightarrow> bool) \<Rightarrow> int \<Rightarrow> listener \<Rightarrow> bool \<times> listener" where
  "open_port busy p l =
    (if li_open l then (False, l)
     else let l1 = l\<lparr> li_open := True \<rparr> in
       if busy (endpoint_port p) then (False, l1)
       else (True, l1\<lparr> li_bound := Some (endpoint_port p), li_reg := set_ports [p] (li_reg l1) \<rparr>))"

text \<open>The loop over the range; the result is the value of \<open>port\<close> after it.\<close>

fun try_ports :: "(int \<Rightarrow> bool) \<Rightarrow> nat \<Rightarrow> int \<Rightarrow> listener \<Rightarrow> int \<times> listener" where
  "try_ports busy 0 p l = (p, l)"
| "try_ports busy (Suc n) p l = (case open_port busy p l of
     (True, l') \<Rightarrow> (p, l')
   | (False, l') \<Rightarrow> try_ports busy n (p + 1) l')"

definition port_range_error :: "string \<Rightarrow> int \<Rightarrow> cpp_error" where
  "port_range_error which p = LogicError (''Error: invalid '' @ which @ '' port '' @ dec_int p @ newline)"

definition open_between :: "(int \<Rightarrow> bool) \<Rightarrow> int \<Rightarrow> int \<Rightarrow> listener \<Rightarrow> listener result" where
  "open_between busy mn mx l =
    (if mn < 1 \<or> mn \<ge> 65535 then Inl (port_range_error ''minimum'' mn)
     else if mx < mn \<or> mx \<ge> 65535 then Inl (port_range_error ''maximum'' mx)
     else (case try_ports busy (nat (mx - mn + 1)) mn l of (p, l') \<Rightarrow>
       if p > mx then Inl (LogicError (''Error: Ran out of ports in range '' @ dec_int mn @ '' and '' @
           dec_int mx @ newline))
       else Inr l'))"

definition open_range :: "(int \<Rightarrow> bool) \<Rightarrow> listener \<Rightarrow> listener result" where
  "open_range busy l =
    rbind (stoi (lc_min_port (li_conf l))) (\<lambda>mn.
    rbind (stoi (lc_max_port (li_conf l))) (\<lambda>mx. open_between busy mn mx l))"

text \<open>\<open>addr_ok\<close> tells the texts \<open>make_address\<close> takes for an address: it throws for the others. \<open>listen\<close>
  needs an open acceptor; \<open>listens\<close> is its outcome then.\<close>

definition open_listener :: "(string \<Rightarrow> bool) \<Rightarrow> (int \<Rightarrow> bool) \<Rightarrow> bool \<Rightarrow> listener \<Rightarrow> (bool \<times> listener) result" where
  "open_listener addr_ok busy listens l =
    (if \<not> addr_ok (lc_address (li_conf l)) then Inl (SystemError 22) else
    rbind (case stream_int (lc_port (li_conf l)) of
        Some p \<Rightarrow> Inr (snd (open_port busy p l))
      | None \<Rightarrow> open_range busy l) (\<lambda>l'.
      if li_open l' \<and> listens then Inr (True, l'\<lparr> li_listening := True \<rparr>) else Inr (False, l')))"

definition run_listener ::
  "(string \<Rightarrow> bool) \<Rightarrow> (int \<Rightarrow> bool) \<Rightarrow> bool \<Rightarrow> listener_conf \<Rightarrow> registry \<Rightarrow> (listener option \<times> registry) result" where
  "run_listener addr_ok busy listens cfg reg =
    rbind (open_listener addr_ok busy listens (new_listener cfg reg)) (\<lambda>(ok, l).
      Inr (if ok then Some l else None, li_reg l))"

section \<open>Connections\<close>

datatype session_start = PlainHttp | DetectTls | Https

definition launch :: "listener \<Rightarrow> session_start" where
  "launch l = (if lc_kind (li_conf l) = ''no_tls'' then PlainHttp
     else if lc_kind (li_conf l) = ''allow_tls'' then DetectTls
     else Https)"

text \<open>One completion of \<open>async_accept\<close>: whether the loop goes on, and what is launched.\<close>

definition on_accept :: "bool \<Rightarrow> listener \<Rightarrow> session_start option" where
  "on_accept failed l = (if failed then None else if \<not> li_open l then None else Some (launch l))"

definition session_insert :: "nat \<Rightarrow> listener \<Rightarrow> listener" where
  "session_insert s l = l\<lparr> li_sessions := insert s (li_sessions l) \<rparr>"

definition session_erase :: "nat \<Rightarrow> listener \<Rightarrow> listener" where
  "session_erase s l = l\<lparr> li_sessions := li_sessions l - {s} \<rparr>"

text \<open>\<open>do_stop\<close>: the sessions told to stop are those that still have an owner.\<close>

definition listener_do_stop :: "(nat \<Rightarrow> bool) \<Rightarrow> listener \<Rightarrow> nat set \<times> listener" where
  "listener_do_stop alive l = ({s \<in> li_sessions l. alive s},
     l\<lparr> li_open := False, li_listening := False, li_sessions := {} \<rparr>)"

definition destroy_listener :: "listener \<Rightarrow> unit result" where
  "destroy_listener l = (if li_sessions l = {} then Inr () else Inl AssertionFailed)"

text \<open>The detector: launched on a connection, it ends in an HTTP session of either kind.\<close>

definition on_detect :: "bool \<Rightarrow> bool \<Rightarrow> session_start option" where
  "on_detect failed is_tls = (if failed then None else Some (if is_tls then Https else PlainHttp))"

section \<open>Facts\<close>

text \<open>After one failed attempt the acceptor is open, so every other attempt fails too.\<close>

lemma try_ports_open: "li_open l \<Longrightarrow> try_ports busy n p l = (p + int n, l)"
  by (induction n arbitrary: p) (simp_all add: open_port_def)

lemma try_ports_closed:
  assumes "\<not> li_open l" and "0 < n"
  shows "try_ports busy n p l = (if busy (endpoint_port p) then (p + int n, l\<lparr> li_open := True \<rparr>)
    else (p, l\<lparr> li_open := True, li_bound := Some (endpoint_port p), li_reg := set_ports [p] (li_reg l) \<rparr>))"
  using assms by (cases n) (simp_all add: open_port_def try_ports_open Let_def)

lemma open_port_conf: "li_conf (snd (open_port busy p l)) = li_conf l"
  by (simp add: open_port_def Let_def)

lemma try_ports_conf: "li_conf (snd (try_ports busy n p l)) = li_conf l"
proof (induction n arbitrary: p l)
  case (Suc n)
  then show ?case using open_port_conf [of busy p l]
    by (cases "open_port busy p l") (auto split: bool.split)
qed simp

lemma open_range_conf:
  assumes "open_range busy l = Inr l'"
  shows "li_conf l' = li_conf l"
proof -
  obtain mn mx where h: "open_between busy mn mx l = Inr l'"
    using assms unfolding open_range_def rbind_Inr_iff by blast
  obtain p l1 where t: "try_ports busy (nat (mx - mn + 1)) mn l = (p, l1)"
    by (cases "try_ports busy (nat (mx - mn + 1)) mn l")
  have "l1 = l'" using h unfolding open_between_def t prod.case by (metis sum.distinct(1) sum.inject(2))
  then show ?thesis using try_ports_conf [of busy "nat (mx - mn + 1)" mn l] t by simp
qed

lemma open_listener_conf:
  assumes "open_listener addr_ok busy listens l = Inr (b, l')"
  shows "li_conf l' = li_conf l \<and> (b \<longrightarrow> li_open l')"
proof -
  have addr: "addr_ok (lc_address (li_conf l)) = True"
    using assms unfolding open_listener_def by (metis sum.distinct(1))
  obtain l1 where l1: "(case stream_int (lc_port (li_conf l)) of
        Some p \<Rightarrow> Inr (snd (open_port busy p l)) | None \<Rightarrow> open_range busy l) = Inr l1"
    and r: "(if li_open l1 \<and> listens then Inr (True, l1\<lparr> li_listening := True \<rparr>) else Inr (False, l1))
      = (Inr (b, l') :: (bool \<times> listener) result)"
    using assms addr unfolding open_listener_def by (simp only: not_True_eq_False if_False rbind_Inr_iff) blast
  have "li_conf l1 = li_conf l"
    using l1 by (cases "stream_int (lc_port (li_conf l))") (auto simp: open_port_conf open_range_conf)
  with r show ?thesis by (auto split: if_splits)
qed

section \<open>Properties\<close>

text \<open>Only the first port of a range is ever tried: when it is busy, opening ends in the error that
  the range is exhausted, even when every other port is free, because the acceptor is left open and
  cannot be opened again.\<close>

theorem range_tries_first_port_only:
  assumes "stream_int (lc_port cfg) = None" and "stoi (lc_min_port cfg) = Inr mn"
    and "stoi (lc_max_port cfg) = Inr mx" and "1 \<le> mn" and "mn \<le> mx" and "mx < 65535"
    and "addr_ok (lc_address cfg)"
  shows "open_listener addr_ok busy True (new_listener cfg reg) =
    (if busy mn
     then Inl (LogicError (''Error: Ran out of ports in range '' @ dec_int mn @ '' and '' @ dec_int mx @ newline))
     else Inr (True, (new_listener cfg reg)\<lparr> li_open := True, li_bound := Some mn, li_listening := True,
       li_reg := set_ports [mn] reg \<rparr>))"
proof -
  have "endpoint_port mn = mn" using assms by (simp add: endpoint_port_def)
  with assms show ?thesis
    by (simp add: open_listener_def open_range_def open_between_def new_listener_def try_ports_closed)
qed

definition range_conf :: listener_conf where
  "range_conf = blank_listener\<lparr> lc_min_port := ''9000'', lc_max_port := ''9009'' \<rparr>"

lemma range_conf_facts:
  "stream_int (lc_port range_conf) = None" "stoi (lc_min_port range_conf) = Inr 9000"
  "stoi (lc_max_port range_conf) = Inr 9009"
  by (simp_all add: range_conf_def blank_listener_def stream_int_def stoi_def scan_int_def is_space_def
      is_digit_def parse_digits_def digit_val_def int32_range_def Let_def)

theorem range_tries_first_port_only_witness:
  "\<exists>e. open_listener (\<lambda>_. True) (\<lambda>p. p = 9000) True (new_listener range_conf new_registry) = Inl e"
  using range_tries_first_port_only [OF range_conf_facts, of "\<lambda>_. True" "\<lambda>p. p = 9000" new_registry] by auto

text \<open>A configured port that is busy goes unnoticed: its failure is dropped, the acceptor listens
  without having been bound (the system accepts that where it picks a port itself), \<open>open\<close> reports success and the registry has no port, so the worker announces
  port 0 at its start.\<close>

theorem busy_port_unnoticed:
  assumes "stream_int (lc_port cfg) = Some p" and "busy (endpoint_port p)"
    and "addr_ok (lc_address cfg)"
  shows "\<exists>l. run_listener addr_ok busy True cfg reg = Inr (Some l, reg) \<and> li_listening l \<and> li_bound l = None"
  using assms by (simp add: run_listener_def open_listener_def open_port_def new_listener_def)

theorem busy_port_unnoticed_witness:
  "\<exists>l. run_listener (\<lambda>_. True) (\<lambda>_. True) True (blank_listener\<lparr> lc_port := ''8080'' \<rparr>) new_registry = Inr (Some l, new_registry)
    \<and> li_bound l = None"
proof -
  have "stream_int (lc_port (blank_listener\<lparr> lc_port := ''8080'' \<rparr>)) = Some 8080"
    by (simp add: stream_int_def scan_int_def is_space_def is_digit_def parse_digits_def digit_val_def
        int32_range_def Let_def)
  from busy_port_unnoticed [OF this, of "\<lambda>_. True" "\<lambda>_. True" new_registry] show ?thesis by auto
qed

text \<open>The kind of a listener is not what its configuration says: whatever kind is configured, also
  one that requires TLS, every accepted connection is given to the detector, which serves plain HTTP
  to a client that does not start a handshake.\<close>

theorem kind_ignored:
  assumes "run_listener addr_ok busy listens cfg reg = Inr (Some l, reg')"
  shows "on_accept False l = Some DetectTls \<and> on_detect False False = Some PlainHttp"
proof -
  obtain b l' where "open_listener addr_ok busy listens (new_listener cfg reg) = Inr (b, l')" "b \<and> l = l'"
    using assms unfolding run_listener_def rbind_Inr_iff by (auto split: if_splits)
  with open_listener_conf [OF this(1)] have "lc_kind (li_conf l) = ''allow_tls''" "li_open l"
    by (simp_all add: new_listener_def)
  then show ?thesis by (simp add: on_accept_def launch_def on_detect_def)
qed

theorem kind_ignored_witness:
  "\<exists>l. run_listener (\<lambda>_. True) (\<lambda>_. False) True (range_conf\<lparr> lc_kind := ''require_tls'' \<rparr>) new_registry
      = Inr (Some l, set_ports [9000] new_registry) \<and> on_accept False l = Some DetectTls"
proof -
  obtain l where l: "run_listener (\<lambda>_. True) (\<lambda>_. False) True (range_conf\<lparr> lc_kind := ''require_tls'' \<rparr>) new_registry
      = Inr (Some l, set_ports [9000] new_registry)"
    using range_conf_facts
    by (simp add: run_listener_def open_listener_def open_range_def open_between_def new_listener_def try_ports_closed endpoint_port_def)
  from kind_ignored [OF l] l show ?thesis by blast
qed

end
