(* ===== verification/EpState.thy ===== *)
theory EpState imports EpPrelude begin

text \<open>
  Operations that may throw after they have changed the state: what is thrown comes with the
  state reached so far, because the code catches exceptions and goes on. The locale says which
  relations between the states before and after are kept by sequences of such operations.
\<close>

type_synonym ('s, 'a) action = "'s \<Rightarrow> 'a result \<times> 's"

definition ret :: "'a \<Rightarrow> ('s, 'a) action" where
  "ret x s = (Inr x, s)"

definition throw :: "cpp_error \<Rightarrow> ('s, 'a) action" where
  "throw e s = (Inl e, s)"

definition bnd :: "('s, 'a) action \<Rightarrow> ('a \<Rightarrow> ('s, 'b) action) \<Rightarrow> ('s, 'b) action" where
  "bnd m f s = (case m s of (Inl e, s') \<Rightarrow> (Inl e, s') | (Inr x, s') \<Rightarrow> f x s')"

definition reads :: "('s \<Rightarrow> 'a) \<Rightarrow> ('s, 'a) action" where
  "reads f s = (Inr (f s), s)"

definition modify :: "('s \<Rightarrow> 's) \<Rightarrow> ('s, unit) action" where
  "modify f s = (Inr (), f s)"

text \<open>\<open>try { m } catch (...) { }\<close>: undefined behaviour is no exception.\<close>

definition catch_all :: "('s, unit) action \<Rightarrow> ('s, unit) action" where
  "catch_all m s = (case m s of
     (Inl UndefinedBehaviour, s') \<Rightarrow> (Inl UndefinedBehaviour, s')
   | (_, s') \<Rightarrow> (Inr (), s'))"

lemma action_simps [simp]:
  "ret x s = (Inr x, s)" "throw e s = (Inl e, s)" "reads f s = (Inr (f s), s)"
  "modify g s = (Inr (), g s)"
  by (simp_all add: ret_def throw_def reads_def modify_def)

lemma bnd_simps [simp]:
  "bnd (ret x) f s = f x s" "bnd (throw e) f s = (Inl e, s)"
  "bnd (reads h) f s = f (h s) s" "bnd (modify g) k s = k () (g s)"
  by (simp_all add: bnd_def)

lemma bnd_eq: "m s = (Inr x, s') \<Longrightarrow> bnd m f s = f x s'"
  by (simp add: bnd_def)

lemma bnd_Inr_iff: "bnd m f s = (Inr y, t) \<longleftrightarrow> (\<exists>x s'. m s = (Inr x, s') \<and> f x s' = (Inr y, t))"
  by (auto simp: bnd_def split: prod.splits sum.splits)

lemma bnd_Inl_iff: "bnd m f s = (Inl e, t) \<longleftrightarrow>
    m s = (Inl e, t) \<or> (\<exists>x s'. m s = (Inr x, s') \<and> f x s' = (Inl e, t))"
  by (auto simp: bnd_def split: prod.splits sum.splits)

lemma bnd_assoc: "bnd (bnd m f) g = bnd m (\<lambda>x. bnd (f x) g)"
  by (rule ext) (auto simp: bnd_def split: prod.split sum.split)

lemma bnd_ret [simp]: "bnd m ret = m"
  by (rule ext) (auto simp: bnd_def split: prod.split sum.split)

text \<open>A relation that every operation keeps, also when it throws.\<close>

locale kept_relation =
  fixes R :: "'s \<Rightarrow> 's \<Rightarrow> bool"
  assumes kept_refl: "R s s" and kept_trans: "R s t \<Longrightarrow> R t u \<Longrightarrow> R s u"
begin

definition kept :: "('s, 'a) action \<Rightarrow> bool" where
  "kept m = (\<forall>s. R s (snd (m s)))"

lemma kept_ret: "kept (ret x)" and kept_throw: "kept (throw e)" and kept_reads: "kept (reads f)"
  by (simp_all add: kept_def kept_refl)

lemma kept_modify: "(\<And>s. R s (f s)) \<Longrightarrow> kept (modify f)"
  by (simp add: kept_def)

lemma kept_bnd: "kept m \<Longrightarrow> (\<And>x. kept (f x)) \<Longrightarrow> kept (bnd m f)"
  unfolding kept_def bnd_def
  by (metis (mono_tags, lifting) kept_trans prod.case_eq_if snd_conv sum.case_eq_if)

lemma kept_if: "(b \<Longrightarrow> kept m) \<Longrightarrow> (\<not> b \<Longrightarrow> kept n) \<Longrightarrow> kept (if b then m else n)"
  by simp

lemma keptD: "kept m \<Longrightarrow> m s = (r, t) \<Longrightarrow> R s t"
  unfolding kept_def by (metis snd_conv)

lemma kept_catch: "kept m \<Longrightarrow> kept (catch_all m)"
  unfolding kept_def catch_all_def
  by (auto split: prod.split sum.split cpp_error.split dest: spec)
    (metis snd_conv)+

lemmas kept_intros = kept_ret kept_throw kept_reads kept_bnd kept_if

end

end
