(* ===== verification/DataStore.thy ===== *)
theory DataStore imports EpState begin

text \<open>
  The SQLite access of \<open>easyprospect-data\<close>: statements, the execution of SQL texts, the two inserts
  of an import, loading. SQLite is a record of its calls: \<open>'d\<close> is the database behind the
  connection and \<open>'s\<close> a prepared statement with the row it stands at.
\<close>

section \<open>The library\<close>

record ('d, 's) sqlite_lib =
  sl_open :: "string \<Rightarrow> string + 'd"
  sl_exec :: "'d \<Rightarrow> string \<Rightarrow> string option \<times> 'd"
  sl_prepare :: "'d \<Rightarrow> string \<Rightarrow> 's option \<times> string"
  sl_step :: "'s \<Rightarrow> 'd \<Rightarrow> int \<times> 's \<times> 'd"
  sl_columns :: "'s \<Rightarrow> nat"
  sl_bind_int :: "'s \<Rightarrow> int \<Rightarrow> 32 word \<Rightarrow> int \<times> 's"
  sl_bind_text :: "'s \<Rightarrow> int \<Rightarrow> string \<Rightarrow> int \<times> 's"
  sl_column_int :: "'s \<Rightarrow> int \<Rightarrow> 32 word"
  sl_column_text :: "'s \<Rightarrow> int \<Rightarrow> string"
  sl_reset :: "'s \<Rightarrow> 's"
  sl_last_rowid :: "'d \<Rightarrow> 64 word"

definition SQLITE_OK :: int where "SQLITE_OK = 0"
definition SQLITE_MISUSE :: int where "SQLITE_MISUSE = 21"
definition SQLITE_ROW :: int where "SQLITE_ROW = 100"
definition SQLITE_DONE :: int where "SQLITE_DONE = 101"

text \<open>A statement object together with the database of its connection.\<close>

record ('d, 's) sqlite_state =
  sq_db :: 'd
  st_handle :: "'s option"
  st_last_rc :: int

definition open_db :: "('d, 's) sqlite_lib \<Rightarrow> string \<Rightarrow> 'd result" where
  "open_db l host = (case sl_open l host of
     Inl msg \<Rightarrow> Inl (LogicError (''Can't open database: '' @ msg @ [CHR 0x0A]))
   | Inr d \<Rightarrow> Inr d)"

definition create_statement :: "'d \<Rightarrow> ('d, 's) sqlite_state" where
  "create_statement d = \<lparr> sq_db = d, st_handle = None, st_last_rc = 0 \<rparr>"

section \<open>Running SQL\<close>

definition runnow :: "('d, 's) sqlite_lib \<Rightarrow> string \<Rightarrow> (('d, 's) sqlite_state, unit) action" where
  "runnow l sql s = (case sl_exec l (sq_db s) sql of
     (Some msg, d) \<Rightarrow> (Inl (LogicError msg), s\<lparr> sq_db := d \<rparr>)
   | (None, d) \<Rightarrow> (Inr (), s\<lparr> sq_db := d \<rparr>))"

text \<open>Carriage returns, line feeds and tabs are removed, not replaced by a blank.\<close>

definition squeeze :: "string \<Rightarrow> string" where
  "squeeze sql = filter (\<lambda>c. c \<noteq> CHR 0x0D \<and> c \<noteq> CHR 0x0A \<and> c \<noteq> CHR 0x09) (trim sql)"

text \<open>\<open>prepare\<close> gives back what follows the first statement.\<close>

definition prepare :: "('d, 's) sqlite_lib \<Rightarrow> string \<Rightarrow> (('d, 's) sqlite_state, string) action" where
  "prepare l sql s = (let t = trim sql in
     if t = [] then (Inl (LogicError ''Invalid empty SQL''), s)
     else case sl_prepare l (sq_db s) t of (h, tail) \<Rightarrow>
       (Inr (if tail \<noteq> [] \<and> length tail < length t then drop (length t - length tail) t else []),
        s\<lparr> st_handle := h \<rparr>))"

text \<open>\<open>sqlite3_step\<close>: a null statement is a misuse.\<close>

definition step :: "('d, 's) sqlite_lib \<Rightarrow> ('d, 's) sqlite_state \<Rightarrow> ('d, 's) sqlite_state" where
  "step l s = (case st_handle s of
     None \<Rightarrow> s\<lparr> st_last_rc := SQLITE_MISUSE \<rparr>
   | Some h \<Rightarrow> (case sl_step l h (sq_db s) of (rc, h', d) \<Rightarrow>
       s\<lparr> sq_db := d, st_handle := Some h', st_last_rc := rc \<rparr>))"

text \<open>What is done with a row: \<open>col_header\<close> is empty and is written at each column's index. A row has
  at least one column.\<close>

definition take_row :: "('d, 's) sqlite_state \<Rightarrow> unit result" where
  "take_row s = (if st_last_rc s = SQLITE_ROW then Inl UndefinedBehaviour else Inr ())"

lemma length_trim: "length (trim t) \<le> length t"
  unfolding trim_def by (metis length_dropWhile_le length_rev order_trans)

lemma prepare_shorter: "prepare l sql s = (Inr rest, s') \<Longrightarrow> sql \<noteq> [] \<Longrightarrow> length rest < length sql"
  using length_trim [of sql]
  by (auto simp: prepare_def Let_def split: if_splits prod.splits)

function runnow2_loop :: "('d, 's) sqlite_lib \<Rightarrow> string \<Rightarrow> (('d, 's) sqlite_state, unit) action" where
  "runnow2_loop l sql s =
    (if sql = [] then (Inr (), s)
     else let s1 = step l s in
       case take_row s1 of
         Inl e \<Rightarrow> (Inl e, s1)
       | Inr _ \<Rightarrow> (case prepare l sql s1 of
             (Inl e, s2) \<Rightarrow> (Inl e, s2)
           | (Inr rest, s2) \<Rightarrow> runnow2_loop l rest s2))"
  by pat_completeness auto
termination
  by (relation "measure (\<lambda>(l, sql, s). length sql)") (auto dest!: prepare_shorter [OF sym])

declare runnow2_loop.simps [simp del]

definition runnow2 :: "('d, 's) sqlite_lib \<Rightarrow> string \<Rightarrow> (('d, 's) sqlite_state, unit) action" where
  "runnow2 l sql = runnow2_loop l (squeeze sql)"

text \<open>\<open>get_rows\<close> does not use the text; the result set is a pointer parameter that is assigned. The
  caller's result set is \<open>res\<close>.\<close>

definition get_rows ::
  "('d, 's) sqlite_lib \<Rightarrow> string \<Rightarrow> 'r list \<Rightarrow> (('d, 's) sqlite_state, 'r list \<times> int) action" where
  "get_rows l sql res s = (let s1 = step l s in
     case take_row s1 of Inl e \<Rightarrow> (Inl e, s1) | Inr _ \<Rightarrow> (Inr (res, 0), s1))"

definition load_rows ::
  "('d, 's) sqlite_lib \<Rightarrow> string \<Rightarrow> 'r list \<Rightarrow> (('d, 's) sqlite_state, 'r list \<times> int) action" where
  "load_rows l sql res = bnd (get_rows l sql res) (\<lambda>(r, _). ret (r, 0))"

section \<open>Inserting\<close>

definition object_sql :: string where
  "object_sql = ''INSERT INTO ep_sf_object (eso_type, eso_import_id, eso_hash) VALUES (0, 0, '' @ [CHR 0x27, CHR 0x27] @ '')''"

text \<open>The row id passes through an \<open>int\<close>.\<close>

definition insert_new_object :: "('d, 's) sqlite_lib \<Rightarrow> (('d, 's) sqlite_state, 64 word) action" where
  "insert_new_object l = bnd (runnow l object_sql) (\<lambda>_.
     reads (\<lambda>s. scast (ucast (sl_last_rowid l (sq_db s)) :: 32 word)))"

definition import_sql :: "string \<Rightarrow> string" where
  "import_sql label = ''INSERT INTO ep_sf_obj_import (label, timestamp) VALUES (''
     @ [CHR 0x27] @ label @ [CHR 0x27] @ '', CURRENT_TIMESTAMP)''"

definition insert_new_import :: "('d, 's) sqlite_lib \<Rightarrow> string \<Rightarrow> (('d, 's) sqlite_state, 64 word) action" where
  "insert_new_import l label = bnd (runnow l (import_sql label)) (\<lambda>_.
     reads (\<lambda>s. sl_last_rowid l (sq_db s)))"

definition initialize_schema :: "('d, 's) sqlite_lib \<Rightarrow> string \<Rightarrow> (('d, 's) sqlite_state, unit) action" where
  "initialize_schema l ddl = runnow l ddl"

section \<open>Parameters and columns\<close>

text \<open>Binding to a null statement is a misuse too.\<close>

definition bind_int :: "('d, 's) sqlite_lib \<Rightarrow> int \<Rightarrow> 32 word \<Rightarrow> (('d, 's) sqlite_state, unit) action" where
  "bind_int l idx v s = (case st_handle s of
     None \<Rightarrow> (Inl (LogicError ''Bind Integer failed''), s)
   | Some h \<Rightarrow> (case sl_bind_int l h idx v of (rc, h') \<Rightarrow>
       (if rc \<noteq> SQLITE_OK then Inl (LogicError ''Bind Integer failed'') else Inr (),
        s\<lparr> st_handle := Some h' \<rparr>)))"

definition bind_text :: "('d, 's) sqlite_lib \<Rightarrow> int \<Rightarrow> string \<Rightarrow> (('d, 's) sqlite_state, unit) action" where
  "bind_text l idx v s = (case st_handle s of
     None \<Rightarrow> (Inl (LogicError ''Bind failed''), s)
   | Some h \<Rightarrow> (case sl_bind_text l h idx v of (rc, h') \<Rightarrow>
       (if rc \<noteq> SQLITE_OK then Inl (LogicError ''Bind failed'') else Inr (),
        s\<lparr> st_handle := Some h' \<rparr>)))"

text \<open>A column is read when the step answers \<open>SQLITE_OK\<close>; otherwise the value is the uninitialised
  \<open>garbage\<close>, or the empty string.\<close>

definition get_int :: "('d, 's) sqlite_lib \<Rightarrow> 32 word \<Rightarrow> int \<Rightarrow> (('d, 's) sqlite_state, 32 word) action" where
  "get_int l garbage idx s = (let s1 = step l s in
     (Inr (case st_handle s1 of
        Some h \<Rightarrow> if st_last_rc s1 = SQLITE_OK then sl_column_int l h idx else garbage
      | None \<Rightarrow> garbage), s1\<lparr> st_last_rc := st_last_rc s \<rparr>))"

definition get_text :: "('d, 's) sqlite_lib \<Rightarrow> int \<Rightarrow> (('d, 's) sqlite_state, string) action" where
  "get_text l idx s = (let s1 = step l s in
     (Inr (case st_handle s1 of
        Some h \<Rightarrow> if st_last_rc s1 = SQLITE_OK then sl_column_text l h idx else []
      | None \<Rightarrow> []), s1\<lparr> st_last_rc := st_last_rc s \<rparr>))"

definition reset_statement :: "('d, 's) sqlite_lib \<Rightarrow> ('d, 's) sqlite_state \<Rightarrow> ('d, 's) sqlite_state" where
  "reset_statement l s = s\<lparr> st_handle := map_option (sl_reset l) (st_handle s) \<rparr>"

section \<open>Facts\<close>

lemma squeeze_trim_empty: "squeeze sql \<noteq> [] \<Longrightarrow> sql \<noteq> []"
  by (auto simp: squeeze_def trim_def)

lemma runnow_ok: "sl_exec l (sq_db s) sql = (None, d) \<Longrightarrow> runnow l sql s = (Inr (), s\<lparr> sq_db := d \<rparr>)"
  by (simp add: runnow_def)

lemma runnow_cases:
  "runnow l sql s = (r, s') \<Longrightarrow> st_handle s' = st_handle s \<and> st_last_rc s' = st_last_rc s \<and>
     sq_db s' = snd (sl_exec l (sq_db s) sql) \<and> (r = Inr () \<longleftrightarrow> fst (sl_exec l (sq_db s) sql) = None)"
  by (auto simp: runnow_def split: prod.splits option.splits)

text \<open>\<open>last_insert_rowid\<close> survives the passage through an \<open>int\<close> exactly when it fits.\<close>

lemma scast_ucast_32:
  "scast (ucast (w :: 64 word) :: 32 word) = (word_of_int (signed_take_bit 31 (sint w)) :: 64 word)"
proof -
  have c: "sint (ucast w :: 32 word) = signed_take_bit 31 (uint w)"
    unfolding ucast_eq sint_sbintrunc' by simp
  have "sint w = signed_take_bit 63 (uint w)" unfolding sint_uint by simp
  then have "signed_take_bit 31 (uint w) = signed_take_bit 31 (sint w)"
    by (simp add: signed_take_bit_signed_take_bit)
  with c show ?thesis unfolding scast_eq by simp
qed

lemma int_row_id:
  "scast (ucast (w :: 64 word) :: 32 word) = w \<longleftrightarrow> - (2 ^ 31) \<le> sint w \<and> sint w < 2 ^ 31"
proof -
  have "sint (word_of_int (signed_take_bit 31 (sint w)) :: 64 word)
      = signed_take_bit 63 (signed_take_bit 31 (sint w))"
    unfolding sint_sbintrunc' by simp
  also have "\<dots> = signed_take_bit 31 (sint w)"
    unfolding signed_take_bit_signed_take_bit by (simp add: min_def)
  finally have "(word_of_int (signed_take_bit 31 (sint w)) = w) = (signed_take_bit 31 (sint w) = sint w)"
    by (metis of_int_sint scast_id scast_eq)
  then show ?thesis unfolding scast_ucast_32 signed_take_bit_int_eq_self_iff .
qed

section \<open>Properties\<close>

text \<open>\<open>runnow2\<close> runs every statement of its text but the last: it steps the statement at hand before
  it prepares the next one, and ends when nothing is left to prepare. A text of a single statement is
  prepared and never run: the database is what it was and the only code SQLite gave is that of a misuse.\<close>

theorem runnow2_skips_last:
  assumes "st_handle s = None" and "squeeze sql \<noteq> []" and "trim (squeeze sql) \<noteq> []"
    and "sl_prepare l (sq_db s) (trim (squeeze sql)) = (h, [])"
  shows "runnow2 l sql s = (Inr (), s\<lparr> st_handle := h, st_last_rc := SQLITE_MISUSE \<rparr>)"
  using assms
  by (simp add: runnow2_def runnow2_loop.simps [of l "squeeze sql"] runnow2_loop.simps [of l "[]"]
      step_def take_row_def prepare_def SQLITE_MISUSE_def SQLITE_ROW_def Let_def)

text \<open>A library on lists of texts: a database is the texts executed, a statement a text.\<close>

definition toy_sqlite :: "(string list, string) sqlite_lib" where
  "toy_sqlite = \<lparr> sl_open = (\<lambda>h. Inr []), sl_exec = (\<lambda>d sql. (None, d @ [sql])),
     sl_prepare = (\<lambda>d t. (Some t, [])), sl_step = (\<lambda>h d. (SQLITE_DONE, h, d @ [h])),
     sl_columns = (\<lambda>_. 0), sl_bind_int = (\<lambda>h _ _. (SQLITE_OK, h)), sl_bind_text = (\<lambda>h _ _. (SQLITE_OK, h)),
     sl_column_int = (\<lambda>_ _. 0), sl_column_text = (\<lambda>_ _. []), sl_reset = (\<lambda>h. h),
     sl_last_rowid = (\<lambda>d. of_nat (length d)) \<rparr>"

theorem runnow2_skips_last_witness:
  "runnow2 toy_sqlite ''VACUUM'' (create_statement [])
    = (Inr (), \<lparr> sq_db = [], st_handle = Some ''VACUUM'', st_last_rc = SQLITE_MISUSE \<rparr>)"
  using runnow2_skips_last [of "create_statement []" "''VACUUM''" toy_sqlite "Some ''VACUUM''"]
  by (simp add: create_statement_def squeeze_def trim_def is_space_def toy_sqlite_def)

text \<open>Loading loads nothing. Whatever text it is given, \<open>load\<close> reports success and leaves the caller's
  result set as it was: on a statement that was not prepared, as the one an object is loaded
  with, it has no effect but a misuse of SQLite, and where the statement has a row
  it writes outside an empty vector.\<close>

theorem load_never_fills:
  shows "load_rows l sql res s = load_rows l sql' res s \<and>
    (st_handle s = None \<longrightarrow> load_rows l sql res s = (Inr (res, 0), s\<lparr> st_last_rc := SQLITE_MISUSE \<rparr>)) \<and>
    (\<forall>r c s'. load_rows l sql res s = (Inr (r, c), s') \<longrightarrow> r = res \<and> c = 0) \<and>
    (st_last_rc (step l s) = SQLITE_ROW \<longrightarrow> fst (load_rows l sql res s) = Inl UndefinedBehaviour)"
  by (auto simp: load_rows_def get_rows_def bnd_def take_row_def step_def SQLITE_MISUSE_def
      SQLITE_ROW_def Let_def split: option.split prod.split)

theorem load_never_fills_witness:
  "load_rows toy_sqlite ''SELECT 1'' [[1 :: int]] (create_statement [])
    = (Inr ([[1]], 0), (create_statement [])\<lparr> st_last_rc := SQLITE_MISUSE \<rparr>)"
  using load_never_fills [of toy_sqlite "''SELECT 1''" "[[1 :: int]]" "create_statement []" "''SELECT 1''"]
  by (simp add: create_statement_def)

text \<open>The id of a new object is the row id as a 32-bit number with its sign: it is the row id itself
  exactly as long as that is below two to the 31; an SQL error is the exception with SQLite's message.\<close>

theorem new_object_id:
  "insert_new_object l s =
    (case sl_exec l (sq_db s) object_sql of
       (Some msg, d) \<Rightarrow> (Inl (LogicError msg), s\<lparr> sq_db := d \<rparr>)
     | (None, d) \<Rightarrow> (Inr (word_of_int (signed_take_bit 31 (sint (sl_last_rowid l d)))), s\<lparr> sq_db := d \<rparr>)) \<and>
   (fst (insert_new_object l s) = Inr (sl_last_rowid l (sq_db (snd (insert_new_object l s)))) \<longleftrightarrow>
     fst (sl_exec l (sq_db s) object_sql) = None \<and>
     - (2 ^ 31) \<le> sint (sl_last_rowid l (sq_db (snd (insert_new_object l s)))) \<and>
     sint (sl_last_rowid l (sq_db (snd (insert_new_object l s)))) < 2 ^ 31)"
  by (simp add: insert_new_object_def bnd_def runnow_def scast_ucast_32 int_row_id [unfolded scast_ucast_32]
      split: prod.split option.split)

end
