(* ===== verification/SfSchema.thy ===== *)
theory SfSchema imports DataStore begin

text \<open>
  The classes of the Salesforce catalogue (\<open>easyprospect-data-schema\<close>): object types, the base classes of
  objects and of their builders, and the classes the import creates. A class derived from
  \<open>ep_sf_object\<close> and its builder have the same attributes: a record of them is the type argument of
  \<open>sf_object\<close> and \<open>sf_builder\<close>. A \<open>double\<close> is its bit pattern, a time a number.
\<close>

section \<open>Types\<close>

type_synonym double = "64 word"
type_synonym ptime = int

text \<open>The enumerator \<open>ELEMENT_CATALOG\<close> has the value of \<open>NONE\<close>.\<close>

datatype sf_tag_type = TagNone | TagElementCategory

definition tag_element_catalog :: sf_tag_type where
  "tag_element_catalog = TagNone"

definition str_to_tag :: "string \<Rightarrow> sf_tag_type" where
  "str_to_tag name = (if name = ''category'' then TagElementCategory else TagNone)"

datatype sf_object_type = SfNone | SfImport | SfRelationship | SfCatalog | SfCatalogHeader
  | SfCatalogImageSettings | SfCatalogCustomAttribute | SfCategory | SfString

fun sf_type_to_string :: "sf_object_type \<Rightarrow> string result" where
  "sf_type_to_string SfNone = Inr ''NONE''"
| "sf_type_to_string SfImport = Inr ''IMPORT''"
| "sf_type_to_string SfRelationship = Inr ''RELATIONSHIP''"
| "sf_type_to_string SfCatalog = Inr ''SF_CATALOG''"
| "sf_type_to_string SfCatalogHeader = Inr ''SF_CATALOG_HEADER''"
| "sf_type_to_string SfCatalogImageSettings = Inr ''SF_CATALOG_IMAGE_SETTINGS''"
| "sf_type_to_string SfCatalogCustomAttribute = Inr ''SF_CATALOG_CUSTOM_ATTRIBUTE''"
| "sf_type_to_string SfString = Inr ''STRING''"
| "sf_type_to_string _ = Inl (LogicError ''Invalid type'')"

section \<open>Base classes\<close>

record 'a sf_object =
  so_id :: "64 word"
  so_type :: sf_object_type
  so_import :: "64 word"
  so_hash :: string
  so_attrs :: 'a

definition new_object :: "64 word \<Rightarrow> sf_object_type \<Rightarrow> 64 word \<Rightarrow> 'a \<Rightarrow> 'a sf_object" where
  "new_object i t m a = \<lparr> so_id = i, so_type = t, so_import = m, so_hash = [], so_attrs = a \<rparr>"

record 'a sf_builder =
  sb_id :: "64 word"
  sb_type :: sf_object_type
  sb_import :: "64 word"
  sb_hash :: string
  sb_attrs :: 'a

definition new_builder :: "'a \<Rightarrow> 'a sf_builder" where
  "new_builder a = \<lparr> sb_id = 0, sb_type = SfNone, sb_import = 0, sb_hash = [], sb_attrs = a \<rparr>"

definition set_id :: "64 word \<Rightarrow> 'a sf_builder \<Rightarrow> 'a sf_builder" where
  "set_id i b = b\<lparr> sb_id := i \<rparr>"

definition set_type :: "sf_object_type \<Rightarrow> 'a sf_builder \<Rightarrow> 'a sf_builder" where
  "set_type t b = b\<lparr> sb_type := t \<rparr>"

definition set_import_id :: "64 word \<Rightarrow> 'a sf_builder \<Rightarrow> 'a sf_builder" where
  "set_import_id i b = b\<lparr> sb_import := i \<rparr>"

definition gen_hash :: "'a sf_builder \<Rightarrow> 'a sf_builder" where
  "gen_hash b = b\<lparr> sb_hash := [] \<rparr>"

definition to_base_object :: "'a sf_builder \<Rightarrow> unit sf_object" where
  "to_base_object b = new_object (sb_id b) (sb_type b) (sb_import b) ()"

definition save_object :: "'a sf_builder \<Rightarrow> 'd \<Rightarrow> 'd" where
  "save_object b d = d"

text \<open>\<open>load\<close> of a builder: a new statement, a new result set; what \<open>load\<close> answers is only logged.\<close>

definition load_object :: "('d, 's) sqlite_lib \<Rightarrow> (64 word \<Rightarrow> string) \<Rightarrow> 'a sf_builder \<Rightarrow> 'd \<Rightarrow>
    'a sf_builder result \<times> 'd" where
  "load_object l dec b d =
    (case load_rows l (''SELECT * FROM ep_sf_object JOIN WHERE eso_id = '' @ dec (sb_id b)) ([] :: unit list list)
        (create_statement d) of
       (Inl e, s) \<Rightarrow> (Inl e, sq_db s)
     | (Inr _, s) \<Rightarrow> (Inr b, sq_db s))"

section \<open>Imports\<close>

record sf_import =
  si_id :: "64 word"
  si_label :: string
  si_timestamp :: int

text \<open>The builder of an import has no setter for the label and the time; its fields start as \<open>garbage\<close>.\<close>

definition import_set_id :: "64 word \<Rightarrow> sf_import \<Rightarrow> sf_import" where
  "import_set_id i b = b\<lparr> si_id := i \<rparr>"

definition to_import :: "sf_import \<Rightarrow> sf_import" where
  "to_import b = \<lparr> si_id = si_id b, si_label = si_label b, si_timestamp = si_timestamp b \<rparr>"

section \<open>Relationships\<close>

record relationship_attrs =
  rel_variable_id :: "64 word"
  rel_order :: "64 word"
  rel_src_id :: "64 word"
  rel_dst_id :: "64 word"
  rel_dst_type :: sf_object_type
  rel_src_type :: sf_object_type
  rel_dst_int :: "64 word"
  rel_dst_float :: "32 word"
  rel_dst_str :: string

text \<open>Only \<open>variable_id\<close> is initialised; the numbers and types are the \<open>garbage\<close>'s.\<close>

definition new_relationship_builder :: "relationship_attrs \<Rightarrow> relationship_attrs sf_builder" where
  "new_relationship_builder garbage = new_builder (garbage\<lparr> rel_variable_id := 0, rel_dst_str := [] \<rparr>)"

definition rel_set_variable_id ::
  "64 word \<Rightarrow> relationship_attrs sf_builder \<Rightarrow> relationship_attrs sf_builder" where
  "rel_set_variable_id v b = b\<lparr> sb_attrs := (sb_attrs b)\<lparr> rel_variable_id := v \<rparr> \<rparr>"

definition rel_set_dst_type ::
  "sf_object_type \<Rightarrow> relationship_attrs sf_builder \<Rightarrow> relationship_attrs sf_builder" where
  "rel_set_dst_type v b = b\<lparr> sb_attrs := (sb_attrs b)\<lparr> rel_dst_type := v \<rparr> \<rparr>"

definition rel_set_src_type ::
  "sf_object_type \<Rightarrow> relationship_attrs sf_builder \<Rightarrow> relationship_attrs sf_builder" where
  "rel_set_src_type v b = b\<lparr> sb_attrs := (sb_attrs b)\<lparr> rel_src_type := v \<rparr> \<rparr>"

definition to_relationship :: "relationship_attrs sf_builder \<Rightarrow> relationship_attrs sf_object" where
  "to_relationship b = new_object (sb_id b) (sb_type b) (sb_import b)
    \<lparr> rel_variable_id = rel_variable_id (sb_attrs b), rel_order = rel_order (sb_attrs b),
      rel_src_id = rel_src_id (sb_attrs b), rel_dst_id = rel_dst_id (sb_attrs b),
      rel_dst_type = rel_dst_type (sb_attrs b), rel_src_type = rel_src_type (sb_attrs b),
      rel_dst_int = rel_dst_int (sb_attrs b), rel_dst_float = rel_dst_float (sb_attrs b),
      rel_dst_str = rel_dst_str (sb_attrs b) \<rparr>"

section \<open>The catalogue\<close>

text \<open>\<open>ep_sf_obj_catalog\<close>\<close>

record catalog_attrs =
  cat_header :: "64 word option"
  cat_product_attribute_definitions :: "64 word option"
  cat_category :: "64 word option"
  cat_product :: "64 word option"
  cat_product_option :: "64 word option"
  cat_variation_attribute :: "64 word option"
  cat_category_assignment :: "64 word option"
  cat_recommendation :: "64 word option"
  cat_catalog_id :: "string option"

definition blank_catalog :: catalog_attrs where
  "blank_catalog = \<lparr> cat_header = None, cat_product_attribute_definitions = None,
    cat_category = None, cat_product = None, cat_product_option = None,
    cat_variation_attribute = None, cat_category_assignment = None, cat_recommendation = None,
    cat_catalog_id = None \<rparr>"

definition create_catalog ::
  "64 word \<Rightarrow> sf_object_type \<Rightarrow> 64 word
    \<Rightarrow> 64 word option \<Rightarrow> 64 word option
    \<Rightarrow> 64 word option \<Rightarrow> 64 word option
    \<Rightarrow> 64 word option \<Rightarrow> 64 word option
    \<Rightarrow> 64 word option \<Rightarrow> 64 word option
    \<Rightarrow> string option \<Rightarrow> catalog_attrs sf_object" where
  "create_catalog i t m v_header v_product_attribute_definitions v_category v_product v_product_option v_variation_attribute v_category_assignment v_recommendation v_catalog_id = new_object i t m (blank_catalog\<lparr> cat_catalog_id := v_catalog_id \<rparr>)"

definition cat_set_header :: "64 word option \<Rightarrow> catalog_attrs sf_builder
    \<Rightarrow> catalog_attrs sf_builder" where
  "cat_set_header v b = b\<lparr> sb_attrs := (sb_attrs b)\<lparr> cat_header := v \<rparr> \<rparr>"

definition cat_set_product_attribute_definitions :: "64 word option
    \<Rightarrow> catalog_attrs sf_builder \<Rightarrow> catalog_attrs sf_builder" where
  "cat_set_product_attribute_definitions v b = b\<lparr> sb_attrs :=
    (sb_attrs b)\<lparr> cat_product_attribute_definitions := v \<rparr> \<rparr>"

definition cat_set_category :: "64 word option \<Rightarrow> catalog_attrs sf_builder
    \<Rightarrow> catalog_attrs sf_builder" where
  "cat_set_category v b = b\<lparr> sb_attrs :=
    (sb_attrs b)\<lparr> cat_category := v \<rparr> \<rparr>"

definition cat_set_product :: "64 word option \<Rightarrow> catalog_attrs sf_builder
    \<Rightarrow> catalog_attrs sf_builder" where
  "cat_set_product v b = b\<lparr> sb_attrs := (sb_attrs b)\<lparr> cat_product := v \<rparr> \<rparr>"

definition cat_set_product_option :: "64 word option
    \<Rightarrow> catalog_attrs sf_builder \<Rightarrow> catalog_attrs sf_builder" where
  "cat_set_product_option v b = b\<lparr> sb_attrs :=
    (sb_attrs b)\<lparr> cat_product_option := v \<rparr> \<rparr>"

definition cat_set_variation_attribute :: "64 word option
    \<Rightarrow> catalog_attrs sf_builder \<Rightarrow> catalog_attrs sf_builder" where
  "cat_set_variation_attribute v b = b\<lparr> sb_attrs :=
    (sb_attrs b)\<lparr> cat_variation_attribute := v \<rparr> \<rparr>"

definition cat_set_category_assignment :: "64 word option
    \<Rightarrow> catalog_attrs sf_builder \<Rightarrow> catalog_attrs sf_builder" where
  "cat_set_category_assignment v b = b\<lparr> sb_attrs :=
    (sb_attrs b)\<lparr> cat_category_assignment := v \<rparr> \<rparr>"

definition cat_set_recommendation :: "64 word option
    \<Rightarrow> catalog_attrs sf_builder \<Rightarrow> catalog_attrs sf_builder" where
  "cat_set_recommendation v b = b\<lparr> sb_attrs :=
    (sb_attrs b)\<lparr> cat_recommendation := v \<rparr> \<rparr>"

definition to_catalog :: "catalog_attrs sf_builder \<Rightarrow> catalog_attrs sf_object" where
  "to_catalog b = create_catalog (sb_id b) (sb_type b) (sb_import b) (cat_header (sb_attrs b))
    (cat_product_attribute_definitions (sb_attrs b)) (cat_category (sb_attrs b)) (cat_product
    (sb_attrs b)) (cat_product_option (sb_attrs b)) (cat_variation_attribute (sb_attrs b))
    (cat_category_assignment (sb_attrs b)) (cat_recommendation (sb_attrs b)) (cat_catalog_id
    (sb_attrs b))"

text \<open>\<open>ep_sf_obj_catalog_header\<close>\<close>

record catalog_header_attrs =
  hdr_image_settings :: "64 word option"
  hdr_custom_attributes :: "64 word option"

definition blank_catalog_header :: catalog_header_attrs where
  "blank_catalog_header = \<lparr> hdr_image_settings = None, hdr_custom_attributes = None \<rparr>"

definition create_catalog_header ::
  "64 word \<Rightarrow> sf_object_type \<Rightarrow> 64 word
    \<Rightarrow> catalog_header_attrs sf_object" where
  "create_catalog_header i t m = new_object i t m (blank_catalog_header)"

definition hdr_set_image_settings :: "64 word option
    \<Rightarrow> catalog_header_attrs sf_builder \<Rightarrow> catalog_header_attrs sf_builder" where
  "hdr_set_image_settings v b = b\<lparr> sb_attrs :=
    (sb_attrs b)\<lparr> hdr_image_settings := v \<rparr> \<rparr>"

definition hdr_set_custom_attributes :: "64 word option
    \<Rightarrow> catalog_header_attrs sf_builder \<Rightarrow> catalog_header_attrs sf_builder" where
  "hdr_set_custom_attributes v b = b\<lparr> sb_attrs :=
    (sb_attrs b)\<lparr> hdr_custom_attributes := v \<rparr> \<rparr>"

definition to_catalog_header :: "catalog_header_attrs sf_builder
    \<Rightarrow> catalog_header_attrs sf_object" where
  "to_catalog_header b = create_catalog_header (sb_id b) (sb_type b) (sb_import b)"

text \<open>\<open>ep_sf_obj_catalog_header_image_settings\<close>\<close>

record catalog_header_image_settings_attrs =
  ims_internal_location :: "64 word option"
  ims_external_location :: "64 word option"
  ims_view_types :: "64 word option"
  ims_variation_attribute_id :: "string option"
  ims_alt_pattern :: "string option"
  ims_title_pattern :: "string option"

definition blank_catalog_header_image_settings :: catalog_header_image_settings_attrs where
  "blank_catalog_header_image_settings = \<lparr> ims_internal_location = None,
    ims_external_location = None, ims_view_types = None, ims_variation_attribute_id = None,
    ims_alt_pattern = None, ims_title_pattern = None \<rparr>"

definition create_catalog_header_image_settings ::
  "64 word \<Rightarrow> sf_object_type \<Rightarrow> 64 word
    \<Rightarrow> catalog_header_image_settings_attrs sf_object" where
  "create_catalog_header_image_settings i t m = new_object i t m (blank_catalog_header_image_settings)"

definition ims_set_internal_location :: "64 word option
    \<Rightarrow> catalog_header_image_settings_attrs sf_builder
    \<Rightarrow> catalog_header_image_settings_attrs sf_builder" where
  "ims_set_internal_location v b = b\<lparr> sb_attrs :=
    (sb_attrs b)\<lparr> ims_internal_location := v \<rparr> \<rparr>"

definition ims_set_external_location :: "64 word option
    \<Rightarrow> catalog_header_image_settings_attrs sf_builder
    \<Rightarrow> catalog_header_image_settings_attrs sf_builder" where
  "ims_set_external_location v b = b\<lparr> sb_attrs :=
    (sb_attrs b)\<lparr> ims_external_location := v \<rparr> \<rparr>"

definition ims_set_view_types :: "64 word option
    \<Rightarrow> catalog_header_image_settings_attrs sf_builder
    \<Rightarrow> catalog_header_image_settings_attrs sf_builder" where
  "ims_set_view_types v b = b\<lparr> sb_attrs :=
    (sb_attrs b)\<lparr> ims_view_types := v \<rparr> \<rparr>"

definition ims_set_variation_attribute_id :: "string option
    \<Rightarrow> catalog_header_image_settings_attrs sf_builder
    \<Rightarrow> catalog_header_image_settings_attrs sf_builder" where
  "ims_set_variation_attribute_id v b = b\<lparr> sb_attrs :=
    (sb_attrs b)\<lparr> ims_variation_attribute_id := v \<rparr> \<rparr>"

definition ims_set_alt_pattern :: "string option
    \<Rightarrow> catalog_header_image_settings_attrs sf_builder
    \<Rightarrow> catalog_header_image_settings_attrs sf_builder" where
  "ims_set_alt_pattern v b = b\<lparr> sb_attrs :=
    (sb_attrs b)\<lparr> ims_alt_pattern := v \<rparr> \<rparr>"

definition ims_set_title_pattern :: "string option
    \<Rightarrow> catalog_header_image_settings_attrs sf_builder
    \<Rightarrow> catalog_header_image_settings_attrs sf_builder" where
  "ims_set_title_pattern v b = b\<lparr> sb_attrs :=
    (sb_attrs b)\<lparr> ims_title_pattern := v \<rparr> \<rparr>"

definition to_catalog_header_image_settings :: "catalog_header_image_settings_attrs sf_builder \<Rightarrow> catalog_header_image_settings_attrs sf_object" where
  "to_catalog_header_image_settings b = create_catalog_header_image_settings (sb_id b) (sb_type b)
    (sb_import b)"

text \<open>\<open>ep_sf_obj_catalog_header_image_internal_location\<close>\<close>

record catalog_header_image_internal_location_attrs =
  inl_base_path :: "string option"

definition blank_catalog_header_image_internal_location :: catalog_header_image_internal_location_attrs where
  "blank_catalog_header_image_internal_location = \<lparr> inl_base_path = None \<rparr>"

definition create_catalog_header_image_internal_location ::
  "64 word \<Rightarrow> sf_object_type \<Rightarrow> 64 word
    \<Rightarrow> catalog_header_image_internal_location_attrs sf_object" where
  "create_catalog_header_image_internal_location i t m = new_object i t m
    (blank_catalog_header_image_internal_location)"

definition inl_set_base_path :: "string option
    \<Rightarrow> catalog_header_image_internal_location_attrs sf_builder
    \<Rightarrow> catalog_header_image_internal_location_attrs sf_builder" where
  "inl_set_base_path v b = b\<lparr> sb_attrs :=
    (sb_attrs b)\<lparr> inl_base_path := v \<rparr> \<rparr>"

definition to_catalog_header_image_internal_location :: "catalog_header_image_internal_location_attrs sf_builder \<Rightarrow> catalog_header_image_internal_location_attrs sf_object" where
  "to_catalog_header_image_internal_location b = create_catalog_header_image_internal_location
    (sb_id b) (sb_type b) (sb_import b)"

text \<open>\<open>ep_sf_obj_catalog_header_image_external_location\<close>\<close>

record catalog_header_image_external_location_attrs =
  exl_http_url :: "string option"
  exl_https_url :: "string option"

definition blank_catalog_header_image_external_location :: catalog_header_image_external_location_attrs where
  "blank_catalog_header_image_external_location = \<lparr> exl_http_url = None,
    exl_https_url = None \<rparr>"

definition create_catalog_header_image_external_location ::
  "64 word \<Rightarrow> sf_object_type \<Rightarrow> 64 word
    \<Rightarrow> catalog_header_image_external_location_attrs sf_object" where
  "create_catalog_header_image_external_location i t m = new_object i t m
    (blank_catalog_header_image_external_location)"

definition exl_set_http_url :: "string option
    \<Rightarrow> catalog_header_image_external_location_attrs sf_builder
    \<Rightarrow> catalog_header_image_external_location_attrs sf_builder" where
  "exl_set_http_url v b = b\<lparr> sb_attrs :=
    (sb_attrs b)\<lparr> exl_http_url := v \<rparr> \<rparr>"

definition exl_set_https_url :: "string option
    \<Rightarrow> catalog_header_image_external_location_attrs sf_builder
    \<Rightarrow> catalog_header_image_external_location_attrs sf_builder" where
  "exl_set_https_url v b = b\<lparr> sb_attrs :=
    (sb_attrs b)\<lparr> exl_https_url := v \<rparr> \<rparr>"

definition to_catalog_header_image_external_location :: "catalog_header_image_external_location_attrs sf_builder \<Rightarrow> catalog_header_image_external_location_attrs sf_object" where
  "to_catalog_header_image_external_location b = create_catalog_header_image_external_location
    (sb_id b) (sb_type b) (sb_import b)"

text \<open>\<open>ep_sf_obj_catalog_header_image_view_types\<close>\<close>

record catalog_header_image_view_types_attrs =
  vwt_view_type :: "string option"

definition blank_catalog_header_image_view_types :: catalog_header_image_view_types_attrs where
  "blank_catalog_header_image_view_types = \<lparr> vwt_view_type = None \<rparr>"

definition create_catalog_header_image_view_types ::
  "64 word \<Rightarrow> sf_object_type \<Rightarrow> 64 word
    \<Rightarrow> catalog_header_image_view_types_attrs sf_object" where
  "create_catalog_header_image_view_types i t m = new_object i t m
    (blank_catalog_header_image_view_types)"

definition vwt_set_view_type :: "string option
    \<Rightarrow> catalog_header_image_view_types_attrs sf_builder
    \<Rightarrow> catalog_header_image_view_types_attrs sf_builder" where
  "vwt_set_view_type v b = b\<lparr> sb_attrs :=
    (sb_attrs b)\<lparr> vwt_view_type := v \<rparr> \<rparr>"

definition to_catalog_header_image_view_types :: "catalog_header_image_view_types_attrs sf_builder \<Rightarrow> catalog_header_image_view_types_attrs sf_object" where
  "to_catalog_header_image_view_types b = create_catalog_header_image_view_types (sb_id b)
    (sb_type b) (sb_import b)"

text \<open>\<open>ep_sf_obj_catalog_custom_attributes\<close>\<close>

record catalog_custom_attributes_attrs =
  cas_custom_attribute :: "64 word option"

definition blank_catalog_custom_attributes :: catalog_custom_attributes_attrs where
  "blank_catalog_custom_attributes = \<lparr> cas_custom_attribute = None \<rparr>"

definition create_catalog_custom_attributes ::
  "64 word \<Rightarrow> sf_object_type \<Rightarrow> 64 word
    \<Rightarrow> catalog_custom_attributes_attrs sf_object" where
  "create_catalog_custom_attributes i t m = new_object i t m (blank_catalog_custom_attributes)"

definition cas_set_custom_attribute :: "64 word option
    \<Rightarrow> catalog_custom_attributes_attrs sf_builder
    \<Rightarrow> catalog_custom_attributes_attrs sf_builder" where
  "cas_set_custom_attribute v b = b\<lparr> sb_attrs :=
    (sb_attrs b)\<lparr> cas_custom_attribute := v \<rparr> \<rparr>"

definition to_catalog_custom_attributes :: "catalog_custom_attributes_attrs sf_builder
    \<Rightarrow> catalog_custom_attributes_attrs sf_object" where
  "to_catalog_custom_attributes b = create_catalog_custom_attributes (sb_id b) (sb_type b)
    (sb_import b)"

text \<open>\<open>ep_sf_obj_catalog_custom_attribute\<close>\<close>

record catalog_custom_attribute_attrs =
  cab_attribute_id :: "string option"
  cab_xml_lang :: "string option"
  cab_value :: "64 word option"

definition blank_catalog_custom_attribute :: catalog_custom_attribute_attrs where
  "blank_catalog_custom_attribute = \<lparr> cab_attribute_id = None, cab_xml_lang = None,
    cab_value = None \<rparr>"

definition create_catalog_custom_attribute ::
  "64 word \<Rightarrow> sf_object_type \<Rightarrow> 64 word
    \<Rightarrow> catalog_custom_attribute_attrs sf_object" where
  "create_catalog_custom_attribute i t m = new_object i t m (blank_catalog_custom_attribute)"

definition cab_set_attribute_id :: "string option
    \<Rightarrow> catalog_custom_attribute_attrs sf_builder
    \<Rightarrow> catalog_custom_attribute_attrs sf_builder" where
  "cab_set_attribute_id v b = b\<lparr> sb_attrs :=
    (sb_attrs b)\<lparr> cab_attribute_id := v \<rparr> \<rparr>"

definition cab_set_xml_lang :: "string option
    \<Rightarrow> catalog_custom_attribute_attrs sf_builder
    \<Rightarrow> catalog_custom_attribute_attrs sf_builder" where
  "cab_set_xml_lang v b = b\<lparr> sb_attrs :=
    (sb_attrs b)\<lparr> cab_xml_lang := v \<rparr> \<rparr>"

definition cab_set_value :: "64 word option
    \<Rightarrow> catalog_custom_attribute_attrs sf_builder
    \<Rightarrow> catalog_custom_attribute_attrs sf_builder" where
  "cab_set_value v b = b\<lparr> sb_attrs := (sb_attrs b)\<lparr> cab_value := v \<rparr> \<rparr>"

definition to_catalog_custom_attribute :: "catalog_custom_attribute_attrs sf_builder
    \<Rightarrow> catalog_custom_attribute_attrs sf_object" where
  "to_catalog_custom_attribute b = create_catalog_custom_attribute (sb_id b) (sb_type b) (sb_import b)"

text \<open>\<open>ep_sf_catalog_category_link\<close>\<close>

record catalog_category_link_attrs =
  cln_category_id :: "string option"
  cln_catalog_id :: "string option"

definition blank_catalog_category_link :: catalog_category_link_attrs where
  "blank_catalog_category_link = \<lparr> cln_category_id = None, cln_catalog_id = None \<rparr>"

definition create_catalog_category_link ::
  "64 word \<Rightarrow> sf_object_type \<Rightarrow> 64 word
    \<Rightarrow> catalog_category_link_attrs sf_object" where
  "create_catalog_category_link i t m = new_object i t m (blank_catalog_category_link)"

definition cln_set_category_id :: "string option
    \<Rightarrow> catalog_category_link_attrs sf_builder
    \<Rightarrow> catalog_category_link_attrs sf_builder" where
  "cln_set_category_id v b = b\<lparr> sb_attrs :=
    (sb_attrs b)\<lparr> cln_category_id := v \<rparr> \<rparr>"

definition cln_set_catalog_id :: "string option
    \<Rightarrow> catalog_category_link_attrs sf_builder
    \<Rightarrow> catalog_category_link_attrs sf_builder" where
  "cln_set_catalog_id v b = b\<lparr> sb_attrs :=
    (sb_attrs b)\<lparr> cln_catalog_id := v \<rparr> \<rparr>"

definition to_catalog_category_link :: "catalog_category_link_attrs sf_builder
    \<Rightarrow> catalog_category_link_attrs sf_object" where
  "to_catalog_category_link b = create_catalog_category_link (sb_id b) (sb_type b) (sb_import b)"

text \<open>\<open>ep_sf_catalog_localized_string\<close>\<close>

record catalog_localized_string_attrs =
  lst_value :: "string option"
  lst_xml_lang :: "string option"

definition blank_catalog_localized_string :: catalog_localized_string_attrs where
  "blank_catalog_localized_string = \<lparr> lst_value = None, lst_xml_lang = None \<rparr>"

definition create_catalog_localized_string ::
  "64 word \<Rightarrow> sf_object_type \<Rightarrow> 64 word
    \<Rightarrow> catalog_localized_string_attrs sf_object" where
  "create_catalog_localized_string i t m = new_object i t m (blank_catalog_localized_string)"

definition lst_set_value :: "string option
    \<Rightarrow> catalog_localized_string_attrs sf_builder
    \<Rightarrow> catalog_localized_string_attrs sf_builder" where
  "lst_set_value v b = b\<lparr> sb_attrs := (sb_attrs b)\<lparr> lst_value := v \<rparr> \<rparr>"

definition lst_set_xml_lang :: "string option
    \<Rightarrow> catalog_localized_string_attrs sf_builder
    \<Rightarrow> catalog_localized_string_attrs sf_builder" where
  "lst_set_xml_lang v b = b\<lparr> sb_attrs :=
    (sb_attrs b)\<lparr> lst_xml_lang := v \<rparr> \<rparr>"

definition to_catalog_localized_string :: "catalog_localized_string_attrs sf_builder
    \<Rightarrow> catalog_localized_string_attrs sf_object" where
  "to_catalog_localized_string b = create_catalog_localized_string (sb_id b) (sb_type b) (sb_import b)"

text \<open>\<open>ep_sf_obj_catalog_category\<close>\<close>

record catalog_category_attrs =
  ctg_xml_lang :: "string option"
  ctg_display_name :: "64 word option"
  ctg_description :: "64 word option"
  ctg_online_flag :: "bool option"
  ctg_online_from :: "ptime option"
  ctg_online_to :: "ptime option"
  ctg_variation_groups_display_mode :: "string option"
  ctg_parent :: "string option"
  ctg_position :: "double option"
  ctg_thumbnail :: "string option"
  ctg_image :: "string option"
  ctg_template :: "string option"
  ctg_search_placement :: "32 word option"
  ctg_search_rank :: "32 word option"
  ctg_sitemap_included_flag :: "bool option"
  ctg_sitemap_changefrequency :: "string option"
  ctg_sitemap_priority :: "double option"
  ctg_page_attributes :: "64 word option"
  ctg_custom_attributes :: "64 word option"
  ctg_category_links :: "64 word option"
  ctg_attribute_groups :: "64 word option"
  ctg_refinement_definitions :: "64 word option"
  ctg_product_detail_page_meta_tag_rules :: "64 word option"
  ctg_product_listing_page_meta_tag_rules :: "64 word option"
  ctg_product_specification_rule :: "64 word option"
  ctg_mode :: "string option"
  ctg_category_id :: "string option"

definition blank_catalog_category :: catalog_category_attrs where
  "blank_catalog_category = \<lparr> ctg_xml_lang = None, ctg_display_name = None,
    ctg_description = None, ctg_online_flag = None, ctg_online_from = None, ctg_online_to = None,
    ctg_variation_groups_display_mode = None, ctg_parent = None, ctg_position = None,
    ctg_thumbnail = None, ctg_image = None, ctg_template = None, ctg_search_placement = None,
    ctg_search_rank = None, ctg_sitemap_included_flag = None, ctg_sitemap_changefrequency = None,
    ctg_sitemap_priority = None, ctg_page_attributes = None, ctg_custom_attributes = None,
    ctg_category_links = None, ctg_attribute_groups = None, ctg_refinement_definitions = None,
    ctg_product_detail_page_meta_tag_rules = None, ctg_product_listing_page_meta_tag_rules = None,
    ctg_product_specification_rule = None, ctg_mode = None, ctg_category_id = None \<rparr>"

definition create_catalog_category ::
  "64 word \<Rightarrow> sf_object_type \<Rightarrow> 64 word
    \<Rightarrow> 64 word option \<Rightarrow> string option
    \<Rightarrow> string option \<Rightarrow> catalog_category_attrs sf_object" where
  "create_catalog_category i t m v_display_name v_parent v_category_id = new_object i t m
    (blank_catalog_category\<lparr> ctg_display_name := v_display_name, ctg_parent := v_parent,
    ctg_category_id := v_category_id \<rparr>)"

definition ctg_set_xml_lang :: "string option
    \<Rightarrow> catalog_category_attrs sf_builder
    \<Rightarrow> catalog_category_attrs sf_builder" where
  "ctg_set_xml_lang v b = b\<lparr> sb_attrs :=
    (sb_attrs b)\<lparr> ctg_xml_lang := v \<rparr> \<rparr>"

definition ctg_set_display_name :: "64 word option
    \<Rightarrow> catalog_category_attrs sf_builder
    \<Rightarrow> catalog_category_attrs sf_builder" where
  "ctg_set_display_name v b = b\<lparr> sb_attrs :=
    (sb_attrs b)\<lparr> ctg_display_name := v \<rparr> \<rparr>"

definition ctg_set_description :: "64 word option
    \<Rightarrow> catalog_category_attrs sf_builder
    \<Rightarrow> catalog_category_attrs sf_builder" where
  "ctg_set_description v b = b\<lparr> sb_attrs :=
    (sb_attrs b)\<lparr> ctg_description := v \<rparr> \<rparr>"

definition ctg_set_online_flag :: "bool option
    \<Rightarrow> catalog_category_attrs sf_builder
    \<Rightarrow> catalog_category_attrs sf_builder" where
  "ctg_set_online_flag v b = b\<lparr> sb_attrs :=
    (sb_attrs b)\<lparr> ctg_online_flag := v \<rparr> \<rparr>"

definition ctg_set_online_from :: "ptime option
    \<Rightarrow> catalog_category_attrs sf_builder
    \<Rightarrow> catalog_category_attrs sf_builder" where
  "ctg_set_online_from v b = b\<lparr> sb_attrs :=
    (sb_attrs b)\<lparr> ctg_online_from := v \<rparr> \<rparr>"

definition ctg_set_online_to :: "ptime option
    \<Rightarrow> catalog_category_attrs sf_builder
    \<Rightarrow> catalog_category_attrs sf_builder" where
  "ctg_set_online_to v b = b\<lparr> sb_attrs :=
    (sb_attrs b)\<lparr> ctg_online_to := v \<rparr> \<rparr>"

definition ctg_set_variation_groups_display_mode :: "string option
    \<Rightarrow> catalog_category_attrs sf_builder
    \<Rightarrow> catalog_category_attrs sf_builder" where
  "ctg_set_variation_groups_display_mode v b = b\<lparr> sb_attrs :=
    (sb_attrs b)\<lparr> ctg_variation_groups_display_mode := v \<rparr> \<rparr>"

definition ctg_set_parent :: "string option
    \<Rightarrow> catalog_category_attrs sf_builder
    \<Rightarrow> catalog_category_attrs sf_builder" where
  "ctg_set_parent v b = b\<lparr> sb_attrs := (sb_attrs b)\<lparr> ctg_parent := v \<rparr> \<rparr>"

definition ctg_set_position :: "double option
    \<Rightarrow> catalog_category_attrs sf_builder
    \<Rightarrow> catalog_category_attrs sf_builder" where
  "ctg_set_position v b = b\<lparr> sb_attrs :=
    (sb_attrs b)\<lparr> ctg_position := v \<rparr> \<rparr>"

definition ctg_set_thumbnail :: "string option
    \<Rightarrow> catalog_category_attrs sf_builder
    \<Rightarrow> catalog_category_attrs sf_builder" where
  "ctg_set_thumbnail v b = b\<lparr> sb_attrs :=
    (sb_attrs b)\<lparr> ctg_thumbnail := v \<rparr> \<rparr>"

definition ctg_set_image :: "string option
    \<Rightarrow> catalog_category_attrs sf_builder
    \<Rightarrow> catalog_category_attrs sf_builder" where
  "ctg_set_image v b = b\<lparr> sb_attrs := (sb_attrs b)\<lparr> ctg_image := v \<rparr> \<rparr>"

definition ctg_set_template :: "string option
    \<Rightarrow> catalog_category_attrs sf_builder
    \<Rightarrow> catalog_category_attrs sf_builder" where
  "ctg_set_template v b = b\<lparr> sb_attrs :=
    (sb_attrs b)\<lparr> ctg_thumbnail := v \<rparr> \<rparr>"

definition ctg_set_search_placement :: "32 word option
    \<Rightarrow> catalog_category_attrs sf_builder
    \<Rightarrow> catalog_category_attrs sf_builder" where
  "ctg_set_search_placement v b = b\<lparr> sb_attrs :=
    (sb_attrs b)\<lparr> ctg_search_placement := v \<rparr> \<rparr>"

definition ctg_set_search_rank :: "32 word option
    \<Rightarrow> catalog_category_attrs sf_builder
    \<Rightarrow> catalog_category_attrs sf_builder" where
  "ctg_set_search_rank v b = b\<lparr> sb_attrs :=
    (sb_attrs b)\<lparr> ctg_search_rank := v \<rparr> \<rparr>"

definition ctg_set_sitemap_included_flag :: "bool option
    \<Rightarrow> catalog_category_attrs sf_builder
    \<Rightarrow> catalog_category_attrs sf_builder" where
  "ctg_set_sitemap_included_flag v b = b\<lparr> sb_attrs :=
    (sb_attrs b)\<lparr> ctg_sitemap_included_flag := v \<rparr> \<rparr>"

definition ctg_set_sitemap_changefrequency :: "string option
    \<Rightarrow> catalog_category_attrs sf_builder
    \<Rightarrow> catalog_category_attrs sf_builder" where
  "ctg_set_sitemap_changefrequency v b = b\<lparr> sb_attrs :=
    (sb_attrs b)\<lparr> ctg_sitemap_changefrequency := v \<rparr> \<rparr>"

definition ctg_set_sitemap_priority :: "double option
    \<Rightarrow> catalog_category_attrs sf_builder
    \<Rightarrow> catalog_category_attrs sf_builder" where
  "ctg_set_sitemap_priority v b = b\<lparr> sb_attrs :=
    (sb_attrs b)\<lparr> ctg_sitemap_priority := v \<rparr> \<rparr>"

definition ctg_set_page_attributes :: "64 word option
    \<Rightarrow> catalog_category_attrs sf_builder
    \<Rightarrow> catalog_category_attrs sf_builder" where
  "ctg_set_page_attributes v b = b\<lparr> sb_attrs :=
    (sb_attrs b)\<lparr> ctg_page_attributes := v \<rparr> \<rparr>"

definition ctg_set_custom_attributes :: "64 word option
    \<Rightarrow> catalog_category_attrs sf_builder
    \<Rightarrow> catalog_category_attrs sf_builder" where
  "ctg_set_custom_attributes v b = b\<lparr> sb_attrs :=
    (sb_attrs b)\<lparr> ctg_custom_attributes := v \<rparr> \<rparr>"

definition ctg_set_attribute_groups :: "64 word option
    \<Rightarrow> catalog_category_attrs sf_builder
    \<Rightarrow> catalog_category_attrs sf_builder" where
  "ctg_set_attribute_groups v b = b\<lparr> sb_attrs :=
    (sb_attrs b)\<lparr> ctg_attribute_groups := v \<rparr> \<rparr>"

definition ctg_set_refinement_definitions :: "64 word option
    \<Rightarrow> catalog_category_attrs sf_builder
    \<Rightarrow> catalog_category_attrs sf_builder" where
  "ctg_set_refinement_definitions v b = b\<lparr> sb_attrs :=
    (sb_attrs b)\<lparr> ctg_refinement_definitions := v \<rparr> \<rparr>"

definition ctg_set_product_detail_page_meta_tag_rules :: "64 word option
    \<Rightarrow> catalog_category_attrs sf_builder
    \<Rightarrow> catalog_category_attrs sf_builder" where
  "ctg_set_product_detail_page_meta_tag_rules v b = b\<lparr> sb_attrs :=
    (sb_attrs b)\<lparr> ctg_product_detail_page_meta_tag_rules := v \<rparr> \<rparr>"

definition ctg_set_product_listing_page_meta_tag_rules :: "64 word option
    \<Rightarrow> catalog_category_attrs sf_builder
    \<Rightarrow> catalog_category_attrs sf_builder" where
  "ctg_set_product_listing_page_meta_tag_rules v b = b\<lparr> sb_attrs :=
    (sb_attrs b)\<lparr> ctg_product_listing_page_meta_tag_rules := v \<rparr> \<rparr>"

definition ctg_set_product_specification_rule :: "64 word option
    \<Rightarrow> catalog_category_attrs sf_builder
    \<Rightarrow> catalog_category_attrs sf_builder" where
  "ctg_set_product_specification_rule v b = b\<lparr> sb_attrs :=
    (sb_attrs b)\<lparr> ctg_product_specification_rule := v \<rparr> \<rparr>"

definition ctg_set_mode :: "string option
    \<Rightarrow> catalog_category_attrs sf_builder
    \<Rightarrow> catalog_category_attrs sf_builder" where
  "ctg_set_mode v b = b\<lparr> sb_attrs := (sb_attrs b)\<lparr> ctg_mode := v \<rparr> \<rparr>"

definition ctg_set_category_id :: "string option
    \<Rightarrow> catalog_category_attrs sf_builder
    \<Rightarrow> catalog_category_attrs sf_builder" where
  "ctg_set_category_id v b = b\<lparr> sb_attrs :=
    (sb_attrs b)\<lparr> ctg_category_id := v \<rparr> \<rparr>"

definition to_catalog_category :: "catalog_category_attrs sf_builder
    \<Rightarrow> catalog_category_attrs sf_object" where
  "to_catalog_category b = create_catalog_category (sb_id b) (sb_type b) (sb_import b)
    (ctg_display_name (sb_attrs b)) (ctg_parent (sb_attrs b)) (ctg_category_id (sb_attrs b))"

text \<open>The catalogue's builder is the only one that sets its type.\<close>

definition new_catalog_builder :: "catalog_attrs sf_builder" where
  "new_catalog_builder = set_type SfCatalog (new_builder blank_catalog)"

section \<open>Facts\<close>

lemma builder_fields [simp]:
  "sb_id (new_builder a) = 0" "sb_type (new_builder a) = SfNone" "sb_import (new_builder a) = 0"
  "sb_attrs (new_builder a) = a" "sb_id (set_id i b) = i" "sb_type (set_id i b) = sb_type b"
  "sb_import (set_id i b) = sb_import b" "sb_attrs (set_id i b) = sb_attrs b"
  "sb_id (set_import_id i b) = sb_id b" "sb_type (set_import_id i b) = sb_type b"
  "sb_import (set_import_id i b) = i" "sb_attrs (set_import_id i b) = sb_attrs b"
  "sb_type (set_type t b) = t" "sb_id (set_type t b) = sb_id b" "sb_attrs (set_type t b) = sb_attrs b"
  by (simp_all add: new_builder_def set_id_def set_import_id_def set_type_def)

lemma object_fields [simp]:
  "so_id (new_object i t m a) = i" "so_type (new_object i t m a) = t"
  "so_import (new_object i t m a) = m" "so_attrs (new_object i t m a) = a"
  by (simp_all add: new_object_def)

text \<open>An object of a catalogue never has the categories its builder was given.\<close>

lemma catalog_category_dropped: "cat_category (so_attrs (to_catalog b)) = None"
  by (simp add: to_catalog_def create_catalog_def blank_catalog_def)

section \<open>Properties\<close>

text \<open>Loading an object is no operation: the statement it makes is never prepared, so, whatever the database
  holds, the builder and the database stay as they are and no error is reported.\<close>

theorem load_object_noop: "load_object l dec b d = (Inr b, d)"
  by (simp add: load_object_def load_rows_def get_rows_def bnd_def step_def take_row_def create_statement_def
      SQLITE_MISUSE_def SQLITE_ROW_def Let_def)

end
