(* ===== verification/SfRules.thy ===== *)
theory SfRules imports SfSchema begin

text \<open>
  The remaining classes of the Salesforce catalogue: page attributes, attribute groups, refinements with
  their buckets, and the filters and rules of product specifications.
\<close>

text \<open>\<open>ep_sf_catalog_page_attributes\<close>\<close>

record catalog_page_attributes_attrs =
  pga_page_title :: "64 word option"
  pga_page_description :: "64 word option"
  pga_page_keywords :: "64 word option"
  pga_page_url :: "64 word option"

definition blank_catalog_page_attributes :: catalog_page_attributes_attrs where
  "blank_catalog_page_attributes = \<lparr> pga_page_title = None, pga_page_description = None,
    pga_page_keywords = None, pga_page_url = None \<rparr>"

definition create_catalog_page_attributes ::
  "64 word \<Rightarrow> sf_object_type \<Rightarrow> 64 word
    \<Rightarrow> catalog_page_attributes_attrs sf_object" where
  "create_catalog_page_attributes i t m = new_object i t m (blank_catalog_page_attributes)"

definition pga_set_page_title :: "64 word option
    \<Rightarrow> catalog_page_attributes_attrs sf_builder
    \<Rightarrow> catalog_page_attributes_attrs sf_builder" where
  "pga_set_page_title v b = b\<lparr> sb_attrs :=
    (sb_attrs b)\<lparr> pga_page_title := v \<rparr> \<rparr>"

definition pga_set_description :: "64 word option
    \<Rightarrow> catalog_page_attributes_attrs sf_builder
    \<Rightarrow> catalog_page_attributes_attrs sf_builder" where
  "pga_set_description v b = b\<lparr> sb_attrs :=
    (sb_attrs b)\<lparr> pga_page_description := v \<rparr> \<rparr>"

definition pga_set_keywords :: "64 word option
    \<Rightarrow> catalog_page_attributes_attrs sf_builder
    \<Rightarrow> catalog_page_attributes_attrs sf_builder" where
  "pga_set_keywords v b = b\<lparr> sb_attrs :=
    (sb_attrs b)\<lparr> pga_page_keywords := v \<rparr> \<rparr>"

definition pga_set_page_url :: "64 word option
    \<Rightarrow> catalog_page_attributes_attrs sf_builder
    \<Rightarrow> catalog_page_attributes_attrs sf_builder" where
  "pga_set_page_url v b = b\<lparr> sb_attrs :=
    (sb_attrs b)\<lparr> pga_page_url := v \<rparr> \<rparr>"

definition to_catalog_page_attributes :: "catalog_page_attributes_attrs sf_builder
    \<Rightarrow> catalog_page_attributes_attrs sf_object" where
  "to_catalog_page_attributes b = create_catalog_page_attributes (sb_id b) (sb_type b) (sb_import b)"

text \<open>\<open>ep_sf_catalog_attribute_reference\<close>\<close>

record catalog_attribute_reference_attrs =
  arf_attribute_id :: "string option"
  arf_system :: "bool option"

definition blank_catalog_attribute_reference :: catalog_attribute_reference_attrs where
  "blank_catalog_attribute_reference = \<lparr> arf_attribute_id = None, arf_system = None \<rparr>"

definition create_catalog_attribute_reference ::
  "64 word \<Rightarrow> sf_object_type \<Rightarrow> 64 word
    \<Rightarrow> catalog_attribute_reference_attrs sf_object" where
  "create_catalog_attribute_reference i t m = new_object i t m (blank_catalog_attribute_reference)"

definition arf_set_attribute_id :: "string option
    \<Rightarrow> catalog_attribute_reference_attrs sf_builder
    \<Rightarrow> catalog_attribute_reference_attrs sf_builder" where
  "arf_set_attribute_id v b = b\<lparr> sb_attrs :=
    (sb_attrs b)\<lparr> arf_attribute_id := v \<rparr> \<rparr>"

definition arf_set_system :: "bool option
    \<Rightarrow> catalog_attribute_reference_attrs sf_builder
    \<Rightarrow> catalog_attribute_reference_attrs sf_builder" where
  "arf_set_system v b = b\<lparr> sb_attrs := (sb_attrs b)\<lparr> arf_system := v \<rparr> \<rparr>"

definition to_catalog_attribute_reference :: "catalog_attribute_reference_attrs sf_builder \<Rightarrow> catalog_attribute_reference_attrs sf_object" where
  "to_catalog_attribute_reference b = create_catalog_attribute_reference (sb_id b) (sb_type b)
    (sb_import b)"

text \<open>\<open>ep_sf_catalog_attribute_group\<close>\<close>

record catalog_attribute_group_attrs =
  agr_display_name :: "64 word option"
  agr_description :: "64 word option"
  agr_variable_attribute :: "64 word option"
  agr_group_id :: "string option"

definition blank_catalog_attribute_group :: catalog_attribute_group_attrs where
  "blank_catalog_attribute_group = \<lparr> agr_display_name = None, agr_description = None,
    agr_variable_attribute = None, agr_group_id = None \<rparr>"

definition create_catalog_attribute_group ::
  "64 word \<Rightarrow> sf_object_type \<Rightarrow> 64 word
    \<Rightarrow> catalog_attribute_group_attrs sf_object" where
  "create_catalog_attribute_group i t m = new_object i t m (blank_catalog_attribute_group)"

definition agr_set_display_name :: "64 word option
    \<Rightarrow> catalog_attribute_group_attrs sf_builder
    \<Rightarrow> catalog_attribute_group_attrs sf_builder" where
  "agr_set_display_name v b = b\<lparr> sb_attrs :=
    (sb_attrs b)\<lparr> agr_display_name := v \<rparr> \<rparr>"

definition agr_set_description :: "64 word option
    \<Rightarrow> catalog_attribute_group_attrs sf_builder
    \<Rightarrow> catalog_attribute_group_attrs sf_builder" where
  "agr_set_description v b = b\<lparr> sb_attrs :=
    (sb_attrs b)\<lparr> agr_description := v \<rparr> \<rparr>"

definition agr_set_variable_attribute :: "64 word option
    \<Rightarrow> catalog_attribute_group_attrs sf_builder
    \<Rightarrow> catalog_attribute_group_attrs sf_builder" where
  "agr_set_variable_attribute v b = b\<lparr> sb_attrs :=
    (sb_attrs b)\<lparr> agr_variable_attribute := v \<rparr> \<rparr>"

definition to_catalog_attribute_group :: "catalog_attribute_group_attrs sf_builder
    \<Rightarrow> catalog_attribute_group_attrs sf_object" where
  "to_catalog_attribute_group b = create_catalog_attribute_group (sb_id b) (sb_type b) (sb_import b)"

text \<open>\<open>ep_sf_catalog_refinement_definitions\<close>\<close>

record catalog_refinement_definitions_attrs =
  rds_refinement_definition :: "64 word option"
  rds_blocked_refinement_definition :: "64 word option"

definition blank_catalog_refinement_definitions :: catalog_refinement_definitions_attrs where
  "blank_catalog_refinement_definitions = \<lparr> rds_refinement_definition = None,
    rds_blocked_refinement_definition = None \<rparr>"

definition create_catalog_refinement_definitions ::
  "64 word \<Rightarrow> sf_object_type \<Rightarrow> 64 word
    \<Rightarrow> catalog_refinement_definitions_attrs sf_object" where
  "create_catalog_refinement_definitions i t m = new_object i t m
    (blank_catalog_refinement_definitions)"

definition rds_set_refinement_definition :: "64 word option
    \<Rightarrow> catalog_refinement_definitions_attrs sf_builder
    \<Rightarrow> catalog_refinement_definitions_attrs sf_builder" where
  "rds_set_refinement_definition v b = b\<lparr> sb_attrs :=
    (sb_attrs b)\<lparr> rds_refinement_definition := v \<rparr> \<rparr>"

definition rds_set_blocked_refinement_definition :: "64 word option
    \<Rightarrow> catalog_refinement_definitions_attrs sf_builder
    \<Rightarrow> catalog_refinement_definitions_attrs sf_builder" where
  "rds_set_blocked_refinement_definition v b = b\<lparr> sb_attrs :=
    (sb_attrs b)\<lparr> rds_blocked_refinement_definition := v \<rparr> \<rparr>"

definition to_catalog_refinement_definitions :: "catalog_refinement_definitions_attrs sf_builder \<Rightarrow> catalog_refinement_definitions_attrs sf_object" where
  "to_catalog_refinement_definitions b = create_catalog_refinement_definitions (sb_id b) (sb_type b)
    (sb_import b)"

text \<open>\<open>ep_sf_catalog_attribute_refinement_bucket\<close>\<close>

record catalog_attribute_refinement_bucket_attrs =
  arb_display_name :: "64 word option"
  arb_value_list :: "64 word option"
  arb_presentation_id :: "string option"
  arb_description :: "64 word option"
  arb_default :: "bool option"

definition blank_catalog_attribute_refinement_bucket :: catalog_attribute_refinement_bucket_attrs where
  "blank_catalog_attribute_refinement_bucket = \<lparr> arb_display_name = None,
    arb_value_list = None, arb_presentation_id = None, arb_description = None,
    arb_default = None \<rparr>"

definition create_catalog_attribute_refinement_bucket ::
  "64 word \<Rightarrow> sf_object_type \<Rightarrow> 64 word
    \<Rightarrow> catalog_attribute_refinement_bucket_attrs sf_object" where
  "create_catalog_attribute_refinement_bucket i t m = new_object i t m
    (blank_catalog_attribute_refinement_bucket)"

definition arb_set_display_name :: "64 word option
    \<Rightarrow> catalog_attribute_refinement_bucket_attrs sf_builder
    \<Rightarrow> catalog_attribute_refinement_bucket_attrs sf_builder" where
  "arb_set_display_name v b = b\<lparr> sb_attrs :=
    (sb_attrs b)\<lparr> arb_display_name := v \<rparr> \<rparr>"

definition arb_set_value_list :: "64 word option
    \<Rightarrow> catalog_attribute_refinement_bucket_attrs sf_builder
    \<Rightarrow> catalog_attribute_refinement_bucket_attrs sf_builder" where
  "arb_set_value_list v b = b\<lparr> sb_attrs :=
    (sb_attrs b)\<lparr> arb_value_list := v \<rparr> \<rparr>"

definition arb_set_presentation_id :: "string option
    \<Rightarrow> catalog_attribute_refinement_bucket_attrs sf_builder
    \<Rightarrow> catalog_attribute_refinement_bucket_attrs sf_builder" where
  "arb_set_presentation_id v b = b\<lparr> sb_attrs :=
    (sb_attrs b)\<lparr> arb_presentation_id := v \<rparr> \<rparr>"

definition arb_set_description :: "64 word option
    \<Rightarrow> catalog_attribute_refinement_bucket_attrs sf_builder
    \<Rightarrow> catalog_attribute_refinement_bucket_attrs sf_builder" where
  "arb_set_description v b = b\<lparr> sb_attrs :=
    (sb_attrs b)\<lparr> arb_description := v \<rparr> \<rparr>"

definition to_catalog_attribute_refinement :: "catalog_attribute_refinement_bucket_attrs sf_builder \<Rightarrow> catalog_attribute_refinement_bucket_attrs sf_object" where
  "to_catalog_attribute_refinement b = create_catalog_attribute_refinement_bucket (sb_id b)
    (sb_type b) (sb_import b)"

text \<open>\<open>ep_sf_catalog_price_refinement_bucket\<close>\<close>

record catalog_price_refinement_bucket_attrs =
  prb_display_name :: "64 word option"
  prb_threshold :: "double option"
  prb_currency :: "string option"

definition blank_catalog_price_refinement_bucket :: catalog_price_refinement_bucket_attrs where
  "blank_catalog_price_refinement_bucket = \<lparr> prb_display_name = None, prb_threshold = None,
    prb_currency = None \<rparr>"

definition create_catalog_price_refinement_bucket ::
  "64 word \<Rightarrow> sf_object_type \<Rightarrow> 64 word
    \<Rightarrow> catalog_price_refinement_bucket_attrs sf_object" where
  "create_catalog_price_refinement_bucket i t m = new_object i t m
    (blank_catalog_price_refinement_bucket)"

definition prb_set_display_name :: "64 word option
    \<Rightarrow> catalog_price_refinement_bucket_attrs sf_builder
    \<Rightarrow> catalog_price_refinement_bucket_attrs sf_builder" where
  "prb_set_display_name v b = b\<lparr> sb_attrs :=
    (sb_attrs b)\<lparr> prb_display_name := v \<rparr> \<rparr>"

definition prb_set_threshold :: "double option
    \<Rightarrow> catalog_price_refinement_bucket_attrs sf_builder
    \<Rightarrow> catalog_price_refinement_bucket_attrs sf_builder" where
  "prb_set_threshold v b = b\<lparr> sb_attrs :=
    (sb_attrs b)\<lparr> prb_threshold := v \<rparr> \<rparr>"

definition prb_set_currency :: "string option
    \<Rightarrow> catalog_price_refinement_bucket_attrs sf_builder
    \<Rightarrow> catalog_price_refinement_bucket_attrs sf_builder" where
  "prb_set_currency v b = b\<lparr> sb_attrs :=
    (sb_attrs b)\<lparr> prb_currency := v \<rparr> \<rparr>"

definition to_catalog_price_refinement_bucket :: "catalog_price_refinement_bucket_attrs sf_builder \<Rightarrow> catalog_price_refinement_bucket_attrs sf_object" where
  "to_catalog_price_refinement_bucket b = create_catalog_price_refinement_bucket (sb_id b)
    (sb_type b) (sb_import b)"

text \<open>\<open>ep_sf_catalog_threshold_refinement_bucket\<close>\<close>

record catalog_threshold_refinement_bucket_attrs =
  thb_display_name :: "64 word option"
  thb_threshold :: "64 word option"
  thb_presentation_id :: "string option"
  thb_description :: "64 word option"

definition blank_catalog_threshold_refinement_bucket :: catalog_threshold_refinement_bucket_attrs where
  "blank_catalog_threshold_refinement_bucket = \<lparr> thb_display_name = None,
    thb_threshold = None, thb_presentation_id = None, thb_description = None \<rparr>"

definition create_catalog_threshold_refinement_bucket ::
  "64 word \<Rightarrow> sf_object_type \<Rightarrow> 64 word
    \<Rightarrow> catalog_threshold_refinement_bucket_attrs sf_object" where
  "create_catalog_threshold_refinement_bucket i t m = new_object i t m
    (blank_catalog_threshold_refinement_bucket)"

definition thb_set_display_name :: "64 word option
    \<Rightarrow> catalog_threshold_refinement_bucket_attrs sf_builder
    \<Rightarrow> catalog_threshold_refinement_bucket_attrs sf_builder" where
  "thb_set_display_name v b = b\<lparr> sb_attrs :=
    (sb_attrs b)\<lparr> thb_display_name := v \<rparr> \<rparr>"

definition thb_set_threshold :: "64 word option
    \<Rightarrow> catalog_threshold_refinement_bucket_attrs sf_builder
    \<Rightarrow> catalog_threshold_refinement_bucket_attrs sf_builder" where
  "thb_set_threshold v b = b\<lparr> sb_attrs :=
    (sb_attrs b)\<lparr> thb_threshold := v \<rparr> \<rparr>"

definition thb_set_presentation_id :: "string option
    \<Rightarrow> catalog_threshold_refinement_bucket_attrs sf_builder
    \<Rightarrow> catalog_threshold_refinement_bucket_attrs sf_builder" where
  "thb_set_presentation_id v b = b\<lparr> sb_attrs :=
    (sb_attrs b)\<lparr> thb_presentation_id := v \<rparr> \<rparr>"

definition thb_set_description :: "64 word option
    \<Rightarrow> catalog_threshold_refinement_bucket_attrs sf_builder
    \<Rightarrow> catalog_threshold_refinement_bucket_attrs sf_builder" where
  "thb_set_description v b = b\<lparr> sb_attrs :=
    (sb_attrs b)\<lparr> thb_description := v \<rparr> \<rparr>"

definition to_catalog_threshold_refinement_bucket :: "catalog_threshold_refinement_bucket_attrs sf_builder \<Rightarrow> catalog_threshold_refinement_bucket_attrs sf_object" where
  "to_catalog_threshold_refinement_bucket b = create_catalog_threshold_refinement_bucket (sb_id b)
    (sb_type b) (sb_import b)"

text \<open>\<open>ep_sf_catalog_period_refinement_bucket\<close>\<close>

record catalog_period_refinement_bucket_attrs =
  peb_display_name :: "64 word option"
  peb_duration_in_days :: "32 word option"
  peb_presentation_id :: "string option"
  peb_description :: "64 word option"

definition blank_catalog_period_refinement_bucket :: catalog_period_refinement_bucket_attrs where
  "blank_catalog_period_refinement_bucket = \<lparr> peb_display_name = None,
    peb_duration_in_days = None, peb_presentation_id = None, peb_description = None \<rparr>"

definition create_catalog_period_refinement_bucket ::
  "64 word \<Rightarrow> sf_object_type \<Rightarrow> 64 word
    \<Rightarrow> catalog_period_refinement_bucket_attrs sf_object" where
  "create_catalog_period_refinement_bucket i t m = new_object i t m
    (blank_catalog_period_refinement_bucket)"

definition peb_set_display_name :: "64 word option
    \<Rightarrow> catalog_period_refinement_bucket_attrs sf_builder
    \<Rightarrow> catalog_period_refinement_bucket_attrs sf_builder" where
  "peb_set_display_name v b = b\<lparr> sb_attrs :=
    (sb_attrs b)\<lparr> peb_display_name := v \<rparr> \<rparr>"

definition peb_set_duration_in_days :: "32 word option
    \<Rightarrow> catalog_period_refinement_bucket_attrs sf_builder
    \<Rightarrow> catalog_period_refinement_bucket_attrs sf_builder" where
  "peb_set_duration_in_days v b = b\<lparr> sb_attrs :=
    (sb_attrs b)\<lparr> peb_duration_in_days := v \<rparr> \<rparr>"

definition peb_set_presentation_id :: "string option
    \<Rightarrow> catalog_period_refinement_bucket_attrs sf_builder
    \<Rightarrow> catalog_period_refinement_bucket_attrs sf_builder" where
  "peb_set_presentation_id v b = b\<lparr> sb_attrs :=
    (sb_attrs b)\<lparr> peb_presentation_id := v \<rparr> \<rparr>"

definition peb_set_description :: "64 word option
    \<Rightarrow> catalog_period_refinement_bucket_attrs sf_builder
    \<Rightarrow> catalog_period_refinement_bucket_attrs sf_builder" where
  "peb_set_description v b = b\<lparr> sb_attrs :=
    (sb_attrs b)\<lparr> peb_description := v \<rparr> \<rparr>"

text \<open>\<open>ep_sf_catalog_refinement_buckets\<close>\<close>

record catalog_refinement_buckets_attrs =
  rbs_attribute_bucket :: "64 word option"
  rbs_price_bucket :: "64 word option"
  rbs_threshold_bucket :: "64 word option"
  rbs_period_bucket :: "64 word option"

definition blank_catalog_refinement_buckets :: catalog_refinement_buckets_attrs where
  "blank_catalog_refinement_buckets = \<lparr> rbs_attribute_bucket = None, rbs_price_bucket = None,
    rbs_threshold_bucket = None, rbs_period_bucket = None \<rparr>"

definition create_catalog_refinement_buckets ::
  "64 word \<Rightarrow> sf_object_type \<Rightarrow> 64 word
    \<Rightarrow> catalog_refinement_buckets_attrs sf_object" where
  "create_catalog_refinement_buckets i t m = new_object i t m (blank_catalog_refinement_buckets)"

definition rbs_set_attribute_bucket :: "64 word option
    \<Rightarrow> catalog_refinement_buckets_attrs sf_builder
    \<Rightarrow> catalog_refinement_buckets_attrs sf_builder" where
  "rbs_set_attribute_bucket v b = b\<lparr> sb_attrs :=
    (sb_attrs b)\<lparr> rbs_attribute_bucket := v \<rparr> \<rparr>"

definition rbs_set_price_bucket :: "64 word option
    \<Rightarrow> catalog_refinement_buckets_attrs sf_builder
    \<Rightarrow> catalog_refinement_buckets_attrs sf_builder" where
  "rbs_set_price_bucket v b = b\<lparr> sb_attrs :=
    (sb_attrs b)\<lparr> rbs_price_bucket := v \<rparr> \<rparr>"

definition rbs_set_threshold_bucket :: "64 word option
    \<Rightarrow> catalog_refinement_buckets_attrs sf_builder
    \<Rightarrow> catalog_refinement_buckets_attrs sf_builder" where
  "rbs_set_threshold_bucket v b = b\<lparr> sb_attrs :=
    (sb_attrs b)\<lparr> rbs_threshold_bucket := v \<rparr> \<rparr>"

definition rbs_set_period_bucket :: "64 word option
    \<Rightarrow> catalog_refinement_buckets_attrs sf_builder
    \<Rightarrow> catalog_refinement_buckets_attrs sf_builder" where
  "rbs_set_period_bucket v b = b\<lparr> sb_attrs :=
    (sb_attrs b)\<lparr> rbs_period_bucket := v \<rparr> \<rparr>"

definition to_catalog_refinement_buckets :: "catalog_refinement_buckets_attrs sf_builder \<Rightarrow> catalog_refinement_buckets_attrs sf_object" where
  "to_catalog_refinement_buckets b = create_catalog_refinement_buckets (sb_id b) (sb_type b)
    (sb_import b)"

text \<open>\<open>ep_sf_catalog_refinement_definition\<close>\<close>

record catalog_refinement_definition_attrs =
  rdn_display_name :: "64 word option"
  rdn_value_set :: "string option"
  rdn_sort_mode :: "string option"
  rdn_sort_direction :: "string option"
  rdn_unbucketed_values_mode :: "string option"
  rdn_cutoff_threshold :: "32 word option"
  rdn_bucket_definitions :: "64 word option"
  rdn_type :: "string option"
  rdn_bucket_type :: "string option"
  rdn_attribute_id :: "string option"
  rdn_system :: "bool option"

definition blank_catalog_refinement_definition :: catalog_refinement_definition_attrs where
  "blank_catalog_refinement_definition = \<lparr> rdn_display_name = None, rdn_value_set = None,
    rdn_sort_mode = None, rdn_sort_direction = None, rdn_unbucketed_values_mode = None,
    rdn_cutoff_threshold = None, rdn_bucket_definitions = None, rdn_type = None,
    rdn_bucket_type = None, rdn_attribute_id = None, rdn_system = None \<rparr>"

definition create_catalog_refinement_definition ::
  "64 word \<Rightarrow> sf_object_type \<Rightarrow> 64 word
    \<Rightarrow> catalog_refinement_definition_attrs sf_object" where
  "create_catalog_refinement_definition i t m = new_object i t m (blank_catalog_refinement_definition)"

definition rdn_set_display_name :: "64 word option
    \<Rightarrow> catalog_refinement_definition_attrs sf_builder
    \<Rightarrow> catalog_refinement_definition_attrs sf_builder" where
  "rdn_set_display_name v b = b\<lparr> sb_attrs :=
    (sb_attrs b)\<lparr> rdn_display_name := v \<rparr> \<rparr>"

definition rdn_set_value_set :: "string option
    \<Rightarrow> catalog_refinement_definition_attrs sf_builder
    \<Rightarrow> catalog_refinement_definition_attrs sf_builder" where
  "rdn_set_value_set v b = b\<lparr> sb_attrs :=
    (sb_attrs b)\<lparr> rdn_value_set := v \<rparr> \<rparr>"

definition rdn_set_sort_mode :: "string option
    \<Rightarrow> catalog_refinement_definition_attrs sf_builder
    \<Rightarrow> catalog_refinement_definition_attrs sf_builder" where
  "rdn_set_sort_mode v b = b\<lparr> sb_attrs :=
    (sb_attrs b)\<lparr> rdn_sort_mode := v \<rparr> \<rparr>"

definition rdn_set_sort_direction :: "string option
    \<Rightarrow> catalog_refinement_definition_attrs sf_builder
    \<Rightarrow> catalog_refinement_definition_attrs sf_builder" where
  "rdn_set_sort_direction v b = b\<lparr> sb_attrs :=
    (sb_attrs b)\<lparr> rdn_sort_direction := v \<rparr> \<rparr>"

definition rdn_set_unbucketed_values_mode :: "string option
    \<Rightarrow> catalog_refinement_definition_attrs sf_builder
    \<Rightarrow> catalog_refinement_definition_attrs sf_builder" where
  "rdn_set_unbucketed_values_mode v b = b\<lparr> sb_attrs :=
    (sb_attrs b)\<lparr> rdn_unbucketed_values_mode := v \<rparr> \<rparr>"

definition rdn_set_cutoff_threshold :: "32 word option
    \<Rightarrow> catalog_refinement_definition_attrs sf_builder
    \<Rightarrow> catalog_refinement_definition_attrs sf_builder" where
  "rdn_set_cutoff_threshold v b = b\<lparr> sb_attrs :=
    (sb_attrs b)\<lparr> rdn_cutoff_threshold := v \<rparr> \<rparr>"

definition rdn_set_bucket_definitions :: "64 word option
    \<Rightarrow> catalog_refinement_definition_attrs sf_builder
    \<Rightarrow> catalog_refinement_definition_attrs sf_builder" where
  "rdn_set_bucket_definitions v b = b\<lparr> sb_attrs :=
    (sb_attrs b)\<lparr> rdn_bucket_definitions := v \<rparr> \<rparr>"

definition rdn_set_type :: "string option
    \<Rightarrow> catalog_refinement_definition_attrs sf_builder
    \<Rightarrow> catalog_refinement_definition_attrs sf_builder" where
  "rdn_set_type v b = b\<lparr> sb_attrs := (sb_attrs b)\<lparr> rdn_type := v \<rparr> \<rparr>"

definition rdn_set_bucket_type :: "string option
    \<Rightarrow> catalog_refinement_definition_attrs sf_builder
    \<Rightarrow> catalog_refinement_definition_attrs sf_builder" where
  "rdn_set_bucket_type v b = b\<lparr> sb_attrs :=
    (sb_attrs b)\<lparr> rdn_bucket_type := v \<rparr> \<rparr>"

definition rdn_set_attribute_id :: "string option
    \<Rightarrow> catalog_refinement_definition_attrs sf_builder
    \<Rightarrow> catalog_refinement_definition_attrs sf_builder" where
  "rdn_set_attribute_id v b = b\<lparr> sb_attrs :=
    (sb_attrs b)\<lparr> rdn_attribute_id := v \<rparr> \<rparr>"

definition rdn_set_system :: "bool option
    \<Rightarrow> catalog_refinement_definition_attrs sf_builder
    \<Rightarrow> catalog_refinement_definition_attrs sf_builder" where
  "rdn_set_system v b = b\<lparr> sb_attrs := (sb_attrs b)\<lparr> rdn_system := v \<rparr> \<rparr>"

definition to_catalog_refinement_definition :: "catalog_refinement_definition_attrs sf_builder \<Rightarrow> catalog_refinement_definition_attrs sf_object" where
  "to_catalog_refinement_definition b = create_catalog_refinement_definition (sb_id b) (sb_type b)
    (sb_import b)"

text \<open>\<open>ep_sf_catalog_product_brand_filter\<close>\<close>

record catalog_product_brand_filter_attrs =
  brf_brand :: "64 word option"
  brf_operator :: "string option"

definition blank_catalog_product_brand_filter :: catalog_product_brand_filter_attrs where
  "blank_catalog_product_brand_filter = \<lparr> brf_brand = None, brf_operator = None \<rparr>"

definition create_catalog_product_brand_filter ::
  "64 word \<Rightarrow> sf_object_type \<Rightarrow> 64 word
    \<Rightarrow> catalog_product_brand_filter_attrs sf_object" where
  "create_catalog_product_brand_filter i t m = new_object i t m (blank_catalog_product_brand_filter)"

definition brf_set_brand :: "64 word option
    \<Rightarrow> catalog_product_brand_filter_attrs sf_builder
    \<Rightarrow> catalog_product_brand_filter_attrs sf_builder" where
  "brf_set_brand v b = b\<lparr> sb_attrs := (sb_attrs b)\<lparr> brf_brand := v \<rparr> \<rparr>"

definition brf_set_operator :: "string option
    \<Rightarrow> catalog_product_brand_filter_attrs sf_builder
    \<Rightarrow> catalog_product_brand_filter_attrs sf_builder" where
  "brf_set_operator v b = b\<lparr> sb_attrs :=
    (sb_attrs b)\<lparr> brf_operator := v \<rparr> \<rparr>"

definition to_catalog_product_brand_filter :: "catalog_product_brand_filter_attrs sf_builder \<Rightarrow> catalog_product_brand_filter_attrs sf_object" where
  "to_catalog_product_brand_filter b = create_catalog_product_brand_filter (sb_id b) (sb_type b)
    (sb_import b)"

text \<open>\<open>ep_sf_catalog_product_id_filter\<close>\<close>

record catalog_product_id_filter_attrs =
  idf_product_id :: "64 word option"
  idf_operator :: "string option"

definition blank_catalog_product_id_filter :: catalog_product_id_filter_attrs where
  "blank_catalog_product_id_filter = \<lparr> idf_product_id = None, idf_operator = None \<rparr>"

definition create_catalog_product_id_filter ::
  "64 word \<Rightarrow> sf_object_type \<Rightarrow> 64 word
    \<Rightarrow> catalog_product_id_filter_attrs sf_object" where
  "create_catalog_product_id_filter i t m = new_object i t m (blank_catalog_product_id_filter)"

definition to_catalog_product_id_filter :: "catalog_product_id_filter_attrs sf_builder
    \<Rightarrow> catalog_product_id_filter_attrs sf_object" where
  "to_catalog_product_id_filter b = create_catalog_product_id_filter (sb_id b) (sb_type b)
    (sb_import b)"

text \<open>\<open>ep_sf_catalog_product_category_filter\<close>\<close>

record catalog_product_category_filter_attrs =
  ctf_category_id :: "64 word option"
  ctf_operator :: "string option"
  ctf_catalog_id :: "string option"

definition blank_catalog_product_category_filter :: catalog_product_category_filter_attrs where
  "blank_catalog_product_category_filter = \<lparr> ctf_category_id = None, ctf_operator = None,
    ctf_catalog_id = None \<rparr>"

definition create_catalog_product_category_filter ::
  "64 word \<Rightarrow> sf_object_type \<Rightarrow> 64 word
    \<Rightarrow> catalog_product_category_filter_attrs sf_object" where
  "create_catalog_product_category_filter i t m = new_object i t m
    (blank_catalog_product_category_filter)"

definition ctf_set_category_id :: "64 word option
    \<Rightarrow> catalog_product_category_filter_attrs sf_builder
    \<Rightarrow> catalog_product_category_filter_attrs sf_builder" where
  "ctf_set_category_id v b = b\<lparr> sb_attrs :=
    (sb_attrs b)\<lparr> ctf_category_id := v \<rparr> \<rparr>"

definition ctf_set_operator :: "string option
    \<Rightarrow> catalog_product_category_filter_attrs sf_builder
    \<Rightarrow> catalog_product_category_filter_attrs sf_builder" where
  "ctf_set_operator v b = b\<lparr> sb_attrs :=
    (sb_attrs b)\<lparr> ctf_operator := v \<rparr> \<rparr>"

definition ctf_set_catalog_id :: "string option
    \<Rightarrow> catalog_product_category_filter_attrs sf_builder
    \<Rightarrow> catalog_product_category_filter_attrs sf_builder" where
  "ctf_set_catalog_id v b = b\<lparr> sb_attrs :=
    (sb_attrs b)\<lparr> ctf_catalog_id := v \<rparr> \<rparr>"

definition to_catalog_product_category_filter :: "catalog_product_category_filter_attrs sf_builder \<Rightarrow> catalog_product_category_filter_attrs sf_object" where
  "to_catalog_product_category_filter b = create_catalog_product_category_filter (sb_id b)
    (sb_type b) (sb_import b)"

text \<open>\<open>ep_sf_catalog_product_attribute_filter\<close>\<close>

record catalog_product_attribute_filter_attrs =
  atf_attribute_value :: "64 word option"
  atf_operator :: "string option"
  atf_catalog_id :: "string option"

definition blank_catalog_product_attribute_filter :: catalog_product_attribute_filter_attrs where
  "blank_catalog_product_attribute_filter = \<lparr> atf_attribute_value = None, atf_operator = None,
    atf_catalog_id = None \<rparr>"

definition create_catalog_product_attribute_filter ::
  "64 word \<Rightarrow> sf_object_type \<Rightarrow> 64 word
    \<Rightarrow> catalog_product_attribute_filter_attrs sf_object" where
  "create_catalog_product_attribute_filter i t m = new_object i t m
    (blank_catalog_product_attribute_filter)"

definition atf_set_attribute_value :: "64 word option
    \<Rightarrow> catalog_product_attribute_filter_attrs sf_builder
    \<Rightarrow> catalog_product_attribute_filter_attrs sf_builder" where
  "atf_set_attribute_value v b = b\<lparr> sb_attrs :=
    (sb_attrs b)\<lparr> atf_attribute_value := v \<rparr> \<rparr>"

definition atf_set_operator_value :: "string option
    \<Rightarrow> catalog_product_attribute_filter_attrs sf_builder
    \<Rightarrow> catalog_product_attribute_filter_attrs sf_builder" where
  "atf_set_operator_value v b = b\<lparr> sb_attrs :=
    (sb_attrs b)\<lparr> atf_operator := v \<rparr> \<rparr>"

definition atf_set_catalog_id :: "string option
    \<Rightarrow> catalog_product_attribute_filter_attrs sf_builder
    \<Rightarrow> catalog_product_attribute_filter_attrs sf_builder" where
  "atf_set_catalog_id v b = b\<lparr> sb_attrs :=
    (sb_attrs b)\<lparr> atf_catalog_id := v \<rparr> \<rparr>"

definition to_catalog_product_attribute_filter :: "catalog_product_attribute_filter_attrs sf_builder \<Rightarrow> catalog_product_attribute_filter_attrs sf_object" where
  "to_catalog_product_attribute_filter b = create_catalog_product_attribute_filter (sb_id b)
    (sb_type b) (sb_import b)"

text \<open>\<open>ep_sf_catalog_product_specification_condition_group\<close>\<close>

record catalog_product_specification_condition_group_attrs =
  cgr_brand_condition :: "64 word option"
  cgr_product_id_condition :: "64 word option"
  cgr_category_condition :: "64 word option"
  cgr_attribute_condition :: "64 word option"

definition blank_catalog_product_specification_condition_group :: catalog_product_specification_condition_group_attrs where
  "blank_catalog_product_specification_condition_group = \<lparr> cgr_brand_condition = None,
    cgr_product_id_condition = None, cgr_category_condition = None,
    cgr_attribute_condition = None \<rparr>"

definition create_catalog_product_specification_condition_group ::
  "64 word \<Rightarrow> sf_object_type \<Rightarrow> 64 word
    \<Rightarrow> catalog_product_specification_condition_group_attrs sf_object" where
  "create_catalog_product_specification_condition_group i t m = new_object i t m
    (blank_catalog_product_specification_condition_group)"

definition cgr_set_brand_condition :: "64 word option
    \<Rightarrow> catalog_product_specification_condition_group_attrs sf_builder
    \<Rightarrow> catalog_product_specification_condition_group_attrs sf_builder" where
  "cgr_set_brand_condition v b = b\<lparr> sb_attrs :=
    (sb_attrs b)\<lparr> cgr_brand_condition := v \<rparr> \<rparr>"

definition cgr_set_product_id_condition :: "64 word option
    \<Rightarrow> catalog_product_specification_condition_group_attrs sf_builder
    \<Rightarrow> catalog_product_specification_condition_group_attrs sf_builder" where
  "cgr_set_product_id_condition v b = b\<lparr> sb_attrs :=
    (sb_attrs b)\<lparr> cgr_product_id_condition := v \<rparr> \<rparr>"

definition cgr_set_category_condition :: "64 word option
    \<Rightarrow> catalog_product_specification_condition_group_attrs sf_builder
    \<Rightarrow> catalog_product_specification_condition_group_attrs sf_builder" where
  "cgr_set_category_condition v b = b\<lparr> sb_attrs :=
    (sb_attrs b)\<lparr> cgr_category_condition := v \<rparr> \<rparr>"

definition cgr_set_attribute_condition :: "64 word option
    \<Rightarrow> catalog_product_specification_condition_group_attrs sf_builder
    \<Rightarrow> catalog_product_specification_condition_group_attrs sf_builder" where
  "cgr_set_attribute_condition v b = b\<lparr> sb_attrs :=
    (sb_attrs b)\<lparr> cgr_attribute_condition := v \<rparr> \<rparr>"

definition to_catalog_product_specification_condition_group :: "catalog_product_specification_condition_group_attrs sf_builder \<Rightarrow> catalog_product_specification_condition_group_attrs sf_object" where
  "to_catalog_product_specification_condition_group b = create_catalog_product_specification_condition_group (sb_id b) (sb_type b) (sb_import b)"

text \<open>\<open>ep_sf_catalog_product_specification\<close>\<close>

record catalog_product_specification_attrs =
  spc_included_products :: "64 word option"
  spc_excluded_products :: "64 word option"

definition blank_catalog_product_specification :: catalog_product_specification_attrs where
  "blank_catalog_product_specification = \<lparr> spc_included_products = None,
    spc_excluded_products = None \<rparr>"

definition create_catalog_product_specification ::
  "64 word \<Rightarrow> sf_object_type \<Rightarrow> 64 word
    \<Rightarrow> catalog_product_specification_attrs sf_object" where
  "create_catalog_product_specification i t m = new_object i t m (blank_catalog_product_specification)"

definition spc_set_included_products :: "64 word option
    \<Rightarrow> catalog_product_specification_attrs sf_builder
    \<Rightarrow> catalog_product_specification_attrs sf_builder" where
  "spc_set_included_products v b = b\<lparr> sb_attrs :=
    (sb_attrs b)\<lparr> spc_included_products := v \<rparr> \<rparr>"

definition spc_set_excluded_products :: "64 word option
    \<Rightarrow> catalog_product_specification_attrs sf_builder
    \<Rightarrow> catalog_product_specification_attrs sf_builder" where
  "spc_set_excluded_products v b = b\<lparr> sb_attrs :=
    (sb_attrs b)\<lparr> spc_excluded_products := v \<rparr> \<rparr>"

definition to_catalog_product_specification_group :: "catalog_product_specification_attrs sf_builder \<Rightarrow> catalog_product_specification_attrs sf_object" where
  "to_catalog_product_specification_group b = create_catalog_product_specification (sb_id b)
    (sb_type b) (sb_import b)"

text \<open>\<open>ep_sf_catalog_product_specification_rule\<close>\<close>

record catalog_product_specification_rule_attrs =
  spr_name :: "string option"
  spr_description :: "string option"
  spr_enabled_flag :: "bool option"
  spr_last_calculated :: "ptime option"
  spr_product_specification :: "64 word option"

definition blank_catalog_product_specification_rule :: catalog_product_specification_rule_attrs where
  "blank_catalog_product_specification_rule = \<lparr> spr_name = None, spr_description = None,
    spr_enabled_flag = None, spr_last_calculated = None, spr_product_specification = None \<rparr>"

definition create_catalog_product_specification_rule ::
  "64 word \<Rightarrow> sf_object_type \<Rightarrow> 64 word
    \<Rightarrow> catalog_product_specification_rule_attrs sf_object" where
  "create_catalog_product_specification_rule i t m = new_object i t m
    (blank_catalog_product_specification_rule)"

definition spr_set_name :: "string option
    \<Rightarrow> catalog_product_specification_rule_attrs sf_builder
    \<Rightarrow> catalog_product_specification_rule_attrs sf_builder" where
  "spr_set_name v b = b\<lparr> sb_attrs := (sb_attrs b)\<lparr> spr_name := v \<rparr> \<rparr>"

definition spr_set_description :: "string option
    \<Rightarrow> catalog_product_specification_rule_attrs sf_builder
    \<Rightarrow> catalog_product_specification_rule_attrs sf_builder" where
  "spr_set_description v b = b\<lparr> sb_attrs :=
    (sb_attrs b)\<lparr> spr_description := v \<rparr> \<rparr>"

definition spr_set_enabled_flag :: "bool option
    \<Rightarrow> catalog_product_specification_rule_attrs sf_builder
    \<Rightarrow> catalog_product_specification_rule_attrs sf_builder" where
  "spr_set_enabled_flag v b = b\<lparr> sb_attrs :=
    (sb_attrs b)\<lparr> spr_enabled_flag := v \<rparr> \<rparr>"

definition spr_set_last_calculated :: "ptime option
    \<Rightarrow> catalog_product_specification_rule_attrs sf_builder
    \<Rightarrow> catalog_product_specification_rule_attrs sf_builder" where
  "spr_set_last_calculated v b = b\<lparr> sb_attrs :=
    (sb_attrs b)\<lparr> spr_last_calculated := v \<rparr> \<rparr>"

definition spr_set_product_specification :: "64 word option
    \<Rightarrow> catalog_product_specification_rule_attrs sf_builder
    \<Rightarrow> catalog_product_specification_rule_attrs sf_builder" where
  "spr_set_product_specification v b = b\<lparr> sb_attrs :=
    (sb_attrs b)\<lparr> spr_product_specification := v \<rparr> \<rparr>"

definition to_catalog_product_specification_rule :: "catalog_product_specification_rule_attrs sf_builder \<Rightarrow> catalog_product_specification_rule_attrs sf_object" where
  "to_catalog_product_specification_rule b = create_catalog_product_specification_rule (sb_id b)
    (sb_type b) (sb_import b)"

text \<open>\<open>ep_sf_catalog_page_meta_tag_rule\<close>\<close>

record catalog_page_meta_tag_rule_attrs =
  pmt_rule_id :: "string option"

definition blank_catalog_page_meta_tag_rule :: catalog_page_meta_tag_rule_attrs where
  "blank_catalog_page_meta_tag_rule = \<lparr> pmt_rule_id = None \<rparr>"

definition create_catalog_page_meta_tag_rule ::
  "64 word \<Rightarrow> sf_object_type \<Rightarrow> 64 word
    \<Rightarrow> catalog_page_meta_tag_rule_attrs sf_object" where
  "create_catalog_page_meta_tag_rule i t m = new_object i t m (blank_catalog_page_meta_tag_rule)"

definition pmt_set_rule_id :: "string option
    \<Rightarrow> catalog_page_meta_tag_rule_attrs sf_builder
    \<Rightarrow> catalog_page_meta_tag_rule_attrs sf_builder" where
  "pmt_set_rule_id v b = b\<lparr> sb_attrs := (sb_attrs b)\<lparr> pmt_rule_id := v \<rparr> \<rparr>"

definition to_catalog_page_meta_tag_rule :: "catalog_page_meta_tag_rule_attrs sf_builder \<Rightarrow> catalog_page_meta_tag_rule_attrs sf_object" where
  "to_catalog_page_meta_tag_rule b = create_catalog_page_meta_tag_rule (sb_id b) (sb_type b)
    (sb_import b)"

end
