(* ===== verification/SfImport.thy ===== *)
theory SfImport imports SfSchema begin

text \<open>
  The import of a catalogue document (\<open>easyprospect-service-plugin-salesforce.cpp\<close>): the recursion over
  the document tree with its stack of builders (\<open>from_xml\<close>) and the walk after it (\<open>sf_catalog_split2\<close>).
  Builders are shared by reference, so they live in a heap and the stack holds their addresses, the
  top first. The document is the parser's result.
\<close>

section \<open>The document\<close>

text \<open>An attribute has a local name and a value, each possibly null; an element a local name, possibly null,
  and a qualified name. The number of another node is its type.\<close>

datatype dom_node =
    DomText string
  | DomElement "string option" string "(string option \<times> string option) list" "dom_node list"
  | DomOther nat "dom_node list"

text \<open>\<open>get_attribute\<close>: a multimap of the attributes that have a name; \<open>find\<close> gives the first of a name.\<close>

definition get_attribute :: "(string option \<times> string option) list \<Rightarrow> (string \<times> string) list" where
  "get_attribute as = filter (\<lambda>(n, v). n \<noteq> [])
     (map (\<lambda>(n, v). (case n of None \<Rightarrow> [] | Some x \<Rightarrow> x, case v of None \<Rightarrow> [] | Some x \<Rightarrow> x)) as)"

section \<open>Builders by reference\<close>

datatype any_builder =
    BCatalog "catalog_attrs sf_builder"
  | BHeader "catalog_header_attrs sf_builder"
  | BImageSettings "catalog_header_image_settings_attrs sf_builder"
  | BInternalLocation "catalog_header_image_internal_location_attrs sf_builder"
  | BViewTypes "catalog_header_image_view_types_attrs sf_builder"
  | BCategory "catalog_category_attrs sf_builder"
  | BRelationship "relationship_attrs sf_builder"

text \<open>The setters of the base class on a builder of any class.\<close>

fun any_set_ids :: "64 word \<Rightarrow> 64 word \<Rightarrow> any_builder \<Rightarrow> any_builder" where
  "any_set_ids i m (BCatalog b) = BCatalog (set_import_id m (set_id i b))"
| "any_set_ids i m (BHeader b) = BHeader (set_import_id m (set_id i b))"
| "any_set_ids i m (BImageSettings b) = BImageSettings (set_import_id m (set_id i b))"
| "any_set_ids i m (BInternalLocation b) = BInternalLocation (set_import_id m (set_id i b))"
| "any_set_ids i m (BViewTypes b) = BViewTypes (set_import_id m (set_id i b))"
| "any_set_ids i m (BCategory b) = BCategory (set_import_id m (set_id i b))"
| "any_set_ids i m (BRelationship b) = BRelationship (set_import_id m (set_id i b))"

text \<open>\<open>to_object\<close> is overridden for relationships and catalogues.\<close>

datatype any_object =
    ObjBase "unit sf_object"
  | ObjCatalog "catalog_attrs sf_object"
  | ObjRelationship "relationship_attrs sf_object"

fun to_object :: "any_builder \<Rightarrow> any_object" where
  "to_object (BCatalog b) = ObjCatalog (to_catalog b)"
| "to_object (BRelationship b) = ObjRelationship (to_relationship b)"
| "to_object (BHeader b) = ObjBase (to_base_object b)"
| "to_object (BImageSettings b) = ObjBase (to_base_object b)"
| "to_object (BInternalLocation b) = ObjBase (to_base_object b)"
| "to_object (BViewTypes b) = ObjBase (to_base_object b)"
| "to_object (BCategory b) = ObjBase (to_base_object b)"

fun any_type :: "any_object \<Rightarrow> sf_object_type" where
  "any_type (ObjBase x) = so_type x"
| "any_type (ObjCatalog x) = so_type x"
| "any_type (ObjRelationship x) = so_type x"

record ('d, 's) import_state =
  im_db :: "('d, 's) sqlite_state"
  im_heap :: "any_builder list"
  im_stack :: "nat list"

type_synonym ('d, 's, 'a) import = "(('d, 's) import_state, 'a) action"

definition alloc :: "any_builder \<Rightarrow> ('d, 's, nat) import" where
  "alloc b s = (Inr (length (im_heap s)), s\<lparr> im_heap := im_heap s @ [b] \<rparr>)"

definition update_at :: "nat \<Rightarrow> any_builder \<Rightarrow> ('d, 's, unit) import" where
  "update_at a b = modify (\<lambda>s. s\<lparr> im_heap := (im_heap s)[a := b] \<rparr>)"

definition push :: "nat \<Rightarrow> ('d, 's, unit) import" where
  "push a = modify (\<lambda>s. s\<lparr> im_stack := a # im_stack s \<rparr>)"

text \<open>\<open>back()\<close> of an empty deque is undefined.\<close>

definition top :: "('d, 's, nat) import" where
  "top s = (case im_stack s of [] \<Rightarrow> (Inl UndefinedBehaviour, s) | a # _ \<Rightarrow> (Inr a, s))"

definition pop :: "('d, 's, nat) import" where
  "pop s = (case im_stack s of [] \<Rightarrow> (Inl UndefinedBehaviour, s)
     | a # as \<Rightarrow> (Inr a, s\<lparr> im_stack := as \<rparr>))"

text \<open>\<open>db->get_db()->create_statement()->insert_new_object()\<close>.\<close>

definition new_row :: "('d, 's) sqlite_lib \<Rightarrow> ('d, 's, 64 word) import" where
  "new_row l s = (case insert_new_object l (create_statement (sq_db (im_db s))) of
     (r, t) \<Rightarrow> (r, s\<lparr> im_db := t \<rparr>))"

definition give_ids :: "('d, 's) sqlite_lib \<Rightarrow> 64 word \<Rightarrow> nat \<Rightarrow> ('d, 's, 64 word) import" where
  "give_ids l m a = bnd (new_row l) (\<lambda>i.
     bnd (modify (\<lambda>s. s\<lparr> im_heap := (im_heap s)[a := any_set_ids i m (im_heap s ! a)] \<rparr>)) (\<lambda>_. ret i))"

text \<open>\<open>new_parser_object\<close> with a stack and, for \<open>nullptr\<close>, without: the builder's address and its id.\<close>

definition new_parser_object ::
  "('d, 's) sqlite_lib \<Rightarrow> 64 word \<Rightarrow> bool \<Rightarrow> any_builder \<Rightarrow> ('d, 's, nat \<times> 64 word) import" where
  "new_parser_object l m on_stack b = bnd (alloc b) (\<lambda>a.
     bnd (if on_stack then push a else ret ()) (\<lambda>_.
     bnd (give_ids l m a) (\<lambda>i. ret (a, i))))"

text \<open>\<open>get_obj_parent\<close> for a catalogue: a wrong type is logged, which may throw; the pair of object and
  builder, each null when the class is another.\<close>

definition get_catalog_parent ::
  "nat \<Rightarrow> ('d, 's, catalog_attrs sf_object option \<times> catalog_attrs sf_builder option) import" where
  "get_catalog_parent a s =
    (let b = im_heap s ! a; ob = to_object b in
     case (if any_type ob \<noteq> SfCatalog
           then rbind (sf_type_to_string (any_type ob)) (\<lambda>_. rbind (sf_type_to_string SfCatalog) (\<lambda>_. Inr ()))
           else Inr ()) of
       Inl e \<Rightarrow> (Inl e, s)
     | Inr _ \<Rightarrow> (Inr (case ob of ObjCatalog c \<Rightarrow> Some c | _ \<Rightarrow> None,
                      case b of BCatalog c \<Rightarrow> Some c | _ \<Rightarrow> None), s))"

section \<open>Elements\<close>

text \<open>The elements that only make a builder and push it.\<close>

definition plain_push :: "any_builder \<Rightarrow> ('d, 's, bool) import" where
  "plain_push b = bnd (alloc b) (\<lambda>a. bnd (push a) (\<lambda>_. ret True))"

definition on_catalog :: "('d, 's) sqlite_lib \<Rightarrow> 64 word \<Rightarrow> ('d, 's, bool) import" where
  "on_catalog l m = bnd (new_parser_object l m True (BCatalog new_catalog_builder)) (\<lambda>_. ret True)"

text \<open>The builder behind \<open>catalog.second\<close> is the stack's top at \<open>p\<close>.\<close>

definition set_catalog ::
  "nat \<Rightarrow> (catalog_attrs sf_builder \<Rightarrow> catalog_attrs sf_builder) \<Rightarrow> ('d, 's, unit) import" where
  "set_catalog p f s = (case im_heap s ! p of
     BCatalog c \<Rightarrow> (Inr (), s\<lparr> im_heap := (im_heap s)[p := BCatalog (f c)] \<rparr>)
   | _ \<Rightarrow> (Inl UndefinedBehaviour, s))"

definition on_header :: "('d, 's) sqlite_lib \<Rightarrow> 64 word \<Rightarrow> ('d, 's, bool) import" where
  "on_header l m = bnd top (\<lambda>p. bnd (get_catalog_parent p) (\<lambda>catalog.
     bnd (new_parser_object l m True (BHeader (new_builder blank_catalog_header))) (\<lambda>(a, i).
     bnd (set_catalog p (cat_set_header (Some i))) (\<lambda>_. ret True))))"

text \<open>A category that has a relationship table already would use a null builder.\<close>

definition on_category ::
  "('d, 's) sqlite_lib \<Rightarrow> relationship_attrs \<Rightarrow> 64 word \<Rightarrow> ('d, 's, bool) import" where
  "on_category l garbage m = bnd top (\<lambda>p. bnd (get_catalog_parent p) (\<lambda>(cat, bdr).
     bnd (new_parser_object l m True (BCategory (new_builder blank_catalog_category))) (\<lambda>_.
     case cat of
       None \<Rightarrow> throw UndefinedBehaviour
     | Some c \<Rightarrow>
         if cat_category (so_attrs c) \<noteq> None then throw UndefinedBehaviour
         else bnd (new_parser_object l m False (BRelationship (new_relationship_builder garbage))) (\<lambda>(r, i).
           bnd (set_catalog p (cat_set_category (Some i))) (\<lambda>_. ret True)))))"

text \<open>The parent of image settings or of a location is only checked, with a message that may throw, until
  its builder is used.\<close>

definition check_parent :: "nat \<Rightarrow> sf_object_type \<Rightarrow> ('d, 's, unit) import" where
  "check_parent p t s = (let t' = any_type (to_object (im_heap s ! p)) in
     (if t' \<noteq> t then rbind (sf_type_to_string t') (\<lambda>_. Inr ()) else Inr (), s))"

definition on_image_settings :: "('d, 's) sqlite_lib \<Rightarrow> 64 word \<Rightarrow> ('d, 's, bool) import" where
  "on_image_settings l m =
    bnd top (\<lambda>p. bnd (check_parent p SfCatalogHeader) (\<lambda>_.
    bnd (alloc (BImageSettings (new_builder blank_catalog_header_image_settings))) (\<lambda>a.
    bnd (push a) (\<lambda>_. bnd (give_ids l m a) (\<lambda>i s.
      case im_heap s ! p of
        BHeader h \<Rightarrow> (Inr True, s\<lparr> im_heap := (im_heap s)[p := BHeader (hdr_set_image_settings (Some i) h)] \<rparr>)
      | _ \<Rightarrow> (Inl UndefinedBehaviour, s))))))"

definition on_internal_location ::
  "('d, 's) sqlite_lib \<Rightarrow> 64 word \<Rightarrow> (string option \<times> string option) list \<Rightarrow> ('d, 's, bool) import" where
  "on_internal_location l m attrs =
    bnd top (\<lambda>p. bnd (check_parent p SfCatalogImageSettings) (\<lambda>_.
    bnd (alloc (BInternalLocation (new_builder blank_catalog_header_image_internal_location))) (\<lambda>a.
    bnd (push a) (\<lambda>_. bnd (give_ids l m a) (\<lambda>i s.
      case im_heap s ! p of
        BImageSettings b \<Rightarrow>
          (let h = (im_heap s)[p := BImageSettings (ims_set_internal_location (Some i) b)] in
           (Inr True, s\<lparr> im_heap := (case map_of (get_attribute attrs) ''base-path'' of
                None \<Rightarrow> h
              | Some v \<Rightarrow> (case h ! a of
                    BInternalLocation c \<Rightarrow> h[a := BInternalLocation (inl_set_base_path (Some v) c)]
                  | _ \<Rightarrow> h)) \<rparr>))
      | _ \<Rightarrow> (Inl UndefinedBehaviour, s))))))"

definition on_view_types :: "('d, 's) sqlite_lib \<Rightarrow> 64 word \<Rightarrow> ('d, 's, bool) import" where
  "on_view_types l m =
    bnd (alloc (BViewTypes (new_builder blank_catalog_header_image_view_types))) (\<lambda>a.
    bnd (push a) (\<lambda>_. bnd (give_ids l m a) (\<lambda>_. ret True)))"

text \<open>What is done at an element; the result is \<open>pop_stack\<close>.\<close>

definition on_element ::
  "('d, 's) sqlite_lib \<Rightarrow> relationship_attrs \<Rightarrow> 64 word \<Rightarrow> string \<Rightarrow> (string option \<times> string option) list
    \<Rightarrow> ('d, 's, bool) import" where
  "on_element l garbage m name attrs =
    (if name = ''catalog'' then on_catalog l m
     else if name = ''header'' then on_header l m
     else if name = ''category'' then on_category l garbage m
     else if name = ''image-settings'' then on_image_settings l m
     else if name = ''internal-location'' then on_internal_location l m attrs
     else if name = ''view-types'' then on_view_types l m
     else if name = ''view-type'' then plain_push (BRelationship (set_import_id m
         (rel_set_dst_type SfString (new_relationship_builder garbage))))
     else if name = ''variation-attribute-id'' \<or> name = ''alt-pattern'' \<or> name = ''title-pattern''
         \<or> name = ''parent'' then plain_push (BRelationship (new_relationship_builder garbage))
     else ret False)"

definition node_name :: "string option \<Rightarrow> string \<Rightarrow> string" where
  "node_name local qualified = (case local of Some n \<Rightarrow> n | None \<Rightarrow> qualified)"

fun from_xml ::
  "('d, 's) sqlite_lib \<Rightarrow> relationship_attrs \<Rightarrow> 64 word \<Rightarrow> dom_node \<Rightarrow> ('d, 's, nat option) import"
and from_children ::
  "('d, 's) sqlite_lib \<Rightarrow> relationship_attrs \<Rightarrow> 64 word \<Rightarrow> dom_node list \<Rightarrow> ('d, 's, unit) import" where
  "from_xml l g m (DomText t) = ret None"
| "from_xml l g m (DomOther k ns) = bnd (from_children l g m ns) (\<lambda>_. ret None)"
| "from_xml l g m (DomElement loc q as ns) =
    bnd (on_element l g m (node_name loc q) as) (\<lambda>pop_stack.
    bnd (from_children l g m ns) (\<lambda>_.
      if pop_stack then bnd pop (\<lambda>a. ret (Some a)) else ret None))"
| "from_children l g m [] = ret ()"
| "from_children l g m (n # ns) = bnd (from_xml l g m n) (\<lambda>_. from_children l g m ns)"

section \<open>The walk after it\<close>

text \<open>The tree walker visits the root and all nodes below it in document order, by their qualified
  names.\<close>

definition walk_element ::
  "('d, 's) sqlite_lib \<Rightarrow> relationship_attrs \<Rightarrow> 64 word \<Rightarrow> string \<Rightarrow> ('d, 's, unit) import" where
  "walk_element l g m name =
    (if name = ''catalog'' then
       bnd (alloc (BCatalog new_catalog_builder)) (\<lambda>a. bnd (push a) (\<lambda>_. bnd (give_ids l m a) (\<lambda>_. ret ())))
     else if name = ''header'' then
       bnd (alloc (BHeader (new_builder blank_catalog_header))) (\<lambda>a.
         bnd (push a) (\<lambda>_. bnd (give_ids l m a) (\<lambda>_. ret ())))
     else if name = ''category'' then
       bnd (alloc (BCategory (new_builder blank_catalog_category))) (\<lambda>a. bnd (give_ids l m a) (\<lambda>_. ret ()))
     else if name = ''image-settings'' then
       bnd (alloc (BImageSettings (new_builder blank_catalog_header_image_settings))) (\<lambda>a.
         bnd (give_ids l m a) (\<lambda>_. ret ()))
     else if name = ''internal-location'' then
       bnd (alloc (BInternalLocation (new_builder blank_catalog_header_image_internal_location))) (\<lambda>a.
         bnd (give_ids l m a) (\<lambda>_. ret ()))
     else if name = ''view-types'' then
       bnd (alloc (BViewTypes (new_builder blank_catalog_header_image_view_types))) (\<lambda>a.
         bnd (give_ids l m a) (\<lambda>_. ret ()))
     else if name = ''view-type'' then
       bnd (alloc (BRelationship (set_import_id m (rel_set_dst_type SfString (new_relationship_builder g)))))
         (\<lambda>_. ret ())
     else ret ())"

fun walk ::
  "('d, 's) sqlite_lib \<Rightarrow> relationship_attrs \<Rightarrow> 64 word \<Rightarrow> dom_node \<Rightarrow> ('d, 's, unit) import"
and walk_list ::
  "('d, 's) sqlite_lib \<Rightarrow> relationship_attrs \<Rightarrow> 64 word \<Rightarrow> dom_node list \<Rightarrow> ('d, 's, unit) import" where
  "walk l g m (DomText t) = ret ()"
| "walk l g m (DomOther k ns) = walk_list l g m ns"
| "walk l g m (DomElement loc q as ns) = bnd (walk_element l g m q) (\<lambda>_. walk_list l g m ns)"
| "walk_list l g m [] = ret ()"
| "walk_list l g m (n # ns) = bnd (walk l g m n) (\<lambda>_. walk_list l g m ns)"

definition sf_catalog_split2 ::
  "('d, 's) sqlite_lib \<Rightarrow> relationship_attrs \<Rightarrow> 64 word \<Rightarrow> dom_node \<Rightarrow> ('d, 's, unit) import" where
  "sf_catalog_split2 l g m root =
    catch_all (bnd (modify (\<lambda>s. s\<lparr> im_stack := [] \<rparr>)) (\<lambda>_.
      bnd (from_xml l g m root) (\<lambda>_. walk l g m root)))"

section \<open>Facts\<close>

datatype builder_class = CCatalog | CHeader | CImageSettings | CInternalLocation | CViewTypes
  | CCategory | CRelationship

fun class_of :: "any_builder \<Rightarrow> builder_class" where
  "class_of (BCatalog _) = CCatalog"
| "class_of (BHeader _) = CHeader"
| "class_of (BImageSettings _) = CImageSettings"
| "class_of (BInternalLocation _) = CInternalLocation"
| "class_of (BViewTypes _) = CViewTypes"
| "class_of (BCategory _) = CCategory"
| "class_of (BRelationship _) = CRelationship"

text \<open>The class an element pushes, the class it needs on the top of the stack, and the rows it inserts.\<close>

definition pushed :: "string \<Rightarrow> builder_class option" where
  "pushed name =
    (if name = ''catalog'' then Some CCatalog
     else if name = ''header'' then Some CHeader
     else if name = ''category'' then Some CCategory
     else if name = ''image-settings'' then Some CImageSettings
     else if name = ''internal-location'' then Some CInternalLocation
     else if name = ''view-types'' then Some CViewTypes
     else if name \<in> {''view-type'', ''variation-attribute-id'', ''alt-pattern'', ''title-pattern'', ''parent''}
     then Some CRelationship
     else None)"

definition needed :: "string \<Rightarrow> builder_class option" where
  "needed name =
    (if name = ''header'' \<or> name = ''category'' then Some CCatalog
     else if name = ''image-settings'' then Some CHeader
     else if name = ''internal-location'' then Some CImageSettings
     else None)"

definition element_rows :: "string \<Rightarrow> nat" where
  "element_rows name =
    (if name = ''category'' then 2
     else if name \<in> {''catalog'', ''header'', ''image-settings'', ''internal-location'', ''view-types''} then 1
     else 0)"

definition fits :: "builder_class option \<Rightarrow> string \<Rightarrow> bool" where
  "fits c name = (needed name = None \<or> needed name = c)"

definition below :: "builder_class option \<Rightarrow> string \<Rightarrow> builder_class option" where
  "below c name = (if pushed name = None then c else pushed name)"

fun nested :: "builder_class option \<Rightarrow> dom_node \<Rightarrow> bool" where
  "nested c (DomText t) = True"
| "nested c (DomOther k ns) = list_all (nested c) ns"
| "nested c (DomElement loc q as ns) =
    (fits c (node_name loc q) \<and> list_all (nested (below c (node_name loc q))) ns)"

fun rows :: "dom_node \<Rightarrow> nat" where
  "rows (DomText t) = 0"
| "rows (DomOther k ns) = sum_list (map rows ns)"
| "rows (DomElement loc q as ns) = element_rows (node_name loc q) + sum_list (map rows ns)"

text \<open>Inserting an object; the hypothesis is that the insert is never refused.\<close>

definition insert_row :: "('d, 's) sqlite_lib \<Rightarrow> 'd \<Rightarrow> 'd" where
  "insert_row l d = snd (sl_exec l d object_sql)"

definition inserts_succeed :: "('d, 's) sqlite_lib \<Rightarrow> bool" where
  "inserts_succeed l = (\<forall>d. fst (sl_exec l d object_sql) = None)"

text \<open>The heap grows and no builder changes its class.\<close>

definition heap_grows :: "('d, 's) import_state \<Rightarrow> ('d, 's) import_state \<Rightarrow> bool" where
  "heap_grows s t \<longleftrightarrow> length (im_heap s) \<le> length (im_heap t) \<and>
     (\<forall>a < length (im_heap s). class_of (im_heap t ! a) = class_of (im_heap s ! a))"

interpretation growing: kept_relation heap_grows
  by unfold_locales (auto simp: heap_grows_def)

definition import_ok :: "('d, 's) import_state \<Rightarrow> bool" where
  "import_ok s \<longleftrightarrow> (\<forall>a \<in> set (im_stack s). a < length (im_heap s)) \<and>
     (\<forall>b \<in> set (im_heap s). any_type (to_object b) \<noteq> SfCategory)"

definition top_class :: "('d, 's) import_state \<Rightarrow> builder_class option" where
  "top_class s = (case im_stack s of [] \<Rightarrow> None | a # _ \<Rightarrow> Some (class_of (im_heap s ! a)))"

definition db_of :: "('d, 's) import_state \<Rightarrow> 'd" where
  "db_of s = sq_db (im_db s)"

definition row_state :: "('d, 's) sqlite_lib \<Rightarrow> 'd \<Rightarrow> ('d, 's) sqlite_state" where
  "row_state l d = \<lparr> sq_db = insert_row l d, st_handle = None, st_last_rc = 0 \<rparr>"

definition row_id :: "('d, 's) sqlite_lib \<Rightarrow> 'd \<Rightarrow> 64 word" where
  "row_id l d = scast (ucast (sl_last_rowid l (insert_row l d)) :: 32 word)"

lemma db_of_row_state [simp]: "sq_db (row_state l d) = insert_row l d"
  by (simp add: row_state_def)

lemma new_row_eq:
  assumes "inserts_succeed l"
  shows "new_row l s = (Inr (row_id l (db_of s)), s\<lparr> im_db := row_state l (db_of s) \<rparr>)"
proof -
  have "fst (sl_exec l (db_of s) object_sql) = None" using assms by (simp add: inserts_succeed_def)
  then show ?thesis
    by (cases "sl_exec l (db_of s) object_sql")
      (simp add: new_row_def insert_new_object_def runnow_def create_statement_def db_of_def bnd_def
        insert_row_def row_state_def row_id_def)
qed

lemma class_any_set_ids [simp]: "class_of (any_set_ids i m b) = class_of b"
  by (cases b) simp_all

lemma type_any_set_ids [simp]: "any_type (to_object (any_set_ids i m b)) = any_type (to_object b)"
  by (cases b) (simp_all add: to_base_object_def to_catalog_def create_catalog_def to_relationship_def)

declare any_set_ids.simps [simp del]

lemma give_ids_eq:
  "inserts_succeed l \<Longrightarrow> give_ids l m a s = (Inr (row_id l (db_of s)),
     s\<lparr> im_db := row_state l (db_of s),
        im_heap := (im_heap s)[a := any_set_ids (row_id l (db_of s)) m (im_heap s ! a)] \<rparr>)"
  by (simp add: give_ids_def bnd_def new_row_eq)

text \<open>A new builder: on the stack with a row, or beside it.\<close>

lemma new_parser_object_eq:
  "inserts_succeed l \<Longrightarrow> new_parser_object l m on_stack b s =
     (Inr (length (im_heap s), row_id l (db_of s)),
      s\<lparr> im_db := row_state l (db_of s), im_heap := im_heap s @ [any_set_ids (row_id l (db_of s)) m b],
         im_stack := (if on_stack then length (im_heap s) # im_stack s else im_stack s) \<rparr>)"
  by (simp add: new_parser_object_def alloc_def push_def bnd_def give_ids_eq db_of_def)

lemma alloc_push_ids:
  "bnd (alloc b) (\<lambda>a. bnd (push a) (\<lambda>_. bnd (give_ids l m a) (k a))) =
   bnd (new_parser_object l m True b) (\<lambda>(a, i). k a i)"
  by (rule ext) (simp add: new_parser_object_def bnd_def split: prod.split sum.split)

section \<open>One element\<close>

text \<open>What every element does: it puts at most one builder on the stack, at a new address.\<close>

definition element_post ::
  "('d, 's) sqlite_lib \<Rightarrow> string \<Rightarrow> ('d, 's) import_state \<Rightarrow> bool \<Rightarrow> ('d, 's) import_state \<Rightarrow> bool" where
  "element_post l name s b t \<longleftrightarrow> import_ok t \<and> heap_grows s t \<and> b = (pushed name \<noteq> None) \<and>
     im_stack t = (if b then length (im_heap s) # im_stack s else im_stack s) \<and>
     top_class t = below (top_class s) name \<and> db_of t = (insert_row l ^^ element_rows name) (db_of s)"

definition type_ok :: "any_builder \<Rightarrow> bool" where
  "type_ok b = (any_type (to_object b) \<noteq> SfCategory)"

lemma type_ok_builders [simp]:
  "type_ok (any_set_ids i m b) = type_ok b" "type_ok (BCatalog new_catalog_builder)"
  "type_ok (BCatalog (cat_set_header v c)) = type_ok (BCatalog c)"
  "type_ok (BCatalog (cat_set_category v c)) = type_ok (BCatalog c)"
  "type_ok (BHeader (hdr_set_image_settings v h)) = type_ok (BHeader h)"
  "type_ok (BImageSettings (ims_set_internal_location v d)) = type_ok (BImageSettings d)"
  "type_ok (BInternalLocation (inl_set_base_path w e)) = type_ok (BInternalLocation e)"
  "type_ok (BHeader (new_builder x1))" "type_ok (BImageSettings (new_builder x2))"
  "type_ok (BInternalLocation (new_builder x3))" "type_ok (BViewTypes (new_builder x4))"
  "type_ok (BCategory (new_builder x5))" "type_ok (BRelationship (new_relationship_builder g))"
  "type_ok (BRelationship (set_import_id m (rel_set_dst_type ty r))) = type_ok (BRelationship r)"
  by (simp_all add: type_ok_def to_base_object_def to_catalog_def create_catalog_def to_relationship_def
      new_catalog_builder_def cat_set_header_def cat_set_category_def hdr_set_image_settings_def
      ims_set_internal_location_def inl_set_base_path_def new_relationship_builder_def rel_set_dst_type_def
      set_type_def new_builder_def)

lemma import_ok_iff: "import_ok s \<longleftrightarrow>
    (\<forall>a \<in> set (im_stack s). a < length (im_heap s)) \<and> (\<forall>b \<in> set (im_heap s). type_ok b)"
  by (simp add: import_ok_def type_ok_def)

lemma grown_state:
  assumes "import_ok s" and "im_heap t = hp @ b0 # new" and "length hp = length (im_heap s)"
    and "\<And>a. a < length (im_heap s) \<Longrightarrow> class_of (hp ! a) = class_of (im_heap s ! a)"
    and "\<forall>b \<in> set hp. type_ok b" and "type_ok b0" and "\<forall>b \<in> set new. type_ok b"
    and "im_stack t = length (im_heap s) # im_stack s"
  shows "import_ok t \<and> heap_grows s t \<and> top_class t = Some (class_of b0)"
  using assms
  by (auto simp: import_ok_iff heap_grows_def top_class_def nth_append less_imp_le_nat
      intro: less_trans dest: bspec)

text \<open>The common case: the builder under the new one is replaced by one of its class.\<close>

lemma replaced_state:
  assumes "import_ok s" and "im_stack s = p # ps" and "im_heap t = (im_heap s)[p := b'] @ b0 # new"
    and "class_of b' = class_of (im_heap s ! p)" and "type_ok b'" and "type_ok b0"
    and "\<forall>b \<in> set new. type_ok b" and "im_stack t = length (im_heap s) # im_stack s"
  shows "import_ok t \<and> heap_grows s t \<and> top_class t = Some (class_of b0)"
proof (rule grown_state [OF assms(1,3)])
  show "\<forall>b \<in> set ((im_heap s)[p := b']). type_ok b"
    using assms(1,5) set_update_subset_insert [of "im_heap s" p b'] by (auto simp: import_ok_iff)
  show "class_of ((im_heap s)[p := b'] ! a) = class_of (im_heap s ! a)" if "a < length (im_heap s)" for a
    using assms(4) that by (cases "a = p") simp_all
qed (use assms in auto)

lemma pushed_state:
  assumes "import_ok s" and "im_heap t = im_heap s @ [b0]" and "type_ok b0"
    and "im_stack t = length (im_heap s) # im_stack s"
  shows "import_ok t \<and> heap_grows s t \<and> top_class t = Some (class_of b0)"
  by (rule grown_state [OF assms(1), where hp = "im_heap s" and new = "[]"])
    (use assms in \<open>auto simp: import_ok_iff\<close>)

lemma to_string_ok: "type_ok b \<Longrightarrow> \<exists>s. sf_type_to_string (any_type (to_object b)) = Inr s"
  by (cases "any_type (to_object b)") (simp_all add: type_ok_def)

lemma top_builder:
  assumes "import_ok s" and "im_stack s = p # ps"
  shows "p < length (im_heap s)" and "type_ok (im_heap s ! p)" and "top_class s = Some (class_of (im_heap s ! p))"
  using assms by (auto simp: import_ok_iff top_class_def)

lemma get_catalog_parent_eq:
  assumes "import_ok s" and "im_stack s = p # ps"
  shows "get_catalog_parent p s = (Inr
    (case to_object (im_heap s ! p) of ObjCatalog c \<Rightarrow> Some c | _ \<Rightarrow> None,
     case im_heap s ! p of BCatalog c \<Rightarrow> Some c | _ \<Rightarrow> None), s)"
  using to_string_ok [OF top_builder(2) [OF assms]]
  by (auto simp: get_catalog_parent_def Let_def)

lemma check_parent_eq:
  assumes "import_ok s" and "im_stack s = p # ps"
  shows "check_parent p t s = (Inr (), s)"
  using to_string_ok [OF top_builder(2) [OF assms]] by (auto simp: check_parent_def Let_def)

lemma post_intro:
  assumes "import_ok t \<and> heap_grows s t \<and> top_class t = Some c" and "pushed name = Some c"
    and "im_stack t = length (im_heap s) # im_stack s"
    and "db_of t = (insert_row l ^^ element_rows name) (db_of s)"
  shows "element_post l name s True t"
  using assms by (simp add: element_post_def below_def)

lemma on_catalog_ok:
  assumes "inserts_succeed l" and "import_ok s"
  shows "\<exists>t. on_catalog l m s = (Inr True, t) \<and> element_post l ''catalog'' s True t"
proof -
  let ?t = "s\<lparr> im_db := row_state l (db_of s),
    im_heap := im_heap s @ [any_set_ids (row_id l (db_of s)) m (BCatalog new_catalog_builder)],
    im_stack := length (im_heap s) # im_stack s \<rparr>"
  have "on_catalog l m s = (Inr True, ?t)"
    by (simp add: on_catalog_def bnd_def new_parser_object_eq [OF assms(1)])
  moreover have "element_post l ''catalog'' s True ?t"
    by (rule post_intro [OF pushed_state [OF assms(2), where
        ?b0.0 = "any_set_ids (row_id l (db_of s)) m (BCatalog new_catalog_builder)"]])
      (simp_all add: pushed_def element_rows_def db_of_def)
  ultimately show ?thesis by blast
qed

lemma on_view_types_ok:
  assumes "inserts_succeed l" and "import_ok s"
  shows "\<exists>t. on_view_types l m s = (Inr True, t) \<and> element_post l ''view-types'' s True t"
proof -
  let ?b = "any_set_ids (row_id l (db_of s)) m (BViewTypes (new_builder blank_catalog_header_image_view_types))"
  let ?t = "s\<lparr> im_db := row_state l (db_of s), im_heap := im_heap s @ [?b],
    im_stack := length (im_heap s) # im_stack s \<rparr>"
  have "on_view_types l m s = (Inr True, ?t)"
    unfolding on_view_types_def alloc_push_ids
    by (simp add: bnd_def new_parser_object_eq [OF assms(1)])
  moreover have "element_post l ''view-types'' s True ?t"
    by (rule post_intro [OF pushed_state [OF assms(2), where ?b0.0 = ?b]])
      (simp_all add: pushed_def element_rows_def db_of_def)
  ultimately show ?thesis by blast
qed

lemma plain_push_ok:
  assumes "import_ok s" and "type_ok b" and "pushed name = Some (class_of b)" and "element_rows name = 0"
  shows "\<exists>t. plain_push b s = (Inr True, t) \<and> element_post l name s True t"
proof -
  let ?t = "s\<lparr> im_heap := im_heap s @ [b], im_stack := length (im_heap s) # im_stack s \<rparr>"
  have "plain_push b s = (Inr True, ?t)"
    by (simp add: plain_push_def alloc_def push_def bnd_def)
  moreover have "element_post l name s True ?t"
    by (rule post_intro [OF pushed_state [OF assms(1), where ?b0.0 = b]])
      (simp_all add: assms db_of_def)
  ultimately show ?thesis by blast
qed

lemma catalog_parent_cases:
  assumes "import_ok s" and "im_stack s = p # ps"
  shows "fits (top_class s) ''header'' = (\<exists>c. im_heap s ! p = BCatalog c)"
    and "fits (top_class s) ''category'' = (\<exists>c. im_heap s ! p = BCatalog c)"
    and "fits (top_class s) ''image-settings'' = (\<exists>h. im_heap s ! p = BHeader h)"
    and "fits (top_class s) ''internal-location'' = (\<exists>i. im_heap s ! p = BImageSettings i)"
  using top_builder(3) [OF assms]
  by (cases "im_heap s ! p"; simp add: fits_def needed_def)+

lemma empty_stack:
  assumes "im_stack s = []"
  shows "top s = (Inl UndefinedBehaviour, s)" and "needed name \<noteq> None \<Longrightarrow> \<not> fits (top_class s) name"
  using assms by (auto simp: top_def top_class_def fits_def)

text \<open>The verdict on an element that needs a class on the stack.\<close>

definition verdict ::
  "('d, 's) sqlite_lib \<Rightarrow> string \<Rightarrow> ('d, 's) import_state \<Rightarrow> bool result \<times> ('d, 's) import_state \<Rightarrow> bool" where
  "verdict l name s out \<longleftrightarrow>
     (if fits (top_class s) name then (\<exists>b t. out = (Inr b, t) \<and> element_post l name s b t)
      else fst out = Inl UndefinedBehaviour)"

lemma on_header_verdict:
  assumes "inserts_succeed l" and "import_ok s"
  shows "verdict l ''header'' s (on_header l m s)"
proof (cases "im_stack s")
  case Nil
  from empty_stack [OF this] show ?thesis
    by (simp add: verdict_def on_header_def bnd_def needed_def)
next
  case (Cons p ps)
  note t = top_builder [OF assms(2) Cons]
  let ?b = "any_set_ids (row_id l (db_of s)) m (BHeader (new_builder blank_catalog_header))"
  let ?u = "s\<lparr> im_db := row_state l (db_of s), im_heap := im_heap s @ [?b],
      im_stack := length (im_heap s) # im_stack s \<rparr>"
  have run: "on_header l m s = bnd (set_catalog p (cat_set_header (Some (row_id l (db_of s))))) (\<lambda>_. ret True) ?u"
    using Cons by (simp add: on_header_def bnd_def top_def get_catalog_parent_eq [OF assms(2) Cons]
        new_parser_object_eq [OF assms(1)])
  show ?thesis
  proof (cases "\<exists>c. im_heap s ! p = BCatalog c")
    case True
    then obtain c where c: "im_heap s ! p = BCatalog c" by blast
    let ?h = "BCatalog (cat_set_header (Some (row_id l (db_of s))) c)"
    let ?t = "?u\<lparr> im_heap := (im_heap s)[p := ?h] @ [?b] \<rparr>"
    have "on_header l m s = (Inr True, ?t)"
      unfolding run using c t(1) by (simp add: bnd_def set_catalog_def nth_append list_update_append1)
    moreover have "type_ok (BCatalog c)" using t(2) c by simp
    then have "element_post l ''header'' s True ?t"
      by (intro post_intro [OF replaced_state [OF assms(2) Cons, where ?b0.0 = ?b and b' = ?h and new = "[]"]])
        (simp_all add: c pushed_def element_rows_def db_of_def)
    ultimately show ?thesis using catalog_parent_cases(1) [OF assms(2) Cons] True by (auto simp: verdict_def)
  next
    case False
    then have "fst (on_header l m s) = Inl UndefinedBehaviour"
      unfolding run using t(1) by (cases "im_heap s ! p") (simp_all add: bnd_def set_catalog_def nth_append)
    then show ?thesis using catalog_parent_cases(1) [OF assms(2) Cons] False by (simp add: verdict_def)
  qed
qed

lemma on_image_settings_verdict:
  assumes "inserts_succeed l" and "import_ok s"
  shows "verdict l ''image-settings'' s (on_image_settings l m s)"
proof (cases "im_stack s")
  case Nil
  from empty_stack [OF this] show ?thesis
    by (simp add: verdict_def on_image_settings_def bnd_def needed_def)
next
  case (Cons p ps)
  note t = top_builder [OF assms(2) Cons]
  let ?i = "row_id l (db_of s)"
  let ?b = "any_set_ids ?i m (BImageSettings (new_builder blank_catalog_header_image_settings))"
  let ?u = "s\<lparr> im_db := row_state l (db_of s), im_heap := im_heap s @ [?b],
      im_stack := length (im_heap s) # im_stack s \<rparr>"
  have run: "on_image_settings l m s = (case im_heap ?u ! p of
      BHeader h \<Rightarrow> (Inr True, ?u\<lparr> im_heap := (im_heap ?u)[p := BHeader (hdr_set_image_settings (Some ?i) h)] \<rparr>)
    | _ \<Rightarrow> (Inl UndefinedBehaviour, ?u))"
    using Cons unfolding on_image_settings_def alloc_push_ids
    by (simp add: bnd_def top_def check_parent_eq [OF assms(2) Cons] new_parser_object_eq [OF assms(1)])
  have up: "im_heap ?u ! p = im_heap s ! p" using t(1) by (simp add: nth_append)
  show ?thesis
  proof (cases "\<exists>h. im_heap s ! p = BHeader h")
    case True
    then obtain h where h: "im_heap s ! p = BHeader h" by blast
    let ?h = "BHeader (hdr_set_image_settings (Some ?i) h)"
    let ?t = "?u\<lparr> im_heap := (im_heap s)[p := ?h] @ [?b] \<rparr>"
    have "on_image_settings l m s = (Inr True, ?t)"
      unfolding run up using h t(1) by (simp add: list_update_append1)
    moreover have "type_ok (BHeader h)" using t(2) h by simp
    then have "element_post l ''image-settings'' s True ?t"
      by (intro post_intro [OF replaced_state [OF assms(2) Cons, where ?b0.0 = ?b and b' = ?h and new = "[]"]])
        (simp_all add: h pushed_def element_rows_def db_of_def)
    ultimately show ?thesis using catalog_parent_cases(3) [OF assms(2) Cons] True by (auto simp: verdict_def)
  next
    case False
    then have "fst (on_image_settings l m s) = Inl UndefinedBehaviour"
      unfolding run up by (cases "im_heap s ! p") simp_all
    then show ?thesis using catalog_parent_cases(3) [OF assms(2) Cons] False by (simp add: verdict_def)
  qed
qed

lemma on_internal_location_verdict:
  assumes "inserts_succeed l" and "import_ok s"
  shows "verdict l ''internal-location'' s (on_internal_location l m as s)"
proof (cases "im_stack s")
  case Nil
  from empty_stack [OF this] show ?thesis
    by (simp add: verdict_def on_internal_location_def bnd_def needed_def)
next
  case (Cons p ps)
  note t = top_builder [OF assms(2) Cons]
  let ?i = "row_id l (db_of s)"
  let ?c = "set_import_id m (set_id ?i (new_builder blank_catalog_header_image_internal_location))"
  let ?b = "BInternalLocation ?c"
  let ?u = "s\<lparr> im_db := row_state l (db_of s), im_heap := im_heap s @ [?b],
      im_stack := length (im_heap s) # im_stack s \<rparr>"
  have ids: "any_set_ids ?i m (BInternalLocation (new_builder blank_catalog_header_image_internal_location)) = ?b"
    by (simp add: any_set_ids.simps)
  define b' where "b' = (case map_of (get_attribute as) ''base-path'' of
      None \<Rightarrow> ?b | Some v \<Rightarrow> BInternalLocation (inl_set_base_path (Some v) ?c))"
  have up: "im_heap ?u ! p = im_heap s ! p" using t(1) by (simp add: nth_append)
  have run: "on_internal_location l m as s = (case im_heap s ! p of
      BImageSettings d \<Rightarrow> (Inr True, ?u\<lparr> im_heap :=
          (im_heap s)[p := BImageSettings (ims_set_internal_location (Some ?i) d)] @ [b'] \<rparr>)
    | _ \<Rightarrow> (Inl UndefinedBehaviour, ?u))"
    using Cons t(1) up unfolding on_internal_location_def alloc_push_ids
    by (cases "im_heap s ! p"; cases "map_of (get_attribute as) ''base-path''")
      (simp_all add: bnd_def top_def check_parent_eq [OF assms(2) Cons] new_parser_object_eq [OF assms(1)]
        ids b'_def Let_def nth_append list_update_append)
  have b': "class_of b' = CInternalLocation" "type_ok b'"
    using type_ok_builders(1) [of ?i m "BInternalLocation (new_builder blank_catalog_header_image_internal_location)"] ids
    by (simp_all add: b'_def split: option.split)
  show ?thesis
  proof (cases "\<exists>d. im_heap s ! p = BImageSettings d")
    case True
    then obtain d where d: "im_heap s ! p = BImageSettings d" by blast
    let ?h = "BImageSettings (ims_set_internal_location (Some ?i) d)"
    let ?t = "?u\<lparr> im_heap := (im_heap s)[p := ?h] @ [b'] \<rparr>"
    have "on_internal_location l m as s = (Inr True, ?t)" unfolding run using d by simp
    moreover have "type_ok (BImageSettings d)" using t(2) d by simp
    then have "element_post l ''internal-location'' s True ?t"
      by (intro post_intro [OF replaced_state [OF assms(2) Cons, where ?b0.0 = b' and b' = ?h and new = "[]"]])
        (simp_all add: d b' pushed_def element_rows_def db_of_def)
    ultimately show ?thesis using catalog_parent_cases(4) [OF assms(2) Cons] True by (auto simp: verdict_def)
  next
    case False
    then have "fst (on_internal_location l m as s) = Inl UndefinedBehaviour"
      unfolding run by (cases "im_heap s ! p") simp_all
    then show ?thesis using catalog_parent_cases(4) [OF assms(2) Cons] False by (simp add: verdict_def)
  qed
qed

text \<open>A category in a catalogue: two builders and two rows, and the catalogue is given the second.\<close>

lemma on_category_run:
  fixes l :: "('d, 's) sqlite_lib"
  defines "u \<equiv> \<lambda>g m s. s\<lparr> im_db := row_state l (insert_row l (db_of s)),
      im_heap := im_heap s @ [any_set_ids (row_id l (db_of s)) m (BCategory (new_builder blank_catalog_category)),
        any_set_ids (row_id l (insert_row l (db_of s))) m (BRelationship (new_relationship_builder g))],
      im_stack := length (im_heap s) # im_stack s \<rparr>"
  assumes "inserts_succeed l" and "import_ok s" and "im_stack s = p # ps"
  shows "im_heap s ! p = BCatalog c \<Longrightarrow> on_category l g m s = (Inr True, (u g m s)\<lparr> im_heap :=
      (im_heap (u g m s))[p := BCatalog (cat_set_category (Some (row_id l (insert_row l (db_of s)))) c)] \<rparr>)"
    and "\<nexists>c. im_heap s ! p = BCatalog c \<Longrightarrow> fst (on_category l g m s) = Inl UndefinedBehaviour"
proof -
  have p: "p < length (im_heap s)" by (rule top_builder(1) [OF assms(3,4)])
  show "im_heap s ! p = BCatalog c \<Longrightarrow> on_category l g m s = (Inr True, (u g m s)\<lparr> im_heap :=
      (im_heap (u g m s))[p := BCatalog (cat_set_category (Some (row_id l (insert_row l (db_of s)))) c)] \<rparr>)"
    using assms(4) p
    by (simp add: on_category_def bnd_def top_def get_catalog_parent_eq [OF assms(3,4)] u_def
        new_parser_object_eq [OF assms(2)] catalog_category_dropped set_catalog_def db_of_def nth_append)
  show "\<nexists>c. im_heap s ! p = BCatalog c \<Longrightarrow> fst (on_category l g m s) = Inl UndefinedBehaviour"
    using assms(4) p by (cases "im_heap s ! p")
      (simp_all add: on_category_def bnd_def top_def get_catalog_parent_eq [OF assms(3,4)]
        new_parser_object_eq [OF assms(2)])
qed

lemma on_category_verdict:
  assumes "inserts_succeed l" and "import_ok s"
  shows "verdict l ''category'' s (on_category l g m s)"
proof (cases "im_stack s")
  case Nil
  from empty_stack [OF this] show ?thesis
    by (simp add: verdict_def on_category_def bnd_def needed_def)
next
  case (Cons p ps)
  note t = top_builder [OF assms(2) Cons] and run = on_category_run [OF assms Cons]
  let ?d = "db_of s" and ?d' = "insert_row l (db_of s)"
  let ?b = "any_set_ids (row_id l ?d) m (BCategory (new_builder blank_catalog_category))"
  let ?r = "any_set_ids (row_id l ?d') m (BRelationship (new_relationship_builder g))"
  show ?thesis
  proof (cases "\<exists>c. im_heap s ! p = BCatalog c")
    case True
    then obtain c where c: "im_heap s ! p = BCatalog c" by blast
    let ?h = "BCatalog (cat_set_category (Some (row_id l ?d')) c)"
    let ?t = "s\<lparr> im_db := row_state l ?d', im_heap := (im_heap s)[p := ?h] @ [?b, ?r],
      im_stack := length (im_heap s) # im_stack s \<rparr>"
    have "on_category l g m s = (Inr True, ?t)" using run(1) [OF c] t(1) by (simp add: list_update_append1)
    moreover have "type_ok (BCatalog c)" using t(2) c by simp
    then have "element_post l ''category'' s True ?t"
      by (intro post_intro [OF replaced_state [OF assms(2) Cons, where ?b0.0 = ?b and b' = ?h and new = "[?r]"]])
        (simp_all add: c pushed_def element_rows_def db_of_def numeral_2_eq_2)
    ultimately show ?thesis using catalog_parent_cases(2) [OF assms(2) Cons] True by (auto simp: verdict_def)
  next
    case False
    then have "fst (on_category l g m s) = Inl UndefinedBehaviour"
      by (rule run(2))
    then show ?thesis using catalog_parent_cases(2) [OF assms(2) Cons] False by (simp add: verdict_def)
  qed
qed

lemma other_elements:
  assumes "pushed name = None"
  shows "on_element l g m name as = ret False" and "fits c name" and "element_rows name = 0"
  using assms by (auto simp: pushed_def on_element_def fits_def needed_def element_rows_def split: if_splits)

text \<open>The elements for which only a relationship is pushed.\<close>

lemma relationship_element:
  assumes "import_ok s"
    and "name \<in> {''variation-attribute-id'', ''alt-pattern'', ''title-pattern'', ''parent''}"
  shows "verdict l name s (on_element l g m name as s)"
proof -
  have n: "on_element l g m name as = plain_push (BRelationship (new_relationship_builder g))"
    "pushed name = Some CRelationship" "element_rows name = 0" "needed name = None"
    using assms(2) by (elim insertE emptyE; simp add: on_element_def pushed_def element_rows_def needed_def)+
  have "\<exists>t. plain_push (BRelationship (new_relationship_builder g)) s = (Inr True, t) \<and>
      element_post l name s True t"
    using assms(1) by (rule plain_push_ok) (simp_all add: n)
  then show ?thesis by (auto simp: n verdict_def fits_def)
qed

lemma element_verdict:
  assumes l: "inserts_succeed l" and s: "import_ok s"
  shows "verdict l name s (on_element l g m name as s)"
proof (cases "pushed name")
  case None
  have "element_post l name s False s"
    using s None growing.kept_refl [of s] by (simp add: element_post_def below_def other_elements(3))
  then show ?thesis using other_elements(2) [OF None, of "top_class s"]
    by (auto simp: verdict_def other_elements(1) [OF None])
next
  case (Some c)
  have "name \<in> {''catalog'', ''header'', ''category'', ''image-settings'', ''internal-location'', ''view-types'',
      ''view-type'', ''variation-attribute-id'', ''alt-pattern'', ''title-pattern'', ''parent''}"
  proof (rule ccontr)
    assume "\<not> ?thesis"
    then have "pushed name = None" by (simp add: pushed_def)
    with Some show False by simp
  qed
  then show ?thesis
  proof (elim insertE emptyE)
    assume n: "name = ''catalog''"
    then show ?thesis using on_catalog_ok [OF l s, of m]
      by (auto simp: on_element_def verdict_def fits_def needed_def)
  next
    assume n: "name = ''header''"
    then show ?thesis using on_header_verdict [OF l s, of m] by (simp add: on_element_def)
  next
    assume n: "name = ''category''"
    then show ?thesis using on_category_verdict [OF l s, of g m] by (simp add: on_element_def)
  next
    assume n: "name = ''image-settings''"
    then show ?thesis using on_image_settings_verdict [OF l s, of m] by (simp add: on_element_def)
  next
    assume n: "name = ''internal-location''"
    then show ?thesis using on_internal_location_verdict [OF l s, of m as] by (simp add: on_element_def)
  next
    assume n: "name = ''view-types''"
    then show ?thesis using on_view_types_ok [OF l s, of m]
      by (auto simp: on_element_def verdict_def fits_def needed_def)
  next
    assume n: "name = ''view-type''"
    have "\<exists>t. plain_push (BRelationship (set_import_id m (rel_set_dst_type SfString (new_relationship_builder g)))) s
        = (Inr True, t) \<and> element_post l name s True t"
      using s by (rule plain_push_ok) (simp_all add: n pushed_def element_rows_def)
    then show ?thesis using n by (auto simp: on_element_def verdict_def fits_def needed_def)
  next
    assume n: "name = ''variation-attribute-id''"
    then show ?thesis using relationship_element [OF s, of name l g m as] by simp
  next
    assume n: "name = ''alt-pattern''"
    then show ?thesis using relationship_element [OF s, of name l g m as] by simp
  next
    assume n: "name = ''title-pattern''"
    then show ?thesis using relationship_element [OF s, of name l g m as] by simp
  next
    assume n: "name = ''parent''"
    then show ?thesis using relationship_element [OF s, of name l g m as] by simp
  qed
qed

section \<open>The whole document\<close>

text \<open>What the import of a node or of a list of nodes leaves.\<close>

definition import_post ::
  "('d, 's) sqlite_lib \<Rightarrow> nat \<Rightarrow> ('d, 's) import_state \<Rightarrow> ('d, 's) import_state \<Rightarrow> bool" where
  "import_post l k s t \<longleftrightarrow> import_ok t \<and> heap_grows s t \<and> im_stack t = im_stack s \<and>
     db_of t = (insert_row l ^^ k) (db_of s)"

lemma top_class_kept:
  "import_ok s \<Longrightarrow> heap_grows s t \<Longrightarrow> im_stack t = im_stack s \<Longrightarrow> top_class t = top_class s"
  by (auto simp: top_class_def heap_grows_def import_ok_def split: list.split)

lemma import_post_trans:
  "import_post l j s t \<Longrightarrow> import_post l k t u \<Longrightarrow> import_post l (k + j) s u"
  using growing.kept_trans [of s t u] by (auto simp: import_post_def funpow_add)

lemma popped_post:
  assumes "import_ok s" and "element_post l name s True t" and "import_post l k t u"
  shows "pop u = (Inr (length (im_heap s)), u\<lparr> im_stack := im_stack s \<rparr>)"
    and "import_post l (k + element_rows name) s (u\<lparr> im_stack := im_stack s \<rparr>)"
proof -
  have st: "im_stack u = length (im_heap s) # im_stack s"
    using assms(2,3) by (simp add: element_post_def import_post_def)
  then show "pop u = (Inr (length (im_heap s)), u\<lparr> im_stack := im_stack s \<rparr>)" by (simp add: pop_def)
  have g: "heap_grows s u" using assms(2,3) growing.kept_trans [of s t u]
    by (auto simp: element_post_def import_post_def)
  show "import_post l (k + element_rows name) s (u\<lparr> im_stack := im_stack s \<rparr>)"
    using assms g st
    by (simp add: import_post_def element_post_def import_ok_def heap_grows_def db_of_def funpow_add)
qed

text \<open>The verdict on a node and on a list of nodes.\<close>

definition node_verdict ::
  "('d, 's) sqlite_lib \<Rightarrow> bool \<Rightarrow> nat \<Rightarrow> ('d, 's) import_state \<Rightarrow> 'a result \<times> ('d, 's) import_state \<Rightarrow> bool" where
  "node_verdict l good k s out \<longleftrightarrow>
     (if good then \<exists>r t. out = (Inr r, t) \<and> import_post l k s t else fst out = Inl UndefinedBehaviour)"

lemma node_verdict_ret: "import_ok s \<Longrightarrow> node_verdict l True 0 s (ret x s)"
  by (auto simp: node_verdict_def import_post_def heap_grows_def)

lemma node_verdict_bnd:
  assumes "node_verdict l g1 j s (x s)"
    and "\<And>t r. import_post l j s t \<Longrightarrow> g1 \<Longrightarrow> node_verdict l g2 k t (f r t)"
  shows "node_verdict l (g1 \<and> g2) (j + k) s (bnd x f s)"
proof (cases g1)
  case False
  then show ?thesis using assms(1)
    by (auto simp: node_verdict_def bnd_def split: prod.split sum.split)
next
  case True
  then obtain r t where t: "x s = (Inr r, t)" "import_post l j s t"
    using assms(1) by (auto simp: node_verdict_def)
  have "import_post l (j + k) s u" if "import_post l k t u" for u
    using import_post_trans [OF t(2) that] by (simp add: add.commute)
  with t show ?thesis using assms(2) [OF t(2) True, of r] True
    by (auto simp: node_verdict_def bnd_def)
qed

lemma from_xml_verdict:
  "inserts_succeed l \<Longrightarrow> import_ok s \<Longrightarrow>
     node_verdict l (nested (top_class s) n) (rows n) s (from_xml l g m n s)"
  "inserts_succeed l \<Longrightarrow> import_ok s \<Longrightarrow>
     node_verdict l (list_all (nested (top_class s)) ns) (sum_list (map rows ns)) s (from_children l g m ns s)"
proof (induction l g m n and l g m ns arbitrary: s and s rule: from_xml_from_children.induct)
  case (1 l g m t)
  then show ?case using node_verdict_ret by simp
next
  case (2 l g m k ns)
  have "node_verdict l (list_all (nested (top_class s)) ns \<and> True) (sum_list (map rows ns) + 0) s
      (bnd (from_children l g m ns) (\<lambda>_. ret None) s)"
    by (rule node_verdict_bnd [where x = "from_children l g m ns", OF "2.IH" [OF "2.prems"]])
      (use node_verdict_ret in \<open>auto simp: import_post_def\<close>)
  then show ?case by simp
next
  case (3 l g m loc q as ns)
  let ?n = "node_name loc q"
  have v: "verdict l ?n s (on_element l g m ?n as s)" by (rule element_verdict [OF "3.prems"])
  show ?case
  proof (cases "fits (top_class s) ?n")
    case False
    then show ?thesis using v by (auto simp: verdict_def node_verdict_def bnd_def split: prod.split sum.split)
  next
    case True
    then obtain b t where t: "on_element l g m ?n as s = (Inr b, t)" "element_post l ?n s b t"
      using v by (auto simp: verdict_def)
    then have ok: "import_ok t" and tc: "top_class t = below (top_class s) ?n" by (simp_all add: element_post_def)
    have c: "node_verdict l (list_all (nested (below (top_class s) ?n)) ns) (sum_list (map rows ns)) t
        (from_children l g m ns t)"
      using "3.IH" [OF "3.prems"(1) ok] by (simp add: tc)
    show ?thesis
    proof (cases "list_all (nested (below (top_class s) ?n)) ns")
      case False
      then show ?thesis using c t(1) True
        by (auto simp: node_verdict_def bnd_def split: prod.split sum.split)
    next
      case good: True
      then obtain u where u: "from_children l g m ns t = (Inr (), u)" "import_post l (sum_list (map rows ns)) t u"
        using c by (auto simp: node_verdict_def)
      show ?thesis
      proof (cases b)
        case False
        then have "import_post l (element_rows ?n) s t"
          using t(2) by (simp add: element_post_def import_post_def)
        from import_post_trans [OF this u(2)] show ?thesis
          using False t(1) u(1) True good by (simp add: node_verdict_def bnd_def add.commute)
      next
        case b: True
        then have "element_post l ?n s True t" using t(2) by simp
        from popped_post [OF "3.prems"(2) this u(2)] show ?thesis
          using b t(1) u(1) True good by (simp add: node_verdict_def bnd_def add.commute)
      qed
    qed
  qed
next
  case (4 l g m)
  then show ?case using node_verdict_ret by simp
next
  case (5 l g m n ns)
  have "node_verdict l (nested (top_class s) n \<and> list_all (nested (top_class s)) ns)
      (rows n + sum_list (map rows ns)) s (bnd (from_xml l g m n) (\<lambda>_. from_children l g m ns) s)"
  proof (rule node_verdict_bnd [where x = "from_xml l g m n", OF "5.IH"(1) [OF "5.prems"]])
    fix t r assume "import_post l (rows n) s t"
    then have "import_ok t" "top_class t = top_class s"
      using top_class_kept [OF "5.prems"(2)] by (simp_all add: import_post_def)
    with "5.IH"(2) [OF "5.prems"(1), of t]
    show "node_verdict l (list_all (nested (top_class s)) ns) (sum_list (map rows ns)) t
        (from_children l g m ns t)" by simp
  qed
  then show ?case by simp
qed

section \<open>Facts on the walk\<close>

fun walk_rows :: "dom_node \<Rightarrow> nat" where
  "walk_rows (DomText t) = 0"
| "walk_rows (DomOther k ns) = sum_list (map walk_rows ns)"
| "walk_rows (DomElement loc q as ns) = min 1 (element_rows q) + sum_list (map walk_rows ns)"

lemma beside:
  "inserts_succeed l \<Longrightarrow> bnd (alloc b) (\<lambda>a. bnd (give_ids l m a) (\<lambda>_. ret ())) s = (Inr (),
     s\<lparr> im_db := row_state l (db_of s), im_heap := im_heap s @ [any_set_ids (row_id l (db_of s)) m b] \<rparr>)"
  by (simp add: alloc_def bnd_def give_ids_eq db_of_def)

lemma walk_element_rows:
  assumes "inserts_succeed l"
  shows "\<exists>t. walk_element l g m name s = (Inr (), t) \<and>
    db_of t = (insert_row l ^^ min 1 (element_rows name)) (db_of s)"
  unfolding walk_element_def alloc_push_ids element_rows_def
  using beside [OF assms] new_parser_object_eq [OF assms]
  by (simp add: bnd_def alloc_def db_of_def)

lemma funpow_twice: "(f ^^ j) ((f ^^ i) x) = (f ^^ (i + j)) x"
  by (metis add.commute comp_apply funpow_add)

lemma walk_db:
  "inserts_succeed l \<Longrightarrow> \<exists>t. walk l g m n s = (Inr (), t) \<and> db_of t = (insert_row l ^^ walk_rows n) (db_of s)"
  "inserts_succeed l \<Longrightarrow> \<exists>t. walk_list l g m ns s = (Inr (), t) \<and>
     db_of t = (insert_row l ^^ sum_list (map walk_rows ns)) (db_of s)"
proof (induction l g m n and l g m ns arbitrary: s and s rule: walk_walk_list.induct)
  case (3 l g m loc q as ns)
  obtain t where t: "walk_element l g m q s = (Inr (), t)"
    "db_of t = (insert_row l ^^ min 1 (element_rows q)) (db_of s)"
    using walk_element_rows [OF "3.prems"] by blast
  with "3.IH" [OF "3.prems", of t] show ?case by (auto simp: bnd_def funpow_twice)
next
  case (5 l g m n ns)
  obtain t where t: "walk l g m n s = (Inr (), t)" "db_of t = (insert_row l ^^ walk_rows n) (db_of s)"
    using "5.IH"(1) [OF "5.prems"] by blast
  with "5.IH"(2) [OF "5.prems", of t] show ?case by (auto simp: bnd_def funpow_twice)
qed auto

fun plain_names :: "dom_node \<Rightarrow> bool" where
  "plain_names (DomText t) = True"
| "plain_names (DomOther k ns) = list_all plain_names ns"
| "plain_names (DomElement loc q as ns) = (node_name loc q = q \<and> list_all plain_names ns)"

fun categories :: "dom_node \<Rightarrow> nat" where
  "categories (DomText t) = 0"
| "categories (DomOther k ns) = sum_list (map categories ns)"
| "categories (DomElement loc q as ns) = (if node_name loc q = ''category'' then 1 else 0) + sum_list (map categories ns)"

lemma sum_list_split:
  "(\<And>n. n \<in> set ns \<Longrightarrow> p n \<Longrightarrow> f n = g n + (h n :: nat)) \<Longrightarrow> list_all p ns \<Longrightarrow>
   sum_list (map f ns) = sum_list (map g ns) + sum_list (map h ns)"
  by (induction ns) auto

lemma rows_walk_rows: "plain_names n \<Longrightarrow> rows n = walk_rows n + categories n"
proof (induction n)
  case (DomOther k ns)
  then show ?case using sum_list_split [of ns plain_names rows walk_rows categories] by simp
next
  case (DomElement loc q as ns)
  then have "sum_list (map rows ns) = sum_list (map walk_rows ns) + sum_list (map categories ns)"
    using sum_list_split [of ns plain_names rows walk_rows categories] by simp
  with DomElement.prems show ?case by (simp add: element_rows_def)
qed simp

section \<open>Properties\<close>

text \<open>C35: The import of a document is safe exactly when its elements are nested the way the code expects: a
  header or a category right under a catalogue's builder, image settings under a header, an internal
  location under image settings. Then it succeeds, puts every builder it pushed off the stack again
  and inserts the rows of the document, one for each object and two for each category; otherwise it reads an
  empty stack or uses a null builder.\<close>

theorem import_safe_iff_nested:
  assumes "inserts_succeed l" and "import_ok s" and "im_stack s = []"
  shows "(if nested None n then \<exists>r t. from_xml l g m n s = (Inr r, t) \<and> im_stack t = [] \<and>
        db_of t = (insert_row l ^^ rows n) (db_of s)
      else fst (from_xml l g m n s) = Inl UndefinedBehaviour)"
  using from_xml_verdict(1) [OF assms(1,2), of n g m] assms(3)
  by (auto simp: top_class_def node_verdict_def import_post_def)

definition sample_catalog :: dom_node where
  "sample_catalog = DomElement (Some ''catalog'') ''catalog'' []
     [DomElement (Some ''header'') ''header'' []
        [DomElement (Some ''image-settings'') ''image-settings'' []
           [DomElement (Some ''internal-location'') ''internal-location'' [(Some ''base-path'', Some ''/img'')] []]],
      DomText ''text'', DomElement (Some ''category'') ''category'' [] [],
      DomElement (Some ''category'') ''category'' [] []]"

definition sample_import :: "(string list, string) import_state" where
  "sample_import = \<lparr> im_db = create_statement [], im_heap = [], im_stack = [] \<rparr>"

definition zero_relationship :: relationship_attrs where
  "zero_relationship = \<lparr> rel_variable_id = 0, rel_order = 0, rel_src_id = 0, rel_dst_id = 0,
     rel_dst_type = SfNone, rel_src_type = SfNone, rel_dst_int = 0, rel_dst_float = 0, rel_dst_str = [] \<rparr>"

lemma toy_inserts [simp]: "inserts_succeed toy_sqlite" "insert_row toy_sqlite d = d @ [object_sql]"
  by (simp_all add: inserts_succeed_def insert_row_def toy_sqlite_def)

lemma sample_import_ok: "import_ok sample_import" "im_stack sample_import = []" "im_heap sample_import = []"
  "db_of sample_import = []"
  by (simp_all add: import_ok_def sample_import_def db_of_def create_statement_def)

lemma sample_catalog_facts: "nested None sample_catalog" "rows sample_catalog = 8" "plain_names sample_catalog"
  "categories sample_catalog = 2"
  by (simp_all add: sample_catalog_def node_name_def fits_def below_def needed_def pushed_def element_rows_def)

lemma toy_rows: "(insert_row toy_sqlite ^^ k) d = d @ replicate k object_sql"
  by (induction k) (simp_all add: replicate_append_same)

theorem import_safe_iff_nested_witness:
  "(\<exists>r t. from_xml toy_sqlite zero_relationship 1 sample_catalog sample_import = (Inr r, t) \<and>
      db_of t = replicate 8 object_sql) \<and>
   fst (from_xml toy_sqlite zero_relationship 1 (DomElement (Some ''header'') ''header'' [] []) sample_import)
     = Inl UndefinedBehaviour"
proof -
  have "\<not> nested None (DomElement (Some ''header'') ''header'' [] [])"
    by (simp add: node_name_def fits_def needed_def)
  with import_safe_iff_nested [OF toy_inserts(1) sample_import_ok(1,2),
      of "DomElement (Some ''header'') ''header'' [] []" zero_relationship 1]
    import_safe_iff_nested [OF toy_inserts(1) sample_import_ok(1,2), of sample_catalog zero_relationship 1]
    sample_catalog_facts
  show ?thesis by (auto simp: toy_rows sample_import_ok)
qed

text \<open>Everything is inserted twice. After the import the document is walked once more and a new row is
  inserted for each of its objects, so a document without prefixes takes twice its objects, and three
  rows for each category, while what the walk makes is thrown away.\<close>

theorem split_inserts_twice:
  assumes "inserts_succeed l" and "\<forall>b \<in> set (im_heap s). any_type (to_object b) \<noteq> SfCategory"
    and "nested None n" and "plain_names n"
  shows "\<exists>t. sf_catalog_split2 l g m n s = (Inr (), t) \<and>
    db_of t = (insert_row l ^^ (2 * (rows n - categories n) + categories n)) (db_of s)"
proof -
  let ?s = "s\<lparr> im_stack := [] \<rparr>"
  have "import_ok ?s" using assms(2) by (simp add: import_ok_def)
  from from_xml_verdict(1) [OF assms(1) this, of n g m] assms(3) obtain r t where
    t: "from_xml l g m n ?s = (Inr r, t)" "db_of t = (insert_row l ^^ rows n) (db_of s)"
    by (auto simp: top_class_def node_verdict_def import_post_def db_of_def)
  obtain u where u: "walk l g m n t = (Inr (), u)" "db_of u = (insert_row l ^^ walk_rows n) (db_of t)"
    using walk_db(1) [OF assms(1)] by blast
  have "2 * (rows n - categories n) + categories n = walk_rows n + rows n"
    using rows_walk_rows [OF assms(4)] by simp
  with t u show ?thesis
    by (simp add: sf_catalog_split2_def catch_all_def bnd_def funpow_add)
qed

theorem split_inserts_twice_witness:
  "\<exists>t. sf_catalog_split2 toy_sqlite zero_relationship 1 sample_catalog sample_import = (Inr (), t) \<and>
    db_of t = replicate 14 object_sql"
proof -
  have "\<forall>b \<in> set (im_heap sample_import). any_type (to_object b) \<noteq> SfCategory"
    by (simp add: sample_import_ok)
  from split_inserts_twice [OF toy_inserts(1) this sample_catalog_facts(1,3), of zero_relationship 1]
  show ?thesis by (simp add: toy_rows sample_import_ok sample_catalog_facts)
qed

text \<open>A catalogue keeps its last category only: each category makes a relationship of its own and
  overwrites the catalogue's reference, because the object the code asks for the present one
  never has it, whatever the builder was given.\<close>

theorem last_category_wins:
  assumes "inserts_succeed l" and "import_ok s" and "im_stack s = p # ps" and "im_heap s ! p = BCatalog c"
  shows "\<exists>t. on_category l g m s = (Inr True, t) \<and>
    im_heap t ! p = BCatalog (cat_set_category (Some (row_id l (insert_row l (db_of s)))) c) \<and>
    db_of t = insert_row l (insert_row l (db_of s))"
  using on_category_run(1) [OF assms] top_builder(1) [OF assms(2,3)]
  by (simp add: nth_append db_of_def)

theorem last_category_wins_witness:
  "\<exists>t. on_category toy_sqlite zero_relationship 1 (sample_import\<lparr>
      im_heap := [BCatalog (cat_set_category (Some 5) new_catalog_builder)], im_stack := [0] \<rparr>) = (Inr True, t) \<and>
    im_heap t ! 0 = BCatalog (cat_set_category (Some 2) (cat_set_category (Some 5) new_catalog_builder))"
proof -
  let ?s = "sample_import\<lparr> im_heap := [BCatalog (cat_set_category (Some 5) new_catalog_builder)],
      im_stack := [0] \<rparr>"
  have "import_ok ?s" by (simp add: import_ok_iff)
  moreover have "row_id toy_sqlite (insert_row toy_sqlite (db_of ?s)) = 2"
    by (simp add: row_id_def db_of_def sample_import_def create_statement_def) (simp add: toy_sqlite_def)
  ultimately show ?thesis
    using last_category_wins [OF toy_inserts(1), of ?s 0 "[]" "cat_set_category (Some 5) new_catalog_builder"]
    by fastforce
qed

end
