(* ===== verification/WorkerProcess.thy ===== *)
theory WorkerProcess imports WorkerControl ControlClient EpState begin

text \<open>
  A worker process and the thread that watches it: \<open>process_win\<close> of \<open>epprocess-win.h\<close> and
  \<open>epprocess-win.cpp\<close>, with \<open>MyCreatePipeEx\<close>. What Windows answers is an argument of each
  definition; its handles are numbers, and the kernel record keeps which are open and which are
  inherited by a child, so that what is leaked or given to the child can be stated.
\<close>

unbundle bit_operations_syntax

section \<open>Handles and the kernel\<close>

text \<open>A member that was never assigned, null, \<open>INVALID_HANDLE_VALUE\<close>, or a handle of the kernel.\<close>

datatype handle = HUninit | HNull | HInvalid | H nat

record kernel =
  k_next :: nat
  k_open :: "nat list"
  k_inherit :: "nat list"
  k_serial :: "32 word"
  k_pid :: "32 word"
  k_error :: int
  k_pipes :: "(string \<times> 32 word \<times> 32 word) list"

definition new_handle :: "bool \<Rightarrow> kernel \<Rightarrow> handle \<times> kernel" where
  "new_handle inherit k = (H (k_next k), k\<lparr> k_next := Suc (k_next k), k_open := k_open k @ [k_next k],
     k_inherit := (if inherit then k_inherit k @ [k_next k] else k_inherit k) \<rparr>)"

text \<open>The result of \<open>CloseHandle\<close> is never looked at; a handle that is not open is an error there.\<close>

fun close_handle :: "handle \<Rightarrow> kernel \<Rightarrow> kernel result" where
  "close_handle HUninit k = Inl UndefinedBehaviour"
| "close_handle (H n) k = Inr (k\<lparr> k_open := filter (\<lambda>m. m \<noteq> n) (k_open k),
     k_inherit := filter (\<lambda>m. m \<noteq> n) (k_inherit k) \<rparr>)"
| "close_handle _ k = Inr k"

fun clear_inherit :: "handle \<Rightarrow> kernel \<Rightarrow> kernel" where
  "clear_inherit (H n) k = k\<lparr> k_inherit := filter (\<lambda>m. m \<noteq> n) (k_inherit k) \<rparr>"
| "clear_inherit _ k = k"

text \<open>\<open>geterror_to_string\<close>: when \<open>FormatMessageA\<close> has no text for the error, the null pointer it
  leaves is made a string.\<close>

definition geterror_to_string :: "(int \<Rightarrow> string option) \<Rightarrow> int option \<Rightarrow> int \<Rightarrow> string result" where
  "geterror_to_string fmt passed err =
    (case fmt (case passed of Some e \<Rightarrow> e | None \<Rightarrow> err) of
       None \<Rightarrow> Inl UndefinedBehaviour
     | Some t \<Rightarrow> Inr t)"

section \<open>Names of pipes\<close>

text \<open>\<open>{:#08x}\<close>: a minus sign, the prefix, zeros up to eight characters in all.\<close>

definition fmt_hex :: "int \<Rightarrow> string" where
  "fmt_hex i = (if i < 0 then ''-0x'' @ pad_left 5 CHR ''0'' (hex_nat (nat (- i)))
     else ''0x'' @ pad_left 6 CHR ''0'' (hex_nat (nat i)))"

definition pipe_prefix :: string where
  "pipe_prefix = [CHR 0x5C, CHR 0x5C, CHR ''.'', CHR 0x5C] @ ''Pipe'' @ [CHR 0x5C] @ ''EpWorkerCntrl.''"

text \<open>\<open>GetCurrentProcessId\<close> is unsigned, \<open>InterlockedIncrement\<close> gives a signed long.\<close>

definition pipe_name :: "32 word \<Rightarrow> 32 word \<Rightarrow> string" where
  "pipe_name pid serial = pipe_prefix @ fmt_hex (uint pid) @ ''.'' @ fmt_hex (sint serial)"

definition FILE_FLAG_OVERLAPPED :: "32 word" where "FILE_FLAG_OVERLAPPED = 0x40000000"
definition PIPE_ACCESS_INBOUND :: "32 word" where "PIPE_ACCESS_INBOUND = 1"
definition ERROR_INVALID_PARAMETER :: int where "ERROR_INVALID_PARAMETER = 87"

text \<open>\<open>MyCreatePipeEx\<close> with the answers of \<open>CreateNamedPipeA\<close> (failure is \<open>INVALID_HANDLE_VALUE\<close>,
  which the test for null does not see) and of \<open>CreateFileA\<close> (the error, if it fails).\<close>

definition create_pipe_ex ::
  "bool \<Rightarrow> int option \<Rightarrow> bool \<Rightarrow> 32 word \<Rightarrow> 32 word \<Rightarrow> 32 word \<Rightarrow> kernel
    \<Rightarrow> ((handle \<times> handle) option \<times> kernel) result" where
  "create_pipe_ex pipe_ok file_err inherit nsize rmode wmode k =
    (if (rmode OR wmode) AND NOT FILE_FLAG_OVERLAPPED \<noteq> 0
     then Inr (None, k\<lparr> k_error := ERROR_INVALID_PARAMETER \<rparr>)
     else let size = (if nsize = 0 then 4096 else nsize);
              serial = k_serial k + 1;
              k1 = k\<lparr> k_serial := serial \<rparr>;
              (r, k2) = (if pipe_ok then new_handle inherit k1 else (HInvalid, k1));
              k3 = (if pipe_ok then k2\<lparr> k_pipes := k_pipes k2
                  @ [(pipe_name (k_pid k) serial, PIPE_ACCESS_INBOUND OR rmode, size)] \<rparr> else k2)
       in if r = HNull then Inr (None, k3)
          else case file_err of
            Some e \<Rightarrow> rbind (close_handle r k3) (\<lambda>k4. Inr (None, k4\<lparr> k_error := e \<rparr>))
          | None \<Rightarrow> (let (w, k4) = new_handle inherit k3 in Inr (Some (r, w), k4)))"

section \<open>The process object\<close>

text \<open>\<open>pw_child\<close> holds the handles of the \<open>STARTUPINFO\<close> of the child (standard input, output and error)
  and what is inherited when it is created.\<close>

record process_win =
  pw_command :: string
  pw_command_line :: string
  pw_args :: string
  pw_thread :: handle
  pw_pi_process :: handle
  pw_pi_thread :: handle
  pw_pi_id :: "32 word option"
  pw_input :: "handle list"
  pw_output_a :: "handle list"
  pw_output_b :: "handle list"
  pw_io_events :: "handle list"
  pw_child :: "((handle \<times> handle \<times> handle) \<times> nat list) option"
  pw_kernel :: kernel

definition new_process_win :: "string \<Rightarrow> string \<Rightarrow> string \<Rightarrow> kernel \<Rightarrow> process_win" where
  "new_process_win c cl a k = \<lparr> pw_command = c, pw_command_line = cl, pw_args = a, pw_thread = HUninit,
     pw_pi_process = HUninit, pw_pi_thread = HUninit, pw_pi_id = None,
     pw_input = replicate 2 HUninit, pw_output_a = replicate 2 HUninit,
     pw_output_b = replicate 2 HUninit, pw_io_events = replicate 4 HUninit, pw_child = None,
     pw_kernel = k \<rparr>"

text \<open>\<open>start\<close>: the flag tells whether \<open>CreateThread\<close> succeeded, which is not looked at.\<close>

definition process_start :: "bool \<Rightarrow> process_win \<Rightarrow> process_win" where
  "process_start created p = (if created
     then (let (h, k) = new_handle False (pw_kernel p) in p\<lparr> pw_thread := h, pw_kernel := k \<rparr>)
     else p\<lparr> pw_thread := HNull \<rparr>)"

definition WAIT_OBJECT_0 :: "32 word" where "WAIT_OBJECT_0 = 0"

text \<open>\<open>is_running\<close> of the answer of \<open>WaitForSingleObject\<close> on the thread.\<close>

definition process_is_running :: "32 word \<Rightarrow> bool" where
  "process_is_running res =
    (if res = WAIT_OBJECT_0 then False else if res = WAIT_FAILED then False
     else if res = WAIT_TIMEOUT then True else False)"

definition process_str :: "32 word \<Rightarrow> process_win \<Rightarrow> string result" where
  "process_str tid p = (case pw_pi_id p of
     None \<Rightarrow> Inl UndefinedBehaviour
   | Some i \<Rightarrow> Inr (''Process ID: '' @ dec_nat (unat i) @ '', Thread ID: '' @ dec_nat (unat tid)))"

section \<open>Starting the child\<close>

text \<open>What the system answers while the child is started: the pipes for output, error and input, whether
  each \<open>SetHandleInformation\<close> and \<open>CreateEvent\<close> succeeds, the id of the new process or the error, and
  the texts of errors.\<close>

record start_answers =
  sa_pipe :: "nat \<Rightarrow> bool \<times> int option"
  sa_flag :: "nat \<Rightarrow> bool"
  sa_event :: "nat \<Rightarrow> bool"
  sa_create :: "32 word option"
  sa_text :: "int \<Rightarrow> string option"

text \<open>Lifting a change of the kernel to the object.\<close>

definition on_kernel :: "(kernel \<Rightarrow> ('a \<times> kernel) result) \<Rightarrow> (process_win, 'a) action" where
  "on_kernel f p = (case f (pw_kernel p) of
     Inl e \<Rightarrow> (Inl e, p)
   | Inr (x, k) \<Rightarrow> (Inr x, p\<lparr> pw_kernel := k \<rparr>))"

definition open_pipe ::
  "start_answers \<Rightarrow> nat \<Rightarrow> (handle \<Rightarrow> handle \<Rightarrow> process_win \<Rightarrow> process_win) \<Rightarrow> (process_win, unit) action" where
  "open_pipe a i put = bnd (on_kernel (create_pipe_ex (fst (sa_pipe a i)) (snd (sa_pipe a i)) True 0
       FILE_FLAG_OVERLAPPED FILE_FLAG_OVERLAPPED)) (\<lambda>r. case r of
     None \<Rightarrow> throw (LogicError ''Pipe error'')
   | Some (rd, wr) \<Rightarrow> modify (put rd wr))"

definition put_output :: "nat \<Rightarrow> handle \<Rightarrow> handle \<Rightarrow> process_win \<Rightarrow> process_win" where
  "put_output i rd wr p = p\<lparr> pw_output_a := (pw_output_a p)[i := rd], pw_output_b := (pw_output_b p)[i := wr] \<rparr>"

definition put_input :: "handle \<Rightarrow> handle \<Rightarrow> process_win \<Rightarrow> process_win" where
  "put_input rd wr p = p\<lparr> pw_input := [rd, wr] \<rparr>"

text \<open>The text of the first of the three errors is asked for before the exception.\<close>

definition no_inherit ::
  "start_answers \<Rightarrow> nat \<Rightarrow> (process_win \<Rightarrow> handle) \<Rightarrow> string \<Rightarrow> (process_win, unit) action" where
  "no_inherit a i h msg =
    (if sa_flag a i then modify (\<lambda>p. p\<lparr> pw_kernel := clear_inherit (h p) (pw_kernel p) \<rparr>)
     else if i = 0
     then bnd (reads (\<lambda>p. geterror_to_string (sa_text a) None (k_error (pw_kernel p)))) (\<lambda>t. case t of
        Inl e \<Rightarrow> throw e | Inr _ \<Rightarrow> throw (LogicError msg))
     else throw (LogicError msg))"

text \<open>\<open>CreateEvent\<close> leaves null when it fails; the overlapped structures take the handle as it is.\<close>

definition make_event :: "start_answers \<Rightarrow> nat \<Rightarrow> (process_win, unit) action" where
  "make_event a i = modify (\<lambda>p.
     let (h, k) = (if sa_event a i then new_handle False (pw_kernel p) else (HNull, pw_kernel p))
     in p\<lparr> pw_io_events := (pw_io_events p)[i := h], pw_kernel := k \<rparr>)"

definition prepare_child :: "start_answers \<Rightarrow> (process_win, unit) action" where
  "prepare_child a =
     bnd (open_pipe a 0 (put_output 0)) (\<lambda>_.
     bnd (open_pipe a 1 (put_output 1)) (\<lambda>_.
     bnd (open_pipe a 2 put_input) (\<lambda>_.
     bnd (no_inherit a 0 (\<lambda>p. pw_output_a p ! 0) ''Stdout error'') (\<lambda>_.
     bnd (no_inherit a 1 (\<lambda>p. pw_output_a p ! 1) ''Stderr error'') (\<lambda>_.
     bnd (no_inherit a 2 (\<lambda>p. pw_input p ! 1) ''Stdin error'') (\<lambda>_.
     bnd (make_event a 0) (\<lambda>_.
     bnd (make_event a 1) (\<lambda>_. make_event a 2))))))))"

text \<open>\<open>CreateProcessA\<close>: the structure for the child's ids is zeroed first. On failure the text of the
  error is logged and the thread ends. The flag tells whether there is a child.\<close>

definition create_child :: "start_answers \<Rightarrow> (process_win, bool) action" where
  "create_child a =
     bnd (modify (\<lambda>p. p\<lparr> pw_pi_process := HNull, pw_pi_thread := HNull, pw_pi_id := Some 0 \<rparr>)) (\<lambda>_.
     case sa_create a of
       None \<Rightarrow> bnd (reads (\<lambda>p. geterror_to_string (sa_text a) None (k_error (pw_kernel p)))) (\<lambda>t. case t of
           Inl e \<Rightarrow> throw e | Inr _ \<Rightarrow> ret False)
     | Some i \<Rightarrow> bnd (modify (\<lambda>p.
           let (hp, k1) = new_handle False (pw_kernel p); (ht, k2) = new_handle False k1
           in p\<lparr> pw_child := Some ((pw_input p ! 1, pw_output_b p ! 0, pw_output_b p ! 1),
                  k_inherit (pw_kernel p)),
                pw_pi_process := hp, pw_pi_thread := ht, pw_pi_id := Some i,
                pw_io_events := (pw_io_events p)[3 := hp], pw_kernel := k2 \<rparr>)) (\<lambda>_. ret True))"

section \<open>The watching loop\<close>

definition buffsize :: nat where "buffsize = 2048"

text \<open>What happens on a stream of the child: a read is started into the buffer, it ends with a text, or
  it ends without one.\<close>

datatype stream_event = ReadStarted | ReadEnded string | ReadFailed

record stream_state =
  ss_pending :: bool
  ss_process :: bool

definition initial_stream :: stream_state where
  "initial_stream = \<lparr> ss_pending = False, ss_process = True \<rparr>"

text \<open>What the system answers on one stream in one pass: to \<open>ReadFile\<close>, with its error, and to
  \<open>GetOverlappedResult\<close>, with the buffer at that moment.\<close>

record stream_answers =
  st_read :: io_start
  st_error :: int
  st_result :: gor_outcome
  st_buffer :: string

definition stream_read ::
  "(int \<Rightarrow> string option) \<Rightarrow> stream_answers \<Rightarrow> stream_state \<Rightarrow> (stream_event list \<times> stream_state) result" where
  "stream_read fmt a s =
    (if ss_process s \<and> \<not> ss_pending s
     then case st_read a of
       IoError \<Rightarrow> rbind (geterror_to_string fmt (Some (st_error a)) 0) (\<lambda>_. Inl (LogicError ''ReadFile() error''))
     | _ \<Rightarrow> Inr ([ReadStarted], \<lparr> ss_pending = True, ss_process = False \<rparr>)
     else Inr ([], s))"

definition stream_complete :: "stream_answers \<Rightarrow> stream_state \<Rightarrow> stream_event list \<times> stream_state" where
  "stream_complete a s =
    (if ss_pending s
     then case st_result a of
       GorIncomplete \<Rightarrow> ([], s)
     | GorEof \<Rightarrow> ([ReadFailed], s\<lparr> ss_pending := False \<rparr>)
     | GorOther \<Rightarrow> ([ReadFailed], s\<lparr> ss_pending := False \<rparr>)
     | GorOk n \<Rightarrow> ([ReadEnded (if n < buffsize then take n (st_buffer a) else st_buffer a)],
          s\<lparr> ss_pending := False \<rparr>)
     else ([], s))"

definition stream_pass ::
  "(int \<Rightarrow> string option) \<Rightarrow> stream_answers \<Rightarrow> stream_state \<Rightarrow> (stream_event list \<times> stream_state) result" where
  "stream_pass fmt a s = rbind (stream_read fmt a s) (\<lambda>(ev, s1).
     let (ev', s2) = stream_complete a s1 in Inr (ev @ ev', s2))"

record pass_answers =
  pa_out :: stream_answers
  pa_err :: stream_answers
  pa_wait :: "32 word"
  pa_error :: int

record watch_state =
  ws_out :: stream_state
  ws_err :: stream_state
  ws_out_log :: "stream_event list"
  ws_err_log :: "stream_event list"

definition watch_start :: watch_state where
  "watch_start = \<lparr> ws_out = initial_stream, ws_err = initial_stream, ws_out_log = [], ws_err_log = [] \<rparr>"

text \<open>The answer of \<open>WaitForMultipleObjects\<close>; the result says whether to stop.\<close>

definition watch_wait ::
  "(int \<Rightarrow> string option) \<Rightarrow> 32 word \<Rightarrow> int \<Rightarrow> watch_state \<Rightarrow> (bool \<times> watch_state) result" where
  "watch_wait fmt w e s =
    (if w = 0 then Inr (False, s\<lparr> ws_out := (ws_out s)\<lparr> ss_process := True \<rparr> \<rparr>)
     else if w = 1 then Inr (False, s\<lparr> ws_err := (ws_err s)\<lparr> ss_process := True \<rparr> \<rparr>)
     else if w = 2 then Inr (False, s)
     else if w = 3 then Inr (True, s)
     else if w = WAIT_TIMEOUT then Inr (False, s)
     else if w = WAIT_FAILED then rbind (geterror_to_string fmt None e) (\<lambda>_. Inr (True, s))
     else Inr (False, s))"

definition watch_pass ::
  "(int \<Rightarrow> string option) \<Rightarrow> pass_answers \<Rightarrow> watch_state \<Rightarrow> (bool \<times> watch_state) result" where
  "watch_pass fmt a s =
     rbind (stream_pass fmt (pa_out a) (ws_out s)) (\<lambda>(ev1, o1).
     rbind (stream_pass fmt (pa_err a) (ws_err s)) (\<lambda>(ev2, e1).
       watch_wait fmt (pa_wait a) (pa_error a) (s\<lparr> ws_out := o1, ws_err := e1,
         ws_out_log := ws_out_log s @ ev1, ws_err_log := ws_err_log s @ ev2 \<rparr>)))"

text \<open>The loop over what the system answers in each pass, with the list as fuel: \<open>Inl\<close> within the value means
  that the list ended first.\<close>

fun watch_loop ::
  "(int \<Rightarrow> string option) \<Rightarrow> pass_answers list \<Rightarrow> watch_state \<Rightarrow> (watch_state + watch_state) result" where
  "watch_loop fmt [] s = Inr (Inl s)"
| "watch_loop fmt (a # as) s = rbind (watch_pass fmt a s) (\<lambda>(stop, s1).
     if stop then Inr (Inr s1) else watch_loop fmt as s1)"

text \<open>The thread function; the result is \<open>None\<close> while the loop still runs.\<close>

definition run_process_thread ::
  "start_answers \<Rightarrow> pass_answers list \<Rightarrow> (process_win, watch_state option) action" where
  "run_process_thread a as = bnd (prepare_child a) (\<lambda>_. bnd (create_child a) (\<lambda>child p.
     if child then (case watch_loop (sa_text a) as watch_start of
         Inl e \<Rightarrow> (Inl e, p)
       | Inr (Inl s) \<Rightarrow> (Inr None, p)
       | Inr (Inr s) \<Rightarrow> (Inr (Some s), p))
     else (Inr (Some watch_start), p)))"

section \<open>Stopping\<close>

definition close_in :: "(process_win \<Rightarrow> handle) \<Rightarrow> (process_win, unit) action" where
  "close_in h p = on_kernel (\<lambda>k. rbind (close_handle (h p) k) (\<lambda>k'. Inr ((), k'))) p"

definition process_stop :: "(process_win, unit) action" where
  "process_stop =
     bnd (close_in pw_pi_process) (\<lambda>_. bnd (close_in pw_pi_thread) (\<lambda>_.
     bnd (close_in (\<lambda>p. pw_output_b p ! 0)) (\<lambda>_. bnd (close_in (\<lambda>p. pw_output_b p ! 1)) (\<lambda>_.
       close_in (\<lambda>p. pw_input p ! 1)))))"

text \<open>The destructor: the log reads the process id, the process is ended, and what the wait for its end
  answers is only logged.\<close>

definition process_destroy :: "(process_win, unit) action" where
  "process_destroy = bnd (reads pw_pi_id) (\<lambda>i. case i of
     None \<Rightarrow> throw UndefinedBehaviour
   | Some _ \<Rightarrow> bnd (reads pw_pi_process) (\<lambda>h.
       if h = HUninit then throw UndefinedBehaviour else process_stop))"

section \<open>Facts on names\<close>

lemma hex_nat_plain: "CHR ''.'' \<notin> set (hex_nat n)"
proof (induction n rule: hex_nat.induct)
  case (1 n)
  have "CHR ''.'' \<noteq> hex_digit d" if "d < 16" for d
    using of_char_hex [OF that] by (auto dest!: arg_cong [where f = "of_char :: char \<Rightarrow> nat"] split: if_splits)
  then have "n < 16 \<Longrightarrow> CHR ''.'' \<noteq> hex_digit n" "CHR ''.'' \<noteq> hex_digit (n mod 16)" by simp_all
  with 1 show ?case by (subst hex_nat.simps) auto
qed

lemma fmt_hex_plain: "CHR ''.'' \<notin> set (fmt_hex i)"
  using hex_nat_plain by (auto simp: fmt_hex_def pad_left_def)

lemma fmt_hex_inj: "fmt_hex i = fmt_hex j \<longleftrightarrow> i = j"
proof
  assume e: "fmt_hex i = fmt_hex j"
  have pos: "parse_hex (drop 2 (fmt_hex k)) = nat k" if "0 \<le> k" for k using that by (simp add: fmt_hex_def)
  have neg: "parse_hex (drop 3 (fmt_hex k)) = nat (- k)" if "k < 0" for k using that by (simp add: fmt_hex_def)
  have sign: "hd (fmt_hex k) = CHR ''-'' \<longleftrightarrow> k < 0" for k by (simp add: fmt_hex_def)
  show "i = j" using pos [of i] pos [of j] neg [of i] neg [of j] sign [of i] sign [of j] e
    by (cases "i < 0"; cases "j < 0") auto
qed simp

lemma pipe_name_inj: "pipe_name p s = pipe_name q t \<longleftrightarrow> p = q \<and> s = t"
proof -
  have "pipe_name p s = pipe_name q t \<longleftrightarrow> fmt_hex (uint p) = fmt_hex (uint q) \<and> fmt_hex (sint s) = fmt_hex (sint t)"
    unfolding pipe_name_def using fmt_hex_plain
    by (auto simp: append_Cons_eq_iff)
  then show ?thesis by (auto simp: fmt_hex_inj intro: signed_word_eqI unsigned_word_eqI)
qed

section \<open>Facts on the watching loop\<close>

text \<open>Whether a read is outstanding after a list of events, when they alternate.\<close>

fun reading :: "bool \<Rightarrow> stream_event list \<Rightarrow> bool option" where
  "reading b [] = Some b"
| "reading False (ReadStarted # es) = reading True es"
| "reading True (ReadEnded t # es) = reading False es"
| "reading True (ReadFailed # es) = reading False es"
| "reading b (e # es) = None"

lemma reading_append: "reading b (es @ fs) = Option.bind (reading b es) (\<lambda>c. reading c fs)"
  by (induction b es rule: reading.induct) auto

lemma stream_pass_reading:
  assumes "stream_pass fmt a s = Inr (ev, s')"
  shows "reading (ss_pending s) ev = Some (ss_pending s')"
  using assms by (auto simp: stream_pass_def stream_read_def stream_complete_def rbind_Inr_iff Let_def
      split: if_splits io_start.splits gor_outcome.splits prod.splits)

definition watch_ok :: "watch_state \<Rightarrow> bool" where
  "watch_ok s \<longleftrightarrow> reading False (ws_out_log s) = Some (ss_pending (ws_out s)) \<and>
     reading False (ws_err_log s) = Some (ss_pending (ws_err s))"

lemma watch_wait_ok: "watch_wait fmt w e s = Inr (b, s') \<Longrightarrow> watch_ok s' = watch_ok s"
  by (auto simp: watch_wait_def watch_ok_def rbind_Inr_iff split: if_splits)

lemma watch_pass_ok:
  assumes "watch_pass fmt a s = Inr (b, s')" and "watch_ok s"
  shows "watch_ok s'"
proof -
  obtain ev1 o1 ev2 e1 where st: "stream_pass fmt (pa_out a) (ws_out s) = Inr (ev1, o1)"
      "stream_pass fmt (pa_err a) (ws_err s) = Inr (ev2, e1)"
    and w: "watch_wait fmt (pa_wait a) (pa_error a) (s\<lparr> ws_out := o1, ws_err := e1,
        ws_out_log := ws_out_log s @ ev1, ws_err_log := ws_err_log s @ ev2 \<rparr>) = Inr (b, s')"
    using assms(1) by (auto simp: watch_pass_def rbind_Inr_iff)
  show ?thesis using watch_wait_ok [OF w] assms(2) st [THEN stream_pass_reading]
    by (simp add: watch_ok_def reading_append)
qed

lemma watch_loop_ok:
  "watch_loop fmt as s = Inr r \<Longrightarrow> watch_ok s \<Longrightarrow> (case r of Inl t \<Rightarrow> watch_ok t | Inr t \<Rightarrow> watch_ok t)"
  by (induction as arbitrary: s)
    (auto simp: rbind_Inr_iff split: if_splits dest: watch_pass_ok)

definition no_read_error :: "pass_answers \<Rightarrow> bool" where
  "no_read_error a \<longleftrightarrow> st_read (pa_out a) \<noteq> IoError \<and> st_read (pa_err a) \<noteq> IoError"

definition ends_watch :: "pass_answers \<Rightarrow> bool" where
  "ends_watch a \<longleftrightarrow> pa_wait a = 3 \<or> pa_wait a = WAIT_FAILED"

lemma stream_pass_total: "st_read a \<noteq> IoError \<Longrightarrow> \<exists>ev s'. stream_pass fmt a s = Inr (ev, s')"
  by (auto simp: stream_pass_def stream_read_def Let_def split: io_start.split prod.split)

lemma geterror_total: "\<forall>e. fmt e \<noteq> None \<Longrightarrow> \<exists>t. geterror_to_string fmt p e = Inr t"
  by (auto simp: geterror_to_string_def split: option.splits)

lemma watch_pass_total:
  assumes "no_read_error a" and "\<forall>e. fmt e \<noteq> None"
  shows "\<exists>s'. watch_pass fmt a s = Inr (ends_watch a, s')"
proof -
  have "\<exists>s'. watch_wait fmt w e t = Inr (w = 3 \<or> w = WAIT_FAILED, s')" for w e t
    using geterror_total [OF assms(2), of None e] by (auto simp: watch_wait_def WAIT_FAILED_def WAIT_TIMEOUT_def)
  with stream_pass_total [of "pa_out a" fmt "ws_out s"] stream_pass_total [of "pa_err a" fmt "ws_err s"] assms(1)
  show ?thesis by (fastforce simp: watch_pass_def no_read_error_def ends_watch_def)
qed

lemma watch_loop_total:
  "list_all no_read_error as \<Longrightarrow> \<forall>e. fmt e \<noteq> None \<Longrightarrow>
   \<exists>s'. watch_loop fmt as s = Inr (if list_ex ends_watch as then Inr s' else Inl s')"
proof (induction as arbitrary: s)
  case (Cons a as)
  then obtain s' where "watch_pass fmt a s = Inr (ends_watch a, s')" using watch_pass_total [of a fmt s] by auto
  with Cons show ?case by (cases "ends_watch a") auto
qed simp

section \<open>Facts on starting and stopping\<close>

definition kernel_ok :: "kernel \<Rightarrow> bool" where
  "kernel_ok k \<longleftrightarrow> (\<forall>h \<in> set (k_open k) \<union> set (k_inherit k). h < k_next k)"

text \<open>Every answer is a success.\<close>

definition all_succeed :: "start_answers \<Rightarrow> bool" where
  "all_succeed a \<longleftrightarrow> list_all (\<lambda>i. sa_pipe a i = (True, None) \<and> sa_flag a i \<and> sa_event a i) [0, 1, 2]"

lemma open_pipe_eq:
  "open_pipe a i put p =
    (let k = pw_kernel p; k1 = k\<lparr> k_serial := k_serial k + 1 \<rparr>;
         rk = (if fst (sa_pipe a i) then new_handle True k1 else (HInvalid, k1));
         k3 = (if fst (sa_pipe a i) then (snd rk)\<lparr> k_pipes := k_pipes (snd rk) @ [(pipe_name (k_pid k) (k_serial k + 1),
                PIPE_ACCESS_INBOUND OR FILE_FLAG_OVERLAPPED, 4096)] \<rparr> else k1)
     in case snd (sa_pipe a i) of
       Some e \<Rightarrow> (Inl (LogicError ''Pipe error''),
          p\<lparr> pw_kernel := (case close_handle (fst rk) k3 of Inr k4 \<Rightarrow> k4\<lparr> k_error := e \<rparr> | Inl _ \<Rightarrow> k) \<rparr>)
     | None \<Rightarrow> (Inr (), put (fst rk) (fst (new_handle True k3)) (p\<lparr> pw_kernel := snd (new_handle True k3) \<rparr>)))"
  by (auto simp: open_pipe_def on_kernel_def create_pipe_ex_def FILE_FLAG_OVERLAPPED_def new_handle_def bnd_def
      Let_def split: option.split)

lemma put_kernel [simp]: "pw_kernel (put_output i rd wr p) = pw_kernel p" "pw_kernel (put_input rd wr p) = pw_kernel p"
  by (simp_all add: put_output_def put_input_def)

text \<open>What a step of the preparation does: it throws, or goes on with the same last error.\<close>

definition goes_on :: "(process_win, 'a) action \<Rightarrow> process_win \<Rightarrow> bool" where
  "goes_on m p \<longleftrightarrow> (\<exists>x p'. m p = (Inr x, p') \<and> k_error (pw_kernel p') = k_error (pw_kernel p))"

lemma open_pipe_goes_on:
  "snd (sa_pipe a i) = None \<Longrightarrow> (\<And>rd wr q. pw_kernel (put rd wr q) = pw_kernel q) \<Longrightarrow> goes_on (open_pipe a i put) p"
  by (simp add: goes_on_def open_pipe_eq new_handle_def Let_def)

lemma open_pipe_fails: "snd (sa_pipe a i) = Some e \<Longrightarrow> fst (open_pipe a i put p) = Inl (LogicError ''Pipe error'')"
  by (simp add: open_pipe_eq Let_def)

lemma no_inherit_goes_on: "sa_flag a i \<Longrightarrow> goes_on (no_inherit a i h msg) p"
  by (cases "h p") (simp_all add: goes_on_def no_inherit_def)

lemma no_inherit_fails: "\<not> sa_flag a i \<Longrightarrow> fst (no_inherit a i h msg p) = Inl
    (if i = 0 \<and> sa_text a (k_error (pw_kernel p)) = None then UndefinedBehaviour else LogicError msg)"
  by (simp add: no_inherit_def geterror_to_string_def split: option.split)

lemma make_event_goes_on: "goes_on (make_event a i) p"
  by (simp add: goes_on_def make_event_def new_handle_def Let_def split: prod.split)

lemma goes_onE:
  assumes "goes_on m p"
  obtains x p' where "m p = (Inr x, p')" "bnd m f p = f x p'" "k_error (pw_kernel p') = k_error (pw_kernel p)"
  using assms by (auto simp: goes_on_def bnd_def)

lemma fst_bnd_Inl: "fst (m s) = Inl e \<Longrightarrow> fst (bnd m f s) = Inl e"
  by (auto simp: bnd_def split: prod.split sum.split)

lemma fst_bnd_goes_on:
  "goes_on m p \<Longrightarrow> (\<And>x q. k_error (pw_kernel q) = k_error (pw_kernel p) \<Longrightarrow> fst (f x q) = y) \<Longrightarrow> fst (bnd m f p) = y"
  by (auto simp: goes_on_def bnd_def)

lemma fst_open_pipe:
  assumes "\<And>rd wr q. pw_kernel (put rd wr q) = pw_kernel q"
    and "k_error (pw_kernel p) = e" and "\<And>x q. k_error (pw_kernel q) = e \<Longrightarrow> fst (f x q) = y"
  shows "fst (bnd (open_pipe a i put) f p) =
    (if snd (sa_pipe a i) = None then y else Inl (LogicError ''Pipe error''))"
proof (cases "snd (sa_pipe a i)")
  case None
  have "fst (bnd (open_pipe a i put) f p) = y"
    by (rule fst_bnd_goes_on) (use open_pipe_goes_on None assms in auto)
  with None show ?thesis by simp
next
  case (Some e)
  then show ?thesis by (simp add: fst_bnd_Inl open_pipe_fails)
qed

lemma fst_no_inherit:
  assumes "k_error (pw_kernel p) = e" and "\<And>x q. k_error (pw_kernel q) = e \<Longrightarrow> fst (f x q) = y"
  shows "fst (bnd (no_inherit a i h msg) f p) = (if sa_flag a i then y else Inl
    (if i = 0 \<and> sa_text a e = None then UndefinedBehaviour else LogicError msg))"
proof (cases "sa_flag a i")
  case True
  have "fst (bnd (no_inherit a i h msg) f p) = y"
    by (rule fst_bnd_goes_on) (use no_inherit_goes_on True assms in auto)
  with True show ?thesis by simp
next
  case False
  show ?thesis unfolding fst_bnd_Inl [where m = "no_inherit a i h msg", OF no_inherit_fails [OF False]]
    using False assms(1) by simp
qed

text \<open>The object after a start in which everything succeeded.\<close>

definition started :: "start_answers \<Rightarrow> nat \<Rightarrow> process_win \<Rightarrow> process_win" where
  "started a n p = p\<lparr>
     pw_input := [H (n + 4), H (n + 5)], pw_output_a := [H n, H (n + 2)], pw_output_b := [H (n + 1), H (n + 3)],
     pw_io_events := [H (n + 6), H (n + 7), H (n + 8), HUninit],
     pw_kernel := (pw_kernel p)\<lparr> k_next := n + 9, k_open := k_open (pw_kernel p) @ [n..<n + 9],
       k_inherit := k_inherit (pw_kernel p) @ [n + 1, n + 3, n + 4],
       k_serial := k_serial (pw_kernel p) + 3,
       k_pipes := k_pipes (pw_kernel p) @ map (\<lambda>i. (pipe_name (k_pid (pw_kernel p)) (k_serial (pw_kernel p) + i),
          PIPE_ACCESS_INBOUND OR FILE_FLAG_OVERLAPPED, 4096)) [1, 2, 3] \<rparr> \<rparr>"

lemma filter_fresh: "\<forall>h \<in> set xs. h < (n :: nat) \<Longrightarrow> n \<le> m \<Longrightarrow> filter (\<lambda>k. k \<noteq> m) xs = xs"
  by (induction xs) auto

lemma prepare_succeeds:
  assumes "all_succeed a" and "kernel_ok (pw_kernel p)" and "k_next (pw_kernel p) = n"
    and "length (pw_input p) = 2" and "pw_output_a p = replicate 2 HUninit" and "pw_output_b p = replicate 2 HUninit"
    and "pw_io_events p = replicate 4 HUninit"
  shows "prepare_child a p = (Inr (), started a n p)"
proof -
  have fresh: "\<forall>h \<in> set (k_inherit (pw_kernel p)). h < n" using assms(2,3) by (simp add: kernel_ok_def)
  have s: "sa_pipe a 0 = (True, None)" "sa_pipe a 1 = (True, None)" "sa_pipe a 2 = (True, None)"
    "sa_flag a 0" "sa_flag a 1" "sa_flag a 2" "sa_event a 0" "sa_event a 1" "sa_event a 2"
    using assms(1) by (simp_all add: all_succeed_def)
  note f = filter_fresh [OF fresh]
  show ?thesis
    by (cases p; cases "pw_kernel p", use assms(3-) s f in \<open>simp add: prepare_child_def bnd_def open_pipe_eq new_handle_def Let_def
        no_inherit_def make_event_def put_output_def put_input_def started_def eval_nat_numeral upt_rec\<close>)
      (simp add: add.commute)
qed

lemma create_succeeds:
  "sa_create a = Some i \<Longrightarrow> create_child a (started a n p) = (Inr True, (started a n p)\<lparr>
     pw_child := Some ((H (n + 5), H (n + 1), H (n + 3)), k_inherit (pw_kernel p) @ [n + 1, n + 3, n + 4]),
     pw_pi_process := H (n + 9), pw_pi_thread := H (n + 10), pw_pi_id := Some i,
     pw_io_events := [H (n + 6), H (n + 7), H (n + 8), H (n + 9)],
     pw_kernel := (pw_kernel (started a n p))\<lparr> k_next := n + 11,
       k_open := k_open (pw_kernel p) @ [n..<n + 11] \<rparr> \<rparr>)"
  by (cases p; cases "pw_kernel p")
    (simp add: create_child_def started_def new_handle_def Let_def eval_nat_numeral)

lemma start_ok:
  assumes "all_succeed a" and "kernel_ok k"
  shows "prepare_child a (process_start True (new_process_win c cl ar k)) =
    (Inr (), started a (Suc (k_next k)) (process_start True (new_process_win c cl ar k)))"
  by (rule prepare_succeeds [OF assms(1)])
    (use assms(2) in \<open>auto simp: process_start_def new_handle_def new_process_win_def kernel_ok_def intro: less_SucI\<close>)

lemma run_thread_eq:
  assumes "all_succeed a" and "kernel_ok k" and "sa_create a = Some i"
  shows "\<exists>p. run_process_thread a as (process_start True (new_process_win c cl ar k)) =
    ((case watch_loop (sa_text a) as watch_start of Inl e \<Rightarrow> Inl e | Inr (Inl s) \<Rightarrow> Inr None
      | Inr (Inr s) \<Rightarrow> Inr (Some s)), p)"
proof -
  let ?p = "process_start True (new_process_win c cl ar k)"
  have "prepare_child a ?p = (Inr (), started a (Suc (k_next k)) ?p)" by (rule start_ok [OF assms(1,2)])
  moreover note create_succeeds [OF assms(3), of "Suc (k_next k)" ?p]
  ultimately show ?thesis
    by (simp add: run_process_thread_def bnd_def split: sum.split)
qed

text \<open>What the destructor closes.\<close>

lemma process_destroy_eq:
  assumes "pw_pi_id p = Some i" and "pw_pi_process p = H a" and "pw_pi_thread p = H b"
    and "pw_output_b p = [H c, H d]" and "pw_input p = [x, H e]"
  shows "\<exists>q. process_destroy p = (Inr (), q) \<and>
    k_open (pw_kernel q) = filter (\<lambda>h. h \<notin> {a, b, c, d, e}) (k_open (pw_kernel p))"
  using assms by (auto simp: process_destroy_def process_stop_def close_in_def on_kernel_def bnd_def intro!: filter_cong)

text \<open>\<open>WaitForSingleObject\<close> on a thread, with no time to wait: signalled when the thread has ended.\<close>

definition thread_signal :: "watch_state option \<Rightarrow> 32 word" where
  "thread_signal r = (if r = None then WAIT_TIMEOUT else WAIT_OBJECT_0)"

lemma running_signal [simp]: "process_is_running (thread_signal r) \<longleftrightarrow> r = None"
  by (simp add: process_is_running_def thread_signal_def WAIT_TIMEOUT_def WAIT_OBJECT_0_def WAIT_FAILED_def)

text \<open>The answer a turn of the supervising loop gets when it asks for a worker whose thread has been
  through the first \<open>n\<close> passes.\<close>

definition asked_after :: "start_answers \<Rightarrow> pass_answers list \<Rightarrow> process_win \<Rightarrow> turn \<Rightarrow> nat \<Rightarrow> bool" where
  "asked_after a as p t n \<longleftrightarrow> (\<exists>r q. run_process_thread a (take n as) p = (Inr r, q) \<and>
     tn_running t 0 = process_is_running (thread_signal r))"

definition supervision_over :: "pass_answers list \<Rightarrow> turn \<times> nat \<Rightarrow> bool" where
  "supervision_over as = (\<lambda>(t, n). list_ex ends_watch (take n as) \<or> \<not> tn_alive t \<or>
     CTRL_C_EVENT \<in> set (tn_signals t))"

lemma asked_after_running:
  assumes "all_succeed a" and "sa_create a = Some i" and "kernel_ok k" and "\<forall>e. sa_text a e \<noteq> None"
    and "list_all no_read_error as"
  shows "asked_after a as (process_start True (new_process_win cm cl ar k)) t n
    \<longleftrightarrow> tn_running t 0 = (\<not> list_ex ends_watch (take n as))"
proof -
  have "list_all no_read_error (take n as)"
    using assms(5) by (auto simp: list_all_iff dest: in_set_takeD)
  then obtain s' where w: "watch_loop (sa_text a) (take n as) watch_start =
      Inr (if list_ex ends_watch (take n as) then Inr s' else Inl s')"
    using watch_loop_total [OF _ assms(4)] by blast
  obtain p where "run_process_thread a (take n as) (process_start True (new_process_win cm cl ar k)) =
      (Inr (if list_ex ends_watch (take n as) then Some s' else None), p)"
    using run_thread_eq [OF assms(1,3,2), of "take n as" cm cl ar] w by (auto split: if_splits)
  then show ?thesis by (auto simp: asked_after_def)
qed

section \<open>Properties\<close>

text \<open>No two pipes have the same name. The names made from process ids and serial numbers are equal
  only for equal ids and serials, the sign of a serial beyond 31 bits included, so the names one
  process makes are distinct exactly as long as it makes at most two to the 32 of them.\<close>

theorem pipe_names_unique:
  "(pipe_name p s = pipe_name q t \<longleftrightarrow> p = q \<and> s = t) \<and>
   (distinct (map (\<lambda>i. pipe_name p (s + word_of_nat i)) [0..<n]) \<longleftrightarrow> n \<le> 2 ^ 32)"
proof -
  have "inj_on (\<lambda>i :: nat. i mod 2 ^ 32) {0..<n} \<longleftrightarrow> n \<le> 2 ^ 32"
  proof
    assume "inj_on (\<lambda>i :: nat. i mod 2 ^ 32) {0..<n}"
    from inj_onD [OF this, of 0 "2 ^ 32"] show "n \<le> 2 ^ 32" by (cases "n \<le> 2 ^ 32") auto
  qed (auto simp: inj_on_def)
  then show ?thesis
    by (simp add: pipe_name_inj distinct_map inj_on_def word_of_nat_eq_iff take_bit_eq_mod)
qed

text \<open>How the start of a child fails. A pipe whose writing end cannot be opened, then a refused flag of
  output, error or input, in this order, ends the thread with the exception of that step, nothing else does:
  a reading end that cannot be made goes unnoticed as long as the writing end opens. The
  first of the flags has no defined result when Windows has no text for its error.\<close>

theorem start_failures:
  "fst (prepare_child a p) =
    (if snd (sa_pipe a 0) = None then if snd (sa_pipe a 1) = None then if snd (sa_pipe a 2) = None
     then if sa_flag a 0 then if sa_flag a 1 then if sa_flag a 2 then Inr ()
       else Inl (LogicError ''Stdin error'') else Inl (LogicError ''Stderr error'')
       else Inl (if sa_text a (k_error (pw_kernel p)) = None then UndefinedBehaviour
                 else LogicError ''Stdout error'')
     else Inl (LogicError ''Pipe error'') else Inl (LogicError ''Pipe error'') else Inl (LogicError ''Pipe error''))"
proof -
  have "fst (bnd (make_event a 0) (\<lambda>_. bnd (make_event a 1) (\<lambda>_. make_event a 2)) q) = Inr ()" for q
    by (simp add: make_event_def)
  then have "fst (prepare_child a p) =
     (if snd (sa_pipe a 0) = None then if snd (sa_pipe a 1) = None then if snd (sa_pipe a 2) = None
      then if sa_flag a 0 then if sa_flag a 1 then if sa_flag a 2 then Inr ()
        else Inl (if 2 = (0 :: nat) \<and> sa_text a (k_error (pw_kernel p)) = None then UndefinedBehaviour
                  else LogicError ''Stdin error'')
        else Inl (if 1 = (0 :: nat) \<and> sa_text a (k_error (pw_kernel p)) = None then UndefinedBehaviour
                  else LogicError ''Stderr error'')
        else Inl (if 0 = (0 :: nat) \<and> sa_text a (k_error (pw_kernel p)) = None then UndefinedBehaviour
                  else LogicError ''Stdout error'')
      else Inl (LogicError ''Pipe error'') else Inl (LogicError ''Pipe error'') else Inl (LogicError ''Pipe error''))"
    unfolding prepare_child_def 
    by (intro fst_open_pipe [where e = "k_error (pw_kernel p)"] fst_no_inherit put_kernel) (assumption | rule refl | simp)+
  then show ?thesis by simp
qed

text \<open>What a worker process leaves behind, and what it is given. When everything succeeds, the child's
  standard input is the writing end of its pipe, which it does not even inherit, while it inherits the
  reading end; and when the object is destroyed, seven of its twelve handles stay open: the thread, the
  ends of the pipes it kept or never used, and the three events.\<close>

theorem worker_leaks_handles:
  assumes "all_succeed a" and "sa_create a = Some i" and "kernel_ok k" and "k_next k = n"
  shows "\<exists>p q r. (bnd (prepare_child a) (\<lambda>_. create_child a)) (process_start True (new_process_win c cl ar k))
      = (Inr True, p) \<and>
    pw_child p = Some ((H (n + 6), H (n + 2), H (n + 4)), k_inherit k @ [n + 2, n + 4, n + 5]) \<and>
    pw_input p = [H (n + 5), H (n + 6)] \<and>
    process_destroy p = (Inr (), q) \<and>
    k_open (pw_kernel q) = k_open k @ [n, n + 1, n + 3, n + 5, n + 7, n + 8, n + 9]"
proof -
  let ?p = "process_start True (new_process_win c cl ar k)"
  have k: "k_open (pw_kernel ?p) = k_open k @ [n]" "k_inherit (pw_kernel ?p) = k_inherit k"
    using assms(4) by (simp_all add: process_start_def new_handle_def new_process_win_def)
  have "prepare_child a ?p = (Inr (), started a (Suc n) ?p)" using start_ok [OF assms(1,3)] assms(4) by simp
  with create_succeeds [OF assms(2), of "Suc n" ?p] obtain p where
    p: "bnd (prepare_child a) (\<lambda>_. create_child a) ?p = (Inr True, p)" "pw_pi_id p = Some i"
      "pw_child p = Some ((H (n + 6), H (n + 2), H (n + 4)), k_inherit k @ [n + 2, n + 4, n + 5])"
      "pw_pi_process p = H (n + 10)" "pw_pi_thread p = H (n + 11)" "pw_output_b p = [H (n + 2), H (n + 4)]"
      "pw_input p = [H (n + 5), H (n + 6)]" "k_open (pw_kernel p) = k_open k @ [n..<n + 12]"
    by (simp add: bnd_def k started_def) (simp add: eval_nat_numeral upt_rec)
  obtain q where q: "process_destroy p = (Inr (), q)"
    "k_open (pw_kernel q) = filter (\<lambda>h. h \<notin> {n + 10, n + 11, n + 2, n + 4, n + 6}) (k_open (pw_kernel p))"
    using process_destroy_eq [OF p(2,4-7)] by auto
  have "\<forall>h \<in> set (k_open k). h < n" using assms(3,4) by (simp add: kernel_ok_def)
  then have "filter (\<lambda>h. h \<notin> {n + 10, n + 11, n + 2, n + 4, n + 6}) (k_open k) = k_open k"
    by (intro filter_True) fastforce
  with q(2) p(8) have "k_open (pw_kernel q) = k_open k @ [n, n + 1, n + 3, n + 5, n + 7, n + 8, n + 9]"
    by (simp add: eval_nat_numeral upt_rec)
  with p q(1) show ?thesis by blast
qed

definition sample_kernel :: kernel where
  "sample_kernel = \<lparr> k_next = 3, k_open = [1], k_inherit = [], k_serial = 0, k_pid = 77, k_error = 0, k_pipes = [] \<rparr>"

definition sample_answers :: start_answers where
  "sample_answers = \<lparr> sa_pipe = (\<lambda>_. (True, None)), sa_flag = (\<lambda>_. True), sa_event = (\<lambda>_. True),
     sa_create = Some 9, sa_text = (\<lambda>_. Some []) \<rparr>"

theorem worker_leaks_handles_witness:
  "\<exists>p q. (bnd (prepare_child sample_answers) (\<lambda>_. create_child sample_answers))
      (process_start True (new_process_win ''w'' ''w'' [] sample_kernel)) = (Inr True, p) \<and>
    process_destroy p = (Inr (), q) \<and> k_open (pw_kernel q) = [1, 3, 4, 6, 8, 10, 11, 12]"
  using worker_leaks_handles [of sample_answers 9 sample_kernel 3 "''w''" "''w''" "[]"]
  by (auto simp: all_succeed_def sample_answers_def sample_kernel_def kernel_ok_def)

text \<open>C13: The two buffers are never given to two reads at once. In every run of the watching loop, of any
  length, the reads of standard output and of standard error each start and end in turn, and the loop's
  flag says whether one is outstanding.\<close>

theorem reads_alternate:
  assumes "watch_loop fmt as watch_start = Inr r" and "s = (case r of Inl t \<Rightarrow> t | Inr t \<Rightarrow> t)"
  shows "reading False (ws_out_log s) = Some (ss_pending (ws_out s)) \<and>
    reading False (ws_err_log s) = Some (ss_pending (ws_err s))"
  using watch_loop_ok [OF assms(1)] assms(2)
  by (auto simp: watch_ok_def watch_start_def initial_stream_def split: sum.splits)

definition sample_stream :: stream_answers where
  "sample_stream = \<lparr> st_read = IoPending, st_error = 0, st_result = GorOk 2, st_buffer = ''hello'' \<rparr>"

definition sample_pass :: "32 word \<Rightarrow> pass_answers" where
  "sample_pass w = \<lparr> pa_out = sample_stream, pa_err = sample_stream\<lparr> st_result := GorIncomplete \<rparr>,
     pa_wait = w, pa_error = 0 \<rparr>"

lemmas watch_eval = watch_pass_def stream_pass_def stream_read_def stream_complete_def watch_wait_def
  watch_start_def initial_stream_def sample_pass_def sample_stream_def buffsize_def WAIT_TIMEOUT_def WAIT_FAILED_def

theorem reads_alternate_witness:
  "\<exists>s. watch_loop (\<lambda>_. None) [sample_pass 0, sample_pass 3] watch_start = Inr (Inr s) \<and>
    ws_out_log s = [ReadStarted, ReadEnded ''he'', ReadStarted, ReadEnded ''he''] \<and>
    reading False (ws_out_log s) = Some (ss_pending (ws_out s)) \<and>
    reading False (ws_err_log s) = Some (ss_pending (ws_err s))"
proof -
  have "\<exists>s. watch_loop (\<lambda>_. None) [sample_pass 0, sample_pass 3] watch_start = Inr (Inr s) \<and>
    ws_out_log s = [ReadStarted, ReadEnded ''he'', ReadStarted, ReadEnded ''he'']"
    by (simp add: watch_eval)
  with reads_alternate [of "\<lambda>_. None" "[sample_pass 0, sample_pass 3]" "Inr _" _] show ?thesis by fastforce
qed

text \<open>C12: When the supervision ends. The assumptions: the worker was started with no call failing and its
  output is read without an error, Windows has a text for every error, the controller still has the
  process and its exit flag is not set, and between its turns the pipe's threads only add well-built messages.
  Then, whatever messages are waiting, and for any number of turns, each of which asks for the
  worker's thread after some passes of it: the loop never throws, and after these turns it has
  ended if and only if at one of them a wait of the worker's thread had reported the process as ended or
  had failed, or the control thread was gone, or Ctrl-C had come; otherwise it still supervises. As this
  holds for every number of turns, it ends in the first such turn. When it has ended, the
  stop message is the last one queued on the worker's pipe.\<close>

theorem worker_death_ends_supervision:
  assumes "all_succeed a" and "sa_create a = Some i" and "kernel_ok k" and "\<forall>e. sa_text a e \<noteq> None"
    and "list_all no_read_error as"
    and "controller_inv c" and "ct_procs c ! 0 = Some ()" and "\<not> ct_full_exit c"
    and "list_all2 (\<lambda>t ms. only_adds ms (tn_others t)) ts mss"
    and "list_all class_ok (read_queue (ct_pipe c) ! 0)"
    and "list_all2 (asked_after a as (process_start True (new_process_win cm cl ar k))) ts ns"
  shows "\<exists>c'. controller_loop l pt ts c =
      Inr (if list_ex (supervision_over as) (zip ts ns) then Inr c' else Inl c') \<and>
    (list_ex (supervision_over as) (zip ts ns) \<longrightarrow>
      (\<exists>e b q. pack l (new_stop e) = Inr b \<and> write_queue (ct_pipe c') ! 0 = q @ [b]))"
proof -
  have "list_ex ends_turn ts = list_ex (supervision_over as) (zip ts ns)"
    using assms(11)
    by (induction rule: list_all2_induct)
      (auto simp: asked_after_running [OF assms(1-5)] ends_turn_def supervision_over_def)
  with controller_loop_outcome [OF assms(6-10), of l pt] show ?thesis
    by (auto simp: pack_new_stop)
qed

text \<open>Two turns: in the first the thread has timed out once, in the second its third pass reports
  the end of the process, while a START message is still waiting.\<close>

theorem worker_death_ends_supervision_witness:
  "\<exists>c'. controller_loop unary_lib (\<lambda>_. []) [quiet_turn [], (quiet_turn [sample_start 3 4])\<lparr> tn_running := \<lambda>_. False \<rparr>]
      sample_controller = Inr (Inr c') \<and>
    (\<exists>e b q. pack unary_lib (new_stop e) = Inr b \<and> write_queue (ct_pipe c') ! 0 = q @ [b])"
proof -
  let ?as = "[sample_pass 0, sample_pass 258, sample_pass 3]"
  let ?p = "process_start True (new_process_win ''w'' ''w'' [] sample_kernel)"
  let ?ts = "[quiet_turn [], (quiet_turn [sample_start 3 4])\<lparr> tn_running := \<lambda>_. False \<rparr>]"
  have c: "ct_procs sample_controller ! 0 = Some ()" "\<not> ct_full_exit sample_controller"
    "list_all class_ok (read_queue (ct_pipe sample_controller) ! 0)"
    by (simp_all add: sample_controller_def controller_start_def proc_count_def)
  have a: "all_succeed sample_answers" "sa_create sample_answers = Some 9" "kernel_ok sample_kernel"
    "\<forall>e. sa_text sample_answers e \<noteq> None"
    by (simp_all add: all_succeed_def sample_answers_def sample_kernel_def kernel_ok_def)
  have p: "list_all no_read_error ?as"
    by (simp add: no_read_error_def sample_pass_def sample_stream_def)
  have "tn_others (quiet_turn ms\<lparr> tn_running := f \<rparr>) = tn_others (quiet_turn ms)" for ms f by simp
  then have adds: "list_all2 (\<lambda>t ms. only_adds ms (tn_others t)) ?ts [[], [sample_start 3 4]]"
    by (simp add: quiet_turn_adds)
  have asked: "list_all2 (asked_after sample_answers ?as ?p) ?ts [2, 3]"
    unfolding list_all2_Cons asked_after_running [OF a p]
    by (simp add: quiet_turn_def ends_watch_def sample_pass_def WAIT_FAILED_def)
  have over: "list_ex (supervision_over ?as) (zip ?ts [2, 3])"
    by (simp add: supervision_over_def ends_watch_def sample_pass_def)
  from worker_death_ends_supervision [OF a p controller_inv_sample c(1,2) adds c(3) asked, of unary_lib "\<lambda>_. []"]
  show ?thesis unfolding if_P [OF over] using over by blast
qed

end
