(* ===== verification/OsUtils.thy ===== *)
theory OsUtils imports EpPrelude begin

text \<open>
  \<open>binary_to_string\<close> of \<open>easyprospect-os-utils.h\<close>: the dump of a buffer in rows of an address, sixteen
  bytes in hexadecimal and the characters that can be printed. Addresses are a Windows
  \<open>unsigned long\<close>, of 32 bits.
\<close>

section \<open>Rows\<close>

text \<open>One turn of the loop copies up to sixteen bytes and advances past them; the loop's own increment
  then skips one more.\<close>

fun dump_chunks :: "32 word \<Rightarrow> 32 word \<Rightarrow> byte list \<Rightarrow> (32 word \<times> byte list) list" where
  "dump_chunks limit address [] = []"
| "dump_chunks limit address (b # bs) =
    (let row = (address, take 16 (b # bs)); address' = address + 16
     in if limit > 0 \<and> address' \<ge> limit then [row] else row # dump_chunks limit address' (drop 16 bs))"

text \<open>\<open>setw\<close> with the fill character zero.\<close>

definition hex_field :: "nat \<Rightarrow> nat \<Rightarrow> string" where
  "hex_field w n = pad_left w CHR ''0'' (hex_nat n)"

definition hex_column :: "byte list \<Rightarrow> nat \<Rightarrow> string" where
  "hex_column row j = (if j mod 8 = 0 then '' '' else []) @
     (if j < length row then '' '' @ hex_field 2 (unat (row ! j)) else ''   '')"

text \<open>\<open>char\<close> is signed: a byte from 128 on is below 32.\<close>

definition printable :: "byte \<Rightarrow> char" where
  "printable b = (if sint b < 32 then CHR ''.'' else char_of (unat b))"

definition dump_row :: "32 word \<Rightarrow> byte list \<Rightarrow> string" where
  "dump_row address row = hex_field 8 (unat address) @ concat (map (hex_column row) [0..<16])
     @ ''  '' @ map printable row @ newline"

definition binary_to_string :: "byte list \<Rightarrow> 32 word \<Rightarrow> string" where
  "binary_to_string bytes address_max =
     concat (map (\<lambda>(a, row). dump_row a row) (dump_chunks address_max 0 bytes))"

section \<open>Facts\<close>

lemma hex_nat_not_Nil [simp]: "hex_nat n \<noteq> []"
  by (subst hex_nat.simps) simp

lemma length_hex_nat: "n < 16 ^ Suc k \<Longrightarrow> length (hex_nat n) \<le> Suc k"
proof (induction k arbitrary: n)
  case 0
  then show ?case by (subst hex_nat.simps) simp
next
  case (Suc k)
  then have "n div 16 < 16 ^ Suc k" by (simp add: less_mult_imp_div_less mult.commute)
  with Suc.IH show ?case by (subst hex_nat.simps) simp
qed

lemma length_hex_field: "n < 16 ^ Suc k \<Longrightarrow> length (hex_field (Suc k) n) = Suc k"
  using length_hex_nat [of n k] by (simp add: hex_field_def)

lemma parse_hex_field [simp]: "parse_hex (hex_field w n) = n"
  by (simp add: hex_field_def)

lemma length_hex_column: "length (hex_column row j) = (if j mod 8 = 0 then 4 else 3)"
proof -
  have "length (hex_field 2 (unat (b :: byte))) = 2" for b
  proof -
    have "(unsigned b :: nat) < 2 ^ LENGTH(8)" by (rule unsigned_less)
    then show ?thesis using length_hex_field [of "unat b" 1] by (simp add: numeral_2_eq_2)
  qed
  then show ?thesis by (simp add: hex_column_def)
qed

lemma length_dump_row: "length (dump_row a row) = 61 + length row"
proof -
  have "(unsigned a :: nat) < 2 ^ LENGTH(32)" by (rule unsigned_less)
  then have "length (hex_field 8 (unat a)) = 8"
    using length_hex_field [of "unat a" 7] by simp
  then show ?thesis
    by (simp add: dump_row_def length_concat comp_def length_hex_column newline_def upt_rec)
qed

lemma dump_chunks_eq: "bs \<noteq> [] \<Longrightarrow> dump_chunks 0 a bs = (a, take 16 bs) # dump_chunks 0 (a + 16) (drop 17 bs)"
  by (cases bs) (simp_all add: Let_def)

lemma dump_chunks_nth:
  "j < length (dump_chunks 0 a bs) \<Longrightarrow>
   dump_chunks 0 a bs ! j = (a + word_of_nat (16 * j), take 16 (drop (17 * j) bs))"
proof (induction j arbitrary: a bs)
  case 0
  then show ?case by (cases bs) (simp_all add: Let_def)
next
  case (Suc j)
  then have "bs \<noteq> []" by auto
  with Suc dump_chunks_eq [OF this, of a] show ?case
    by (simp add: algebra_simps)
qed

lemma length_dump_chunks: "length (dump_chunks 0 a bs) = (length bs + 16) div 17"
proof (induction "length bs" arbitrary: a bs rule: less_induct)
  case less
  show ?case
  proof (cases "bs = []")
    case False
    then have "length (drop 17 bs) < length bs" by simp
    with less have "length (dump_chunks 0 (a + 16) (drop 17 bs)) = (length (drop 17 bs) + 16) div 17" by blast
    moreover have "Suc ((length bs - 17 + 16) div 17) = (length bs + 16) div 17"
      using False by (cases "length bs") (simp, presburger)
    ultimately show ?thesis using False by (simp add: dump_chunks_eq)
  qed simp
qed

section \<open>Properties\<close>

text \<open>The dump leaves out every seventeenth byte. Row j, addressed 16 j, shows the bytes from 17 j on; there
  is a row for each seventeen bytes begun, and its text has a fixed width but for the printed
  characters at its end.\<close>

theorem dump_skips_bytes:
  "length (dump_chunks 0 0 bytes) = (length bytes + 16) div 17 \<and>
   map fst (dump_chunks 0 0 bytes) = map (\<lambda>j. word_of_nat (16 * j)) [0..<(length bytes + 16) div 17] \<and>
   map snd (dump_chunks 0 0 bytes) = map (\<lambda>j. take 16 (drop (17 * j) bytes)) [0..<(length bytes + 16) div 17] \<and>
   length (binary_to_string bytes 0) = 61 * ((length bytes + 16) div 17)
     + sum_list (map (length \<circ> snd) (dump_chunks 0 0 bytes))"
proof -
  have "length (concat (map (\<lambda>(a, row). dump_row a row) cs)) = 61 * length cs + sum_list (map (length \<circ> snd) cs)" for cs
    by (induction cs) (auto simp: length_dump_row)
  then show ?thesis
    by (auto simp: binary_to_string_def length_dump_chunks dump_chunks_nth intro!: nth_equalityI)
qed

end
