(* ===== verification/JsHost.thy ===== *)
theory JsHost imports EpPrelude begin

text \<open>
  The host of the JavaScript engine: the results handed out (\<open>EpJsResult.h\<close>, \<open>EpJsResult.cpp\<close>) and the
  contexts scripts run in (\<open>easyprospect-v8.h\<close>, \<open>easyprospect-v8.cpp\<close>). The engine is a parameter: what
  it compiles to and what a run gives. Its values are a data type of the classes the code tells
  apart; numbers that are no 32-bit integers are of a type of their own. \<open>EpJsResult.cpp\<close> names the conversions of
  a class \<open>easyprospect_v8_2\<close> that has no definitions; they are taken to be those of \<open>easyprospect_v8\<close>.
\<close>

unbundle bit_operations_syntax

section \<open>Values of the engine\<close>

datatype 'f js_value =
    JsNull | JsUndefined
  | JsBool bool
  | JsInt32 "32 word"
  | JsNumber 'f
  | JsString string
  | JsStringObject string
  | JsOther string

text \<open>The answer of \<open>typeof\<close>; \<open>JsOther\<close> carries its own.\<close>

fun js_typeof :: "'f js_value \<Rightarrow> string" where
  "js_typeof JsNull = ''object''"
| "js_typeof JsUndefined = ''undefined''"
| "js_typeof (JsBool b) = ''boolean''"
| "js_typeof (JsInt32 i) = ''number''"
| "js_typeof (JsNumber x) = ''number''"
| "js_typeof (JsString s) = ''string''"
| "js_typeof (JsStringObject s) = ''object''"
| "js_typeof (JsOther t) = t"

text \<open>\<open>value_to_string\<close> of what the engine's conversion to UTF-8 gives, a null pointer when it throws; the
  text ends at its first null character.\<close>

definition value_to_string :: "string option \<Rightarrow> string" where
  "value_to_string utf8 = (case utf8 of None \<Rightarrow> [] | Some p \<Rightarrow> takeWhile (\<lambda>c. c \<noteq> CHR 0x00) p)"

definition to_cstring :: "string option \<Rightarrow> string" where
  "to_cstring utf8 = (case utf8 of Some p \<Rightarrow> takeWhile (\<lambda>c. c \<noteq> CHR 0x00) p
     | None \<Rightarrow> ''<string conversion failed>'')"

section \<open>Results\<close>

datatype 'f simple_value = NullValue | BoolValue bool | Int64Value "64 word" | UInt64Value "64 word"
  | DoubleValue 'f | StringValue string

type_synonym value_type = "32 word"

definition vt_none :: value_type where "vt_none = 0"
definition vt_boolean :: value_type where "vt_boolean = push_bit 6 1"
definition vt_number :: value_type where "vt_number = push_bit 7 1"
definition vt_string :: value_type where "vt_string = push_bit 8 1"
definition vt_integer :: value_type where "vt_integer = push_bit 9 1"

record 'f js_result =
  jr_undefined :: bool
  jr_null :: bool
  jr_value_string :: string
  jr_type_string :: string
  jr_type :: value_type
  jr_simple :: "'f simple_value"

text \<open>The constructors; the one for \<open>uint64_t\<close> drops three of its arguments.\<close>

definition result_none :: "bool \<Rightarrow> bool \<Rightarrow> string \<Rightarrow> string \<Rightarrow> 'f js_result" where
  "result_none n u sv st = \<lparr> jr_undefined = u, jr_null = n, jr_value_string = sv, jr_type_string = st,
     jr_type = vt_none, jr_simple = NullValue \<rparr>"

definition result_int64 :: "64 word \<Rightarrow> bool \<Rightarrow> bool \<Rightarrow> string \<Rightarrow> string \<Rightarrow> 'f js_result" where
  "result_int64 v n u sv st = \<lparr> jr_undefined = u, jr_null = n, jr_value_string = sv, jr_type_string = st,
     jr_type = vt_number OR vt_integer, jr_simple = Int64Value v \<rparr>"

definition result_uint64 :: "64 word \<Rightarrow> bool \<Rightarrow> bool \<Rightarrow> string \<Rightarrow> string \<Rightarrow> 'f js_result" where
  "result_uint64 v n u sv st = \<lparr> jr_undefined = False, jr_null = False, jr_value_string = [], jr_type_string = st,
     jr_type = vt_number OR vt_integer, jr_simple = UInt64Value v \<rparr>"

definition result_double :: "'f \<Rightarrow> bool \<Rightarrow> bool \<Rightarrow> string \<Rightarrow> string \<Rightarrow> 'f js_result" where
  "result_double v n u sv st = \<lparr> jr_undefined = u, jr_null = n, jr_value_string = sv, jr_type_string = st,
     jr_type = vt_number, jr_simple = DoubleValue v \<rparr>"

definition result_string :: "string \<Rightarrow> bool \<Rightarrow> bool \<Rightarrow> string \<Rightarrow> string \<Rightarrow> 'f js_result" where
  "result_string v n u sv st = \<lparr> jr_undefined = u, jr_null = n, jr_value_string = sv, jr_type_string = st,
     jr_type = vt_string, jr_simple = StringValue v \<rparr>"

definition result_bool :: "bool \<Rightarrow> bool \<Rightarrow> bool \<Rightarrow> string \<Rightarrow> string \<Rightarrow> 'f js_result" where
  "result_bool v n u sv st = \<lparr> jr_undefined = u, jr_null = n, jr_value_string = sv, jr_type_string = st,
     jr_type = vt_boolean, jr_simple = BoolValue v \<rparr>"

text \<open>\<open>CreateResult\<close>: the conversion to text is the engine's. A 32-bit integer widens with its sign.\<close>

definition create_result :: "('f js_value \<Rightarrow> string option) \<Rightarrow> 'f js_value \<Rightarrow> 'f js_result" where
  "create_result utf8 v =
    (let n = (v = JsNull); u = (v = JsUndefined);
         sv = value_to_string (utf8 v); st = value_to_string (Some (js_typeof v))
     in case v of
       JsStringObject s \<Rightarrow> result_string (value_to_string (utf8 v)) n u sv st
     | JsString s \<Rightarrow> result_string (value_to_string (utf8 v)) n u sv st
     | JsBool b \<Rightarrow> result_bool b n u sv st
     | JsInt32 i \<Rightarrow> result_int64 (scast i) n u sv st
     | JsNumber x \<Rightarrow> result_double x n u sv st
     | _ \<Rightarrow> result_none n u sv st)"

definition result_assign :: "'f js_result \<Rightarrow> 'f js_result \<Rightarrow> 'f js_result" where
  "result_assign r other = r"

definition is_undefined :: "'f js_result \<Rightarrow> bool" where "is_undefined r = jr_undefined r"
definition is_null :: "'f js_result \<Rightarrow> bool" where "is_null r = jr_null r"

definition is_null_or_undefined :: "'f js_result \<Rightarrow> bool" where
  "is_null_or_undefined r = (if is_null r \<or> is_undefined r then True else False)"

definition is_string :: "'f js_result \<Rightarrow> bool" where "is_string r = (jr_type r AND vt_string \<noteq> vt_none)"
definition is_boolean :: "'f js_result \<Rightarrow> bool" where "is_boolean r = (jr_type r AND vt_boolean \<noteq> vt_none)"
definition is_number :: "'f js_result \<Rightarrow> bool" where "is_number r = (jr_type r AND vt_number \<noteq> vt_none)"
definition is_int32 :: "'f js_result \<Rightarrow> bool" where "is_int32 r = (jr_type r AND vt_integer \<noteq> vt_none)"

text \<open>The other questions are all answered no.\<close>

datatype js_query =
    QIsTrue | QIsFalse | QIsName | QIsSymbol | QIsFunction | QIsArray | QIsObject | QIsBigInt
  | QIsExternal | QIsUint32 | QIsDate | QIsArgumentsObject | QIsBigIntObject | QIsBooleanObject
  | QIsNumberObject | QIsStringObject | QIsSymbolObject | QIsNativeError | QIsRegExp
  | QIsAsyncFunction | QIsGeneratorFunction | QIsGeneratorObject | QIsPromise | QIsMap | QIsSet
  | QIsMapIterator | QIsSetIterator | QIsWeakMap | QIsWeakSet | QIsArrayBuffer
  | QIsArrayBufferView | QIsTypedArray | QIsUint8Array | QIsUint8ClampedArray | QIsInt8Array
  | QIsUint16Array | QIsInt16Array | QIsUint32Array | QIsInt32Array | QIsFloat32Array
  | QIsFloat64Array | QIsBigInt64Array | QIsBigUint64Array | QIsDataView | QIsSharedArrayBuffer
  | QIsProxy | QIsWebAssemblyCompiledModule | QIsModuleNamespaceObject

definition js_query :: "js_query \<Rightarrow> 'f js_result \<Rightarrow> bool" where
  "js_query q r = False"

definition to_bool :: "'f js_result \<Rightarrow> bool result" where
  "to_bool r =
    (if is_undefined r then Inl (LogicError ''result is undefined.'')
     else if \<not> is_boolean r then Inl (LogicError ''result is not boolean.'')
     else if is_null r then Inl (LogicError ''result is null.'')
     else case jr_simple r of BoolValue b \<Rightarrow> Inr b | _ \<Rightarrow> Inl TypeError)"

definition to_string_js :: "'f js_result \<Rightarrow> string" where "to_string_js r = jr_value_string r"
definition get_js_type :: "'f js_result \<Rightarrow> string" where "get_js_type r = jr_type_string r"
definition get_ep_type :: "'f js_result \<Rightarrow> value_type" where "get_ep_type r = jr_type r"

section \<open>Contexts\<close>

record 'c js_host =
  jh_contexts :: "32 word \<rightharpoonup> 'c"
  jh_next_id :: "32 word"

definition new_host :: "'c js_host" where
  "new_host = \<lparr> jh_contexts = Map.empty, jh_next_id = 1 \<rparr>"

definition get_next_context_id :: "'c js_host \<Rightarrow> 32 word \<times> 'c js_host" where
  "get_next_context_id h = (jh_next_id h, h\<lparr> jh_next_id := jh_next_id h + 1 \<rparr>)"

text \<open>\<open>insert\<close> leaves a context that has the id already.\<close>

definition create_context :: "'c \<Rightarrow> 'c js_host \<Rightarrow> (nat \<times> 32 word) \<times> 'c js_host" where
  "create_context c h = (let (i, h1) = get_next_context_id h in
     ((0, i), if jh_contexts h1 i = None then h1\<lparr> jh_contexts := (jh_contexts h1)(i \<mapsto> c) \<rparr> else h1))"

definition get_context :: "32 word \<Rightarrow> 'c js_host \<Rightarrow> 'c result" where
  "get_context i h = (case jh_contexts h i of None \<Rightarrow> Inl (OutOfRange ''map::at'') | Some c \<Rightarrow> Inr c)"

definition remove_context :: "32 word \<Rightarrow> 'c js_host \<Rightarrow> nat \<times> 'c js_host" where
  "remove_context i h = (if jh_contexts h i = None then (1, h)
     else (0, h\<lparr> jh_contexts := (jh_contexts h)(i := None) \<rparr>))"

definition result_code_to_string :: "int \<Rightarrow> string" where
  "result_code_to_string code =
    (if code = 0 then ''Success'' else if code = 1 then ''Context not found''
     else if code = 2 then ''Compile error'' else if code = 3 then ''Runtime error'' else [])"

section \<open>Exceptions of scripts\<close>

text \<open>What the engine says of an exception: its text, and, when there is one, a message with file, line, source
  line, columns and stack trace (its length and its text). \<open>FromJust\<close> and \<open>ToLocalChecked\<close> end the program on
  nothing.\<close>

record v8_message =
  vm_file :: "string option"
  vm_line :: "int option"
  vm_source :: "string option option"
  vm_start :: "int option"
  vm_end :: "int option"
  vm_stack :: "(nat \<times> string option) option"

record v8_exception =
  ve_text :: "string option"
  ve_message :: "v8_message option"

fun from_just :: "'a option \<Rightarrow> 'a result" where
  "from_just None = Inl AssertionFailed"
| "from_just (Some x) = Inr x"

definition report_exception :: "v8_exception \<Rightarrow> string result" where
  "report_exception e = (case ve_message e of
     None \<Rightarrow> Inr (to_cstring (ve_text e) @ newline)
   | Some m \<Rightarrow>
       rbind (from_just (vm_line m)) (\<lambda>line.
       rbind (from_just (vm_source m)) (\<lambda>src.
       rbind (from_just (vm_start m)) (\<lambda>start.
       rbind (from_just (vm_end m)) (\<lambda>end.
         Inr (newline @ to_cstring (vm_file m) @ '':'' @ dec_int line @ '':'' @ to_cstring (ve_text e) @ newline
           @ to_cstring src @ newline
           @ replicate (nat start) CHR '' '' @ replicate (nat (end - start)) CHR ''^'' @ newline
           @ (case vm_stack m of
                Some (n, t) \<Rightarrow> if n > 0 then to_cstring t @ newline else []
              | None \<Rightarrow> [])))))))"

section \<open>Running a script\<close>

text \<open>The engine: whether it takes the text, what compiling says in a context, and what a run gives: the context
  after it, a value unless it threw, and the exception that was caught.\<close>

record ('c, 'f) js_engine =
  je_source :: "string \<Rightarrow> bool"
  je_compile :: "'c \<Rightarrow> string \<Rightarrow> v8_exception option"
  je_run :: "'c \<Rightarrow> string \<Rightarrow> 'c \<times> 'f js_value option \<times> v8_exception option"
  je_utf8 :: "'f js_value \<Rightarrow> string option"

text \<open>The first component is what was logged of an exception.\<close>

definition run_javascript ::
  "('c, 'f) js_engine \<Rightarrow> 32 word \<Rightarrow> string \<Rightarrow> 'c js_host \<Rightarrow> (string list \<times> 'f js_result result) \<times> 'c js_host" where
  "run_javascript v i script h = (case jh_contexts h i of
     None \<Rightarrow> (([], Inl (LogicError ''context not found'')), h)
   | Some c \<Rightarrow>
       if \<not> je_source v script then (([], Inl AssertionFailed), h)
       else case je_compile v c script of
         Some e \<Rightarrow> (case report_exception e of
             Inl x \<Rightarrow> (([], Inl x), h)
           | Inr t \<Rightarrow> (([t], Inl (LogicError ''compile error'')), h))
       | None \<Rightarrow>
           (let (c', res, caught) = je_run v c script; h' = h\<lparr> jh_contexts := (jh_contexts h)(i \<mapsto> c') \<rparr>
            in case caught of
              Some e \<Rightarrow> (case report_exception e of
                  Inl x \<Rightarrow> (([], Inl x), h')
                | Inr t \<Rightarrow> (([t], Inl (LogicError ''run error'')), h'))
            | None \<Rightarrow> (case res of
                  None \<Rightarrow> (([], Inl UndefinedBehaviour), h')
                | Some r \<Rightarrow> (([], Inr (create_result (je_utf8 v) r)), h'))))"

section \<open>Facts\<close>

lemma type_bits [simp]:
  "vt_number AND vt_string = 0" "vt_number AND vt_boolean = 0" "vt_number AND vt_integer = 0"
  "vt_string AND vt_boolean = 0" "vt_string AND vt_number = 0" "vt_string AND vt_integer = 0"
  "vt_boolean AND vt_string = 0" "vt_boolean AND vt_number = 0" "vt_boolean AND vt_integer = 0"
  "(vt_number OR vt_integer) AND vt_string = 0" "(vt_number OR vt_integer) AND vt_boolean = 0"
  "(vt_number OR vt_integer) AND vt_number = vt_number" "(vt_number OR vt_integer) AND vt_integer = vt_integer"
  "vt_none AND t = 0" "vt_number \<noteq> 0" "vt_string \<noteq> 0" "vt_boolean \<noteq> 0" "vt_integer \<noteq> 0"
  by (simp_all add: vt_number_def vt_string_def vt_boolean_def vt_integer_def vt_none_def)

lemmas result_defs = create_result_def result_none_def result_int64_def result_double_def result_string_def
  result_bool_def is_boolean_def is_number_def is_int32_def is_string_def is_undefined_def is_null_def Let_def

definition create_all :: "'c list \<Rightarrow> 'c js_host \<Rightarrow> 'c js_host" where
  "create_all cs h = fold (\<lambda>c h. snd (create_context c h)) cs h"

lemma create_all_snoc: "create_all (cs @ [c]) h = snd (create_context c (create_all cs h))"
  by (simp add: create_all_def)

text \<open>The contexts after any number of creations: the first that got an id keeps it.\<close>

lemma create_all_new:
  "jh_next_id (create_all cs new_host) = 1 + word_of_nat (length cs) \<and>
   jh_contexts (create_all cs new_host) i =
     (if unat (i - 1) < length cs then Some (cs ! unat (i - 1)) else None)"
proof (induction cs arbitrary: i rule: rev_induct)
  case Nil
  then show ?case by (simp add: create_all_def new_host_def)
next
  case (snoc c cs)
  let ?h = "create_all cs new_host"
  let ?id = "1 + word_of_nat (length cs) :: 32 word"
  let ?k = "unat (i - 1)"
  have nid: "jh_next_id ?h = ?id" and at: "jh_contexts ?h j =
      (if unat (j - 1) < length cs then Some (cs ! unat (j - 1)) else None)" for j
    using snoc.IH by blast+
  have k: "unat (?id - 1) = length cs mod 2 ^ 32" by (simp add: unat_of_nat)
  have new: "create_all (cs @ [c]) new_host = (if jh_contexts ?h ?id = None
      then ?h\<lparr> jh_next_id := ?id + 1, jh_contexts := (jh_contexts ?h)(?id \<mapsto> c) \<rparr> else ?h\<lparr> jh_next_id := ?id + 1 \<rparr>)"
    by (simp add: create_all_snoc create_context_def get_next_context_id_def nid Let_def)
  have "jh_contexts (create_all (cs @ [c]) new_host) i =
      (if ?k < Suc (length cs) then Some ((cs @ [c]) ! ?k) else None)"
  proof (cases "length cs < 2 ^ 32")
    case True
    then have id: "unat (?id - 1) = length cs" unfolding k by (rule mod_less)
    have "jh_contexts ?h ?id = None" unfolding at id by simp
    then have c: "jh_contexts (create_all (cs @ [c]) new_host) i = (if i = ?id then Some c else jh_contexts ?h i)"
      unfolding new by simp
    show ?thesis
    proof (cases "i = ?id")
      case True
      with c id show ?thesis by simp
    next
      case False
      then have "?k \<noteq> length cs" using id by (metis diff_add_cancel word_unat_eq_iff)
      then show ?thesis using c at [of i] False by (simp add: nth_append less_Suc_eq)
    qed
  next
    case False
    have "?k < 2 ^ 32" using unsigned_less [of "i - 1", where 'a = nat] by simp
    then have lt: "?k < length cs" using False by simp
    have "length cs mod 2 ^ 32 < length cs" using False by (simp add: order_less_le_trans [OF mod_less_divisor])
    then have "jh_contexts ?h ?id \<noteq> None" unfolding at k by simp
    then have "jh_contexts (create_all (cs @ [c]) new_host) i = jh_contexts ?h i" unfolding new by simp
    then show ?thesis unfolding at using lt by (simp add: nth_append)
  qed
  moreover have "jh_next_id (create_all (cs @ [c]) new_host) = 1 + word_of_nat (length (cs @ [c]))"
    unfolding new by simp
  ultimately show ?case by simp
qed

section \<open>Properties\<close>

text \<open>What a script's value becomes. Each class of values keeps its own: only a boolean converts to one, with its
  value, an undefined value and any other are the two errors; numbers, 32-bit integers and strings
  are told apart, and an integer keeps its value in 64 bits.\<close>

theorem result_of_value:
  "to_bool (create_result utf8 v) = (case v of
     JsBool b \<Rightarrow> Inr b
   | JsUndefined \<Rightarrow> Inl (LogicError ''result is undefined.'')
   | _ \<Rightarrow> Inl (LogicError ''result is not boolean.'')) \<and>
   is_boolean (create_result utf8 v) = (case v of JsBool b \<Rightarrow> True | _ \<Rightarrow> False) \<and>
   is_number (create_result utf8 v) = (case v of JsInt32 i \<Rightarrow> True | JsNumber x \<Rightarrow> True | _ \<Rightarrow> False) \<and>
   is_int32 (create_result utf8 v) = (case v of JsInt32 i \<Rightarrow> True | _ \<Rightarrow> False) \<and>
   is_string (create_result utf8 v) = (case v of JsString s \<Rightarrow> True | JsStringObject s \<Rightarrow> True | _ \<Rightarrow> False) \<and>
   (case v of
      JsInt32 i \<Rightarrow> (case jr_simple (create_result utf8 v) of Int64Value w \<Rightarrow> sint w = sint i | _ \<Rightarrow> False)
    | _ \<Rightarrow> True)"
proof -
  have "sint (scast i :: 64 word) = sint i" for i :: "32 word" by (simp add: sint_up_scast is_up)
  then show ?thesis
    by (cases v) (simp_all add: to_bool_def result_defs vt_none_def)
qed

text \<open>The contexts of a host. Ids are handed out in order, and an id finds the context created with it as
  long as no more than two to the 32 were created; from then on the ids come round, the contexts made
  are dropped and their ids find the old ones. Asking for an id never handed out throws.\<close>

theorem contexts_by_id:
  "snd (fst (create_context c (create_all cs new_host))) = 1 + word_of_nat (length cs) \<and>
   get_context (1 + word_of_nat k) (create_all cs new_host) =
     (if k mod 2 ^ 32 < length cs then Inr (cs ! (k mod 2 ^ 32)) else Inl (OutOfRange ''map::at'')) \<and>
   get_context i (snd (remove_context i (create_all cs new_host))) = Inl (OutOfRange ''map::at'')"
  using create_all_new [of cs]
  by (auto simp: create_context_def get_next_context_id_def get_context_def remove_context_def Let_def unat_of_nat
      split: option.split)

text \<open>A script touches its own context only, and runs only when the context exists and its text compiles; then
  it gives a result exactly when nothing was caught, and every exception it reports is thrown on.\<close>

theorem script_effects:
  "(if j = i then True else jh_contexts (snd (run_javascript v i script h)) j = jh_contexts h j) \<and>
   jh_next_id (snd (run_javascript v i script h)) = jh_next_id h \<and>
   (case jh_contexts h i of
      None \<Rightarrow> run_javascript v i script h = (([], Inl (LogicError ''context not found'')), h)
    | Some c \<Rightarrow> (\<exists>r. snd (fst (run_javascript v i script h)) = Inr r) =
        (je_source v script \<and> je_compile v c script = None \<and>
         snd (snd (je_run v c script)) = None \<and> fst (snd (je_run v c script)) \<noteq> None))"
  by (auto simp: run_javascript_def Let_def split: option.split prod.split sum.split)

end
