(* ===== verification/JsConvert.thy ===== *)
theory JsConvert imports Complex_Main EpPrelude "HOL-Library.List_Lexorder" "HOL-Library.Char_ord" begin

text \<open>
  Conversions between values of the JavaScript engine and C++ (\<open>convert.h\<close>) and the calls of C++ functions
  from scripts (\<open>call.h\<close>, \<open>function.h\<close>). A specialisation of \<open>Convert\<close> is a record of its three
  functions. The engine's own conversions are a parameter, with laws that state what it documents. The
  locale is the contract of a converter; the containers keep it for their elements.
\<close>

section \<open>Values\<close>

datatype js_number = NaN | Infinite bool | Finite rat

datatype jsv =
    VEmpty | VUndefined | VNull
  | VBool bool
  | VNum js_number
  | VString string
  | VArray "jsv list"
  | VObject "(jsv \<times> jsv) list"
  | VOther string

text \<open>\<open>VObject\<close> has the keys that \<open>GetPropertyNames\<close> gives, in its order.\<close>

fun jsv_typeof :: "jsv \<Rightarrow> string" where
  "jsv_typeof VEmpty = ''''"
| "jsv_typeof VUndefined = ''undefined''"
| "jsv_typeof (VBool b) = ''boolean''"
| "jsv_typeof (VNum n) = ''number''"
| "jsv_typeof (VString s) = ''string''"
| "jsv_typeof (VOther t) = t"
| "jsv_typeof v = ''object''"

text \<open>The engine: texts it takes (\<open>NewFromUtf8\<close>, nothing when it is too long), \<open>IntegerValue\<close>, and \<open>Set\<close> on an
  object.\<close>

record v8_lib =
  vl_new_string :: "string \<Rightarrow> string option"
  vl_integer :: "js_number \<Rightarrow> 64 word"
  vl_set :: "jsv \<Rightarrow> jsv \<Rightarrow> (jsv \<times> jsv) list \<Rightarrow> (jsv \<times> jsv) list"

text \<open>\<open>ToInt32\<close> and \<open>ToUint32\<close> of the language have the same bits: the number without its fraction, modulo two
  to the 32.\<close>

definition to_int32 :: "js_number \<Rightarrow> 32 word" where
  "to_int32 n = (case n of
     Finite x \<Rightarrow> word_of_int (if x < 0 then \<lceil>x\<rceil> else \<lfloor>x\<rfloor>)
   | _ \<Rightarrow> 0)"

text \<open>\<open>static_cast<double>\<close> of an integer: 53 bits, to the nearest, to the even one of two.\<close>

fun excess_bits :: "nat \<Rightarrow> nat" where
  "excess_bits n = (if n < 2 ^ 53 then 0 else Suc (excess_bits (n div 2)))"

declare excess_bits.simps [simp del]

definition round_double :: "int \<Rightarrow> int" where
  "round_double i =
    (let m = 2 ^ excess_bits (nat \<bar>i\<bar>); q = i div m; r = i mod m
     in if 2 * r < m \<or> 2 * r = m \<and> even q then q * m else (q + 1) * m)"

section \<open>Converters\<close>

record 'a converter =
  cv_valid :: "jsv \<Rightarrow> bool"
  cv_from :: "jsv \<Rightarrow> 'a result"
  cv_to :: "'a \<Rightarrow> jsv result"

text \<open>\<open>invalid_argument\<close>.\<close>

definition invalid_argument :: "jsv \<Rightarrow> string \<Rightarrow> cpp_error" where
  "invalid_argument v expected = InvalidArgument (''expected '' @ expected @ '', typeof='' @
     (if v = VEmpty then ''<empty>'' else jsv_typeof v))"

fun is_string_value :: "jsv \<Rightarrow> bool" where
  "is_string_value (VString s) = True" | "is_string_value v = False"

fun is_boolean_value :: "jsv \<Rightarrow> bool" where
  "is_boolean_value (VBool b) = True" | "is_boolean_value v = False"

fun is_number_value :: "jsv \<Rightarrow> bool" where
  "is_number_value (VNum n) = True" | "is_number_value v = False"

fun is_array_value :: "jsv \<Rightarrow> bool" where
  "is_array_value (VArray vs) = True" | "is_array_value v = False"

text \<open>An array is an object too; functions are among the others.\<close>

fun is_object_value :: "jsv \<Rightarrow> bool" where
  "is_object_value (VObject ps) = True"
| "is_object_value (VArray vs) = True"
| "is_object_value (VOther t) = (t = ''object'' \<or> t = ''function'')"
| "is_object_value v = False"

definition conv_string :: "v8_lib \<Rightarrow> string converter" where
  "conv_string l = \<lparr> cv_valid = is_string_value,
     cv_from = (\<lambda>v. case v of VString s \<Rightarrow> Inr s | _ \<Rightarrow> Inl (invalid_argument v ''String'')),
     cv_to = (\<lambda>s. case vl_new_string l s of None \<Rightarrow> Inl AssertionFailed | Some t \<Rightarrow> Inr (VString t)) \<rparr>"

definition conv_bool :: "bool converter" where
  "conv_bool = \<lparr> cv_valid = is_boolean_value,
     cv_from = (\<lambda>v. case v of VBool b \<Rightarrow> Inr b | _ \<Rightarrow> Inl (invalid_argument v ''Boolean'')),
     cv_to = (\<lambda>b. Inr (VBool b)) \<rparr>"

text \<open>The integers: the width is the type's, the flag tells whether it is signed.\<close>

definition int_from :: "v8_lib \<Rightarrow> js_number \<Rightarrow> 'a::len word" where
  "int_from l n = (if LENGTH('a) \<le> 32 then ucast (to_int32 n) else ucast (vl_integer l n))"

definition int_to :: "bool \<Rightarrow> 'a::len word \<Rightarrow> js_number" where
  "int_to sg w = (let i = (if sg then sint w else uint w)
     in Finite (of_int (if LENGTH('a) \<le> 32 then i else round_double i)))"

definition conv_int :: "v8_lib \<Rightarrow> bool \<Rightarrow> 'a::len word converter" where
  "conv_int l sg = \<lparr> cv_valid = is_number_value,
     cv_from = (\<lambda>v. case v of VNum n \<Rightarrow> Inr (int_from l n) | _ \<Rightarrow> Inl (invalid_argument v ''Number'')),
     cv_to = (\<lambda>w. Inr (VNum (int_to sg w))) \<rparr>"

text \<open>An enumeration goes through its underlying type.\<close>

definition conv_enum :: "('u \<Rightarrow> 'a) \<Rightarrow> ('a \<Rightarrow> 'u) \<Rightarrow> 'u converter \<Rightarrow> 'a converter" where
  "conv_enum of_u to_u c = \<lparr> cv_valid = cv_valid c,
     cv_from = (\<lambda>v. rbind (cv_from c v) (\<lambda>u. Inr (of_u u))),
     cv_to = (\<lambda>x. cv_to c (to_u x)) \<rparr>"

text \<open>The floating-point types: a cast from double and one to it.\<close>

definition conv_float :: "(js_number \<Rightarrow> 'f) \<Rightarrow> ('f \<Rightarrow> js_number) \<Rightarrow> 'f converter" where
  "conv_float of_double to_double = \<lparr> cv_valid = is_number_value,
     cv_from = (\<lambda>v. case v of VNum n \<Rightarrow> Inr (of_double n) | _ \<Rightarrow> Inl (invalid_argument v ''Number'')),
     cv_to = (\<lambda>x. Inr (VNum (to_double x))) \<rparr>"

fun convert_all :: "('a \<Rightarrow> 'b result) \<Rightarrow> 'a list \<Rightarrow> 'b list result" where
  "convert_all f [] = Inr []"
| "convert_all f (x # xs) = rbind (f x) (\<lambda>y. rbind (convert_all f xs) (\<lambda>ys. Inr (y # ys)))"

definition conv_vector :: "'a converter \<Rightarrow> 'a list converter" where
  "conv_vector c = \<lparr> cv_valid = is_array_value,
     cv_from = (\<lambda>v. case v of VArray vs \<Rightarrow> convert_all (cv_from c) vs | _ \<Rightarrow> Inl (invalid_argument v ''Array'')),
     cv_to = (\<lambda>xs. rbind (convert_all (cv_to c) xs) (\<lambda>vs. Inr (VArray vs))) \<rparr>"

text \<open>\<open>std::array<T, N>\<close> as the lists of length N.\<close>

definition conv_array :: "nat \<Rightarrow> 'a converter \<Rightarrow> 'a list converter" where
  "conv_array n c = \<lparr> cv_valid = is_array_value,
     cv_from = (\<lambda>v. case v of
         VArray vs \<Rightarrow> if length vs \<noteq> n
           then Inl (RuntimeError (''Invalid array length: expected '' @ dec_nat n @ '' actual '' @ dec_nat (length vs)))
           else convert_all (cv_from c) vs
       | _ \<Rightarrow> Inl (invalid_argument v ''Array'')),
     cv_to = (\<lambda>xs. rbind (convert_all (cv_to c) xs) (\<lambda>vs. Inr (VArray vs))) \<rparr>"

text \<open>\<open>std::map\<close> as the list of its pairs in the order of the keys; \<open>emplace\<close> keeps a key that is there.\<close>

definition emplace :: "'k::linorder \<times> 'v \<Rightarrow> ('k \<times> 'v) list \<Rightarrow> ('k \<times> 'v) list" where
  "emplace kv m = (if fst kv \<in> set (map fst m) then m else insort_key fst kv m)"

definition conv_pair :: "'k converter \<Rightarrow> 'v converter \<Rightarrow> jsv \<times> jsv \<Rightarrow> ('k \<times> 'v) result" where
  "conv_pair ck cv p = rbind (cv_from ck (fst p)) (\<lambda>k. rbind (cv_from cv (snd p)) (\<lambda>v. Inr (k, v)))"

fun properties :: "jsv \<Rightarrow> (jsv \<times> jsv) list" where
  "properties (VObject ps) = ps"
| "properties (VArray vs) = zip (map (\<lambda>i. VNum (Finite (of_nat i))) [0..<length vs]) vs"
| "properties v = []"

definition conv_map :: "v8_lib \<Rightarrow> 'k::linorder converter \<Rightarrow> 'v converter \<Rightarrow> ('k \<times> 'v) list converter" where
  "conv_map l ck cv = \<lparr> cv_valid = is_object_value,
     cv_from = (\<lambda>v. if is_object_value v
       then rbind (convert_all (conv_pair ck cv) (properties v)) (\<lambda>kvs. Inr (fold emplace kvs []))
       else Inl (invalid_argument v ''Object'')),
     cv_to = (\<lambda>m. rbind (convert_all (\<lambda>kv. rbind (cv_to ck (fst kv)) (\<lambda>k.
         rbind (cv_to cv (snd kv)) (\<lambda>v. Inr (k, v)))) m)
       (\<lambda>ps. Inr (VObject (fold (\<lambda>(k, v). vl_set l k v) ps [])))) \<rparr>"

text \<open>\<open>from_v8\<close> with a default value.\<close>

definition from_v8_default :: "'a converter \<Rightarrow> jsv \<Rightarrow> 'a \<Rightarrow> 'a result" where
  "from_v8_default c v d = (if cv_valid c v then cv_from c v else Inr d)"

section \<open>Calls from scripts\<close>

text \<open>The parameters of a C++ function, as far as the choice of the call depends on them, without the object of a
  member function; what a function is given; and the four ways of calling.\<close>

datatype param_type = PIsolate | PCallbackInfo | PValue
datatype 'a func_arg = ArgIsolate | ArgInfo "jsv list" | ArgValue 'a
datatype call_traits = PlainCall | IsolateCall | InfoCall | IsolateInfoCall

definition is_first_arg_isolate :: "param_type list \<Rightarrow> bool" where
  "is_first_arg_isolate ps = (case ps of [] \<Rightarrow> False | p # _ \<Rightarrow> p = PIsolate)"

definition is_direct_args :: "nat \<Rightarrow> param_type list \<Rightarrow> bool" where
  "is_direct_args offset ps = (length ps = offset + 1 \<and> ps ! offset = PCallbackInfo)"

definition select_call_traits :: "param_type list \<Rightarrow> call_traits" where
  "select_call_traits ps =
    (if is_first_arg_isolate ps
     then if is_direct_args 1 ps then IsolateInfoCall else IsolateCall
     else if is_direct_args 0 ps then InfoCall else PlainCall)"

text \<open>\<open>check\<close>: the number of arguments, less the isolate.\<close>

definition check_args :: "call_traits \<Rightarrow> nat \<Rightarrow> nat \<Rightarrow> unit result" where
  "check_args t params given = (case t of
     PlainCall \<Rightarrow> guard_r (given = params) (RuntimeError ''argument count does not match function definition'')
   | IsolateCall \<Rightarrow> guard_r (given = params - 1) (RuntimeError ''argument count does not match function definition'')
   | _ \<Rightarrow> Inr ())"

text \<open>\<open>call_from_v8\<close>: each parameter has its converter; of several arguments that do not convert, the first one
  is reported (C++ leaves open which).\<close>

definition call_from_v8 ::
  "param_type list \<Rightarrow> (nat \<Rightarrow> jsv \<Rightarrow> 'a result) \<Rightarrow> ('a func_arg list \<Rightarrow> 'r result) \<Rightarrow> jsv list \<Rightarrow> 'r result" where
  "call_from_v8 ps conv f args =
    (let t = select_call_traits ps in
     rbind (check_args t (length ps) (length args)) (\<lambda>_. case t of
       PlainCall \<Rightarrow> rbind (convert_all (\<lambda>i. conv i (args ! i)) [0..<length ps]) (\<lambda>xs. f (map ArgValue xs))
     | IsolateCall \<Rightarrow> rbind (convert_all (\<lambda>i. conv (Suc i) (args ! i)) [0..<length ps - 1])
         (\<lambda>xs. f (ArgIsolate # map ArgValue xs))
     | InfoCall \<Rightarrow> f [ArgInfo args]
     | IsolateInfoCall \<Rightarrow> f [ArgIsolate, ArgInfo args]))"

text \<open>What a script sees of a call: a value, an exception with a text, or the end of the program, when what went
  wrong is no exception.\<close>

datatype script_result = ScriptValue jsv | ScriptThrow string | ProgramEnd cpp_error

definition is_std_exception :: "cpp_error \<Rightarrow> bool" where
  "is_std_exception e = (case e of UndefinedBehaviour \<Rightarrow> False | AssertionFailed \<Rightarrow> False | _ \<Rightarrow> True)"

text \<open>\<open>ForwardFunction\<close>, with the converter of the result, none for \<open>void\<close>.\<close>

definition forward_ret :: "('r \<Rightarrow> jsv result) option \<Rightarrow> 'r result \<Rightarrow> jsv result" where
  "forward_ret ret r = (case ret of
     None \<Rightarrow> rbind r (\<lambda>_. Inr VUndefined)
   | Some c \<Rightarrow> rbind r c)"

definition forward_function ::
  "(cpp_error \<Rightarrow> string) \<Rightarrow> param_type list \<Rightarrow> (nat \<Rightarrow> jsv \<Rightarrow> 'a result) \<Rightarrow> ('a func_arg list \<Rightarrow> 'r result)
    \<Rightarrow> ('r \<Rightarrow> jsv result) option \<Rightarrow> jsv list \<Rightarrow> script_result" where
  "forward_function what ps conv f ret args =
    (case forward_ret ret (call_from_v8 ps conv f args) of
       Inr v \<Rightarrow> ScriptValue v
     | Inl e \<Rightarrow> if is_std_exception e then ScriptThrow (what e) else ProgramEnd e)"

section \<open>The contract of a converter\<close>

text \<open>On the values a converter is good for, what it makes is valid and converts back; what it converts is
  valid.\<close>

locale good_converter =
  fixes c :: "'a converter" and good :: "'a \<Rightarrow> bool"
  assumes to_from: "good x \<Longrightarrow> \<exists>v. cv_to c x = Inr v \<and> cv_valid c v \<and> cv_from c v = Inr x"
    and from_valid: "cv_from c v = Inr x \<Longrightarrow> cv_valid c v"
begin

lemma round_trip: "good x \<Longrightarrow> rbind (cv_to c x) (cv_from c) = Inr x"
  using to_from [of x] by auto

lemma to_inj: "good x \<Longrightarrow> good y \<Longrightarrow> cv_to c x = cv_to c y \<Longrightarrow> x = y"
  by (metis round_trip sum.inject(2))

lemma default_used: "from_v8_default c v d = Inr x \<longleftrightarrow> cv_from c v = Inr x \<or> \<not> cv_valid c v \<and> x = d"
  using from_valid by (auto simp: from_v8_default_def)

lemma convert_all_round_trip:
  "list_all good xs \<Longrightarrow>
   \<exists>vs. convert_all (cv_to c) xs = Inr vs \<and> length vs = length xs \<and> convert_all (cv_from c) vs = Inr xs"
proof (induction xs)
  case (Cons x xs)
  then show ?case using to_from [of x] by fastforce
qed simp

end

interpretation bools: good_converter conv_bool "\<lambda>_. True"
  by unfold_locales (auto simp: conv_bool_def split: jsv.splits)

lemma word_of_int_ucast:
  "LENGTH('a) \<le> LENGTH('b) \<Longrightarrow> (ucast (word_of_int i :: 'b::len word) :: 'a::len word) = word_of_int i"
  by transfer simp

lemma int_round_trip_narrow:
  assumes "LENGTH('a::len) \<le> 32"
  shows "int_from l (int_to sg (w :: 'a word)) = w"
  using assms by (simp add: int_from_def int_to_def to_int32_def word_of_int_ucast Let_def)

lemma conv_int_good:
  assumes "\<And>w. good w \<Longrightarrow> int_from l (int_to sg w) = (w :: 'a::len word)"
  shows "good_converter (conv_int l sg) good"
  by unfold_locales (auto simp: conv_int_def assms split: jsv.splits)

interpretation int32s: good_converter "conv_int l True :: 32 word converter" "\<lambda>_. True" for l
  by (rule conv_int_good) (simp add: int_round_trip_narrow)

interpretation bytes: good_converter "conv_int l False :: 8 word converter" "\<lambda>_. True" for l
  by (rule conv_int_good) (simp add: int_round_trip_narrow)

lemma conv_enum_good:
  assumes "good_converter c good" and "\<And>x. of_u (to_u x) = x"
  shows "good_converter (conv_enum of_u to_u c) (\<lambda>x. good (to_u x))"
proof unfold_locales
  fix x assume "good (to_u x)"
  from good_converter.to_from [OF assms(1) this]
  show "\<exists>v. cv_to (conv_enum of_u to_u c) x = Inr v \<and> cv_valid (conv_enum of_u to_u c) v \<and>
      cv_from (conv_enum of_u to_u c) v = Inr x"
    by (auto simp: conv_enum_def assms(2))
next
  fix v x assume "cv_from (conv_enum of_u to_u c) v = Inr x"
  then show "cv_valid (conv_enum of_u to_u c) v"
    using good_converter.from_valid [OF assms(1)] by (auto simp: conv_enum_def rbind_Inr_iff)
qed

lemma conv_vector_good:
  assumes "good_converter c good"
  shows "good_converter (conv_vector c) (list_all good)"
  using good_converter.convert_all_round_trip [OF assms]
  by (unfold_locales) (fastforce simp: conv_vector_def split: jsv.splits)+

lemma conv_array_good:
  assumes "good_converter c good"
  shows "good_converter (conv_array n c) (\<lambda>xs. length xs = n \<and> list_all good xs)"
  using good_converter.convert_all_round_trip [OF assms]
  by (unfold_locales) (fastforce simp: conv_array_def split: jsv.splits if_splits)+

text \<open>The engine keeps a text it takes.\<close>

definition takes_text :: "v8_lib \<Rightarrow> string \<Rightarrow> bool" where
  "takes_text l s \<longleftrightarrow> vl_new_string l s = Some s"

interpretation strings: good_converter "conv_string l" "takes_text l" for l
  by unfold_locales (auto simp: conv_string_def takes_text_def split: jsv.splits)

interpretation string_lists: good_converter "conv_vector (conv_string l)" "list_all (takes_text l)" for l
  by (rule conv_vector_good [OF strings.good_converter_axioms])

section \<open>Integers of 64 bits\<close>

lemma excess_bits_le: "n < 2 ^ (53 + e) \<Longrightarrow> excess_bits n \<le> e"
proof (induction e arbitrary: n)
  case 0
  then show ?case by (subst excess_bits.simps) simp
next
  case (Suc e)
  then have "n < 2 ^ (53 + e) * 2" by (simp only: add_Suc_right power_Suc mult.commute)
  then have "n div 2 < 2 ^ (53 + e)" by (rule less_mult_imp_div_less)
  with Suc.IH show ?case by (subst excess_bits.simps) simp
qed

lemma round_double_cases:
  fixes i :: int
  defines "m \<equiv> 2 ^ excess_bits (nat \<bar>i\<bar>)"
  obtains r where "i = i div m * m + r" "0 \<le> r" "r < m" "0 < m"
    "round_double i = (if 2 * r < m \<or> 2 * r = m \<and> even (i div m) then i - r else i - r + m)" "m dvd i \<longleftrightarrow> r = 0"
proof
  show i: "i = i div m * m + i mod m" by simp
  show m: "0 < m" by (simp add: m_def)
  show "0 \<le> i mod m" "i mod m < m" using m by simp_all
  have d: "i div m * m = i - i mod m" by (rule minus_mod_eq_div_mult [symmetric])
  show "round_double i = (if 2 * (i mod m) < m \<or> 2 * (i mod m) = m \<and> even (i div m)
      then i - i mod m else i - i mod m + m)"
    unfolding round_double_def Let_def m_def [symmetric] distrib_right mult_1 d ..
  show "m dvd i \<longleftrightarrow> i mod m = 0" by (simp add: dvd_eq_mod_eq_0)
qed

lemma round_double_exact: "round_double i = i \<longleftrightarrow> 2 ^ excess_bits (nat \<bar>i\<bar>) dvd i"
  by (rule round_double_cases [of i]) auto

lemma round_double_near: "\<bar>round_double i - i\<bar> \<le> 2 ^ excess_bits (nat \<bar>i\<bar>)"
  by (rule round_double_cases [of i]) auto

text \<open>What the engine documents of \<open>IntegerValue\<close>: an integral number that fits is itself.\<close>

definition integer_law :: "v8_lib \<Rightarrow> bool" where
  "integer_law l \<longleftrightarrow> (\<forall>i. - (2 ^ 63) \<le> i \<and> i < 2 ^ 63 \<longrightarrow> vl_integer l (Finite (of_int i)) = word_of_int i)"

section \<open>Maps\<close>

lemma insort_key_last: "\<forall>y \<in> set ys. fst y < fst x \<Longrightarrow> insort_key fst x ys = ys @ [x]"
  by (induction ys) auto

lemma fold_emplace_sorted:
  "sorted_wrt (<) (map fst (m @ kvs)) \<Longrightarrow> fold emplace kvs m = m @ kvs"
proof (induction kvs arbitrary: m)
  case (Cons kv kvs)
  then have "\<forall>y \<in> set m. fst y < fst kv" by (auto simp: sorted_wrt_append)
  then have "emplace kv m = m @ [kv]" by (auto simp: emplace_def insort_key_last)
  with Cons show ?case by simp
qed simp

text \<open>What the engine documents of setting a property by a text that is no index: a new one comes last.\<close>

definition sets_text :: "v8_lib \<Rightarrow> string \<Rightarrow> bool" where
  "sets_text l k \<longleftrightarrow> (\<forall>v ps. VString k \<notin> set (map fst ps) \<longrightarrow> vl_set l (VString k) v ps = ps @ [(VString k, v)])"

text \<open>What the language documents of a key that has a setter on the prototype of objects, such as \<open>__proto__\<close>: a
  value that is no object is given to the setter, which leaves the object's own properties as they are.\<close>

definition ignores_text :: "v8_lib \<Rightarrow> string \<Rightarrow> bool" where
  "ignores_text l k \<longleftrightarrow> (\<forall>v ps. \<not> is_object_value v \<longrightarrow> vl_set l (VString k) v ps = ps)"

lemma fold_set_texts:
  "list_all (\<lambda>(k, v). sets_text l k \<or> ignores_text l k \<and> \<not> is_object_value v) kvs \<Longrightarrow> distinct (map fst kvs) \<Longrightarrow>
   set (map fst ps) \<inter> VString ` set (map fst kvs) = {} \<Longrightarrow>
   fold (\<lambda>(k, v). vl_set l k v) (map (\<lambda>(k, v). (VString k, v)) kvs) ps =
     ps @ map (\<lambda>(k, v). (VString k, v)) (filter (\<lambda>(k, v). sets_text l k) kvs)"
proof (induction kvs arbitrary: ps)
  case (Cons kv kvs)
  obtain k v where kv: "kv = (k, v)" by fastforce
  show ?case
  proof (cases "sets_text l k")
    case True
    then have "vl_set l (VString k) v ps = ps @ [(VString k, v)]" using Cons.prems kv by (auto simp: sets_text_def)
    moreover have "set (map fst (ps @ [(VString k, v)])) \<inter> VString ` set (map fst kvs) = {}"
      using Cons.prems kv by auto
    ultimately show ?thesis using Cons.IH [of "ps @ [(VString k, v)]"] Cons.prems kv True by simp
  next
    case False
    then have "vl_set l (VString k) v ps = ps" using Cons.prems kv by (simp add: ignores_text_def)
    then show ?thesis using Cons.IH [of ps] Cons.prems kv False by simp
  qed
qed simp

definition good_map :: "v8_lib \<Rightarrow> 'v converter \<Rightarrow> ('v \<Rightarrow> bool) \<Rightarrow> (string \<times> 'v) list \<Rightarrow> bool" where
  "good_map l c good m \<longleftrightarrow> sorted_wrt (<) (map fst m) \<and>
     list_all (\<lambda>(k, x). takes_text l k \<and> good x \<and>
       (sets_text l k \<or> ignores_text l k \<and> (\<forall>v. cv_to c x = Inr v \<longrightarrow> \<not> is_object_value v))) m"

lemma convert_pairs:
  assumes "good_converter c good"
  shows "list_all (\<lambda>(k, x). takes_text l k \<and> good x) m \<Longrightarrow>
    \<exists>vs. list_all2 (\<lambda>(k, x) v. cv_to c x = Inr v) m vs \<and>
      convert_all (\<lambda>kv. rbind (cv_to (conv_string l) (fst kv)) (\<lambda>k. rbind (cv_to c (snd kv)) (\<lambda>v. Inr (k, v)))) m
        = Inr (map (\<lambda>(k, v). (VString k, v)) (zip (map fst m) vs)) \<and>
      (\<forall>P. convert_all (conv_pair (conv_string l) c)
          (map (\<lambda>(k, v). (VString k, v)) (filter (\<lambda>(k, v). P k) (zip (map fst m) vs)))
        = Inr (filter (\<lambda>(k, x). P k) m))"
proof (induction m)
  case (Cons kv m)
  obtain k x where kv: "kv = (k, x)" by fastforce
  with Cons.prems have k: "vl_new_string l k = Some k" and "good x" by (simp_all add: takes_text_def)
  from good_converter.to_from [OF assms this(2)] obtain v where v: "cv_to c x = Inr v" "cv_from c v = Inr x" by blast
  from Cons obtain vs where "list_all2 (\<lambda>(k, x) v. cv_to c x = Inr v) m vs"
    "convert_all (\<lambda>kv. rbind (cv_to (conv_string l) (fst kv)) (\<lambda>k. rbind (cv_to c (snd kv)) (\<lambda>v. Inr (k, v)))) m
      = Inr (map (\<lambda>(k, v). (VString k, v)) (zip (map fst m) vs))"
    "\<forall>P. convert_all (conv_pair (conv_string l) c)
        (map (\<lambda>(k, v). (VString k, v)) (filter (\<lambda>(k, v). P k) (zip (map fst m) vs))) = Inr (filter (\<lambda>(k, x). P k) m)"
    by auto
  moreover have s: "cv_to (conv_string l) k = Inr (VString k)" "cv_from (conv_string l) (VString k) = Inr k"
    using k by (simp_all add: conv_string_def)
  moreover have "conv_pair (conv_string l) c (VString k, v) = Inr (k, x)" using s v by (simp add: conv_pair_def)
  ultimately show ?case using kv v
    by (intro exI [of _ "v # vs"]) simp
qed simp

lemma convert_all_map: "convert_all g (map h xs) = convert_all (\<lambda>x. g (h x)) xs"
  by (induction xs) simp_all

lemma convert_all_zip:
  assumes "length args = n"
  shows "convert_all (\<lambda>(i, v). g i v) (zip [0..<n] args) = convert_all (\<lambda>i. g i (args ! i)) [0..<n]"
proof -
  have "zip [0..<n] args = map (\<lambda>i. (i, args ! i)) [0..<n]" using assms by (auto intro: nth_equalityI)
  then show ?thesis by (simp add: convert_all_map)
qed

section \<open>Properties\<close>

text \<open>C36: A map with texts for keys on its way through a script's object. What \<open>to_v8\<close> makes of it, \<open>from_v8\<close>
  gives back without the entries whose key has a setter on the prototype of objects, such as
  \<open>__proto__\<close>, which are lost without an error. The map's keys are sorted and distinct, as a \<open>std::map\<close> has
  them; its elements are ones whose converter keeps its contract; the engine takes every key as a text, and a key is
  either stored as a new last property (so it is no index) or one with a setter, whose value is then no object.\<close>

theorem map_round_trip:
  assumes "good_converter c good" and "good_map l c good m"
  shows "rbind (cv_to (conv_map l (conv_string l) c) m) (cv_from (conv_map l (conv_string l) c)) =
    Inr (filter (\<lambda>(k, x). sets_text l k) m)"
proof -
  have m: "sorted_wrt (<) (map fst m)" "list_all (\<lambda>(k, x). takes_text l k \<and> good x) m"
    "list_all (\<lambda>(k, x). sets_text l k \<or> ignores_text l k \<and> (\<forall>v. cv_to c x = Inr v \<longrightarrow> \<not> is_object_value v)) m"
    using assms(2) by (auto simp: good_map_def list_all_iff)
  from convert_pairs [OF assms(1) m(2)] obtain vs where vs: "list_all2 (\<lambda>(k, x) v. cv_to c x = Inr v) m vs"
    and c: "convert_all (\<lambda>kv. rbind (cv_to (conv_string l) (fst kv)) (\<lambda>k. rbind (cv_to c (snd kv)) (\<lambda>v. Inr (k, v)))) m
      = Inr (map (\<lambda>(k, v). (VString k, v)) (zip (map fst m) vs))"
    "convert_all (conv_pair (conv_string l) c)
      (map (\<lambda>(k, v). (VString k, v)) (filter (\<lambda>(k, v). sets_text l k) (zip (map fst m) vs)))
        = Inr (filter (\<lambda>(k, x). sets_text l k) m)" by blast
  have "list_all (\<lambda>(k, v). sets_text l k \<or> ignores_text l k \<and> \<not> is_object_value v) (zip (map fst m) vs)"
    using vs m(3) by (induction rule: list_all2_induct) auto
  moreover have "distinct (map fst m)" using m(1) by (simp add: strict_sorted_iff)
  ultimately have "fold (\<lambda>(k, v). vl_set l k v) (map (\<lambda>(k, v). (VString k, v)) (zip (map fst m) vs)) [] =
      map (\<lambda>(k, v). (VString k, v)) (filter (\<lambda>(k, v). sets_text l k) (zip (map fst m) vs))"
    using fold_set_texts [of l "zip (map fst m) vs" "[]"] list_all2_lengthD [OF vs] by simp
  moreover have "sorted_wrt (<) (map fst (filter (\<lambda>(k, x). sets_text l k) m))"
    using m(1) by (induction m) auto
  ultimately show ?thesis using c fold_emplace_sorted [of "[]" "filter (\<lambda>(k, x). sets_text l k) m"]
    by (simp add: conv_map_def)
qed

text \<open>The language's objects for the keys that are no indices.\<close>

definition sample_v8 :: v8_lib where
  "sample_v8 = \<lparr> vl_new_string = Some, vl_integer = (\<lambda>n. case n of Finite x \<Rightarrow> word_of_int \<lfloor>x\<rfloor> | _ \<Rightarrow> 0),
     vl_set = (\<lambda>k v ps. if k = VString ''__proto__'' then ps
       else if k \<in> set (map fst ps) then map (\<lambda>(a, b). (a, if a = k then v else b)) ps
       else ps @ [(k, v)]) \<rparr>"

lemma sample_v8_laws:
  "takes_text sample_v8 s" "sets_text sample_v8 s \<longleftrightarrow> s \<noteq> ''__proto__''" "integer_law sample_v8"
  "ignores_text sample_v8 ''__proto__''"
proof -
  have "\<not> sets_text sample_v8 ''__proto__''"
  proof
    assume "sets_text sample_v8 ''__proto__''"
    then have "vl_set sample_v8 (VString ''__proto__'') (VString []) [] = [(VString ''__proto__'', VString [])]"
      by (simp add: sets_text_def)
    then show False by (simp add: sample_v8_def)
  qed
  then show "sets_text sample_v8 s \<longleftrightarrow> s \<noteq> ''__proto__''" by (auto simp: sample_v8_def sets_text_def)
qed (simp_all add: sample_v8_def takes_text_def integer_law_def ignores_text_def)

theorem map_round_trip_witness:
  "rbind (cv_to (conv_map sample_v8 (conv_string sample_v8) conv_bool)
       [(''__proto__'', True), (''a'', True), (''b'', False)])
     (cv_from (conv_map sample_v8 (conv_string sample_v8) conv_bool)) = Inr [(''a'', True), (''b'', False)]"
proof -
  have "good_map sample_v8 conv_bool (\<lambda>_. True) [(''__proto__'', True), (''a'', True), (''b'', False)]"
    by (simp add: good_map_def sample_v8_laws less_char_def conv_bool_def)
  from map_round_trip [OF bools.good_converter_axioms this] show ?thesis by (simp add: sample_v8_laws)
qed

text \<open>C38: Integers on their way through a script. Up to 32 bits every value of every width, signed or not, comes back;
  a 64-bit integer up to two to the 62 comes back exactly when it fits the 53 bits of a double, that is, when
  the bits beyond them are zero.\<close>

theorem integer_round_trip:
  assumes "integer_law l" and "\<bar>sint w\<bar> \<le> 2 ^ 62"
  shows "(int_from l (int_to True (w :: 64 word)) = w \<longleftrightarrow> 2 ^ excess_bits (nat \<bar>sint w\<bar>) dvd sint w) \<and>
    int_from l (int_to sg (x :: 32 word)) = x \<and> int_from l (int_to sg (y :: 16 word)) = y \<and>
    int_from l (int_to sg (z :: 8 word)) = z"
proof -
  have "excess_bits (nat \<bar>sint w\<bar>) \<le> 10" by (rule excess_bits_le) (use assms(2) in simp)
  then have "(2 :: int) ^ excess_bits (nat \<bar>sint w\<bar>) \<le> 2 ^ 10" by (rule power_increasing) simp
  with round_double_near [of "sint w"] assms(2) have
    rng: "- (2 ^ 63) \<le> round_double (sint w)" "round_double (sint w) < 2 ^ 63" by simp_all
  then have "(int_from l (int_to True w) :: 64 word) = word_of_int (round_double (sint w))"
    using assms(1) by (simp add: int_from_def int_to_def integer_law_def)
  moreover have "sint (word_of_int (round_double (sint w)) :: 64 word) = round_double (sint w)"
    using rng by (simp add: sint_sbintrunc' signed_take_bit_int_eq_self_iff)
  ultimately have "(int_from l (int_to True w) :: 64 word) = w \<longleftrightarrow> round_double (sint w) = sint w"
    by (metis signed_word_eqI)
  then show ?thesis by (simp add: round_double_exact int_round_trip_narrow)
qed

theorem integer_round_trip_witness:
  "int_from sample_v8 (int_to True (9007199254740994 :: 64 word)) = (9007199254740994 :: 64 word) \<and>
   int_from sample_v8 (int_to True (9007199254740993 :: 64 word)) \<noteq> (9007199254740993 :: 64 word)"
proof -
  have e: "excess_bits 9007199254740994 = 1" "excess_bits 9007199254740993 = 1"
    by (simp_all add: excess_bits.simps)
  show ?thesis
    using integer_round_trip [OF sample_v8_laws(3), of 9007199254740994]
      integer_round_trip [OF sample_v8_laws(3), of 9007199254740993] by (simp add: e)
qed

text \<open>How a script calls a C++ function. Whether the function takes the isolate first or not, it is given that, and
  the script's arguments in order, each through the converter of its parameter, if there are as many as it has
  parameters, and else an error; a function that takes the arguments as they are is never refused.\<close>

theorem call_arguments:
  "call_from_v8 ((if isol then [PIsolate] else []) @ replicate n PValue) conv f args =
     (if length args = n
      then rbind (convert_all (\<lambda>(i, v). conv (if isol then Suc i else i) v) (zip [0..<n] args))
        (\<lambda>xs. f ((if isol then [ArgIsolate] else []) @ map ArgValue xs))
      else Inl (RuntimeError ''argument count does not match function definition'')) \<and>
   call_from_v8 ((if isol then [PIsolate] else []) @ [PCallbackInfo]) conv f args =
     f ((if isol then [ArgIsolate] else []) @ [ArgInfo args])"
proof -
  have t: "select_call_traits ((if isol then [PIsolate] else []) @ replicate n PValue) = (if isol then IsolateCall else PlainCall)"
    "select_call_traits ((if isol then [PIsolate] else []) @ [PCallbackInfo]) = (if isol then IsolateInfoCall else InfoCall)"
    by (cases n; simp add: select_call_traits_def is_direct_args_def is_first_arg_isolate_def)+
  show ?thesis
    unfolding call_from_v8_def t Let_def
    by (cases isol; cases "length args = n") (simp_all add: check_args_def convert_all_zip)
qed

end
