(* ===== verification/MessageRef.thy ===== *)
theory MessageRef imports EpInterfaces begin

text \<open>
  The reference counted broadcast buffer \<open>message\<close> of \<open>message.hpp\<close>. A handle is a pointer to a
  heap block that holds the count and the bytes; copies share the block and the destructor that
  takes the count to zero returns it. Handles are numbered in the order they are constructed. The
  count is atomic, so an operation of one thread is a step here; the destructor is two steps, the
  decrement and the return of the block, between which other threads run.
\<close>

section \<open>Blocks and handles\<close>

record cell =
  c_bytes :: "byte list"
  c_count :: "64 word"
  c_units :: "64 word"

text \<open>
  \<open>ms_slots\<close> has an entry per handle: \<open>None\<close> once it is destroyed, else its \<open>p_\<close>, where
  \<open>Some None\<close> is the null pointer. \<open>ms_pending\<close> are the blocks whose count a destructor has taken
  to zero and which it has yet to deallocate.
\<close>

record msg_store =
  ms_heap :: "nat \<Rightarrow> cell option"
  ms_fresh :: nat
  ms_slots :: "nat option option list"
  ms_pending :: "nat list"

definition no_messages :: msg_store where
  "no_messages = \<lparr> ms_heap = (\<lambda>_. None), ms_fresh = 0, ms_slots = [], ms_pending = [] \<rparr>"

text \<open>\<open>sizeof(impl)\<close>: a pointer, a size and the count. A block is counted in such units, the first of
  which is the header.\<close>

definition impl_size :: "64 word" where
  "impl_size = 24"

definition units_for :: "64 word \<Rightarrow> 64 word" where
  "units_for n = (2 * impl_size + n - 1) div impl_size"

definition slot :: "nat \<Rightarrow> msg_store \<Rightarrow> nat option result" where
  "slot i st = (case vec_index (ms_slots st) i of
     Inr (Some p) \<Rightarrow> Inr p
   | _ \<Rightarrow> Inl UndefinedBehaviour)"

definition cell_at :: "nat \<Rightarrow> msg_store \<Rightarrow> cell result" where
  "cell_at p st = (case ms_heap st p of Some c \<Rightarrow> Inr c | None \<Rightarrow> Inl UndefinedBehaviour)"

definition add_handle :: "nat option \<Rightarrow> msg_store \<Rightarrow> msg_store" where
  "add_handle p st = st\<lparr> ms_slots := ms_slots st @ [Some p] \<rparr>"

section \<open>The operations\<close>

definition null_message :: "msg_store \<Rightarrow> msg_store" where
  "null_message st = add_handle None st"

text \<open>The constructor from a buffer sequence; \<open>grants u\<close> is whether the allocator finds \<open>u\<close> units.\<close>

definition new_impl :: "byte list \<Rightarrow> 64 word \<Rightarrow> cell" where
  "new_impl bs u = \<lparr> c_bytes = bs, c_count = 1, c_units = u \<rparr>"

definition construct :: "(64 word \<Rightarrow> bool) \<Rightarrow> byte list list \<Rightarrow> msg_store \<Rightarrow> msg_store result" where
  "construct grants bufs st =
    (let bs = concat bufs;
         n = word_of_nat (length bs);
         u = units_for n
     in if \<not> grants u then Inl (RuntimeError ''bad_alloc'')
        else Inr (add_handle (Some (ms_fresh st))
          (st\<lparr> ms_heap := (ms_heap st)(ms_fresh st \<mapsto> new_impl bs u),
               ms_fresh := ms_fresh st + 1 \<rparr>)))"

definition copy_message :: "nat \<Rightarrow> msg_store \<Rightarrow> msg_store result" where
  "copy_message i st = rbind (slot i st) (\<lambda>p.
     case p of
       None \<Rightarrow> Inr (add_handle None st)
     | Some a \<Rightarrow> rbind (cell_at a st) (\<lambda>c.
         Inr (add_handle (Some a)
           (st\<lparr> ms_heap := (ms_heap st)(a \<mapsto> c\<lparr> c_count := c_count c + 1 \<rparr>) \<rparr>))))"

definition move_message :: "nat \<Rightarrow> msg_store \<Rightarrow> msg_store result" where
  "move_message i st = rbind (slot i st) (\<lambda>p.
     Inr (add_handle p (st\<lparr> ms_slots := (ms_slots st)[i := Some None] \<rparr>)))"

definition swap_messages :: "nat \<Rightarrow> nat \<Rightarrow> msg_store \<Rightarrow> msg_store result" where
  "swap_messages i j st = rbind (slot i st) (\<lambda>p. rbind (slot j st) (\<lambda>q.
     Inr (st\<lparr> ms_slots := (ms_slots st)[i := Some q, j := Some p] \<rparr>)))"

text \<open>The destructor up to its test: the block to deallocate, if the count went to zero.\<close>

definition release :: "nat \<Rightarrow> msg_store \<Rightarrow> (nat option \<times> msg_store) result" where
  "release i st = rbind (slot i st) (\<lambda>p.
     let st1 = st\<lparr> ms_slots := (ms_slots st)[i := None] \<rparr> in
     case p of
       None \<Rightarrow> Inr (None, st1)
     | Some a \<Rightarrow> rbind (cell_at a st) (\<lambda>c.
         let k = c_count c - 1;
             st2 = st1\<lparr> ms_heap := (ms_heap st1)(a \<mapsto> c\<lparr> c_count := k \<rparr>) \<rparr>
         in if k = 0 then Inr (Some a, st2\<lparr> ms_pending := ms_pending st2 @ [a] \<rparr>)
            else Inr (None, st2)))"

text \<open>Its return of the block: the number of units has to be that of the allocation.\<close>

definition reclaim :: "nat \<Rightarrow> msg_store \<Rightarrow> msg_store result" where
  "reclaim a st = rbind (cell_at a st) (\<lambda>c.
     if c_units c = (2 * impl_size + word_of_nat (length (c_bytes c)) - 1) div impl_size
     then Inr (st\<lparr> ms_heap := (ms_heap st)(a := None), ms_pending := remove1 a (ms_pending st) \<rparr>)
     else Inl UndefinedBehaviour)"

definition destroy :: "nat \<Rightarrow> msg_store \<Rightarrow> msg_store result" where
  "destroy i st = rbind (release i st) (\<lambda>(z, st1).
     case z of None \<Rightarrow> Inr st1 | Some a \<Rightarrow> reclaim a st1)"

text \<open>\<open>begin\<close> and \<open>end\<close>: the one buffer of the sequence.\<close>

definition buffer_of :: "nat \<Rightarrow> msg_store \<Rightarrow> byte list result" where
  "buffer_of i st = rbind (slot i st) (\<lambda>p.
     case p of
       None \<Rightarrow> Inl UndefinedBehaviour
     | Some a \<Rightarrow> rbind (cell_at a st) (\<lambda>c. Inr (c_bytes c)))"

lemmas msg_op_defs = null_message_def construct_def copy_message_def move_message_def
  swap_messages_def release_def reclaim_def destroy_def buffer_of_def add_handle_def new_impl_def

section \<open>Size of a block\<close>

text \<open>A block has room for the header and the bytes, and less than one unit more than they need.\<close>

lemma units_for_unat:
  assumes "unat n < 2 ^ 64 - 48"
  shows "unat (units_for n) = (unat n + 47) div 24"
proof -
  have "2 * impl_size + n - 1 = n + 47" by (simp add: impl_size_def)
  moreover have "unat (n + 47) = unat n + 47"
    using assms by (subst unat_add_lem [THEN iffD1]) (simp_all add: unat_of_nat)
  moreover have "unat (24 :: 64 word) = 24" by simp
  ultimately show ?thesis by (simp only: units_for_def impl_size_def unat_div)
qed

section \<open>The counts\<close>

definition refs :: "nat \<Rightarrow> msg_store \<Rightarrow> nat" where
  "refs a st = count_list (ms_slots st) (Some (Some a))"

text \<open>A block is there while a handle or a destructor about to deallocate it points to it.\<close>

definition block_ok :: "msg_store \<Rightarrow> nat \<Rightarrow> bool" where
  "block_ok st a = (case ms_heap st a of
     None \<Rightarrow> refs a st = 0 \<and> a \<notin> set (ms_pending st)
   | Some c \<Rightarrow> a < ms_fresh st \<and> refs a st < 2 ^ 64 \<and> c_count c = word_of_nat (refs a st) \<and>
       c_units c = units_for (word_of_nat (length (c_bytes c))) \<and>
       (refs a st = 0 \<longleftrightarrow> a \<in> set (ms_pending st)))"

definition msg_inv :: "msg_store \<Rightarrow> bool" where
  "msg_inv st \<longleftrightarrow> distinct (ms_pending st) \<and> (\<forall>a. block_ok st a)"

lemma count_list_update:
  "i < length xs \<Longrightarrow>
   count_list (xs[i := y]) z + (if xs ! i = z then 1 else 0) =
     (if y = z then 1 else 0) + count_list xs z"
proof (induction xs arbitrary: i)
  case (Cons x xs)
  then show ?case by (cases i) auto
qed simp

lemma count_list_ge_1: "i < length xs \<Longrightarrow> xs ! i = z \<Longrightarrow> 1 \<le> count_list xs z"
  by (metis One_nat_def Suc_leI count_list_0_iff gr0I nth_mem)

lemma slot_Inr: "slot i st = Inr p \<longleftrightarrow> i < length (ms_slots st) \<and> ms_slots st ! i = Some p"
  by (auto simp: slot_def vec_index_def split: option.splits)

lemma cell_at_Inr: "cell_at a st = Inr c \<longleftrightarrow> ms_heap st a = Some c"
  by (simp add: cell_at_def split: option.split)

lemma refs_add_handle:
  "refs a (add_handle p st) = refs a st + (if p = Some a then 1 else 0)"
  by (simp add: refs_def add_handle_def)

lemma refs_slot: "slot i st = Inr (Some a) \<Longrightarrow> 1 \<le> refs a st"
  using count_list_ge_1 [of i "ms_slots st" "Some (Some a)"] by (simp add: refs_def slot_Inr)

lemma refs_live: "0 < refs a st \<Longrightarrow> block_ok st a \<Longrightarrow> \<exists>c. ms_heap st a = Some c"
  by (auto simp: block_ok_def split: option.splits)

lemma slot_cell: "msg_inv st \<Longrightarrow> slot i st = Inr (Some a) \<Longrightarrow> \<exists>c. ms_heap st a = Some c"
  using refs_slot [of i st a] by (auto simp: msg_inv_def intro!: refs_live)

lemma word_count_zero: "n < 2 ^ 64 \<Longrightarrow> (word_of_nat n :: 64 word) = 0 \<longleftrightarrow> n = 0"
  by (auto simp: word_of_nat_eq_0_iff dest: dvd_imp_le)


section \<open>Messages as values\<close>

text \<open>The operations of a history, and what a program may do: it names handles that exist, and a
  destructor deallocates the block it took to zero.\<close>

datatype msg_op =
    OpNull
  | OpMake "byte list list"
  | OpCopy nat
  | OpMove nat
  | OpSwap nat nat
  | OpRelease nat
  | OpReclaim nat

fun apply_op :: "(64 word \<Rightarrow> bool) \<Rightarrow> msg_op \<Rightarrow> msg_store \<Rightarrow> msg_store result" where
  "apply_op grants OpNull st = Inr (null_message st)"
| "apply_op grants (OpMake bufs) st = construct grants bufs st"
| "apply_op grants (OpCopy i) st = copy_message i st"
| "apply_op grants (OpMove i) st = move_message i st"
| "apply_op grants (OpSwap i j) st = swap_messages i j st"
| "apply_op grants (OpRelease i) st = rbind (release i st) (\<lambda>(z, st1). Inr st1)"
| "apply_op grants (OpReclaim a) st = reclaim a st"

definition exists_handle :: "msg_store \<Rightarrow> nat \<Rightarrow> bool" where
  "exists_handle st i = is_ok (slot i st)"

fun op_ok :: "msg_store \<Rightarrow> msg_op \<Rightarrow> bool" where
  "op_ok st (OpCopy i) = (case slot i st of
     Inr (Some a) \<Rightarrow> refs a st + 1 < 2 ^ 64 | Inr None \<Rightarrow> True | Inl e \<Rightarrow> False)"
| "op_ok st (OpMove i) = exists_handle st i"
| "op_ok st (OpSwap i j) = (exists_handle st i \<and> exists_handle st j)"
| "op_ok st (OpRelease i) = exists_handle st i"
| "op_ok st (OpReclaim a) = (a \<in> set (ms_pending st))"
| "op_ok st op = True"

definition msg_step :: "(64 word \<Rightarrow> bool) \<Rightarrow> msg_store \<Rightarrow> msg_op \<Rightarrow> msg_store \<Rightarrow> bool" where
  "msg_step grants st op st' = (op_ok st op \<and> apply_op grants op st = Inr st')"

text \<open>The abstract machine: a handle holds nothing or a value of its own, and nothing is shared.\<close>

definition bytes_at :: "msg_store \<Rightarrow> nat \<Rightarrow> byte list" where
  "bytes_at st a = (case ms_heap st a of Some c \<Rightarrow> c_bytes c | None \<Rightarrow> [])"

definition held :: "msg_store \<Rightarrow> byte list option option list" where
  "held st = map (map_option (map_option (bytes_at st))) (ms_slots st)"

fun value_op :: "msg_op \<Rightarrow> byte list option option list \<Rightarrow> byte list option option list" where
  "value_op OpNull vs = vs @ [Some None]"
| "value_op (OpMake bufs) vs = vs @ [Some (Some (concat bufs))]"
| "value_op (OpCopy i) vs = vs @ [vs ! i]"
| "value_op (OpMove i) vs = vs[i := Some None] @ [vs ! i]"
| "value_op (OpSwap i j) vs = vs[i := vs ! j, j := vs ! i]"
| "value_op (OpRelease i) vs = vs[i := None]"
| "value_op (OpReclaim a) vs = vs"

text \<open>The invariant and the values after each operation.\<close>

lemma exists_handle_iff: "exists_handle st i \<longleftrightarrow> (\<exists>p. slot i st = Inr p)"
  by (cases "slot i st") (simp_all add: exists_handle_def)

lemma held_cong:
  assumes "\<And>a. 0 < refs a st \<Longrightarrow> bytes_at st' a = bytes_at st a"
  shows "map (map_option (map_option (bytes_at st'))) (ms_slots st) = held st"
proof -
  have "bytes_at st' a = bytes_at st a" if "Some (Some a) \<in> set (ms_slots st)" for a
    using assms [of a] that by (simp add: refs_def count_list_0_iff flip: neq0_conv)
  then show ?thesis by (auto simp: held_def intro!: map_option_cong)
qed

lemma add_handle_simps [simp]:
  "ms_heap (add_handle p st) = ms_heap st" "ms_fresh (add_handle p st) = ms_fresh st"
  "ms_pending (add_handle p st) = ms_pending st" "ms_slots (add_handle p st) = ms_slots st @ [Some p]"
  by (simp_all add: add_handle_def)

lemma block_ok_cong:
  "block_ok st a \<Longrightarrow> ms_heap st' a = ms_heap st a \<Longrightarrow> refs a st' = refs a st \<Longrightarrow>
   (a \<in> set (ms_pending st') \<longleftrightarrow> a \<in> set (ms_pending st)) \<Longrightarrow> ms_fresh st \<le> ms_fresh st' \<Longrightarrow>
   block_ok st' a"
  by (auto simp: block_ok_def split: option.splits)

lemma block_ok_other:
  "msg_inv st \<Longrightarrow> ms_heap st' a = ms_heap st a \<Longrightarrow> refs a st' = refs a st \<Longrightarrow>
   (a \<in> set (ms_pending st') \<longleftrightarrow> a \<in> set (ms_pending st)) \<Longrightarrow> ms_fresh st \<le> ms_fresh st' \<Longrightarrow>
   block_ok st' a"
  using block_ok_cong [of st a st'] by (simp add: msg_inv_def)

lemma msg_inv_cong:
  "msg_inv st \<Longrightarrow> ms_heap st' = ms_heap st \<Longrightarrow> (\<And>a. refs a st' = refs a st) \<Longrightarrow>
   ms_pending st' = ms_pending st \<Longrightarrow> ms_fresh st' = ms_fresh st \<Longrightarrow> msg_inv st'"
  unfolding msg_inv_def [of st'] by (intro conjI allI block_ok_other) (auto simp: msg_inv_def)

lemma bytes_at_cong: "ms_heap st' = ms_heap st \<Longrightarrow> bytes_at st' = bytes_at st"
  by (simp add: fun_eq_iff bytes_at_def)

lemma refs_simps [simp]:
  "refs a (ms_heap_update f st) = refs a st" "refs a (ms_fresh_update g st) = refs a st"
  "refs a (ms_pending_update h st) = refs a st"
  by (simp_all add: refs_def)

lemma null_ok: "msg_inv st \<Longrightarrow> msg_inv (null_message st) \<and> held (null_message st) = held st @ [Some None]"
  by (simp add: null_message_def held_def bytes_at_cong [of "add_handle None st" st])
    (rule msg_inv_cong [of st], simp_all add: refs_add_handle)

lemma fresh_free: "msg_inv st \<Longrightarrow> ms_heap st (ms_fresh st) = None"
  using order_less_irrefl [of "ms_fresh st"]
  by (auto simp: msg_inv_def block_ok_def split: option.splits)

lemma construct_ok:
  assumes inv: "msg_inv st" and c: "construct grants bufs st = Inr st'"
  shows "msg_inv st' \<and> held st' = held st @ [Some (Some (concat bufs))]"
proof -
  let ?bs = "concat bufs" and ?a = "ms_fresh st"
  let ?u = "units_for (word_of_nat (length ?bs))"
  let ?st1 = "st\<lparr> ms_heap := (ms_heap st)(?a \<mapsto> new_impl ?bs ?u), ms_fresh := ?a + 1 \<rparr>"
  have st': "st' = add_handle (Some ?a) ?st1"
    using c by (simp add: construct_def Let_def split: if_splits)
  have free: "refs ?a st = 0" "?a \<notin> set (ms_pending st)"
    using inv fresh_free [OF inv] by (auto simp: msg_inv_def block_ok_def dest!: spec [of _ ?a])
  have "block_ok st' a" for a
  proof (cases "a = ?a")
    case True
    then show ?thesis using free by (simp add: st' block_ok_def refs_add_handle new_impl_def)
  next
    case False
    then show ?thesis by (intro block_ok_other [OF inv]) (simp_all add: st' refs_add_handle)
  qed
  moreover have "map (map_option (map_option (bytes_at st'))) (ms_slots st) = held st"
    using free by (intro held_cong) (auto simp: st' bytes_at_def)
  ultimately show ?thesis using inv
    by (simp add: msg_inv_def st' held_def) (simp add: bytes_at_def new_impl_def)
qed

lemma copy_ok:
  assumes inv: "msg_inv st" and ok: "op_ok st (OpCopy i)" and c: "copy_message i st = Inr st'"
  shows "msg_inv st' \<and> held st' = held st @ [held st ! i]"
proof (cases "slot i st")
  case (Inr p)
  then have i: "i < length (ms_slots st)" "ms_slots st ! i = Some p" by (simp_all add: slot_Inr)
  show ?thesis
  proof (cases p)
    case None
    then have "held st ! i = Some None" using i by (simp add: held_def)
    then show ?thesis using null_ok [OF inv] c Inr None
      by (simp add: copy_message_def null_message_def)
  next
    case (Some a)
    then obtain x where x: "ms_heap st a = Some x" using slot_cell [OF inv] Inr by blast
    let ?st1 = "st\<lparr> ms_heap := (ms_heap st)(a \<mapsto> x\<lparr> c_count := c_count x + 1 \<rparr>) \<rparr>"
    have st': "st' = add_handle (Some a) ?st1"
      using c Inr Some x by (simp add: copy_message_def cell_at_def)
    have "block_ok st' b" for b
    proof (cases "b = a")
      case True
      then show ?thesis using inv ok x Inr Some refs_slot [of i st a]
        by (auto simp: st' msg_inv_def block_ok_def refs_add_handle dest!: spec [of _ a])
    next
      case False
      then show ?thesis by (intro block_ok_other [OF inv]) (simp_all add: st' refs_add_handle)
    qed
    moreover have b: "bytes_at st' = bytes_at st" using x by (auto simp: fun_eq_iff st' bytes_at_def)
    ultimately show ?thesis using inv i Some
      by (simp add: msg_inv_def held_def b) (simp add: st')
  qed
qed (use c in \<open>simp add: copy_message_def\<close>)

lemma refs_move:
  assumes "slot i st = Inr p"
  shows "refs a (add_handle p (st\<lparr> ms_slots := (ms_slots st)[i := Some None] \<rparr>)) = refs a st"
  using assms count_list_update [of i "ms_slots st" "Some None" "Some (Some a)"]
  by (cases "p = Some a") (simp_all add: slot_Inr refs_def)

lemma move_ok:
  assumes inv: "msg_inv st" and c: "move_message i st = Inr st'"
  shows "msg_inv st' \<and> held st' = (held st)[i := Some None] @ [held st ! i]"
proof (cases "slot i st")
  case (Inr p)
  then have i: "i < length (ms_slots st)" "ms_slots st ! i = Some p" by (simp_all add: slot_Inr)
  have st': "st' = add_handle p (st\<lparr> ms_slots := (ms_slots st)[i := Some None] \<rparr>)"
    using c Inr by (simp add: move_message_def)
  have "msg_inv st'" using refs_move [OF Inr] by (intro msg_inv_cong [OF inv]) (simp_all add: st')
  moreover have "bytes_at st' = bytes_at st" by (rule bytes_at_cong) (simp add: st')
  ultimately show ?thesis using i by (simp add: held_def) (simp add: st' map_update)
qed (use c in \<open>simp add: move_message_def\<close>)

lemma refs_swap:
  assumes "slot i st = Inr p" and "slot j st = Inr q"
  shows "refs a (st\<lparr> ms_slots := (ms_slots st)[i := Some q, j := Some p] \<rparr>) = refs a st"
  using assms count_list_update [of i "ms_slots st" "Some q" "Some (Some a)"]
    count_list_update [of j "(ms_slots st)[i := Some q]" "Some p" "Some (Some a)"]
  by (cases "i = j") (auto simp: slot_Inr refs_def split: if_splits)

lemma swap_ok:
  assumes inv: "msg_inv st" and c: "swap_messages i j st = Inr st'"
  shows "msg_inv st' \<and> held st' = (held st)[i := held st ! j, j := held st ! i]"
proof -
  obtain p q where s: "slot i st = Inr p" "slot j st = Inr q"
    and st': "st' = st\<lparr> ms_slots := (ms_slots st)[i := Some q, j := Some p] \<rparr>"
    using c by (auto simp: swap_messages_def rbind_Inr_iff)
  have "msg_inv st'" using refs_swap [OF s] by (intro msg_inv_cong [OF inv]) (simp_all add: st')
  moreover have "bytes_at st' = bytes_at st" by (rule bytes_at_cong) (simp add: st')
  ultimately show ?thesis using s by (simp add: held_def slot_Inr) (simp add: st' map_update)
qed

lemma refs_release:
  assumes "slot i st = Inr p"
  shows "refs a (st\<lparr> ms_slots := (ms_slots st)[i := None] \<rparr>) = refs a st - (if p = Some a then 1 else 0)"
  using assms count_list_update [of i "ms_slots st" None "Some (Some a)"]
  by (auto simp: slot_Inr refs_def split: if_splits)

lemma held_release:
  assumes "slot i st = Inr p" and "\<And>b. 0 < refs b st \<Longrightarrow> bytes_at st' b = bytes_at st b"
    and "ms_slots st' = (ms_slots st)[i := None]"
  shows "held st' = (held st)[i := None]"
proof -
  have "map (map_option (map_option (bytes_at st'))) (ms_slots st) = held st"
    using assms(2) by (rule held_cong)
  then show ?thesis by (simp add: held_def [of st'] assms(3) map_update del: map_eq_conv)
qed

lemma release_ok:
  assumes inv: "msg_inv st" and c: "release i st = Inr (z, st')"
  shows "msg_inv st' \<and> held st' = (held st)[i := None]"
proof -
  obtain p where p: "slot i st = Inr p" using c by (auto simp: release_def rbind_Inr_iff)
  let ?st1 = "st\<lparr> ms_slots := (ms_slots st)[i := None] \<rparr>"
  show ?thesis
  proof (cases p)
    case None
    then have st': "st' = ?st1" using c p by (simp add: release_def)
    have "msg_inv st'" using refs_release [OF p] None
      by (intro msg_inv_cong [OF inv]) (simp_all add: st')
    then show ?thesis
      using held_release [OF p, of st'] bytes_at_cong [of st' st] by (simp add: st')
  next
    case (Some a)
    then obtain x where x: "ms_heap st a = Some x" using slot_cell [OF inv] p by blast
    have n: "1 \<le> refs a st" using p Some refs_slot [of i st a] by simp
    have xa: "a < ms_fresh st" "refs a st < 2 ^ 64" "c_count x = word_of_nat (refs a st)"
      "c_units x = units_for (word_of_nat (length (c_bytes x)))" "a \<notin> set (ms_pending st)"
      using inv x n by (auto simp: msg_inv_def block_ok_def dest!: spec [of _ a])
    have k: "c_count x - 1 = word_of_nat (refs a st - 1)" using n by (simp add: xa of_nat_diff)
    have k0: "c_count x - 1 = 0 \<longleftrightarrow> refs a st = 1"
      using n xa word_count_zero [of "refs a st - 1"] by (auto simp: k)
    define st2 where "st2 = ?st1\<lparr> ms_heap := (ms_heap st)(a \<mapsto> x\<lparr> c_count := c_count x - 1 \<rparr>) \<rparr>"
    have st': "st' = (if refs a st = 1 then st2\<lparr> ms_pending := ms_pending st @ [a] \<rparr> else st2)"
      using c p Some x k0 by (auto simp: release_def cell_at_def Let_def st2_def split: if_splits)
    have r1: "refs b ?st1 = refs b st - (if a = b then 1 else 0)" for b
      using refs_release [OF p] Some by simp
    have "block_ok st' b" for b
    proof (cases "b = a")
      case True
      then show ?thesis using n xa r1 [of a] by (auto simp: block_ok_def st' st2_def k)
    next
      case False
      then show ?thesis using r1 [of b] by (intro block_ok_other [OF inv]) (auto simp: st' st2_def)
    qed
    moreover have "bytes_at st' = bytes_at st" using x by (auto simp: fun_eq_iff st' st2_def bytes_at_def)
    ultimately show ?thesis using inv xa held_release [OF p, of st']
      by (simp add: msg_inv_def) (simp add: st' st2_def)
  qed
qed

lemma reclaim_ok:
  assumes inv: "msg_inv st" and a: "a \<in> set (ms_pending st)" and c: "reclaim a st = Inr st'"
  shows "msg_inv st' \<and> held st' = held st"
proof -
  have st': "st' = st\<lparr> ms_heap := (ms_heap st)(a := None), ms_pending := remove1 a (ms_pending st) \<rparr>"
    using c by (auto simp: reclaim_def rbind_Inr_iff split: if_splits)
  have r: "refs a st = 0"
    using inv a by (auto simp: msg_inv_def block_ok_def split: option.splits dest!: spec [of _ a])
  have d: "distinct (ms_pending st)" using inv by (simp add: msg_inv_def)
  have "block_ok st' b" for b
  proof (cases "b = a")
    case True
    then show ?thesis using r d by (simp add: st' block_ok_def)
  next
    case False
    then show ?thesis using d by (intro block_ok_other [OF inv]) (simp_all add: st')
  qed
  moreover have "map (map_option (map_option (bytes_at st'))) (ms_slots st) = held st"
    using r by (intro held_cong) (auto simp: st' bytes_at_def)
  ultimately show ?thesis using d by (simp add: msg_inv_def held_def) (simp add: st')
qed

lemma msg_step_ok:
  assumes inv: "msg_inv st" and st: "msg_step grants st op st'"
  shows "msg_inv st' \<and> held st' = value_op op (held st)"
proof (cases op)
  case (OpCopy i)
  then show ?thesis using copy_ok [OF inv, of i st'] st by (simp add: msg_step_def)
next
  case (OpRelease i)
  then show ?thesis using release_ok [OF inv, of i _ st'] st
    by (auto simp: msg_step_def rbind_Inr_iff)
next
  case (OpReclaim a)
  then show ?thesis using reclaim_ok [OF inv, of a st'] st by (simp add: msg_step_def)
qed (use st null_ok [OF inv] construct_ok [OF inv] move_ok [OF inv] swap_ok [OF inv] in
  \<open>auto simp: msg_step_def\<close>)

interpretation msgs: simulation "msg_step grants" msg_inv held value_op
  by unfold_locales (use msg_step_ok in blast)+

text \<open>No operation on handles that exist goes wrong; only the allocator can refuse.\<close>

lemma apply_op_total:
  assumes inv: "msg_inv st" and ok: "op_ok st op"
    and g: "\<And>bufs. op = OpMake bufs \<Longrightarrow> grants (units_for (word_of_nat (length (concat bufs))))"
  shows "\<exists>st'. apply_op grants op st = Inr st'"
proof (cases op)
  case (OpMake bufs)
  then show ?thesis using g by (simp add: construct_def Let_def)
next
  case (OpCopy i)
  then show ?thesis using ok slot_cell [OF inv, of i]
    by (auto simp: copy_message_def cell_at_def split: sum.splits option.splits)
next
  case (OpRelease i)
  then obtain p where "slot i st = Inr p" using ok by (auto simp: exists_handle_iff)
  then show ?thesis using OpRelease slot_cell [OF inv, of i]
    by (auto simp: release_def cell_at_def Let_def split: option.splits)
next
  case (OpReclaim a)
  then obtain x where "ms_heap st a = Some x"
    and "c_units x = units_for (word_of_nat (length (c_bytes x)))"
    using inv ok by (auto simp: msg_inv_def block_ok_def split: option.splits dest!: spec [of _ a])
  then show ?thesis using OpReclaim by (simp add: reclaim_def cell_at_def units_for_def)
qed (use ok in \<open>auto simp: move_message_def swap_messages_def exists_handle_iff\<close>)

lemma msg_inv_empty: "msg_inv no_messages" "held no_messages = []"
  by (simp_all add: msg_inv_def block_ok_def no_messages_def refs_def held_def)

lemma run_messages:
  assumes "run (msg_step grants) no_messages es st"
  shows "msg_inv st \<and> held st = fold value_op es []"
  using msgs.run_simulates [OF assms] by (simp add: msg_inv_empty)

text \<open>C10: whatever copies, moves, swaps and destructions the threads of the program have made of
  messages, in whatever order, the handles hold what they would hold had every copy been a copy of
  the bytes, and a handle reads those bytes from its block: that copies share one block cannot be
  observed, and no block is returned while a handle still reads it.\<close>

theorem messages_are_values:
  assumes "run (msg_step grants) no_messages es st"
    and "i < length (held st)" and "held st ! i = Some (Some bs)"
  shows "held st = fold value_op es [] \<and> buffer_of i st = Inr bs"
proof -
  have inv: "msg_inv st" and h: "held st = fold value_op es []"
    using run_messages [OF assms(1)] by auto
  obtain a where a: "slot i st = Inr (Some a)" "bytes_at st a = bs"
    using assms(2,3) by (auto simp: held_def slot_Inr)
  with h slot_cell [OF inv, of i a] show ?thesis
    by (auto simp: buffer_of_def cell_at_def bytes_at_def)
qed

text \<open>Running a history, which stops where an operation names a handle that does not exist.\<close>

fun run_ops :: "(64 word \<Rightarrow> bool) \<Rightarrow> msg_op list \<Rightarrow> msg_store \<Rightarrow> msg_store option" where
  "run_ops grants [] st = Some st"
| "run_ops grants (op # ops) st = (if op_ok st op then
     (case apply_op grants op st of Inl e \<Rightarrow> None | Inr st1 \<Rightarrow> run_ops grants ops st1) else None)"

lemma run_ops_run: "run_ops grants ops st = Some st' \<Longrightarrow> run (msg_step grants) st ops st'"
  by (induction ops arbitrary: st)
    (auto simp: msg_step_def intro!: run_cons split: if_splits sum.splits)

text \<open>The broadcast of one buffer to two sessions, the original handle gone.\<close>

definition sample_history :: "msg_op list" where
  "sample_history = [OpMake [[1, 2], [3]], OpCopy 0, OpCopy 0, OpRelease 0, OpRelease 1]"

definition sample_store :: msg_store where
  "sample_store = \<lparr> ms_heap = (\<lambda>_. None)(0 := Some \<lparr> c_bytes = [1, 2, 3], c_count = 1, c_units = 2 \<rparr>),
     ms_fresh = 1, ms_slots = [None, None, Some (Some 0)], ms_pending = [] \<rparr>"

lemma units_3: "units_for 3 = 2"
  by (simp add: units_for_def impl_size_def)

lemmas run_ops_eval = msg_op_defs no_messages_def units_for_def impl_size_def slot_def cell_at_def
  refs_def exists_handle_def Let_def

lemma sample_messages_run: "run (msg_step (\<lambda>_. True)) no_messages sample_history sample_store"
  by (rule run_ops_run) (simp add: sample_history_def sample_store_def run_ops_eval)

lemma sample_held: "held sample_store = [None, None, Some (Some [1, 2, 3])]"
  by (simp add: held_def sample_store_def bytes_at_def)

theorem messages_are_values_witness:
  "buffer_of 2 sample_store = Inr [1, 2, 3] \<and> held sample_store = fold value_op sample_history []"
  using messages_are_values [OF sample_messages_run, of 2 "[1, 2, 3]"] by (simp add: sample_held)

text \<open>C20: when every handle is gone and no destructor is half way, every block has been returned
  to the allocator: no history of the operations leaks a message.\<close>

theorem no_message_leak:
  assumes "run (msg_step grants) no_messages es st"
    and "\<forall>i < length (ms_slots st). ms_slots st ! i = None" and "ms_pending st = []"
  shows "ms_heap st a = None"
proof -
  have "refs a st = 0" using assms(2) by (auto simp: refs_def count_list_0_iff in_set_conv_nth)
  then show ?thesis using run_messages [OF assms(1)] assms(3)
    by (auto simp: msg_inv_def block_ok_def split: option.splits dest!: spec [of _ a])
qed

definition full_history :: "msg_op list" where
  "full_history = sample_history @ [OpMove 2, OpSwap 2 3, OpRelease 3, OpRelease 2, OpReclaim 0]"

definition end_store :: msg_store where
  "end_store = \<lparr> ms_heap = (\<lambda>_. None), ms_fresh = 1, ms_slots = [None, None, None, None], ms_pending = [] \<rparr>"

lemma full_run: "run (msg_step (\<lambda>_. True)) no_messages full_history end_store"
  by (rule run_ops_run)
    (simp add: full_history_def sample_history_def end_store_def run_ops_eval fun_eq_iff)

theorem no_message_leak_witness: "ms_heap end_store 0 = None"
  by (rule no_message_leak [OF full_run]) (auto simp: end_store_def less_Suc_eq)

text \<open>A destructor that is not interrupted is the release and, if the count went to zero, the
  return of the block.\<close>

lemma destroy_last:
  "destroy 2 sample_store = Inr (sample_store\<lparr> ms_heap := (\<lambda>_. None), ms_slots := [None, None, None] \<rparr>)"
  by (simp add: sample_store_def run_ops_eval fun_eq_iff)

text \<open>The block of a message is large enough for its header and its bytes.\<close>

lemma block_holds_bytes:
  assumes "msg_inv st" and "ms_heap st a = Some c" and "length (c_bytes c) < 2 ^ 64 - 48"
  shows "24 + length (c_bytes c) \<le> unat (c_units c) * 24"
    and "unat (c_units c) * 24 < 24 + length (c_bytes c) + 24"
proof -
  have "c_units c = units_for (word_of_nat (length (c_bytes c)))"
    using assms by (auto simp: msg_inv_def block_ok_def dest!: spec [of _ a])
  moreover have "unat (word_of_nat (length (c_bytes c)) :: 64 word) = length (c_bytes c)"
    using assms(3) by (simp add: unat_of_nat)
  ultimately have "unat (c_units c) = (length (c_bytes c) + 47) div 24"
    using units_for_unat [of "word_of_nat (length (c_bytes c))"] assms(3) by simp
  then show "24 + length (c_bytes c) \<le> unat (c_units c) * 24"
    and "unat (c_units c) * 24 < 24 + length (c_bytes c) + 24" by presburger+
qed

end
