(* ===== verification/SfPlugin.thy ===== *)
theory SfPlugin imports EpState begin

text \<open>
  The objects of the salesforce plugin that scripts hold pointers to: contexts, their error handlers
  and parsed documents (\<open>ep-srv-plugin-sf-context.h\<close>, \<open>.cpp\<close> and the first part of
  \<open>easyprospect-service-plugin-salesforce.cpp\<close>). Objects have addresses, and an address is live while
  something owns its object. The XML and path libraries are third-party: arguments.
\<close>

section \<open>State\<close>

datatype severity = SevWarning | SevError | SevFatal

record parse_report =
  rp_severity :: severity
  rp_line :: nat
  rp_column :: nat
  rp_message :: string

record dom_error =
  de_severity :: severity
  de_message :: string

datatype serial_failure = SerialOutOfMemory | SerialDom | SerialXml

text \<open>What the plugin uses of the libraries: loading a grammar, parsing with an entity resolver
  (which may throw), serialising, transforming; and the paths.\<close>

record ('g, 'd) xml_lib =
  xl_grammar :: "string \<Rightarrow> 'g option"
  xl_parse :: "(string \<Rightarrow> (string \<times> string) result) \<Rightarrow> 'g option \<Rightarrow> string \<Rightarrow> parse_report list \<times> 'd result"
  xl_serialise :: "'d \<Rightarrow> dom_error list \<times> (serial_failure + string)"
  xl_transform :: "string \<Rightarrow> string \<Rightarrow> string option"
  xl_canonical :: "string \<Rightarrow> string option"
  xl_parent :: "string \<Rightarrow> string"

record sf_context =
  cx_handler :: nat
  cx_catalog_xsd :: string

record 'd sf_plugin =
  sp_contexts :: "nat list"
  sp_ctx :: "nat \<rightharpoonup> sf_context"
  sp_handlers :: "nat \<rightharpoonup> string list"
  sp_docs :: "nat \<rightharpoonup> 'd"
  sp_fresh :: nat
  sp_files :: "string \<rightharpoonup> string"
  sp_log :: "(severity \<times> string) list"

definition new_plugin :: "(string \<rightharpoonup> string) \<Rightarrow> 'd sf_plugin" where
  "new_plugin fs = \<lparr> sp_contexts = [], sp_ctx = Map.empty, sp_handlers = Map.empty, sp_docs = Map.empty,
     sp_fresh = 0, sp_files = fs, sp_log = [] \<rparr>"

type_synonym ('d, 'a) sf_action = "('d sf_plugin, 'a) action"

definition log_line :: "severity \<Rightarrow> string \<Rightarrow> ('d, unit) sf_action" where
  "log_line v t = modify (\<lambda>s. s\<lparr> sp_log := sp_log s @ [(v, t)] \<rparr>)"

section \<open>Contexts\<close>

text \<open>A context is made with a handler of its own; the plugin keeps it, and it keeps the plugin.\<close>

definition init_context :: "('d, nat) sf_action" where
  "init_context s = (let h = sp_fresh s; c = h + 1 in
     (Inr c, s\<lparr> sp_handlers := (sp_handlers s)(h \<mapsto> []),
        sp_ctx := (sp_ctx s)(c \<mapsto> \<lparr> cx_handler = h, cx_catalog_xsd = [] \<rparr>),
        sp_contexts := sp_contexts s @ [c], sp_fresh := c + 1 \<rparr>))"

definition init_context_v8 :: "('d, nat) sf_action" where
  "init_context_v8 = init_context"

text \<open>\<open>shared_from_this\<close> on a pointer that a script gave.\<close>

definition shared_ctx :: "nat \<Rightarrow> ('d, sf_context) sf_action" where
  "shared_ctx c s = (case sp_ctx s c of None \<Rightarrow> (Inl UndefinedBehaviour, s) | Some x \<Rightarrow> (Inr x, s))"

definition shared_doc :: "nat \<Rightarrow> ('d, 'd) sf_action" where
  "shared_doc d s = (case sp_docs s d of None \<Rightarrow> (Inl UndefinedBehaviour, s) | Some x \<Rightarrow> (Inr x, s))"

definition set_catalog_xsd :: "nat \<Rightarrow> string \<Rightarrow> ('d, unit) sf_action" where
  "set_catalog_xsd c p = bnd (shared_ctx c) (\<lambda>x. modify (\<lambda>s.
     s\<lparr> sp_ctx := (sp_ctx s)(c \<mapsto> x\<lparr> cx_catalog_xsd := p \<rparr>) \<rparr>))"

definition get_errors_v8 :: "nat \<Rightarrow> ('d, nat) sf_action" where
  "get_errors_v8 c = bnd (shared_ctx c) (\<lambda>x. ret (cx_handler x))"

section \<open>Errors\<close>

text \<open>What the handler of a parse writes: the column is given where the text says line.\<close>

definition report_parse_exception :: "parse_report \<Rightarrow> string" where
  "report_parse_exception r = ''at line '' @ dec_nat (rp_column r) @ '' column '' @ dec_nat (rp_line r)
     @ '', '' @ rp_message r @ newline"

definition on_report :: "parse_report \<Rightarrow> ('d, unit) sf_action" where
  "on_report r = (case rp_severity r of
     SevWarning \<Rightarrow> log_line SevWarning (''Warn: '' @ report_parse_exception r)
   | SevError \<Rightarrow> log_line SevError (''Error: '' @ report_parse_exception r)
   | SevFatal \<Rightarrow> log_line SevError (''Fatal Error: '' @ report_parse_exception r))"

fun on_reports :: "parse_report list \<Rightarrow> ('d, unit) sf_action" where
  "on_reports [] = ret ()"
| "on_reports (r # rs) = bnd (on_report r) (\<lambda>_. on_reports rs)"

text \<open>\<open>handleError\<close> of the serialiser's handler: the message goes to the list of the handler; the format
  string of the log has no place for it.\<close>

definition handle_error :: "nat \<Rightarrow> dom_error \<Rightarrow> ('d, unit) sf_action" where
  "handle_error h e =
    bnd (case de_severity e of
        SevWarning \<Rightarrow> log_line SevWarning (newline @ ''Warning Message: '')
      | SevError \<Rightarrow> log_line SevError (newline @ ''Error Message: '')
      | SevFatal \<Rightarrow> log_line SevError (newline @ ''Fatal Message: '')) (\<lambda>_.
    bnd (log_line SevError ''%'') (\<lambda>_. modify (\<lambda>s.
      s\<lparr> sp_handlers := (sp_handlers s)(h := map_option (\<lambda>es. es @ [de_message e]) (sp_handlers s h)) \<rparr>)))"

fun handle_errors :: "nat \<Rightarrow> dom_error list \<Rightarrow> ('d, unit) sf_action" where
  "handle_errors h [] = ret ()"
| "handle_errors h (e # es) = bnd (handle_error h e) (\<lambda>_. handle_errors h es)"

section \<open>Files\<close>

definition load_file :: "string \<Rightarrow> ('d, string) sf_action" where
  "load_file p s = (case sp_files s p of
     None \<Rightarrow> (Inl (RuntimeError ''load_string_file''), s) | Some t \<Rightarrow> (Inr t, s))"

definition canonical :: "('g, 'd) xml_lib \<Rightarrow> string \<Rightarrow> ('d, string) sf_action" where
  "canonical l p = (case xl_canonical l p of None \<Rightarrow> throw (SystemError 2) | Some q \<Rightarrow> ret q)"

definition read_str_v8 :: "nat \<Rightarrow> string \<Rightarrow> ('d, string) sf_action" where
  "read_str_v8 c p = bnd (shared_ctx c) (\<lambda>_. load_file p)"

definition write_str_v8 :: "nat \<Rightarrow> string \<Rightarrow> string \<Rightarrow> ('d, unit) sf_action" where
  "write_str_v8 c content p = bnd (shared_ctx c) (\<lambda>_. modify (\<lambda>s. s\<lparr> sp_files := (sp_files s)(p \<mapsto> content) \<rparr>))"

text \<open>\<open>resolveEntity\<close>: the file the system id names beside the schema, without its carriage returns, and
  the name the parser knows it by.\<close>

definition resolve_entity ::
  "('g, 'd) xml_lib \<Rightarrow> (string \<rightharpoonup> string) \<Rightarrow> string \<Rightarrow> string \<Rightarrow> (string \<times> string) result" where
  "resolve_entity l files xsd sys_id =
    (case xl_canonical l (xl_parent l xsd @ ''/'' @ sys_id) of
       None \<Rightarrow> Inl (SystemError 2)
     | Some q \<Rightarrow> (case files q of
         None \<Rightarrow> Inl (RuntimeError ''load_string_file'')
       | Some t \<Rightarrow> Inr (filter (\<lambda>ch. ch \<noteq> char_of (13::nat)) t, sys_id @ ''.xsd'')))"

section \<open>Documents\<close>

definition is_failure :: "parse_report \<Rightarrow> bool" where
  "is_failure r = (rp_severity r \<noteq> SevWarning)"

definition new_doc :: "'d \<Rightarrow> ('d, nat) sf_action" where
  "new_doc d s = (Inr (sp_fresh s), s\<lparr> sp_docs := (sp_docs s)(sp_fresh s \<mapsto> d), sp_fresh := sp_fresh s + 1 \<rparr>)"

definition drop_doc :: "nat \<Rightarrow> ('d, unit) sf_action" where
  "drop_doc d = modify (\<lambda>s. s\<lparr> sp_docs := (sp_docs s)(d := None) \<rparr>)"

text \<open>\<open>parse_str\<close> parses, and returns the only shared pointer to a new document; a document that does
  not conform is returned all the same.\<close>

definition parse_content :: "('g, 'd) xml_lib \<Rightarrow> sf_context \<Rightarrow> string \<Rightarrow> string \<Rightarrow> ('d, 'd) sf_action" where
  "parse_content l x content schema_path =
    bnd (canonical l schema_path) (\<lambda>p.
    bnd (load_file p) (\<lambda>schema.
    let g = xl_grammar l schema in
    bnd (if g = None then log_line SevError (''couldn'' @ [CHR 0x27] @ ''t load schema'' @ newline) else ret ()) (\<lambda>_.
    bnd (reads sp_files) (\<lambda>files.
    let (reports, r) = xl_parse l (resolve_entity l files (cx_catalog_xsd x)) g content in
    bnd (on_reports reports) (\<lambda>_.
    case r of
      Inl e \<Rightarrow> throw e
    | Inr d \<Rightarrow>
        bnd (if list_ex is_failure reports then log_line SevError ''Parsing failed.'' else ret ()) (\<lambda>_.
        ret d))))))"

definition parse_str :: "('g, 'd) xml_lib \<Rightarrow> sf_context \<Rightarrow> string \<Rightarrow> string \<Rightarrow> ('d, nat) sf_action" where
  "parse_str l x content schema_path = bnd (parse_content l x content schema_path) new_doc"

text \<open>\<open>parse_str_v8\<close> gives the script the plain pointer; the shared pointer ends with the function.\<close>

definition parse_str_v8 :: "('g, 'd) xml_lib \<Rightarrow> nat \<Rightarrow> string \<Rightarrow> string \<Rightarrow> ('d, nat) sf_action" where
  "parse_str_v8 l c content schema_path =
    bnd (shared_ctx c) (\<lambda>x. bnd (parse_str l x content schema_path) (\<lambda>d. bnd (drop_doc d) (\<lambda>_. ret d)))"

definition serial_text :: "serial_failure \<Rightarrow> string" where
  "serial_text f = (case f of
     SerialOutOfMemory \<Rightarrow> ''OutOfMemoryException''
   | SerialDom \<Rightarrow> ''An error occurred during serialization of the DOM tree. Msg is: %s''
   | SerialXml \<Rightarrow> ''An error occurred during creation of output transcoder. Msg is: %s'')"

text \<open>The serialised bytes are read as a C string.\<close>

definition str_doc :: "('g, 'd) xml_lib \<Rightarrow> sf_context \<Rightarrow> 'd \<Rightarrow> ('d, string) sf_action" where
  "str_doc l x d = (let (errs, r) = xl_serialise l d in
     bnd (handle_errors (cx_handler x) errs) (\<lambda>_.
       case r of
         Inl f \<Rightarrow> bnd (log_line SevError (serial_text f)) (\<lambda>_. ret [])
       | Inr bytes \<Rightarrow> ret (takeWhile (\<lambda>b. b \<noteq> char_of (0::nat)) bytes)))"

definition str_doc_v8 :: "('g, 'd) xml_lib \<Rightarrow> nat \<Rightarrow> nat \<Rightarrow> ('d, string) sf_action" where
  "str_doc_v8 l c d = bnd (shared_ctx c) (\<lambda>x. bnd (shared_doc d) (\<lambda>doc. str_doc l x doc))"

text \<open>\<open>transform_str\<close>: the output stream is local, so only a failure leaves a trace.\<close>

definition transform_str_v8 :: "('g, 'd) xml_lib \<Rightarrow> nat \<Rightarrow> string \<Rightarrow> string \<Rightarrow> string \<Rightarrow> ('d, unit) sf_action" where
  "transform_str_v8 l c in_str out_str style = bnd (shared_ctx c) (\<lambda>_.
     case xl_transform l in_str style of
       Some out \<Rightarrow> ret ()
     | None \<Rightarrow> log_line SevError (''transform Error: %s '' @ newline))"

section \<open>What the operations keep\<close>

text \<open>Objects a script can name stay: no operation destroys a context or a handler.\<close>

definition stays :: "'d sf_plugin \<Rightarrow> 'd sf_plugin \<Rightarrow> bool" where
  "stays s t \<longleftrightarrow> dom (sp_ctx s) \<subseteq> dom (sp_ctx t) \<and> dom (sp_handlers s) \<subseteq> dom (sp_handlers t)"

context kept_relation begin

lemma kept_sum: "(\<And>e. kept (f e)) \<Longrightarrow> (\<And>x. kept (g x)) \<Longrightarrow> kept (case r of Inl e \<Rightarrow> f e | Inr x \<Rightarrow> g x)"
  by (cases r) simp_all

lemma kept_option: "kept m \<Longrightarrow> (\<And>x. kept (g x)) \<Longrightarrow> kept (case r of None \<Rightarrow> m | Some x \<Rightarrow> g x)"
  by (cases r) simp_all

lemma kept_let: "(\<And>x. kept (f x)) \<Longrightarrow> kept (let x = e in f x)"
  by simp

lemma kept_pair: "(\<And>x y. kept (f x y)) \<Longrightarrow> kept (case p of (x, y) \<Rightarrow> f x y)"
  by (cases p) simp

lemmas kept_cases = kept_ret kept_throw kept_reads kept_bnd kept_if kept_sum kept_option kept_let kept_pair

end

interpretation stay: kept_relation stays
  by unfold_locales (unfold stays_def, blast+)

text \<open>Reading and parsing leave the error lists, the contexts and the files alone.\<close>

definition same_errors :: "'d sf_plugin \<Rightarrow> 'd sf_plugin \<Rightarrow> bool" where
  "same_errors s t \<longleftrightarrow> sp_handlers t = sp_handlers s \<and> sp_ctx t = sp_ctx s \<and> sp_files t = sp_files s"

interpretation same: kept_relation same_errors
  by unfold_locales (simp_all add: same_errors_def)

text \<open>Only the making and the dropping of a document touch the documents.\<close>

definition same_docs :: "'d sf_plugin \<Rightarrow> 'd sf_plugin \<Rightarrow> bool" where
  "same_docs s t \<longleftrightarrow> sp_docs t = sp_docs s"

interpretation docs: kept_relation same_docs
  by unfold_locales (simp_all add: same_docs_def)

lemma same_log: "same.kept (log_line v t)" and docs_log: "docs.kept (log_line v t)"
  by (simp_all add: same.kept_def docs.kept_def log_line_def same_errors_def same_docs_def)

lemma same_report: "same.kept (on_report r)" and docs_report: "docs.kept (on_report r)"
  unfolding on_report_def by (cases "rp_severity r"; simp add: same_log docs_log)+

lemma same_reports: "same.kept (on_reports rs)" and docs_reports: "docs.kept (on_reports rs)"
  by (induction rs) (simp_all only: on_reports.simps same.kept_ret same.kept_bnd same_report
      docs.kept_ret docs.kept_bnd docs_report)

lemma same_basic:
  "same.kept (shared_ctx c)" "same.kept (load_file p)" "same.kept (canonical l p)" "same.kept (new_doc d)"
  "same.kept (drop_doc n)" "same.kept (shared_doc n)"
  by (auto simp: same.kept_def same_errors_def shared_ctx_def load_file_def canonical_def new_doc_def
      drop_doc_def shared_doc_def split: option.split)

lemma docs_basic:
  "docs.kept (shared_ctx c)" "docs.kept (load_file p)" "docs.kept (canonical l p)" "docs.kept (shared_doc n)"
  "docs.kept init_context" "docs.kept (modify (\<lambda>s. s\<lparr> sp_files := f (sp_files s) \<rparr>))"
  by (auto simp: docs.kept_def same_docs_def shared_ctx_def load_file_def canonical_def shared_doc_def
      init_context_def Let_def split: option.split)

lemma same_content: "same.kept (parse_content l x content p)"
  unfolding parse_content_def by (intro same.kept_cases same_basic same_reports same_log)

lemma docs_content: "docs.kept (parse_content l x content p)"
  unfolding parse_content_def by (intro docs.kept_cases docs_basic docs_reports docs_log)

lemma same_parse_v8: "same.kept (parse_str_v8 l c content p)"
  unfolding parse_str_v8_def parse_str_def by (intro same.kept_cases same_basic same_content)

lemma stay_basic:
  "stay.kept init_context" "stay.kept (shared_ctx c)" "stay.kept (shared_doc d)" "stay.kept (load_file p)"
  "stay.kept (log_line v t)" "stay.kept (modify (\<lambda>s. s\<lparr> sp_files := f (sp_files s) \<rparr>))"
  by (auto simp: stay.kept_def stays_def init_context_def shared_ctx_def shared_doc_def load_file_def
      log_line_def Let_def split: option.split)

lemma same_stay: "same.kept m \<Longrightarrow> stay.kept m"
  by (simp add: same.kept_def stay.kept_def same_errors_def stays_def)

lemma stay_handle: "stay.kept (handle_error h e)" and docs_handle: "docs.kept (handle_error h e)"
proof -
  have "stay.kept (modify (\<lambda>s. s\<lparr> sp_handlers := (sp_handlers s)(h := map_option f (sp_handlers s h)) \<rparr>))"
    "docs.kept (modify (\<lambda>s. s\<lparr> sp_handlers := (sp_handlers s)(h := map_option f (sp_handlers s h)) \<rparr>))" for f
    by (auto simp: stay.kept_def stays_def docs.kept_def same_docs_def)
  then show "stay.kept (handle_error h e)" "docs.kept (handle_error h e)"
    unfolding handle_error_def
    by (cases "de_severity e"; auto intro!: stay.kept_cases docs.kept_cases stay_basic docs_log)+
qed

lemma stay_handles: "stay.kept (handle_errors h es)" and docs_handles: "docs.kept (handle_errors h es)"
  by (induction es) (simp_all only: handle_errors.simps stay.kept_ret stay.kept_bnd stay_handle
      docs.kept_ret docs.kept_bnd docs_handle)

lemma stay_str: "stay.kept (str_doc l x d)"
  unfolding str_doc_def by (intro stay.kept_cases stay_handles stay_basic)

lemma docs_str: "docs.kept (str_doc l x d)"
  unfolding str_doc_def by (intro docs.kept_cases docs_handles docs_log)

section \<open>Scripts\<close>

text \<open>The calls a script can make, with the pointers it was given; the engine turns what they throw
  into an exception of the script, which goes on, but undefined behaviour ends the process.\<close>

datatype sf_call =
    CallInit
  | CallRead nat string
  | CallWrite nat string string
  | CallParse nat string string
  | CallStr nat nat
  | CallErrors nat
  | CallTransform nat string string string

definition ignore :: "('s, 'a) action \<Rightarrow> ('s, unit) action" where
  "ignore m = bnd m (\<lambda>_. ret ())"

fun exec_call :: "('g, 'd) xml_lib \<Rightarrow> sf_call \<Rightarrow> ('d, unit) sf_action" where
  "exec_call l CallInit = ignore init_context_v8"
| "exec_call l (CallRead c p) = ignore (read_str_v8 c p)"
| "exec_call l (CallWrite c t p) = write_str_v8 c t p"
| "exec_call l (CallParse c t p) = ignore (parse_str_v8 l c t p)"
| "exec_call l (CallStr c d) = ignore (str_doc_v8 l c d)"
| "exec_call l (CallErrors c) = ignore (get_errors_v8 c)"
| "exec_call l (CallTransform c i ou st) = transform_str_v8 l c i ou st"

fun run_calls :: "('g, 'd) xml_lib \<Rightarrow> sf_call list \<Rightarrow> 'd sf_plugin \<Rightarrow> 'd sf_plugin option" where
  "run_calls l [] s = Some s"
| "run_calls l (c # cs) s = (case exec_call l c s of
     (Inl UndefinedBehaviour, t) \<Rightarrow> None
   | (_, t) \<Rightarrow> run_calls l cs t)"

lemma run_calls_rule:
  assumes "run_calls l cs s = Some t" and "P s"
    and step: "\<And>c s. P s \<Longrightarrow> P (snd (exec_call l c s))"
  shows "P t"
  using assms(1,2)
proof (induction cs arbitrary: s)
  case (Cons c cs)
  obtain r u where u: "exec_call l c s = (r, u)" by fastforce
  moreover have "P u" using step [OF Cons.prems(2), of c] u by simp
  ultimately show ?case using Cons by (auto split: sum.splits cpp_error.splits)
qed simp

lemma stay_call: "stay.kept (exec_call l c)"
proof -
  have w: "stay.kept (modify (\<lambda>s. s\<lparr> sp_files := (sp_files s)(p \<mapsto> t) \<rparr>))" for p t
    by (simp add: stay.kept_def stays_def)
  show ?thesis
    by (cases c; hypsubst; unfold exec_call.simps ignore_def init_context_v8_def read_str_v8_def write_str_v8_def
      str_doc_v8_def get_errors_v8_def transform_str_v8_def; intro stay.kept_cases stay_basic stay_str w
      same_stay [OF same_parse_v8])
qed

text \<open>Parsing for a script leaves the documents as they were: the one it made is gone when it returns.\<close>

lemma parse_v8_docs:
  assumes "sp_docs s = Map.empty"
  shows "sp_docs (snd (parse_str_v8 l c content p s)) = Map.empty"
proof (cases "sp_ctx s c")
  case (Some x)
  obtain r t where t: "parse_content l x content p s = (r, t)" by fastforce
  then have "sp_docs t = Map.empty" using docs.keptD [OF docs_content t] assms by (simp add: same_docs_def)
  with Some t show ?thesis
    by (cases r) (simp_all add: parse_str_v8_def parse_str_def bnd_def shared_ctx_def new_doc_def drop_doc_def)
qed (simp add: parse_str_v8_def bnd_def shared_ctx_def assms)

lemma snd_ignore: "snd (ignore m s) = snd (m s)"
  by (simp add: ignore_def bnd_def split: prod.split sum.split)

lemma docs_call:
  assumes "sp_docs s = Map.empty"
  shows "sp_docs (snd (exec_call l c s)) = Map.empty"
proof (cases "\<exists>n t p. c = CallParse n t p")
  case True
  then show ?thesis using parse_v8_docs [OF assms] by (auto simp: snd_ignore)
next
  case False
  have w: "docs.kept (modify (\<lambda>s. s\<lparr> sp_files := (sp_files s)(p \<mapsto> t) \<rparr>))" for p t
    by (simp add: docs.kept_def same_docs_def)
  have "docs.kept (exec_call l c)"
    using False
    by (cases c; hypsubst; (simp; fail)?; unfold exec_call.simps ignore_def init_context_v8_def read_str_v8_def
      write_str_v8_def str_doc_v8_def get_errors_v8_def transform_str_v8_def;
      intro docs.kept_cases docs_basic docs_str w docs_log)
  then show ?thesis using assms by (simp add: docs.kept_def same_docs_def)
qed

section \<open>Properties\<close>

text \<open>No script ever holds a usable document. Whatever calls scripts have made of a new plugin, the
  pointer of any document they were given is dangling, so asking for its text is undefined
  behaviour: the document is owned by the function that parsed it and dies with it.\<close>

theorem documents_dangle:
  assumes "run_calls l cs (new_plugin fs) = Some s"
  shows "run_calls l (cs' @ [CallStr c d]) s = None"
proof -
  have e: "sp_docs s = Map.empty"
    by (rule run_calls_rule [OF assms]) (simp_all add: new_plugin_def docs_call)
  have "run_calls l (cs' @ [CallStr c d]) u = None" if "sp_docs u = Map.empty" for u
    using that
  proof (induction cs' arbitrary: u)
    case Nil
    then show ?case
      by (cases "sp_ctx u c") (simp_all add: ignore_def str_doc_v8_def bnd_def shared_ctx_def shared_doc_def)
  next
    case (Cons x cs')
    obtain r t where t: "exec_call l x u = (r, t)" by fastforce
    with docs_call [OF Cons.prems, of l x] Cons.IH [of t] show ?case
      by (auto split: sum.split cpp_error.split)
  qed
  with e show ?thesis by blast
qed

definition echo_lib :: "(unit, string) xml_lib" where
  "echo_lib = \<lparr> xl_grammar = (\<lambda>_. Some ()), xl_parse = (\<lambda>r g t. ([], Inr t)),
     xl_serialise = (\<lambda>d. ([], Inr d)), xl_transform = (\<lambda>i s. Some i), xl_canonical = Some,
     xl_parent = (\<lambda>p. p) \<rparr>"

lemma echo_session:
  "\<exists>s. run_calls echo_lib [CallInit, CallParse 1 ''x'' ''s''] (new_plugin [''s'' \<mapsto> ''y'']) = Some s"
  by (simp add: ignore_def init_context_v8_def init_context_def new_plugin_def parse_str_v8_def parse_str_def
      parse_content_def shared_ctx_def canonical_def load_file_def echo_lib_def new_doc_def drop_doc_def
      bnd_def Let_def)

theorem documents_dangle_witness:
  "run_calls echo_lib [CallInit, CallParse 1 ''x'' ''s'', CallStr 1 2] (new_plugin [''s'' \<mapsto> ''y'']) = None"
proof -
  obtain s where s: "run_calls echo_lib [CallInit, CallParse 1 ''x'' ''s''] (new_plugin [''s'' \<mapsto> ''y'']) = Some s"
    using echo_session by blast
  have "run_calls l (cs @ ds) u = None" if "run_calls l cs u = Some v" "run_calls l ds v = None"
    for l :: "(unit, string) xml_lib" and cs ds u v
    using that by (induction cs arbitrary: u) (auto split: prod.splits sum.splits cpp_error.splits)
  from this [OF s, of "[CallStr 1 2]"] documents_dangle [OF s, of "[]" 1 2] show ?thesis by simp
qed

text \<open>A context, once made, is usable for ever: no call destroys it.\<close>

theorem contexts_stay:
  assumes "init_context_v8 s0 = (Inr c, s)" and "run_calls l cs s = Some t"
  shows "is_ok (fst (get_errors_v8 c t))"
proof -
  have "stays s t"
    by (rule run_calls_rule [OF assms(2)])
      (auto simp: stay.kept_refl intro: stay.kept_trans stay_call [unfolded stay.kept_def, rule_format])
  moreover have "c \<in> dom (sp_ctx s)" using assms(1) by (auto simp: init_context_v8_def init_context_def Let_def)
  ultimately obtain x where "sp_ctx t c = Some x" by (auto simp: stays_def)
  then show ?thesis by (simp add: get_errors_v8_def shared_ctx_def bnd_def)
qed

text \<open>What a parse reports is not kept: the list of errors a script can ask its context for is the same
  after a parse, failed or not, as before.\<close>

theorem parse_errors_lost:
  "sp_handlers (snd (parse_str_v8 l c content p s)) = sp_handlers s"
  using same_parse_v8 [of l c content p] by (simp add: same.kept_def same_errors_def)

end
