(* ===== verification/XmlCount.thy ===== *)
theory XmlCount imports EpPrelude begin

text \<open>
  The walk over a parsed document in \<open>easyprospect-xml.cpp\<close>, \<open>countChildElements\<close>: the elements below
  a node, counted in an \<open>int\<close>, and what it prints of them.
\<close>

datatype xml_node =
    XmlElement string "(string \<times> string) list" "xml_node list"
  | XmlOther "xml_node list"

definition rule_line :: string where
  "rule_line = replicate 58 CHR ''-'' @ newline"

definition xml_tab :: string where
  "xml_tab = [char_of (9::nat)]"

definition attribute_text :: "(string \<times> string) list \<Rightarrow> string" where
  "attribute_text as = (if as = [] then [] else
     xml_tab @ ''Attributes'' @ newline @ xml_tab @ ''----------'' @ newline @
     concat (map (\<lambda>(n, v). xml_tab @ n @ ''='' @ v @ newline) as))"

definition element_text :: "string \<Rightarrow> (string \<times> string) list \<Rightarrow> string" where
  "element_text n as = rule_line @ ''Encountered Element : '' @ n @ newline @ attribute_text as"

text \<open>The count and the output; a null node counts nothing.\<close>

fun count_node :: "bool \<Rightarrow> xml_node \<Rightarrow> 32 word \<times> string" and
  count_nodes :: "bool \<Rightarrow> xml_node list \<Rightarrow> 32 word \<times> string" where
  "count_node pr (XmlElement n as ns) = (let (c, t) = count_nodes pr ns in
     (1 + c, (if pr then element_text n as else []) @ t))"
| "count_node pr (XmlOther ns) = count_nodes pr ns"
| "count_nodes pr [] = (0, [])"
| "count_nodes pr (n # ns) = (let (c, t) = count_node pr n; (d, u) = count_nodes pr ns in (c + d, t @ u))"

definition count_child_elements :: "xml_node option \<Rightarrow> bool \<Rightarrow> 32 word \<times> string" where
  "count_child_elements n pr = (case n of None \<Rightarrow> (0, []) | Some x \<Rightarrow> count_node pr x)"

text \<open>The elements of a document in document order.\<close>

fun elements :: "xml_node \<Rightarrow> (string \<times> (string \<times> string) list) list" and
  elements_all :: "xml_node list \<Rightarrow> (string \<times> (string \<times> string) list) list" where
  "elements (XmlElement n as ns) = (n, as) # elements_all ns"
| "elements (XmlOther ns) = elements_all ns"
| "elements_all [] = []"
| "elements_all (n # ns) = elements n @ elements_all ns"

lemma count_node_eq:
  "count_node pr n = (word_of_nat (length (elements n)),
     if pr then concat (map (case_prod element_text) (elements n)) else [])"
  "count_nodes pr ns = (word_of_nat (length (elements_all ns)),
     if pr then concat (map (case_prod element_text) (elements_all ns)) else [])"
  by (induction pr n and pr ns rule: count_node_count_nodes.induct) simp_all

text \<open>The count is the number of the elements of the document, the node itself included, as long as it
  fits an int, and the output is one entry per element in document order.\<close>

theorem count_is_elements:
  assumes "length (elements n) < 2 ^ 31"
  shows "sint (fst (count_child_elements (Some n) pr)) = int (length (elements n)) \<and>
    snd (count_child_elements (Some n) True) = concat (map (case_prod element_text) (elements n)) \<and>
    snd (count_child_elements (Some n) False) = []"
proof -
  have "(word_of_nat (length (elements n)) :: 32 word) = word_of_int (int (length (elements n)))" by simp
  then have "sint (word_of_nat (length (elements n)) :: 32 word) = int (length (elements n))"
    using assms by (simp only: sint_sbintrunc') (simp add: signed_take_bit_int_eq_self_iff)
  then show ?thesis by (simp add: count_child_elements_def count_node_eq)
qed

end
