(* ===== verification/ArgFile.thy ===== *)
theory ArgFile imports Config begin

text \<open>
  The argument file of the programs (\<open>get_map\<close> in \<open>easyprospect-config.cpp\<close>): how the text of the
  file is cleaned with \<open>std::regex_replace\<close>, which of its lines is taken for options, how these are
  joined with the command line, and the setters that take a text.
\<close>

section \<open>The regular expressions the code uses\<close>

text \<open>
  Each of them is a sequence of anchors, single characters and repeated characters. \<open>One\<close>, \<open>Lazy\<close> and
  \<open>Greedy\<close> say of which characters, and whether the replacement keeps the text they match.
  Whether an anchor holds at the line ends inside the text was left to the implementation (\<open>ml\<close>):
  it does in Microsoft's library; in others, and by the standard since C++17, only with a flag
  that the code does not give.
\<close>

datatype rx_item =
    Bol
  | Eol
  | One bool "char \<Rightarrow> bool"
  | Lazy bool "char \<Rightarrow> bool"
  | Greedy bool "char \<Rightarrow> bool"

definition lf :: char where
  "lf = CHR 0x0A"

definition cr :: char where
  "cr = CHR 0x0D"

definition backslash :: char where
  "backslash = CHR 0x5C"

definition hash :: char where
  "hash = CHR 0x23"

definition at_bol :: "bool \<Rightarrow> char option \<Rightarrow> bool" where
  "at_bol ml p = (case p of None \<Rightarrow> True | Some c \<Rightarrow> ml \<and> c = lf)"

definition at_eol :: "bool \<Rightarrow> string \<Rightarrow> bool" where
  "at_eol ml s = (case s of [] \<Rightarrow> True | c # _ \<Rightarrow> ml \<and> c = lf)"

definition dot :: "char \<Rightarrow> bool" where
  "dot c = (c \<noteq> lf \<and> c \<noteq> cr)"

definition kept :: "bool \<Rightarrow> char \<Rightarrow> string \<times> 'b \<Rightarrow> string \<times> 'b" where
  "kept k c r = (if k then (c # fst r, snd r) else r)"

text \<open>A match of the items at a position, given by the character before it and the text after it: the
  text to keep, the position after the match.\<close>

fun rx_match :: "bool \<Rightarrow> rx_item list \<Rightarrow> char option \<Rightarrow> string \<Rightarrow> (string \<times> char option \<times> string) option" where
  "rx_match ml [] p s = Some ([], p, s)"
| "rx_match ml (Bol # xs) p s = (if at_bol ml p then rx_match ml xs p s else None)"
| "rx_match ml (Eol # xs) p s = (if at_eol ml s then rx_match ml xs p s else None)"
| "rx_match ml (One k f # xs) p [] = None"
| "rx_match ml (One k f # xs) p (c # s) =
    (if f c then map_option (kept k c) (rx_match ml xs (Some c) s) else None)"
| "rx_match ml (Lazy k f # xs) p [] = rx_match ml xs p []"
| "rx_match ml (Lazy k f # xs) p (c # s) = (case rx_match ml xs p (c # s) of
     Some r \<Rightarrow> Some r
   | None \<Rightarrow> if f c then map_option (kept k c) (rx_match ml (Lazy k f # xs) (Some c) s) else None)"
| "rx_match ml (Greedy k f # xs) p [] = rx_match ml xs p []"
| "rx_match ml (Greedy k f # xs) p (c # s) =
    (case (if f c then map_option (kept k c) (rx_match ml (Greedy k f # xs) (Some c) s) else None) of
       Some r \<Rightarrow> Some r
     | None \<Rightarrow> rx_match ml xs p (c # s))"

text \<open>\<open>regex_replace\<close>: every match, from left to right, by the text kept and the text \<open>lit\<close>. No expression
  here matches the empty text.\<close>

function rx_replace :: "bool \<Rightarrow> rx_item list \<Rightarrow> string \<Rightarrow> char option \<Rightarrow> string \<Rightarrow> string" where
  "rx_replace ml xs lit p [] = []"
| "rx_replace ml xs lit p (c # s) = (case rx_match ml xs p (c # s) of
     Some (t, q, r) \<Rightarrow> if length r \<le> length s then t @ lit @ rx_replace ml xs lit q r
       else c # rx_replace ml xs lit (Some c) s
   | None \<Rightarrow> c # rx_replace ml xs lit (Some c) s)"
  by pat_completeness auto
termination by (relation "measure (\<lambda>(ml, xs, lit, p, s). length s)") auto

text \<open>The six replacements of the code.\<close>

definition windows_breaks :: "rx_item list" where
  "windows_breaks = [One False (\<lambda>c. c = cr), One False (\<lambda>c. c = lf)]"

definition escaped_breaks :: "rx_item list" where
  "escaped_breaks = [One False (\<lambda>c. c = backslash), One False (\<lambda>c. c = lf)]"

definition line_comment :: "rx_item list" where
  "line_comment = [Bol, Lazy True dot, One True (\<lambda>c. c \<noteq> backslash), One False (\<lambda>c. c = hash), Greedy False dot, Eol]"

definition whole_comment :: "rx_item list" where
  "whole_comment = [Bol, One False (\<lambda>c. c = hash), Greedy False dot, Eol]"

definition escaped_hash :: "rx_item list" where
  "escaped_hash = [One False (\<lambda>c. c = backslash), One False (\<lambda>c. c = hash)]"

definition empty_lines :: "rx_item list" where
  "empty_lines = [Bol, Greedy False is_space, One False (\<lambda>c. c = lf)]"

definition clean_arg_text :: "bool \<Rightarrow> string \<Rightarrow> string" where
  "clean_arg_text ml s =
    (let s1 = rx_replace ml windows_breaks [lf] None s;
         s2 = rx_replace ml escaped_breaks [] None s1;
         s3 = rx_replace ml line_comment [] None s2;
         s4 = rx_replace ml whole_comment [] None s3;
         s5 = rx_replace ml escaped_hash [hash] None s4
     in rx_replace ml empty_lines [] None s5)"

section \<open>The line of options\<close>

text \<open>\<open>getline\<close> until the end of the stream.\<close>

fun get_lines :: "string \<Rightarrow> string list" where
  "get_lines [] = []"
| "get_lines (c # s) = (if c = lf then [] # get_lines s
     else case get_lines s of [] \<Rightarrow> [[c]] | l # ls \<Rightarrow> (c # l) # ls)"

definition blank_line :: "string \<Rightarrow> bool" where
  "blank_line l = list_all is_space l"

text \<open>The loop over the lines passes over blank ones and ends with the first other.\<close>

definition option_line :: "bool \<Rightarrow> string \<Rightarrow> string option" where
  "option_line ml s = find (\<lambda>l. \<not> blank_line l) (get_lines (clean_arg_text ml s))"

section \<open>Joining the argument file with the command line\<close>

text \<open>The option library: parsing a list of words, with or without the rule that words without an option
  belong to \<open>--\<close>; storing what was parsed into a map; splitting a line into words.\<close>

datatype parse_failure =
    UnknownOption string
  | MultipleOccurrences string
  | OtherFailure cpp_error

record 'p option_lib =
  ol_parse :: "bool \<Rightarrow> string list \<Rightarrow> parse_failure + 'p"
  ol_store :: "'p \<Rightarrow> variables_map \<Rightarrow> parse_failure + variables_map"
  ol_split :: "string \<Rightarrow> string list result"

text \<open>What a failure becomes: for the command line only an unknown option is caught.\<close>

fun command_failure :: "parse_failure \<Rightarrow> cpp_error" where
  "command_failure (UnknownOption m) = LogicError ''invalid option''"
| "command_failure (MultipleOccurrences m) = LogicError m"
| "command_failure (OtherFailure e) = e"

fun file_failure :: "parse_failure \<Rightarrow> cpp_error" where
  "file_failure (UnknownOption m) = LogicError ''invalid option''"
| "file_failure (MultipleOccurrences m) = LogicError ''multiple occurrences''"
| "file_failure (OtherFailure e) = e"

definition store_parsed ::
  "'p option_lib \<Rightarrow> bool \<Rightarrow> string list \<Rightarrow> variables_map \<Rightarrow> parse_failure + variables_map" where
  "store_parsed l pos args vm = rbind (ol_parse l pos args) (\<lambda>p. ol_store l p vm)"

definition store_command_line :: "'p option_lib \<Rightarrow> string list \<Rightarrow> variables_map result" where
  "store_command_line l argv = (case store_parsed l True argv Map.empty of
     Inr vm \<Rightarrow> Inr vm | Inl f \<Rightarrow> Inl (command_failure f))"

definition store_line :: "'p option_lib \<Rightarrow> string \<Rightarrow> variables_map \<Rightarrow> variables_map result" where
  "store_line l line vm = rbind (ol_split l line) (\<lambda>args. case store_parsed l False args vm of
     Inr vm1 \<Rightarrow> Inr vm1 | Inl f \<Rightarrow> Inl (file_failure f))"

definition read_arg_file ::
  "bool \<Rightarrow> 'p option_lib \<Rightarrow> (string \<rightharpoonup> string) \<Rightarrow> string \<Rightarrow> variables_map \<Rightarrow> variables_map result" where
  "read_arg_file ml l files name vm = (case files name of
     None \<Rightarrow> Inl (LogicError (''Could not open the response file '' @ [CHR 0x27] @ name @ [CHR 0x27]))
   | Some t \<Rightarrow> (case option_line ml t of None \<Rightarrow> Inr vm | Some line \<Rightarrow> store_line l line vm))"

definition get_map ::
  "bool \<Rightarrow> 'p option_lib \<Rightarrow> (string \<rightharpoonup> string) \<Rightarrow> string list \<Rightarrow> variables_map result" where
  "get_map ml l files argv = rbind (store_command_line l argv) (\<lambda>vm.
     case vm ''arg-file'' of
       None \<Rightarrow> Inr vm
     | Some v \<Rightarrow> rbind (as_string v) (\<lambda>f. read_arg_file ml l files f vm))"

section \<open>Setters that take a text\<close>

text \<open>A text that is not a boolean throws a pointer to an exception. The text of \<open>display_version\<close> sets the
  other flag. \<open>conv\<close> is the library's conversion.\<close>

datatype thrown_pointer = PointerTo cpp_error

definition set_display_help_text ::
  "(string \<Rightarrow> bool option) \<Rightarrow> string \<Rightarrow> 'a core_builder_scheme \<Rightarrow> thrown_pointer + 'a core_builder_scheme" where
  "set_display_help_text conv s b = (case conv s of
     Some v \<Rightarrow> Inr (b\<lparr> cb_help := v \<rparr>)
   | None \<Rightarrow> Inl (PointerTo (LogicError ''Invalid display help option'')))"

definition set_display_version_text ::
  "(string \<Rightarrow> bool option) \<Rightarrow> string \<Rightarrow> 'a core_builder_scheme \<Rightarrow> thrown_pointer + 'a core_builder_scheme" where
  "set_display_version_text conv s b = (case conv s of
     Some v \<Rightarrow> Inr (b\<lparr> cb_help := v \<rparr>)
   | None \<Rightarrow> Inl (PointerTo (LogicError ''Invalid display version option'')))"

section \<open>Lines of a text\<close>

lemma special_chars [simp]:
  "lf \<noteq> cr" "cr \<noteq> lf" "lf \<noteq> hash" "hash \<noteq> lf" "hash \<noteq> cr" "cr \<noteq> hash" "lf \<noteq> backslash" "backslash \<noteq> lf"
  "hash \<noteq> backslash" "backslash \<noteq> hash" "is_space lf" "\<not> dot lf" "dot hash"
  by (simp_all add: lf_def cr_def hash_def backslash_def is_space_def dot_def Let_def)

fun split_lf :: "string \<Rightarrow> string list" where
  "split_lf [] = [[]]"
| "split_lf (c # s) = (if c = lf then [] # split_lf s
     else (c # hd (split_lf s)) # tl (split_lf s))"

lemma split_lf_not_Nil [simp]: "split_lf s \<noteq> []"
  by (cases s) auto

lemma split_lf_line [simp]: "lf \<notin> set l \<Longrightarrow> split_lf (l @ lf # s) = l # split_lf s"
  by (induction l) auto

lemma split_lf_last [simp]: "lf \<notin> set l \<Longrightarrow> split_lf l = [l]"
  by (induction l) auto

lemma blank_Nil [simp]: "blank_line []"
  by (simp add: blank_line_def)

lemma split_get_lines: "split_lf s = get_lines s \<or> split_lf s = get_lines s @ [[]]"
  by (induction s) (auto split: list.splits)

lemma find_filter: "find P xs = (case filter P xs of [] \<Rightarrow> None | x # _ \<Rightarrow> Some x)"
  by (induction xs) auto

section \<open>Matching\<close>

definition starts_line :: "string \<Rightarrow> bool" where
  "starts_line t = (t = [] \<or> hd t = lf)"

text \<open>An expression whose first character the text lacks changes nothing.\<close>

lemma replace_absent:
  "\<forall>c \<in> set s. \<not> f c \<Longrightarrow> rx_replace ml (One k f # xs) lit p s = s"
  by (induction s arbitrary: p) simp_all

text \<open>Inside a line nothing starts with \<open>Bol\<close>; the next line starts anew.\<close>

fun from_break :: "rx_item list \<Rightarrow> string \<Rightarrow> string \<Rightarrow> string" where
  "from_break xs lit [] = []"
| "from_break xs lit (c # t) = c # rx_replace True (Bol # xs) lit (Some c) t"

lemma inside_line:
  "\<not> at_bol True p \<Longrightarrow> lf \<notin> set l \<Longrightarrow> starts_line t \<Longrightarrow>
   rx_replace True (Bol # xs) lit p (l @ t) = l @ from_break xs lit t"
proof (induction l arbitrary: p)
  case Nil
  then show ?case by (cases t) simp_all
next
  case (Cons c l)
  then have "\<not> at_bol True (Some c)" by (auto simp: at_bol_def)
  with Cons show ?case by simp
qed

lemma no_bol: "rx_replace False (Bol # xs) lit (Some c) s = s"
  by (induction s arbitrary: c) (simp_all add: at_bol_def)

text \<open>What a greedy repetition in front of \<open>xs\<close> matches, and that it takes all it can before a line end.\<close>

lemma greedy_split:
  "rx_match ml (Greedy False f # xs) p s = Some r \<Longrightarrow>
   \<exists>u v q. s = u @ v \<and> (\<forall>c \<in> set u. f c) \<and> q = (if u = [] then p else Some (last u)) \<and> rx_match ml xs q v = Some r"
proof (induction s arbitrary: p)
  case (Cons c s)
  show ?case
  proof (cases "f c \<and> (\<exists>r'. rx_match ml (Greedy False f # xs) (Some c) s = Some r')")
    case True
    with Cons.prems have "rx_match ml (Greedy False f # xs) (Some c) s = Some r"
      by (auto simp: kept_def)
    from Cons.IH [OF this] obtain u v where "s = u @ v" "\<forall>c \<in> set u. f c"
      "rx_match ml xs (if u = [] then Some c else Some (last u)) v = Some r" by blast
    with True show ?thesis by (intro exI [of _ "c # u"] exI [of _ v]) auto
  next
    case False
    with Cons.prems have "rx_match ml xs p (c # s) = Some r" by (auto split: option.splits if_splits)
    then show ?thesis by (intro exI [of _ "[]"] exI [of _ "c # s"]) simp
  qed
qed simp

lemma greedy_rest:
  "list_all dot m \<Longrightarrow> starts_line t \<Longrightarrow> rx_match True [Greedy False dot, Eol] p (m @ t) =
   Some ([], (if m = [] then p else Some (last m)), t)"
proof (induction m arbitrary: p)
  case Nil
  then show ?case by (cases t) (simp_all add: starts_line_def at_eol_def)
next
  case (Cons c m)
  then show ?case by (simp add: kept_def)
qed

lemma not_bol_last: "list_all dot m \<Longrightarrow> \<not> at_bol True p \<Longrightarrow> \<not> at_bol True (if m = [] then p else Some (last m))"
  by (induction m) (auto simp: at_bol_def list_all_iff)

section \<open>Comments\<close>

definition plain_text :: "string \<Rightarrow> bool" where
  "plain_text s = (backslash \<notin> set s \<and> cr \<notin> set s)"

lemma plain_text_simps [simp]:
  "plain_text []" "plain_text (c # s) \<longleftrightarrow> c \<noteq> backslash \<and> c \<noteq> cr \<and> plain_text s"
  "plain_text (s @ t) \<longleftrightarrow> plain_text s \<and> plain_text t"
  by (auto simp: plain_text_def)

text \<open>A text is a line, or a line and the text after its break.\<close>

lemma line_of_text:
  obtains l t where "s = l @ t" "lf \<notin> set l" "starts_line t"
proof
  show "s = takeWhile (\<lambda>c. c \<noteq> lf) s @ dropWhile (\<lambda>c. c \<noteq> lf) s" by simp
  show "lf \<notin> set (takeWhile (\<lambda>c. c \<noteq> lf) s)" by (metis set_takeWhileD)
  show "starts_line (dropWhile (\<lambda>c. c \<noteq> lf) s)"
    by (metis (mono_tags, lifting) hd_dropWhile starts_line_def)
qed

lemma starts_line_simps [simp]: "starts_line []" "starts_line (c # t) \<longleftrightarrow> c = lf"
  by (simp_all add: starts_line_def)

lemma dots_of_line: "plain_text m \<Longrightarrow> lf \<notin> set m \<Longrightarrow> list_all dot m"
  by (auto simp: list_all_iff dot_def plain_text_def)

definition comment_body :: "rx_item list" where
  "comment_body = [One True (\<lambda>c. c \<noteq> backslash), One False (\<lambda>c. c = hash), Greedy False dot, Eol]"

lemma comment_body_hash:
  assumes "plain_text (c # m)" and "lf \<notin> set m" and "starts_line t"
  shows "\<exists>q. \<not> at_bol True q \<and> rx_match True comment_body p (c # hash # m @ t) = Some ([c], q, t)"
proof -
  have d: "list_all dot m" using assms by (intro dots_of_line) simp_all
  have n: "\<not> at_bol True (Some hash)" by (simp add: at_bol_def)
  show ?thesis
    using greedy_rest [OF d assms(3), of "Some hash"] not_bol_last [OF d n] assms(1)
    by (simp add: comment_body_def kept_def)
qed

lemma comment_body_none:
  "(case s of c # d # u \<Rightarrow> d \<noteq> hash | _ \<Rightarrow> True) \<Longrightarrow> rx_match ml comment_body p s = None"
  by (auto simp: comment_body_def split: list.splits)

text \<open>The match of \<open>line_comment\<close> at the start of a line: from the first \<open>#\<close> that is not the first character;
  else a comment that starts the next line is taken, and the break before it kept.\<close>

definition next_comment :: "string \<Rightarrow> string option" where
  "next_comment t = (case t of _ # d # u \<Rightarrow> if d = hash then Some (dropWhile (\<lambda>c. c \<noteq> lf) u) else None | _ \<Rightarrow> None)"

definition comment_cut :: "string \<Rightarrow> string \<Rightarrow> char option \<Rightarrow> (string \<times> char option \<times> string) option" where
  "comment_cut l t q = (if hash \<in> set (tl l) then Some (hd l # takeWhile (\<lambda>c. c \<noteq> hash) (tl l), q, t)
     else map_option (\<lambda>r. (l @ [lf], q, r)) (next_comment t))"

lemma comment_cut_Cons:
  "\<not> (\<exists>m. l = hash # m) \<Longrightarrow> map_option (kept True c) (comment_cut l t q) = comment_cut (c # l) t q"
  by (cases l) (auto simp: comment_cut_def kept_def option.map_comp o_def)

lemma next_comment_None: "starts_line t \<Longrightarrow> next_comment t = None \<Longrightarrow> rx_match True (Lazy True dot # comment_body) p t = None"
proof -
  assume t: "starts_line t" "next_comment t = None"
  then have "rx_match True comment_body p t = None"
    by (intro comment_body_none) (auto simp: next_comment_def split: list.splits if_splits)
  with t(1) show ?thesis by (cases t) simp_all
qed

lemma next_comment_Some:
  assumes "starts_line t" and "plain_text t" and "next_comment t = Some r"
  shows "\<exists>q. \<not> at_bol True q \<and> rx_match True (Lazy True dot # comment_body) p t = Some ([lf], q, r)"
proof -
  obtain u where t: "t = lf # hash # u" "r = dropWhile (\<lambda>c. c \<noteq> lf) u"
    using assms(1,3) by (auto simp: next_comment_def starts_line_def split: list.splits if_splits)
  obtain m v where u: "u = m @ v" "lf \<notin> set m" "starts_line v" by (rule line_of_text)
  have "plain_text (lf # m)" using assms(2) by (simp add: t u(1))
  from comment_body_hash [OF this u(2,3), of p] obtain q where
    "\<not> at_bol True q" "rx_match True comment_body p (lf # hash # m @ v) = Some ([lf], q, v)" by blast
  moreover have "dropWhile (\<lambda>c. c \<noteq> lf) v = v" using u(3) by (cases v) simp_all
  then have "dropWhile (\<lambda>c. c \<noteq> lf) (m @ v) = v" using u(2) by (induction m) auto
  ultimately show ?thesis by (auto simp: t u(1))
qed

lemma line_comment_match:
  assumes "plain_text (l @ t)" and "lf \<notin> set l" and "starts_line t"
  shows "\<exists>q. \<not> at_bol True q \<and> rx_match True (Lazy True dot # comment_body) p (l @ t) = comment_cut l t q"
  using assms
proof (induction l arbitrary: p)
  case Nil
  have n: "\<not> at_bol True (Some hash)" by (simp add: at_bol_def)
  from Nil show ?case
    by (cases "next_comment t")
      (use next_comment_None [of t] next_comment_Some [of t] n in \<open>auto simp: comment_cut_def\<close>)
next
  case (Cons c l)
  show ?case
  proof (cases "\<exists>m. l = hash # m")
    case True
    then obtain m where l: "l = hash # m" by blast
    have "plain_text (c # m)" "lf \<notin> set m" using Cons.prems by (simp_all add: l)
    from comment_body_hash [OF this Cons.prems(3), of p] show ?thesis
      by (auto simp: l comment_cut_def)
  next
    case False
    then have n: "rx_match True comment_body p (c # l @ t) = None"
      using Cons.prems(3) by (intro comment_body_none) (cases l; cases t; auto)
    have c: "dot c" "plain_text (l @ t)" "lf \<notin> set l" using Cons.prems by (auto simp: dot_def)
    from Cons.IH [OF c(2,3) Cons.prems(3), of "Some c"] obtain q where
      q: "\<not> at_bol True q" "rx_match True (Lazy True dot # comment_body) (Some c) (l @ t) = comment_cut l t q"
      by blast
    have "rx_match True (Lazy True dot # comment_body) p ((c # l) @ t) = map_option (kept True c) (comment_cut l t q)"
      using n c(1) by (simp add: q(2))
    with comment_cut_Cons [OF False] q(1) show ?thesis by metis
  qed
qed

section \<open>The lines after each replacement\<close>

fun later_lines :: "string \<Rightarrow> string list" where
  "later_lines [] = []"
| "later_lines (c # t) = split_lf t"

lemma split_later: "lf \<notin> set l \<Longrightarrow> starts_line t \<Longrightarrow> split_lf (l @ t) = l # later_lines t"
  by (cases t) simp_all

lemma split_break:
  "lf \<notin> set k \<Longrightarrow> starts_line t \<Longrightarrow> split_lf (k @ from_break xs lit t) =
   k # (case t of [] \<Rightarrow> [] | _ # u \<Rightarrow> split_lf (rx_replace True (Bol # xs) lit (Some lf) u))"
  by (cases t) simp_all

lemma replace_some:
  assumes "rx_match True (Bol # xs) p s = Some (k, q, r)" and "length r < length s"
    and "\<not> at_bol True q" and "starts_line r"
  shows "rx_replace True (Bol # xs) lit p s = k @ lit @ from_break xs lit r"
  using assms inside_line [of q "[]" r xs lit] by (cases s) simp_all

lemma replace_none:
  assumes "rx_match True (Bol # xs) p (l @ t) = None" and "lf \<notin> set l" and "starts_line t"
  shows "rx_replace True (Bol # xs) lit p (l @ t) = l @ from_break xs lit t"
proof (cases l)
  case Nil
  with assms show ?thesis by (cases t) auto
next
  case (Cons c m)
  then have "\<not> at_bol True (Some c)" using assms(2) by (auto simp: at_bol_def)
  from inside_line [OF this, of m t xs lit] assms show ?thesis by (simp add: Cons)
qed

lemma at_bol_lf [simp]: "at_bol True (Some lf)"
  by (simp add: at_bol_def)

text \<open>A line without its comment; after the first replacement a comment may be left that starts a line.\<close>

definition strip_comment :: "string \<Rightarrow> string" where
  "strip_comment l = takeWhile (\<lambda>c. c \<noteq> hash) l"

definition half_stripped :: "string \<Rightarrow> string \<Rightarrow> bool" where
  "half_stripped l m \<longleftrightarrow> m = strip_comment l \<or>
     (\<exists>x. l = hash # x \<and> m = hash # takeWhile (\<lambda>c. c \<noteq> hash) x)"

lemma half_cut: "l \<noteq> [] \<Longrightarrow> half_stripped l (hd l # takeWhile (\<lambda>c. c \<noteq> hash) (tl l))"
  by (cases l) (auto simp: half_stripped_def strip_comment_def)

lemma half_same: "hash \<notin> set (tl l) \<Longrightarrow> half_stripped l l"
proof (cases l)
  case (Cons c m)
  moreover assume "hash \<notin> set (tl l)"
  ultimately have "hash \<notin> set m" by simp
  then have m: "takeWhile (\<lambda>c. c \<noteq> hash) m = m" by (induction m) auto
  show ?thesis
    by (cases "c = hash") (simp_all add: half_stripped_def strip_comment_def Cons m)
qed (simp add: half_stripped_def strip_comment_def)

lemma half_comment: "half_stripped (hash # m) []"
  by (simp add: half_stripped_def strip_comment_def)

lemma line_comment_lines:
  assumes "plain_text s" and "at_bol True p"
  shows "list_all2 half_stripped (split_lf s) (split_lf (rx_replace True line_comment [] p s))"
  using assms
proof (induction s arbitrary: p rule: length_induct)
  case (1 s)
  let ?xs = "Lazy True dot # comment_body"
  have lc: "line_comment = Bol # ?xs" by (simp add: line_comment_def comment_body_def)
  have IH: "list_all2 half_stripped (split_lf u) (split_lf (rx_replace True (Bol # ?xs) [] (Some lf) u))"
    if "length u < length s" "plain_text u" for u
    using 1 that unfolding lc by simp
  obtain l t where s: "s = l @ t" "lf \<notin> set l" "starts_line t" by (rule line_of_text)
  have rest: "list_all2 half_stripped (later_lines r) (case r of [] \<Rightarrow> [] | _ # u \<Rightarrow>
      split_lf (rx_replace True (Bol # ?xs) [] (Some lf) u))"
    if "length r \<le> length t" "plain_text r" for r
    using that IH s(1) by (cases r) auto
  have pt: "plain_text l" "plain_text t" using 1(2) by (simp_all add: s(1))
  obtain q where q: "\<not> at_bol True q" "rx_match True (Bol # ?xs) p s = comment_cut l t q"
    using line_comment_match [OF _ s(2,3), of p] pt 1(3) by (auto simp: s(1))
  consider (cut) "hash \<in> set (tl l)" | (next_line) r where "hash \<notin> set (tl l)" "next_comment t = Some r"
    | (none) "hash \<notin> set (tl l)" "next_comment t = None" by fastforce
  then show ?case
  proof cases
    case cut
    then have ne: "l \<noteq> []" by auto
    define k where "k = hd l # takeWhile (\<lambda>c. c \<noteq> hash) (tl l)"
    have "rx_match True (Bol # ?xs) p s = Some (k, q, t)"
      using q(2) cut by (simp only: comment_cut_def if_True k_def)
    from replace_some [OF this _ q(1) s(3)] ne
    have "rx_replace True (Bol # ?xs) [] p s = k @ from_break ?xs [] t" by (simp add: s(1))
    moreover have "lf \<notin> set k" using s(2) ne unfolding k_def by (cases l) (auto dest: set_takeWhileD)
    ultimately show ?thesis
      using split_break [of k t ?xs "[]"] split_later [OF s(2,3)] half_cut [OF ne, folded k_def] rest [of t] s(3) pt
      by (simp add: lc s(1))
  next
    case next_line
    obtain u where t: "t = lf # hash # u" "r = dropWhile (\<lambda>c. c \<noteq> lf) u"
      using next_line(2) s(3) by (auto simp: next_comment_def starts_line_def split: list.splits if_splits)
    obtain m v where u: "u = m @ v" "lf \<notin> set m" "starts_line v" by (rule line_of_text)
    have r: "r = v" using u by (cases v) (auto simp: t(2) dropWhile_append)
    have pv: "plain_text v" using pt(2) by (simp add: t(1) u(1))
    have "rx_match True (Bol # ?xs) p s = Some (l @ [lf], q, v)" using q(2) next_line by (simp only: comment_cut_def r) simp
    from replace_some [OF this _ q(1) u(3)]
    have "rx_replace True (Bol # ?xs) [] p s = l @ lf # from_break ?xs [] v" by (simp add: s(1) t(1) u(1))
    moreover have "split_lf s = l # (hash # m) # later_lines v"
      using split_later [of "hash # m" v] u s(2) by (simp add: s(1) t(1))
    ultimately show ?thesis
      using split_break [of "[]" v ?xs "[]"] half_same [OF next_line(1)] half_comment rest [of v] s(2) u(1,3) pv t(1)
      by (simp add: lc)
  next
    case none
    then have "rx_match True (Bol # ?xs) p (l @ t) = None" using q(2) by (simp only: comment_cut_def s(1)) simp
    from replace_none [OF this s(2,3)] show ?thesis
      using split_break [OF s(2,3)] split_later [OF s(2,3)] half_same [OF none(1)] rest [of t] pt
      by (simp add: lc s(1))
  qed
qed

lemma rx_match_chars:
  "rx_match ml xs p s = Some (t, q, r) \<Longrightarrow> set t \<subseteq> set s \<and> set r \<subseteq> set s"
proof (induction ml xs p s arbitrary: t q r rule: rx_match.induct)
  case (5 ml k f xs p c s)
  then obtain t' where "rx_match ml xs (Some c) s = Some (t', q, r)" "t = (if k then c # t' else t')" "f c"
    by (auto simp: kept_def split: if_splits)
  with 5 show ?case by auto
next
  case (7 ml k f xs p c s)
  show ?case
  proof (cases "rx_match ml xs p (c # s)")
    case None
    with 7(3) obtain t' where "rx_match ml (Lazy k f # xs) (Some c) s = Some (t', q, r)"
      "t = (if k then c # t' else t')" "f c"
      by (auto simp: kept_def split: if_splits)
    with 7(2) [OF None] show ?thesis by auto
  qed (use 7 in auto)
next
  case (9 ml k f xs p c s)
  show ?case
  proof (cases "if f c then map_option (kept k c) (rx_match ml (Greedy k f # xs) (Some c) s) else None")
    case (Some x)
    with 9(3) obtain t' where "rx_match ml (Greedy k f # xs) (Some c) s = Some (t', q, r)"
      "t = (if k then c # t' else t')" "f c"
      by (auto simp: kept_def split: if_splits)
    with 9(1) show ?thesis by auto
  qed (use 9 in auto)
qed (auto split: if_splits)

lemma rx_replace_chars: "set (rx_replace ml xs lit p s) \<subseteq> set s \<union> set lit"
proof (induction ml xs lit p s rule: rx_replace.induct)
  case (2 ml xs lit p c s)
  show ?case
  proof (cases "rx_match ml xs p (c # s)")
    case None
    then have "set (rx_replace ml xs lit (Some c) s) \<subseteq> set s \<union> set lit" using 2 by blast
    with None show ?thesis by auto
  next
    case (Some m)
    obtain t q r where m: "m = (t, q, r)" by (cases m)
    have "set t \<subseteq> set (c # s)" "set r \<subseteq> set (c # s)"
      using rx_match_chars [of ml xs p "c # s" t q r] Some m by blast+
    moreover have "length r \<le> length s \<Longrightarrow> set (rx_replace ml xs lit q r) \<subseteq> set r \<union> set lit"
      using 2(2) [OF Some] m by simp
    moreover have "\<not> length r \<le> length s \<Longrightarrow> set (rx_replace ml xs lit (Some c) s) \<subseteq> set s \<union> set lit"
      using 2(3) [OF Some] m by simp
    ultimately show ?thesis using Some m
      by (cases "length r \<le> length s") auto
  qed
qed simp

lemma plain_text_replace: "plain_text s \<Longrightarrow> plain_text lit \<Longrightarrow> plain_text (rx_replace ml xs lit p s)"
  using rx_replace_chars [of ml xs lit p s] by (auto simp: plain_text_def)

text \<open>The second replacement empties the lines that still start with \<open>#\<close>.\<close>

definition drop_comment :: "string \<Rightarrow> string" where
  "drop_comment l = (if l \<noteq> [] \<and> hd l = hash then [] else l)"

lemma whole_comment_lines:
  assumes "plain_text s" and "at_bol True p"
  shows "split_lf (rx_replace True whole_comment [] p s) = map drop_comment (split_lf s)"
  using assms
proof (induction s arbitrary: p rule: length_induct)
  case (1 s)
  let ?xs = "[One False (\<lambda>c. c = hash), Greedy False dot, Eol]"
  have wc: "whole_comment = Bol # ?xs" by (simp add: whole_comment_def)
  obtain l t where s: "s = l @ t" "lf \<notin> set l" "starts_line t" by (rule line_of_text)
  have pt: "plain_text l" "plain_text t" using 1(2) by (simp_all add: s(1))
  have rest: "(case t of [] \<Rightarrow> [] | _ # u \<Rightarrow> split_lf (rx_replace True (Bol # ?xs) [] (Some lf) u))
      = map drop_comment (later_lines t)"
    using 1(1) pt s(1) unfolding wc by (cases t) auto
  show ?case
  proof (cases "\<exists>m. l = hash # m")
    case True
    then obtain m where l: "l = hash # m" by blast
    have d: "list_all dot m" using pt(1) s(2) by (intro dots_of_line) (simp_all add: l)
    have n: "\<not> at_bol True (Some hash)" by (simp add: at_bol_def)
    from greedy_rest [OF d s(3), of "Some hash"] not_bol_last [OF d n] 1(3)
    have "\<exists>q. rx_match True (Bol # ?xs) p s = Some ([], q, t) \<and> \<not> at_bol True q"
      by (simp add: s(1) l kept_def)
    then obtain q where "rx_match True (Bol # ?xs) p s = Some ([], q, t)" "\<not> at_bol True q" by blast
    from replace_some [OF this(1) _ this(2) s(3)]
    have "rx_replace True (Bol # ?xs) [] p s = from_break ?xs [] t" by (simp add: s(1) l)
    with split_break [of "[]" t ?xs "[]"] split_later [OF s(2,3)] rest s(3) show ?thesis
      by (simp add: wc s(1) drop_comment_def l)
  next
    case False
    then have "rx_match True (Bol # ?xs) p (l @ t) = None"
      using s(3) by (cases l; cases t) (auto simp: 1(3))
    from replace_none [OF this s(2,3)] False show ?thesis
      using split_break [OF s(2,3), of ?xs "[]"] split_later [OF s(2,3)] rest
      by (cases l) (simp_all add: wc s(1) drop_comment_def)
  qed
qed

lemma drop_half: "half_stripped l m \<Longrightarrow> drop_comment m = strip_comment l"
  by (cases l) (auto simp: half_stripped_def drop_comment_def strip_comment_def split: if_splits)

text \<open>The last one drops blank lines and no other.\<close>

lemma split_append: "split_lf (u @ lf # v) = split_lf u @ split_lf v"
  by (induction u) auto

lemma split_chars: "x \<in> set (split_lf u) \<Longrightarrow> set x \<subseteq> set u"
proof (induction u arbitrary: x)
  case (Cons c u)
  have "set (hd (split_lf u)) \<subseteq> set u" by (rule Cons.IH) simp
  moreover have "y \<in> set (tl (split_lf u)) \<Longrightarrow> set y \<subseteq> set u" for y
    by (rule Cons.IH) (metis list.set_sel(2) split_lf_not_Nil)
  ultimately show ?case using Cons.prems Cons.IH [of x] by (auto split: if_splits)
qed simp

lemma blank_lines: "\<forall>c \<in> set u. is_space c \<Longrightarrow> filter (\<lambda>l. \<not> blank_line l) (split_lf u) = []"
  using split_chars [of _ u] by (fastforce simp: filter_empty_conv blank_line_def list_all_iff)

lemma empty_lines_lines:
  assumes "at_bol True p"
  shows "filter (\<lambda>l. \<not> blank_line l) (split_lf (rx_replace True empty_lines [] p s)) =
    filter (\<lambda>l. \<not> blank_line l) (split_lf s)"
  using assms
proof (induction s arbitrary: p rule: length_induct)
  case (1 s)
  let ?xs = "[Greedy False is_space, One False (\<lambda>c. c = lf)]"
  have el: "empty_lines = Bol # ?xs" by (simp add: empty_lines_def)
  have IH: "length u < length s \<Longrightarrow> filter (\<lambda>l. \<not> blank_line l) (split_lf (rx_replace True (Bol # ?xs) [] (Some lf) u)) =
    filter (\<lambda>l. \<not> blank_line l) (split_lf u)" for u
    using 1(1) unfolding el by simp
  show ?case
  proof (cases "rx_match True (Bol # ?xs) p s")
    case (Some r)
    with greedy_split [of True is_space "[One False (\<lambda>c. c = lf)]" p s r] 1(2)
    obtain u v q where u: "s = u @ v" "\<forall>c \<in> set u. is_space c"
      "rx_match True [One False (\<lambda>c. c = lf)] q v = Some r" by auto
    then obtain w where v: "v = lf # w" "r = ([], Some lf, w)"
      by (cases v) (auto simp: kept_def split: if_splits)
    have "length w < length s" by (simp add: u(1) v(1))
    with Some have "rx_replace True (Bol # ?xs) [] p s = rx_replace True (Bol # ?xs) [] (Some lf) w"
      by (cases s) (simp_all add: v(2) del: rx_match.simps)
    with IH [of w] blank_lines [OF u(2)] show ?thesis by (simp add: el u(1) v split_append)
  next
    case None
    obtain l t where s: "s = l @ t" "lf \<notin> set l" "starts_line t" by (rule line_of_text)
    from replace_none [of ?xs p l t "[]"] None s
    have "rx_replace True (Bol # ?xs) [] p s = l @ from_break ?xs [] t" by simp
    with split_break [OF s(2,3), of ?xs "[]"] split_later [OF s(2,3)] IH s(1) show ?thesis
      by (cases t) (simp_all add: el)
  qed
qed

section \<open>Properties\<close>

definition windows_text :: "string \<Rightarrow> string" where
  "windows_text s = concat (map (\<lambda>c. if c = lf then [cr, lf] else [c]) s)"

lemma windows_breaks_undone: "cr \<notin> set s \<Longrightarrow> rx_replace ml windows_breaks [lf] p (windows_text s) = s"
  by (induction s arbitrary: p) (auto simp: windows_text_def windows_breaks_def kept_def)

lemma cleaned_lines:
  assumes "plain_text s" and "rx_replace True windows_breaks [lf] None s1 = s"
  shows "filter (\<lambda>l. \<not> blank_line l) (get_lines (clean_arg_text True s1)) =
    filter (\<lambda>l. \<not> blank_line l) (map strip_comment (get_lines s))"
proof -
  let ?s3 = "rx_replace True line_comment [] None s" and ?nb = "filter (\<lambda>l. \<not> blank_line l)"
  let ?s4 = "rx_replace True whole_comment [] None ?s3"
  have p: "plain_text ?s3" "plain_text ?s4" using assms(1) by (simp_all add: plain_text_replace)
  have s2: "rx_replace True escaped_breaks [] None s = s"
    unfolding escaped_breaks_def by (rule replace_absent) (use assms(1) in \<open>auto simp: plain_text_def\<close>)
  have s5: "rx_replace True escaped_hash [hash] None ?s4 = ?s4"
    unfolding escaped_hash_def by (rule replace_absent) (use p(2) in \<open>auto simp: plain_text_def\<close>)
  have "list_all2 half_stripped (split_lf s) (split_lf ?s3)"
    by (rule line_comment_lines) (simp_all add: assms(1) at_bol_def)
  then have "map strip_comment (split_lf s) = map drop_comment (split_lf ?s3)"
    by (induction rule: list_all2_induct) (simp_all add: drop_half)
  moreover have "split_lf ?s4 = map drop_comment (split_lf ?s3)"
    by (rule whole_comment_lines) (simp_all add: p(1) at_bol_def)
  moreover have "?nb (get_lines u) = ?nb (split_lf u)" for u
    using split_get_lines [of u] by auto
  moreover have "?nb (map strip_comment (get_lines s)) = ?nb (map strip_comment (split_lf s))"
    using split_get_lines [of s] by (auto simp: strip_comment_def)
  ultimately show ?thesis
    using empty_lines_lines [of None ?s4] by (simp add: clean_arg_text_def assms(2) s2 s5 Let_def at_bol_def)
qed

lemma windows_breaks_plain: "plain_text s \<Longrightarrow> rx_replace ml windows_breaks [lf] p s = s"
  unfolding windows_breaks_def by (rule replace_absent) (auto simp: plain_text_def)

lemma option_line_plain:
  "plain_text s \<Longrightarrow> option_line True s = find (\<lambda>l. \<not> blank_line l) (map strip_comment (get_lines s))"
  using cleaned_lines [OF _ windows_breaks_plain] by (simp add: option_line_def find_filter)

text \<open>The line of options an argument file gives, where the regular expressions treat each line by
  itself: in a text without backslashes, with line breaks of either kind, it is the first line that
  is not blank once the comment that starts at its first \<open>#\<close> is cut off. The six replacements, of which
  one runs over the end of a line, come to that.\<close>

theorem option_line_first:
  assumes "plain_text s"
  shows "option_line True s = find (\<lambda>l. \<not> blank_line l) (map strip_comment (get_lines s)) \<and>
    option_line True (windows_text s) = option_line True s"
  using option_line_plain [OF assms] cleaned_lines [OF assms windows_breaks_undone] assms
  by (simp add: option_line_def find_filter plain_text_def)

definition sample_arg_text :: string where
  "sample_arg_text = ''# a worker'' @ [lf, lf] @ ''log-file=a.log x=1 # noted'' @ [lf] @ ''y=2''"

theorem option_line_first_witness:
  "option_line True (windows_text sample_arg_text) = Some ''log-file=a.log x=1 ''"
proof -
  have "plain_text sample_arg_text" by code_simp
  from option_line_first [OF this]
  have "option_line True (windows_text sample_arg_text) =
    find (\<lambda>l. \<not> blank_line l) (map strip_comment (get_lines sample_arg_text))" by simp
  also have "\<dots> = Some ''log-file=a.log x=1 ''" by code_simp
  finally show ?thesis .
qed

text \<open>The matches where the anchors hold at the ends of the text only.\<close>

lemma greedy_inside: "lf \<notin> set m \<Longrightarrow> rx_match False [Greedy False dot, Eol] p (m @ lf # t) = None"
  by (induction m arbitrary: p) (simp_all add: at_eol_def)

lemma comment_match_text:
  "lf \<notin> set l \<Longrightarrow> rx_match False (Lazy True dot # comment_body) p (l @ lf # t) = None \<or>
   (\<exists>k q r. rx_match False (Lazy True dot # comment_body) p (l @ lf # t) = Some (l @ lf # k, q, r))"
proof (induction l arbitrary: p)
  case Nil
  then show ?case
    by (cases "rx_match False comment_body p (lf # t)") (auto simp: comment_body_def kept_def split: if_splits)
next
  case (Cons c l)
  have "rx_match False comment_body p (c # l @ lf # t) = None"
    using Cons.prems greedy_inside [of "tl l"] by (cases l) (auto simp: comment_body_def kept_def)
  with Cons.IH [of "Some c"] Cons.prems show ?case by (auto simp: kept_def)
qed

lemma first_break: "rx_match ml [One False (\<lambda>c. c = lf)] q v = Some r \<Longrightarrow> v \<noteq> [] \<and> hd v = lf"
  by (cases v) (auto split: if_splits)

lemma line_comment_text:
  assumes "lf \<notin> set l"
  shows "\<exists>u. rx_replace False line_comment [] None (l @ lf # t) = l @ lf # u"
proof -
  let ?xs = "Lazy True dot # comment_body" and ?s = "l @ lf # t"
  have lc: "line_comment = Bol # ?xs" by (simp add: line_comment_def comment_body_def)
  obtain c v where s: "?s = c # v" by (cases ?s) auto
  have m: "rx_match False (Bol # ?xs) None ?s = rx_match False ?xs None ?s" by (simp add: at_bol_def)
  show ?thesis
  proof (cases "rx_match False (Bol # ?xs) None ?s")
    case None
    then have "rx_replace False (Bol # ?xs) [] None ?s = ?s" unfolding s by (simp add: no_bol del: rx_match.simps)
    then show ?thesis unfolding lc by blast
  next
    case (Some x)
    then obtain k q r where x: "rx_match False (Bol # ?xs) None ?s = Some (l @ lf # k, q, r)"
      using comment_match_text [OF assms, of None t] m by auto
    have "rx_replace False (Bol # ?xs) [] None ?s = l @ lf # k @ rx_replace False (Bol # ?xs) [] q r
        \<or> rx_replace False (Bol # ?xs) [] None ?s = ?s"
      using x unfolding s by (simp add: no_bol del: rx_match.simps)
    then show ?thesis unfolding lc by blast
  qed
qed

text \<open>Where the anchors hold at the ends of the whole text, as in the standard since C++17, comments
  are not comments: whatever the first line of a file with several lines is, as long as it is not
  blank, it is taken for options as it stands, with its \<open>#\<close> and what follows.\<close>

theorem comments_taken_for_options:
  assumes "plain_text (l @ t)" and "lf \<notin> set l" and "\<not> blank_line l"
  shows "option_line False (l @ lf # t) = Some l"
proof -
  let ?s = "l @ lf # t"
  have id: "rx_replace False (One False (\<lambda>c. c = d) # xs) lit None v = v" if "d \<notin> set v" for d xs lit v
    by (rule replace_absent) (use that in auto)
  obtain u where u: "rx_replace False line_comment [] None ?s = l @ lf # u"
    using line_comment_text [OF assms(2)] by blast
  have pu: "plain_text (l @ lf # u)"
    unfolding u [symmetric] by (rule plain_text_replace) (use assms(1) in simp_all)
  obtain c v where s: "l @ lf # u = c # v" by (cases "l @ lf # u") auto
  have "rx_match False whole_comment None (l @ lf # u) = None"
    using assms(2) greedy_inside [of "tl l"] by (cases l) (auto simp: whole_comment_def at_bol_def kept_def)
  then have s4: "rx_replace False whole_comment [] None (l @ lf # u) = l @ lf # u"
    unfolding s by (simp add: whole_comment_def no_bol del: rx_match.simps)
  have "rx_match False empty_lines None (l @ lf # u) = None"
  proof (rule ccontr)
    assume "\<not> ?thesis"
    then obtain r where "rx_match False (Greedy False is_space # [One False (\<lambda>c. c = lf)]) None (l @ lf # u) = Some r"
      by (auto simp: empty_lines_def at_bol_def)
    from greedy_split [OF this] obtain w z where
      w: "l @ lf # u = w @ lf # z" "\<forall>c \<in> set w. is_space c"
      by (metis first_break list.collapse)
    then have "set l \<subseteq> set w" using assms(2) by (auto simp: append_eq_append_conv2 append_eq_Cons_conv Cons_eq_append_conv)
    with w(2) assms(3) show False by (auto simp: blank_line_def list_all_iff)
  qed
  then have s6: "rx_replace False empty_lines [] None (l @ lf # u) = l @ lf # u"
    unfolding s by (simp add: empty_lines_def no_bol del: rx_match.simps)
  have "clean_arg_text False ?s = l @ lf # u"
    using assms(1) pu
    by (simp add: clean_arg_text_def Let_def windows_breaks_def escaped_breaks_def escaped_hash_def id u s4 s6 plain_text_def)
  moreover have "get_lines (l @ lf # u) = l # get_lines u"
    using assms(2) by (induction l) auto
  ultimately show ?thesis using assms(3) by (simp add: option_line_def)
qed

theorem comments_taken_for_options_witness:
  "option_line False (''# a worker'' @ lf # ''x=1'') = Some ''# a worker'' \<and>
   option_line True (''# a worker'' @ lf # ''x=1'') = Some ''x=1''"
proof
  show "option_line False (''# a worker'' @ lf # ''x=1'') = Some ''# a worker''"
    by (rule comments_taken_for_options) code_simp+
  show "option_line True (''# a worker'' @ lf # ''x=1'') = Some ''x=1''" by code_simp
qed

text \<open>What storing promises: an option that has a value keeps it.\<close>

definition first_store_wins :: "'p option_lib \<Rightarrow> bool" where
  "first_store_wins l = (\<forall>p vm vm'. ol_store l p vm = Inr vm' \<longrightarrow> vm \<subseteq>\<^sub>m vm')"

lemma store_line_extends:
  "first_store_wins l \<Longrightarrow> store_line l line vm = Inr vm' \<Longrightarrow> vm \<subseteq>\<^sub>m vm'"
  by (cases "ol_split l line"; cases "store_parsed l False (projr (ol_split l line)) vm")
    (auto simp: store_line_def first_store_wins_def store_parsed_def rbind_Inr_iff)

text \<open>C39: An argument file named on a command line that the option library accepts, for a file that holds no
  backslash and no carriage return, and an option library whose first stored value of an option wins: where the
  anchors of regular expressions match at the ends of lines, as Microsoft's do, the file is its first line that is
  not blank once its comment is cut off, and nothing more; where they match at the ends of the text only, as the
  standard has it, and the file has a first line that is not blank and another after it, that first line is stored
  as it stands, its comment included. Either way an option of the command line keeps its value whatever the
  file says, and a file that cannot be opened ends in an exception that names it.\<close>

theorem arg_file_options:
  assumes "first_store_wins l" and "store_command_line l argv = Inr vm" and "vm ''arg-file'' = Some (OptStr f)"
    and "files f = Some t" and "plain_text t"
  shows "get_map True l files argv =
      (case find (\<lambda>x. \<not> blank_line x) (map strip_comment (get_lines t)) of
         None \<Rightarrow> Inr vm | Some line \<Rightarrow> store_line l line vm) \<and>
    (\<forall>x u. t = x @ lf # u \<and> lf \<notin> set x \<and> \<not> blank_line x \<longrightarrow> get_map False l files argv = store_line l x vm) \<and>
    (\<forall>vm'. get_map ml l files argv = Inr vm' \<longrightarrow> vm \<subseteq>\<^sub>m vm') \<and>
    get_map ml l (files(f := None)) argv =
      Inl (LogicError (''Could not open the response file '' @ [CHR 0x27] @ f @ [CHR 0x27]))"
proof -
  have g: "get_map ml l files argv = (case option_line ml t of None \<Rightarrow> Inr vm | Some line \<Rightarrow> store_line l line vm)"
    for ml using assms(2-4) by (simp add: get_map_def read_arg_file_def)
  moreover have "vm \<subseteq>\<^sub>m vm'" if "get_map ml l files argv = Inr vm'" for vm'
    using that store_line_extends [OF assms(1)] by (auto simp: g split: option.splits)
  moreover have "option_line True t = find (\<lambda>x. \<not> blank_line x) (map strip_comment (get_lines t))"
    using option_line_plain [OF assms(5)] .
  moreover have "option_line False t = Some x" if "t = x @ lf # u" "lf \<notin> set x" "\<not> blank_line x" for x u
    using comments_taken_for_options [of x u] that assms(5) by (auto simp: plain_text_def)
  moreover have "get_map ml l (files(f := None)) argv =
      Inl (LogicError (''Could not open the response file '' @ [CHR 0x27] @ f @ [CHR 0x27]))"
    using assms(2,3) by (simp add: get_map_def read_arg_file_def)
  ultimately show ?thesis by auto
qed

text \<open>A library whose options are words of the form \<open>name=value\<close>.\<close>

fun split_blanks :: "string \<Rightarrow> string list" where
  "split_blanks [] = [[]]"
| "split_blanks (c # s) = (if c = CHR '' '' then [] # split_blanks s
     else case split_blanks s of [] \<Rightarrow> [[c]] | w # ws \<Rightarrow> (c # w) # ws)"

definition sample_option_lib :: "(string \<times> string) list option_lib" where
  "sample_option_lib = \<lparr>
     ol_parse = (\<lambda>pos args. if list_all (\<lambda>a. split_eq a \<noteq> None) args then Inr (map (the \<circ> split_eq) args)
       else Inl (UnknownOption ''unrecognised option'')),
     ol_store = (\<lambda>p vm. Inr (\<lambda>x. case vm x of Some v \<Rightarrow> Some v | None \<Rightarrow> map_option OptStr (map_of p x))),
     ol_split = (\<lambda>s. Inr (filter (\<lambda>w. w \<noteq> []) (split_blanks s))) \<rparr>"

lemma sample_store_wins: "first_store_wins sample_option_lib"
  by (auto simp: first_store_wins_def sample_option_lib_def map_le_def dom_def)

definition sample_command :: variables_map where
  "sample_command = (\<lambda>x. map_option OptStr (map_of [(''arg-file'', ''f''), (''x'', ''7'')] x))"

lemma sample_command_line: "store_command_line sample_option_lib [''arg-file=f'', ''x=7''] = Inr sample_command"
proof -
  have "split_eq ''arg-file=f'' = Some (''arg-file'', ''f'')" "split_eq ''x=7'' = Some (''x'', ''7'')" by code_simp+
  then show ?thesis
    by (simp add: store_command_line_def store_parsed_def sample_option_lib_def sample_command_def del: map_of.simps)
qed

lemma sample_line:
  "store_line sample_option_lib ''log-file=a.log x=1 '' sample_command = Inr (sample_command(''log-file'' \<mapsto> OptStr ''a.log''))"
proof -
  have w: "filter (\<lambda>w. w \<noteq> []) (split_blanks ''log-file=a.log x=1 '') = [''log-file=a.log'', ''x=1'']" by code_simp
  have e: "split_eq ''log-file=a.log'' = Some (''log-file'', ''a.log'')" "split_eq ''x=1'' = Some (''x'', ''1'')"
    by code_simp+
  have "(\<lambda>x. case sample_command x of Some v \<Rightarrow> Some v
      | None \<Rightarrow> map_option OptStr (map_of [(''log-file'', ''a.log''), (''x'', ''1'')] x))
    = sample_command(''log-file'' \<mapsto> OptStr ''a.log'')"
    by (rule ext) (simp add: sample_command_def)
  with w e show ?thesis
    by (simp add: store_line_def store_parsed_def sample_option_lib_def del: split_blanks.simps map_of.simps)
qed

theorem arg_file_options_witness:
  "get_map True sample_option_lib [''f'' \<mapsto> sample_arg_text] [''arg-file=f'', ''x=7''] =
     Inr (sample_command(''log-file'' \<mapsto> OptStr ''a.log'')) \<and>
   get_map True sample_option_lib (Map.empty(''f'' := None)) [''arg-file=f'', ''x=7''] =
     Inl (LogicError (''Could not open the response file '' @ [CHR 0x27] @ ''f'' @ [CHR 0x27]))"
proof -
  have p: "plain_text sample_arg_text" by code_simp
  have l: "find (\<lambda>x. \<not> blank_line x) (map strip_comment (get_lines sample_arg_text)) = Some ''log-file=a.log x=1 ''"
    by code_simp
  have f: "sample_command ''arg-file'' = Some (OptStr ''f'')" by (simp add: sample_command_def)
  from arg_file_options [OF sample_store_wins sample_command_line f _ p, of "[''f'' \<mapsto> sample_arg_text]"]
  show ?thesis by (simp add: l sample_line)
qed

text \<open>Giving the version as a text asks for the help.\<close>

lemma version_text_sets_help:
  "conv s = Some v \<Longrightarrow> set_display_version_text conv s b = Inr (b\<lparr> cb_help := v \<rparr>)"
  "conv s = None \<Longrightarrow> set_display_version_text conv s b = Inl (PointerTo (LogicError ''Invalid display version option''))"
  by (simp_all add: set_display_version_text_def)

end
