(* ===== verification/ConfigV8.thy ===== *)
theory ConfigV8 imports ArgFile begin

text \<open>
  The configuration of the script shell (\<open>easyprospect-config-v8.cpp\<close>, \<open>easyprospect-config-v8.h\<close>): its
  builder, its options, and its configuration object, from the words of the command line.
\<close>

record v8_builder = core_builder +
  xb_sources :: "string list option"

record v8_config = core_config +
  xf_sources :: "string list option"

definition new_v8_builder :: v8_builder where
  "new_v8_builder = core_builder.extend (core_builder.truncate new_service_builder) (v8_builder.fields None)"

definition v8_description :: string where
  "v8_description = ''EasyProspect V8 Shell Configuration.''"

definition set_source_files :: "string list \<Rightarrow> v8_builder \<Rightarrow> v8_builder" where
  "set_source_files ss b = b\<lparr> xb_sources := Some ss \<rparr>"

definition parse_v8_options :: "string \<Rightarrow> variables_map \<Rightarrow> v8_builder \<Rightarrow> v8_builder result" where
  "parse_v8_options desc vm b =
    rbind (on_option vm ''source-files'' (\<lambda>v b. rbind (as_strings v) (\<lambda>ss.
        if ss = [] then Inl (LogicError ''Missing Javascript source file'')
        else Inr (set_source_files ss b))) b)
      (parse_core_options desc vm)"

definition init_v8 ::
  "(string \<Rightarrow> string option) \<Rightarrow> (string \<Rightarrow> conf_file) \<Rightarrow> bool \<Rightarrow> 'p option_lib \<Rightarrow> (string \<rightharpoonup> string) \<Rightarrow> string
    \<Rightarrow> string list \<Rightarrow> v8_builder result" where
  "init_v8 compile file ml l files desc argv = rbind (get_map ml l files argv) (\<lambda>vm.
     rbind (read_config_file compile file vm new_v8_builder) (parse_v8_options desc vm))"

text \<open>The constructor used takes no patterns and no MIME types.\<close>

definition to_config_v8 :: "v8_builder \<Rightarrow> v8_config" where
  "to_config_v8 b = core_config.extend
     ((to_config_core b)\<lparr> cf_regex := [], cf_regex_str := [], cf_mime := [] \<rparr>)
     (v8_config.fields (xb_sources b))"

text \<open>What the script shell's configuration keeps. The debug level and the source files of the command
  line arrive in it; the patterns of the scripts and the MIME types that its configuration file sets
  arrive in the builder and are dropped by the configuration.\<close>

theorem v8_config_drops:
  assumes "get_map ml l files argv = Inr vm" and "init_v8 compile file ml l files desc argv = Inr b"
  shows "\<exists>b0. read_config_file compile file vm new_v8_builder = Inr b0 \<and>
    cb_regex b = cb_regex b0 \<and> cb_mime b = cb_mime b0 \<and>
    cf_regex (to_config_v8 b) = [] \<and> cf_mime (to_config_v8 b) = [] \<and>
    (case vm ''debug-level'' of
       Some v \<Rightarrow> \<exists>s. v = OptStr s \<and> debug_level_from s = Inr (cf_debug (to_config_v8 b))
     | None \<Rightarrow> cf_debug (to_config_v8 b) = cb_debug b0) \<and>
    (case vm ''source-files'' of
       Some v \<Rightarrow> \<exists>ss. v = OptList ss \<and> ss \<noteq> [] \<and> xf_sources (to_config_v8 b) = Some ss
     | None \<Rightarrow> xf_sources (to_config_v8 b) = None)"
proof -
  obtain b0 where b0: "read_config_file compile file vm new_v8_builder = Inr b0" "parse_v8_options desc vm b0 = Inr b"
    using assms unfolding init_v8_def by (auto simp: rbind_Inr_iff)
  then obtain b1 where b1: "on_option vm ''source-files'' (\<lambda>v b. rbind (as_strings v) (\<lambda>ss.
        if ss = [] then Inl (LogicError ''Missing Javascript source file'')
        else Inr (set_source_files ss b))) b0 = Inr b1" "parse_core_options desc vm b1 = Inr b"
    unfolding parse_v8_options_def rbind_Inr_iff by blast
  have k: "cb_regex b = cb_regex b1" "cb_mime b = cb_mime b1" "xb_sources b = xb_sources b1"
    by (rule keepsD [OF keeps_core_rest b1(2)]; simp)+
  have "xb_sources b0 = xb_sources new_v8_builder"
    by (rule keepsD [OF read_file_keeps b0(1)]) simp_all
  then have n: "xb_sources b0 = None" by (simp add: new_v8_builder_def core_builder.defs v8_builder.defs)
  have c: "cf_regex (to_config_v8 b) = []" "cf_mime (to_config_v8 b) = []"
    "cf_debug (to_config_v8 b) = cb_debug b" "xf_sources (to_config_v8 b) = xb_sources b"
    by (simp_all add: to_config_v8_def to_config_core_def core_config.defs v8_config.defs)
  have s: "cb_regex b1 = cb_regex b0 \<and> cb_mime b1 = cb_mime b0 \<and> cb_debug b1 = cb_debug b0 \<and>
    (case vm ''source-files'' of
       Some v \<Rightarrow> \<exists>ss. v = OptList ss \<and> ss \<noteq> [] \<and> xb_sources b1 = Some ss
     | None \<Rightarrow> xb_sources b1 = None)"
  proof (cases "vm ''source-files''")
    case (Some v)
    with b1(1) show ?thesis
      by (cases v) (auto simp: on_option_def set_source_files_def split: if_splits)
  qed (use b1(1) n in \<open>simp add: on_option_def\<close>)
  show ?thesis
    using b0(1) k s core_debug [OF b1(2)] unfolding c
    by (intro exI [of _ b0]) (auto split: option.splits)
qed

definition pattern_file :: conf_file where
  "pattern_file = Json (JObj [(''epjs_url_path_regex'', JArr [JStr ''x''])])"

lemma sample_v8_map:
  "get_map True sample_option_lib Map.empty [''config-file=c''] = Inr [''config-file'' \<mapsto> OptStr ''c'']"
proof -
  have "split_eq ''config-file=c'' = Some (''config-file'', ''c'')" by code_simp
  then show ?thesis
    by (simp add: get_map_def store_command_line_def store_parsed_def sample_option_lib_def fun_eq_iff)
qed

lemma sample_v8_read:
  "read_config_file (\<lambda>_. None) (\<lambda>_. pattern_file) [''config-file'' \<mapsto> OptStr ''c''] new_v8_builder =
   Inr (new_v8_builder\<lparr> cb_cnf_file := Some ''c'', cb_regex := [''x''], cb_regex_str := [''x''] \<rparr>)"
  by (simp add: read_config_file_def read_from_file_def read_debug_level_def pattern_file_def
      read_regexes_def read_mime_types_def json_field_def json_str_def jindex_def on_string_def on_option_def
      set_epjs_url_path_regex_def new_v8_builder_def Let_def)

definition sample_v8_builder :: v8_builder where
  "sample_v8_builder = new_v8_builder\<lparr> cb_cnf_file := Some ''c'', cb_regex := [''x''], cb_regex_str := [''x''] \<rparr>"

lemma sample_v8_parse:
  "parse_v8_options [] [''config-file'' \<mapsto> OptStr ''c''] sample_v8_builder = Inr sample_v8_builder"
  by (simp add: parse_v8_options_def parse_core_options_def parse_flag_options_def parse_file_options_def
      on_string_def on_option_def sample_v8_builder_def new_v8_builder_def core_builder.defs v8_builder.defs
      new_service_builder_def)

lemma sample_v8_init:
  "init_v8 (\<lambda>_. None) (\<lambda>_. pattern_file) True sample_option_lib Map.empty [] [''config-file=c''] = Inr sample_v8_builder"
  using sample_v8_parse by (simp add: init_v8_def sample_v8_map sample_v8_read sample_v8_builder_def)

theorem v8_config_drops_witness:
  "\<exists>b. init_v8 (\<lambda>_. None) (\<lambda>_. pattern_file) True sample_option_lib Map.empty [] [''config-file=c''] = Inr b \<and>
    cb_regex b = [''x''] \<and> cf_regex (to_config_v8 b) = [] \<and> xf_sources (to_config_v8 b) = None"
proof -
  have "cb_regex sample_v8_builder = [''x'']" by (simp add: sample_v8_builder_def)
  with v8_config_drops [OF sample_v8_map sample_v8_init] sample_v8_init show ?thesis by auto
qed

end
