(* ===== verification/Programs.thy ===== *)
theory Programs imports Listener Shutdown begin

text \<open>
  The three programs: \<open>main\<close> of \<open>epsrv.cpp\<close>, \<open>epworker.cpp\<close> and \<open>epworkercntl.cpp\<close>, the
  \<open>make_server\<close> functions they call (\<open>make-server.cpp\<close> of the web worker, \<open>server.cpp\<close>), and
  the printed form of their configurations. A program ends with an exit code, is terminated by an
  exception nothing catches, or serves. The logging library is third-party: what the programs
  write is the list of the lines its level lets through.
\<close>

section \<open>The printed configurations\<close>

definition bool_text :: "bool \<Rightarrow> string" where
  "bool_text b = (if b then ''1'' else ''0'')"

definition path_text :: "string option \<Rightarrow> string" where
  "path_text p = (case p of Some s \<Rightarrow> s | None \<Rightarrow> [])"

definition quoted_list :: "string list \<Rightarrow> string" where
  "quoted_list ss = concat (map (\<lambda>s. [quote] @ s @ [quote] @ '', '') ss)"

definition field_text :: "string \<Rightarrow> string \<Rightarrow> string" where
  "field_text name v = name @ tab @ '': '' @ v @ newline"

definition core_str :: "'a core_config_scheme \<Rightarrow> string" where
  "core_str c = field_text ''display help'' (bool_text (cf_help c)) @
     field_text ''display version'' (bool_text (cf_version c)) @
     field_text ''verbosity'' (verbosity_to_string (cf_verbosity c)) @
     field_text ''debug level'' (debug_level_to_string (cf_debug c)) @
     field_text ''remainder args'' (case cf_remainder c of Some ss \<Rightarrow> quoted_list ss | None \<Rightarrow> []) @
     field_text ''epjs extensions'' (quoted_list (cf_regex_str c)) @
     field_text ''out file'' (path_text (cf_out_file c)) @
     field_text ''log file'' (path_text (cf_log_file c)) @
     field_text ''arg file'' (path_text (cf_arg_file c)) @
     field_text ''cnf file'' (path_text (cf_cnf_file c)) @
     field_text ''pid file'' (path_text (cf_pid_file c))"

definition service_str :: "'a service_config_scheme \<Rightarrow> string" where
  "service_str c = core_str c @ newline @
     field_text ''num threads'' (dec_int (sf_threads c)) @
     field_text ''web root'' (path_text (sf_webroot c)) @
     field_text ''listener'' [] @
     quoted_list (map listener_str (sf_listeners c))"

definition server_str :: "server_config \<Rightarrow> string" where
  "server_str c = core_str c @ newline @
     field_text ''num threads'' (dec_int (sf_threads c)) @
     field_text ''web root'' (path_text (sf_webroot c)) @
     field_text ''listener'' [] @
     quoted_list (map listener_str (sf_listeners c)) @
     newline @ field_text ''backend'' [] @
     quoted_list (map backend_str (vf_backends c))"

definition worker_str :: "worker_config \<Rightarrow> string" where
  "worker_str c = service_str c @ newline @ field_text ''control protocol'' (bool_text (kf_control c))"

definition wcntl_str :: "wcntl_config \<Rightarrow> string" where
  "wcntl_str c = core_str c @ newline @ field_text ''worker exe'' (path_text (nf_exe c))"

section \<open>Logging\<close>

datatype log_level = LvlTrace | LvlDebug | LvlInfo | LvlWarn | LvlErr | LvlCritical | LvlOff

primrec log_rank :: "log_level \<Rightarrow> nat" where
  "log_rank LvlTrace = 0"
| "log_rank LvlDebug = 1"
| "log_rank LvlInfo = 2"
| "log_rank LvlWarn = 3"
| "log_rank LvlErr = 4"
| "log_rank LvlCritical = 5"
| "log_rank LvlOff = 6"

text \<open>The switch of the three programs.\<close>

fun level_of :: "debug_level \<Rightarrow> log_level" where
  "level_of DbgOff = LvlOff"
| "level_of DbgTrace = LvlTrace"
| "level_of DbgDebug = LvlDebug"
| "level_of DbgInfo = LvlInfo"
| "level_of DbgWarn = LvlWarn"
| "level_of DbgFatal = LvlCritical"
| "level_of _ = LvlErr"

type_synonym log_line = "log_level \<times> string"

text \<open>The logger of a program: its sinks, its level and the level from which it flushes.\<close>

record logger =
  lo_file :: "(string \<times> bool) option"
  lo_console :: bool
  lo_level :: log_level
  lo_flush :: log_level

definition written :: "logger \<Rightarrow> log_line list \<Rightarrow> log_line list" where
  "written lo ls = filter (\<lambda>(l, _). log_rank (lo_level lo) \<le> log_rank l) ls"

text \<open>What a program is run in: the files its logger can open, the names of the levels, the texts of
  its executable, its directory and its \<open>main\<close>.\<close>

record surroundings =
  su_opens :: "string \<Rightarrow> bool"
  su_level_name :: "log_level \<Rightarrow> string"
  su_exe :: string
  su_cwd :: string
  su_function :: string

definition make_logger ::
  "surroundings \<Rightarrow> log_level \<Rightarrow> 'a core_config_scheme \<Rightarrow> logger result" where
  "make_logger su flush c =
    (let level = level_of (cf_debug c) in
     case cf_log_file c of
       Some f \<Rightarrow> if su_opens su f
         then Inr \<lparr> lo_file = Some (f, True), lo_console = True, lo_level = level, lo_flush = flush \<rparr>
         else Inl (RuntimeError ''spdlog'')
     | None \<Rightarrow> Inr \<lparr> lo_file = None, lo_console = True, lo_level = level, lo_flush = LvlOff \<rparr>)"

definition place_text :: "surroundings \<Rightarrow> string" where
  "place_text su = newline @ ''exe: '' @ [quote] @ su_exe su @ newline @
     ''cwd: '' @ [quote] @ su_cwd su @ newline"

section \<open>How a program ends\<close>

text \<open>The standard exceptions derived from \<open>std::logic_error\<close>.\<close>

fun is_logic_error :: "cpp_error \<Rightarrow> bool" where
  "is_logic_error (LogicError _) = True"
| "is_logic_error (InvalidArgument _) = True"
| "is_logic_error (OutOfRange _) = True"
| "is_logic_error _ = False"

fun is_system_error :: "cpp_error \<Rightarrow> bool" where
  "is_system_error (SystemError _) = True"
| "is_system_error _ = False"

datatype 'a ending = Exits int | Terminates cpp_error | Serves 'a

record 'a program_result =
  pr_end :: "'a ending"
  pr_out :: string
  pr_log :: "log_line list"

definition help_text :: "string \<Rightarrow> bool \<Rightarrow> string \<Rightarrow> string" where
  "help_text desc help help_str = (if help then desc @ newline @ help_str @ newline else [])"

definition service_description :: string where
  "service_description = ''EasyProspect Service Configuration.''"

definition server_description :: string where
  "server_description = ''EasyProspect Server Configuration.''"

definition worker_description :: string where
  "worker_description = ''EasyProspect Worker Configuration.''"

definition wcntl_description :: string where
  "wcntl_description = ''EasyProspect Service Configuration.''"

section \<open>Making the servers\<close>

text \<open>The loop over the configured listeners: the \<open>n\<close>-th of them is run by \<open>run_l n\<close>. A system
  error or a listener that does not open makes it return without a server; other exceptions pass.\<close>

fun start_listeners ::
  "(nat \<Rightarrow> listener_conf \<Rightarrow> registry \<Rightarrow> (listener option \<times> registry) result) \<Rightarrow> nat
    \<Rightarrow> listener_conf list \<Rightarrow> registry \<Rightarrow> (listener list option \<times> registry) result" where
  "start_listeners run_l n [] reg = Inr (Some [], reg)"
| "start_listeners run_l n (c # cs) reg = (case run_l n c reg of
     Inl e \<Rightarrow> if is_system_error e then Inr (None, reg) else Inl e
   | Inr (None, reg1) \<Rightarrow> Inr (None, reg1)
   | Inr (Some l, reg1) \<Rightarrow> rbind (start_listeners run_l (n + 1) cs reg1) (\<lambda>(ls, reg2).
       Inr (map_option (\<lambda>r. l # r) ls, reg2)))"

text \<open>The operating system's answers for the \<open>n\<close>-th listener.\<close>

record net_world =
  nw_addr_ok :: "string \<Rightarrow> bool"
  nw_busy :: "nat \<Rightarrow> int \<Rightarrow> bool"
  nw_listens :: "nat \<Rightarrow> bool"

definition world_run :: "net_world \<Rightarrow> nat \<Rightarrow> listener_conf \<Rightarrow> registry \<Rightarrow> (listener option \<times> registry) result" where
  "world_run w n = run_listener (nw_addr_ok w) (nw_busy w n) (nw_listens w n)"

text \<open>Services are inserted before the server runs.\<close>

fun insert_all :: "(nat \<Rightarrow> 's \<Rightarrow> 's result) \<Rightarrow> nat list \<Rightarrow> 's \<Rightarrow> 's result" where
  "insert_all ins [] s = Inr s"
| "insert_all ins (n # ns) s = rbind (ins n s) (insert_all ins ns)"

definition worker_make_server ::
  "net_world \<Rightarrow> lounge \<Rightarrow> worker_config \<Rightarrow> registry
    \<Rightarrow> ((worker_app \<times> listener list) option \<times> registry) result" where
  "worker_make_server w lg0 c reg = (case new_app (kf_control c) lg0 of
     Inl e \<Rightarrow> if is_system_error e then Inr (None, reg) else Inl e
   | Inr s \<Rightarrow> rbind (app_insert 0 s) (\<lambda>s1.
       rbind (start_listeners (world_run w) 0 (sf_listeners c) reg) (\<lambda>(ls, reg1).
         case ls of
           None \<Rightarrow> Inr (None, reg1)
         | Some l \<Rightarrow> rbind (insert_all app_insert [1..<length l + 1] s1) (\<lambda>s2.
             Inr (Some (s2, l), reg1)))))"

definition server_make_server ::
  "net_world \<Rightarrow> server_config \<Rightarrow> registry \<Rightarrow> ((server_core \<times> listener list) option \<times> registry) result" where
  "server_make_server w c reg =
    rbind (start_listeners (world_run w) 0 (sf_listeners c) reg) (\<lambda>(ls, reg1).
      case ls of
        None \<Rightarrow> Inr (None, reg1)
      | Some l \<Rightarrow> rbind (insert_all srv_insert [1..<length l + 1] new_server) (\<lambda>s2.
          Inr (Some (s2, l), reg1)))"

text \<open>The threads \<open>run\<close> starts: it compares an unsigned size with the configured int.\<close>

definition thread_target :: "'a service_config_scheme \<Rightarrow> nat" where
  "thread_target c = unat (word_of_int (sf_threads c) :: 64 word)"

text \<open>How \<open>run\<close> gets to its wait, in the worker and in the proxy. \<open>rw_connected\<close> is what the control
  client's \<open>is_running\<close> answers, \<open>rw_threads\<close> how many threads the system makes before it refuses one, which
  \<open>std::thread\<close> reports as a system error (11, no resources). After the pool come one thread for the worker's
  network, two for the proxy's.\<close>

record run_world =
  rw_connected :: bool
  rw_env :: msg_env
  rw_threads :: nat

definition worker_run ::
  "run_world \<Rightarrow> 'a service_config_scheme \<Rightarrow> registry \<Rightarrow> worker_app \<Rightarrow> worker_app result" where
  "worker_run rw c reg s =
    rbind (app_run_start (rw_connected rw) (rw_env rw) (map word_of_int (reg_port reg)) s) (\<lambda>s1.
      if thread_target c + 1 \<le> rw_threads rw then Inr s1 else Inl (SystemError 11))"

definition server_run :: "run_world \<Rightarrow> 'a service_config_scheme \<Rightarrow> server_core \<Rightarrow> server_core result" where
  "server_run rw c s = rbind (srv_run_start s) (\<lambda>s1.
      if thread_target c + 2 \<le> rw_threads rw then Inr s1 else Inl (SystemError 11))"

section \<open>The programs\<close>

text \<open>What the start of a program reads: the parsed command line, or the exception its parsing ends
  in, the texts of the options, and what the configuration theory takes as arguments.\<close>

record start_input =
  si_cmdline :: "variables_map result"
  si_desc :: string
  si_compile :: "string \<Rightarrow> string option"
  si_files :: "string \<Rightarrow> conf_file"
  si_tok :: "string \<Rightarrow> string list result"
  si_garbage :: bool
  si_garbage_int :: int

definition died :: "cpp_error \<Rightarrow> string \<Rightarrow> log_line list \<Rightarrow> 'a program_result" where
  "died e out logs = \<lparr> pr_end = Terminates e, pr_out = out, pr_log = logs \<rparr>"

definition failed_args :: "cpp_error \<Rightarrow> 'a program_result" where
  "failed_args e = (if is_logic_error e then \<lparr> pr_end = Exits 1, pr_out = [], pr_log = [] \<rparr>
     else died e [] [])"

definition main_server ::
  "surroundings \<Rightarrow> start_input \<Rightarrow> net_world \<Rightarrow> run_world \<Rightarrow> (server_core \<times> listener list \<times> registry) program_result" where
  "main_server su si w rw =
    (case rbind (si_cmdline si) (init_server (si_compile si) (si_files si) (si_tok si) (si_desc si)) of
       Inl e \<Rightarrow> failed_args e
     | Inr b \<Rightarrow>
        (let c = to_server_config b;
             out = help_text service_description (cf_help c) (cb_help_str b)
         in case make_logger su LvlTrace c of
           Inl e \<Rightarrow> died e out []
         | Inr lo \<Rightarrow>
            (let logs = written lo [(LvlDebug, ''starting epsrv''), (LvlDebug, su_function su),
                   (LvlDebug, server_str c), (LvlDebug, place_text su)]
             in case server_make_server w c new_registry of
               Inl e \<Rightarrow> died e out logs
             | Inr (None, reg) \<Rightarrow> \<lparr> pr_end = Exits 1, pr_out = out, pr_log = logs \<rparr>
             | Inr (Some (s, ls), reg) \<Rightarrow> (case server_run rw c s of
                 Inl e \<Rightarrow> died e out logs
               | Inr s1 \<Rightarrow> \<lparr> pr_end = Serves (s1, ls, reg), pr_out = out, pr_log = logs \<rparr>))))"

definition main_worker ::
  "surroundings \<Rightarrow> start_input \<Rightarrow> net_world \<Rightarrow> run_world \<Rightarrow> lounge
    \<Rightarrow> (worker_app \<times> listener list \<times> registry) program_result" where
  "main_worker su si w rw lg0 =
    (case rbind (si_cmdline si)
        (init_worker (si_compile si) (si_files si) (si_tok si) (si_desc si) (si_garbage si)) of
       Inl e \<Rightarrow> failed_args e
     | Inr b \<Rightarrow>
        (let c = to_worker_config b;
             out = help_text service_description (cf_help c) (cb_help_str b)
         in case make_logger su LvlOff c of
           Inl e \<Rightarrow> died e out []
         | Inr lo \<Rightarrow>
            (let logs = written lo [(LvlDebug, ''starting epworker''),
                   (LvlInfo, ''Logging set to '' @ su_level_name su (lo_level lo)),
                   (LvlDebug, worker_str c), (LvlDebug, place_text su)]
             in case worker_make_server w lg0 c new_registry of
               Inl e \<Rightarrow> died e out logs
             | Inr (None, reg) \<Rightarrow> \<lparr> pr_end = Exits 1, pr_out = out,
                 pr_log = logs @ written lo [(LvlErr, ''Worker Server failed.'')] \<rparr>
             | Inr (Some (s, ls), reg) \<Rightarrow> (case worker_run rw c reg s of
                 Inl e \<Rightarrow> died e out logs
               | Inr s1 \<Rightarrow> \<lparr> pr_end = Serves (s1, ls, reg), pr_out = out, pr_log = logs \<rparr>))))"

text \<open>The controller's server is the supervising loop on the worker it starts.\<close>

definition wcntl_command_of :: "wcntl_config \<Rightarrow> wcntl_command" where
  "wcntl_command_of c = \<lparr> wm_exe = nf_exe c, wm_args = nf_args c, wm_conf = nf_conf c,
     wm_args_file = nf_args_file c \<rparr>"

definition main_wcntl ::
  "surroundings \<Rightarrow> start_input \<Rightarrow> pipe_server \<Rightarrow> ((string \<times> string \<times> string) \<times> controller) program_result" where
  "main_wcntl su si pipes =
    (case rbind (si_cmdline si)
        (init_wcntl (si_compile si) (si_files si) (si_tok si) (si_desc si) (si_garbage si) (si_garbage_int si)) of
       Inl e \<Rightarrow> failed_args e
     | Inr b \<Rightarrow>
        (let c = to_wcntl_config b;
             out = help_text wcntl_description (cf_help c) (cb_help_str b)
         in case make_logger su LvlOff c of
           Inl e \<Rightarrow> died e out []
         | Inr lo \<Rightarrow>
            (let logs = written lo [(LvlDebug, ''starting epworkercntl''),
                   (LvlInfo, ''Logging set to '' @ su_level_name su (lo_level lo)),
                   (LvlDebug, wcntl_str c), (LvlDebug, place_text su)]
             in case worker_command_line (wcntl_command_of c) of
               Inl e \<Rightarrow> died e out logs
             | Inr cmd \<Rightarrow> \<lparr> pr_end = Serves (cmd, controller_start new_registry pipes),
                 pr_out = out, pr_log = logs \<rparr>)))"

section \<open>Facts\<close>

lemma insert_all_app:
  assumes "\<not> sv_running s"
  shows "insert_all app_insert ns s = Inr (s\<lparr> sv_services := sv_services s @ ns \<rparr>)"
  using assms by (induction ns arbitrary: s) (simp_all add: app_insert_def)

lemma insert_all_srv:
  assumes "\<not> sv_running s"
  shows "insert_all srv_insert ns s = Inr (s\<lparr> sv_services := sv_services s @ ns \<rparr>)"
  using assms by (induction ns arbitrary: s) (simp_all add: srv_insert_def)

lemma new_app_idle: "new_app control lg0 = Inr s \<Longrightarrow> \<not> sv_running s \<and> sv_services s = [] \<and> wa_control s = control"
  by (auto simp: new_app_def rbind_Inr_iff)

lemma new_app_total: "\<exists>s. new_app control lg0 = Inr s \<and> wa_messages s = []"
  by (simp add: new_app_def init_channel_list_def make_room_def make_system_channel_def make_reserved_def
      new_channel_reserved_def list_insert_def next_uid_def resize_def Let_def numeral_3_eq_3)

lemma world_run_fixed:
  assumes "stream_int (lc_port c) = Some p"
  shows "\<exists>l. world_run w n c reg =
    (if \<not> nw_addr_ok w (lc_address c) then Inl (SystemError 22)
     else Inr (if nw_listens w n then Some l else None,
       if nw_busy w n (endpoint_port p) then reg else set_ports [p] reg))"
  using assms
  by (simp add: world_run_def run_listener_def open_listener_def open_port_def new_listener_def Let_def)

text \<open>Listeners with a port of their own: which of them start, and the ports that were free.\<close>

definition fixed_port :: "listener_conf \<Rightarrow> bool" where
  "fixed_port c = (stream_int (lc_port c) \<noteq> None)"

definition starts :: "net_world \<Rightarrow> nat \<Rightarrow> listener_conf \<Rightarrow> bool" where
  "starts w n c = (nw_addr_ok w (lc_address c) \<and> nw_listens w n)"

fun all_start :: "net_world \<Rightarrow> nat \<Rightarrow> listener_conf list \<Rightarrow> bool" where
  "all_start w n [] = True"
| "all_start w n (c # cs) = (starts w n c \<and> all_start w (n + 1) cs)"

fun free_ports :: "net_world \<Rightarrow> nat \<Rightarrow> listener_conf list \<Rightarrow> int list" where
  "free_ports w n [] = []"
| "free_ports w n (c # cs) = (case stream_int (lc_port c) of
     Some p \<Rightarrow> if nw_busy w n (endpoint_port p) then [] else [p] | None \<Rightarrow> []) @ free_ports w (n + 1) cs"

definition latest :: "int list \<Rightarrow> int list \<Rightarrow> int list" where
  "latest old ps = (if ps = [] then old else [ps ! (length ps - 1)])"

lemma latest_Cons: "latest old (p # ps) = latest [p] ps"
  by (cases ps rule: rev_cases) (simp_all add: latest_def)

lemma start_fixed:
  assumes "list_all fixed_port cs"
  shows "(all_start w n cs \<longrightarrow> (\<exists>ls reg'. start_listeners (world_run w) n cs reg = Inr (Some ls, reg') \<and>
      length ls = length cs \<and> reg_port reg' = latest (reg_port reg) (free_ports w n cs))) \<and>
    (\<not> all_start w n cs \<longrightarrow> (\<exists>reg'. start_listeners (world_run w) n cs reg = Inr (None, reg')))"
  using assms
proof (induction cs arbitrary: n reg)
  case Nil
  then show ?case by (simp add: latest_def)
next
  case (Cons c cs)
  then obtain p where p: "stream_int (lc_port c) = Some p" by (auto simp: fixed_port_def)
  define reg1 where "reg1 = (if nw_busy w n (endpoint_port p) then reg else set_ports [p] reg)"
  obtain l where l: "world_run w n c reg = (if \<not> nw_addr_ok w (lc_address c) then Inl (SystemError 22)
     else Inr (if nw_listens w n then Some l else None, reg1))"
    using world_run_fixed [OF p] unfolding reg1_def by blast
  have ports: "latest (reg_port reg1) (free_ports w (n + 1) cs) = latest (reg_port reg) (free_ports w n (c # cs))"
    by (simp add: reg1_def p set_ports_def latest_Cons)
  show ?case
  proof (cases "starts w n c")
    case True
    with Cons.IH [of "n + 1" reg1] Cons.prems l ports show ?thesis by (auto simp: starts_def)
  next
    case False
    with l show ?thesis by (auto simp: starts_def)
  qed
qed

lemma worker_config_fields:
  "cf_help (to_worker_config b) = cb_help b" "cf_log_file (to_worker_config b) = cb_log_file b"
  "cf_debug (to_worker_config b) = cb_debug b" "kf_control (to_worker_config b) = kb_control b"
  "sf_listeners (to_worker_config b) = sb_listeners b" "sf_threads (to_worker_config b) = sb_threads b"
  by (simp_all add: to_worker_config_def to_service_config_def to_config_core_def core_config.defs
      service_config.defs worker_config.defs)

lemma wcntl_config_fields:
  "cf_log_file (to_wcntl_config b) = cb_log_file b" "nf_exe (to_wcntl_config b) = nb_exe b"
  by (simp_all add: to_wcntl_config_def to_config_core_def core_config.defs service_config.defs
      wcntl_config.defs)

lemma make_logger_opens:
  assumes "\<And>f. cf_log_file c = Some f \<Longrightarrow> su_opens su f"
  shows "\<exists>lo. make_logger su flush c = Inr lo \<and> lo_level lo = level_of (cf_debug c)"
  using assms by (simp add: make_logger_def Let_def split: option.split)

definition worker_init :: "start_input \<Rightarrow> worker_builder result" where
  "worker_init si = rbind (si_cmdline si)
     (init_worker (si_compile si) (si_files si) (si_tok si) (si_desc si) (si_garbage si))"

lemma worker_make_server_fixed:
  assumes "list_all fixed_port (sf_listeners c)"
  shows "(all_start w 0 (sf_listeners c) \<longrightarrow> (\<exists>s ls reg'.
      worker_make_server w lg0 c reg = Inr (Some (s, ls), reg') \<and>
      length ls = length (sf_listeners c) \<and> sv_services s = [0..<length ls + 1] \<and> \<not> sv_running s \<and>
      wa_control s = kf_control c \<and> wa_messages s = [] \<and>
      reg_port reg' = latest (reg_port reg) (free_ports w 0 (sf_listeners c)))) \<and>
    (\<not> all_start w 0 (sf_listeners c) \<longrightarrow> (\<exists>reg'. worker_make_server w lg0 c reg = Inr (None, reg')))"
proof -
  obtain s where s: "new_app (kf_control c) lg0 = Inr s" "wa_messages s = []"
    using new_app_total by blast
  have i: "\<not> sv_running s" "sv_services s = []" "wa_control s = kf_control c"
    using new_app_idle [OF s(1)] by simp_all
  have a: "app_insert 0 s = Inr (s\<lparr> sv_services := [0] \<rparr>)" using i by (simp add: app_insert_def)
  have u: "0 # [Suc 0..<Suc n] = [0..<Suc n]" for n by (simp add: upt_conv_Cons del: upt_Suc)
  show ?thesis
    using start_fixed [OF assms, of w 0 reg] i s
    by (auto simp: worker_make_server_def a insert_all_app u simp del: upt_Suc)
qed

text \<open>What \<open>run\<close> does with a worker that is not running.\<close>

lemma worker_run_cases:
  assumes "\<not> sv_running s"
  shows "worker_run rw c reg s =
    (if wa_control s \<and> \<not> rw_connected rw then Inl (LogicError ''Control thread not running.'')
     else if rw_threads rw < thread_target c + 1 then Inl (SystemError 11)
     else Inr (s\<lparr> sv_running := True, sv_log := sv_log s @ map OnStart (sv_services s), sv_signals := True,
       wa_messages := wa_messages s @ (if wa_control s
         then [new_startup (rw_env rw) (case reg_port reg of [] \<Rightarrow> 0 | p # _ \<Rightarrow> word_of_int p)] else []) \<rparr>))"
  using assms by (auto simp: worker_run_def app_run_start_def Let_def split: list.split)

text \<open>C16: How a worker starts, to the wait in its \<open>run\<close>. When its command line and files give a configuration,
  its log file can be opened and every listener has a port of its own: \<open>main\<close> returns 1 exactly when
  some listener has no valid address or does not listen. Otherwise, an exception that nothing
  catches ends it exactly when a control client is configured whose thread has not opened the pipe (or has
  ended) at the moment \<open>run\<close> reports the port, or else when the system makes fewer threads
  than it asks for. Otherwise it serves: the blackjack service and every listener were started, the registered
  port is that of the last listener whose port was free and no other, and with a control client one START message
  was sent, with that port, or 0 when no port was free.\<close>

theorem worker_start_outcome:
  assumes "worker_init si = Inr b" and "\<And>f. cb_log_file b = Some f \<Longrightarrow> su_opens su f"
    and "list_all fixed_port (sb_listeners b)"
  shows "let ports = latest [] (free_ports w 0 (sb_listeners b));
      unheard = (kb_control b \<and> \<not> rw_connected rw);
      starved = (rw_threads rw < thread_target (to_worker_config b) + 1)
    in case pr_end (main_worker su si w rw lg0) of
      Exits k \<Rightarrow> k = 1 \<and> \<not> all_start w 0 (sb_listeners b)
    | Terminates e \<Rightarrow> all_start w 0 (sb_listeners b) \<and>
        (if unheard then e = LogicError ''Control thread not running.'' else starved \<and> e = SystemError 11)
    | Serves (s, ls, reg) \<Rightarrow> all_start w 0 (sb_listeners b) \<and> \<not> unheard \<and> \<not> starved \<and>
        length ls = length (sb_listeners b) \<and> sv_running s \<and>
        sv_services s = [0..<length ls + 1] \<and> reg_port reg = ports \<and>
        wa_messages s = (if kb_control b
          then [new_startup (rw_env rw) (case ports of [] \<Rightarrow> 0 | p # _ \<Rightarrow> word_of_int p)] else [])"
proof -
  obtain lo where lo: "make_logger su LvlOff (to_worker_config b) = Inr lo"
    using make_logger_opens [of "to_worker_config b" su LvlOff] assms(2) by (auto simp: worker_config_fields)
  have m: "list_all fixed_port (sf_listeners (to_worker_config b))"
    using assms(3) by (simp add: worker_config_fields)
  show ?thesis
  proof (cases "all_start w 0 (sb_listeners b)")
    case False
    then obtain reg' where "worker_make_server w lg0 (to_worker_config b) new_registry = Inr (None, reg')"
      using worker_make_server_fixed [OF m, of w lg0 new_registry] by (auto simp: worker_config_fields)
    with False assms(1) lo show ?thesis
      by (simp add: main_worker_def worker_init_def worker_config_fields Let_def)
  next
    case True
    then obtain s ls reg' where s: "worker_make_server w lg0 (to_worker_config b) new_registry = Inr (Some (s, ls), reg')"
      "length ls = length (sb_listeners b)" "sv_services s = [0..<length ls + 1]" "\<not> sv_running s"
      "wa_control s = kb_control b" "wa_messages s = []"
      "reg_port reg' = latest [] (free_ports w 0 (sb_listeners b))"
      using worker_make_server_fixed [OF m, of w lg0 new_registry]
      by (auto simp: worker_config_fields new_registry_def)
    have "pr_end (main_worker su si w rw lg0) =
        (case worker_run rw (to_worker_config b) reg' s of Inl e \<Rightarrow> Terminates e | Inr s1 \<Rightarrow> Serves (s1, ls, reg'))"
      using assms(1) lo s(1)
      by (simp add: main_worker_def worker_init_def Let_def died_def split: sum.split)
    then show ?thesis using True s by (simp add: worker_run_cases [OF s(4)] Let_def)
  qed
qed

text \<open>A worker given one listener and no other option, by its stored command line.\<close>

definition sample_input :: "string list \<Rightarrow> start_input" where
  "sample_input ls = \<lparr> si_cmdline = Inr [''listener'' \<mapsto> OptList ls], si_desc = [],
     si_compile = (\<lambda>_. None), si_files = (\<lambda>_. NoFile), si_tok = (\<lambda>s. Inr (split_commas s)),
     si_garbage = False, si_garbage_int = 7 \<rparr>"

definition sample_world :: net_world where
  "sample_world = \<lparr> nw_addr_ok = (\<lambda>_. True), nw_busy = (\<lambda>n p. n = 1), nw_listens = (\<lambda>_. True) \<rparr>"

definition sample_place :: surroundings where
  "sample_place = \<lparr> su_opens = (\<lambda>_. True), su_level_name = (\<lambda>_. ''error''), su_exe = ''epworker'',
     su_cwd = ''c'', su_function = ''main'' \<rparr>"

definition fixed_listener :: "string \<Rightarrow> listener_conf" where
  "fixed_listener p = blank_listener\<lparr> lc_name := ''n'', lc_address := ''a'', lc_port := p \<rparr>"

definition sample_builder :: "listener_conf list \<Rightarrow> worker_builder" where
  "sample_builder ls = (new_worker_builder False)\<lparr> sb_listeners := ls \<rparr>"

lemma sample_builder_fields:
  "cb_log_file (sample_builder ls) = None" "kb_control (sample_builder ls) = False"
  "sb_listeners (sample_builder ls) = ls" "cb_debug (sample_builder ls) = DbgNone"
  "cb_help (sample_builder ls) = False"
  by (simp_all add: sample_builder_def new_worker_builder_def new_service_builder_def
      service_builder.defs worker_builder.defs)

lemmas option_defs = on_string_def on_option_def parse_worker_options_def parse_service_options_def
  parse_core_options_def parse_flag_options_def parse_file_options_def read_config_file_def

lemma sample_input_init:
  assumes "parse_listeners (\<lambda>s. Inr (split_commas s)) ss = Inr ls" and "ss \<noteq> []"
  shows "worker_init (sample_input ss) = Inr (sample_builder ls)"
  using assms
  by (simp add: worker_init_def sample_input_def init_worker_def option_defs sample_builder_def
      new_worker_builder_def new_service_builder_def service_builder.defs worker_builder.defs)

definition two_ports :: "string list" where
  "two_ports = [''name=n,address=a,port=9'', ''name=n,address=a,port=8'']"

lemmas parse_sample_defs = parse_listener_def listener_field_def split_eq_def fixed_listener_def
  blank_listener_def

lemma sample_init:
  "worker_init (sample_input two_ports) = Inr (sample_builder [fixed_listener ''9'', fixed_listener ''8''])"
  by (rule sample_input_init) (simp_all add: two_ports_def parse_sample_defs)

lemma sample_ports:
  "stream_int ''9'' = Some 9" "stream_int ''8'' = Some 8" "lc_port (fixed_listener p) = p"
  by (simp_all add: stream_int_def scan_int_def is_space_def is_digit_def parse_digits_def digit_val_def
      int32_range_def fixed_listener_def blank_listener_def Let_def)

lemma sample_fixed:
  "list_all fixed_port [fixed_listener ''9'', fixed_listener ''8'']"
  "all_start sample_world 0 [fixed_listener ''9'', fixed_listener ''8'']"
  "free_ports sample_world 0 [fixed_listener ''9'', fixed_listener ''8''] = [9]"
  by (simp_all add: fixed_port_def starts_def sample_ports sample_world_def)

definition sample_run_world :: run_world where
  "sample_run_world = \<lparr> rw_connected = True, rw_env = sample_env, rw_threads = 100 \<rparr>"

lemma sample_threads: "thread_target (to_worker_config (sample_builder ls)) = 1"
  by (simp add: thread_target_def worker_config_fields sample_builder_def new_worker_builder_def
      new_service_builder_def service_builder.defs worker_builder.defs)

theorem worker_start_outcome_witness:
  "\<exists>s ls reg. pr_end (main_worker sample_place
      (sample_input two_ports) sample_world sample_run_world empty_lounge)
    = Serves (s, ls, reg) \<and> length ls = 2 \<and> sv_services s = [0, 1, 2] \<and> reg_port reg = [9]"
  using worker_start_outcome [OF sample_init, of sample_place sample_world sample_run_world empty_lounge]
    sample_fixed sample_threads
  by (auto simp: sample_builder_fields latest_def upt_rec sample_run_world_def Let_def
      simp del: free_ports.simps all_start.simps split: ending.splits)

text \<open>A range of ports does not save a worker from a busy port: when the first port of the range of
  its first listener is busy the exception of the exhausted range is caught nowhere, and the process is
  terminated instead of returning an error, whatever ports of the range are free.\<close>

theorem busy_range_terminates:
  assumes "worker_init si = Inr b" and "\<And>f. cb_log_file b = Some f \<Longrightarrow> su_opens su f"
    and "sb_listeners b = c # cs"
    and "stream_int (lc_port c) = None" and "stoi (lc_min_port c) = Inr mn" and "stoi (lc_max_port c) = Inr mx"
    and "1 \<le> mn" and "mn \<le> mx" and "mx < 65535" and "nw_addr_ok w (lc_address c)" and "nw_busy w 0 mn"
  shows "\<exists>e. pr_end (main_worker su si w rw lg0) = Terminates (LogicError e)"
proof -
  obtain lo where lo: "make_logger su LvlOff (to_worker_config b) = Inr lo"
    using make_logger_opens [of "to_worker_config b" su LvlOff] assms(2) by (auto simp: worker_config_fields)
  obtain s where s: "new_app (kb_control b) lg0 = Inr s" "\<not> sv_running s"
    using new_app_total [of "kb_control b" lg0] new_app_idle by blast
  have e: "endpoint_port mn = mn" using assms(7-9) by (simp add: endpoint_port_def)
  obtain x where "world_run w 0 c new_registry = Inl (LogicError x)"
    using assms(4-11)
    by (simp add: world_run_def run_listener_def open_listener_def open_range_def open_between_def
        new_listener_def try_ports_closed e)
  then show ?thesis using assms(1,3) lo s
    by (auto simp: main_worker_def worker_init_def worker_config_fields Let_def worker_make_server_def
        app_insert_def died_def)
qed

lemma range_init:
  "worker_init (sample_input [''name=n,address=a,min-port=9000,max-port=9009'']) =
    Inr (sample_builder [range_conf\<lparr> lc_name := ''n'', lc_address := ''a'' \<rparr>])"
  by (rule sample_input_init) (simp_all add: parse_sample_defs range_conf_def)

theorem busy_range_terminates_witness:
  "\<exists>e. pr_end (main_worker sample_place (sample_input [''name=n,address=a,min-port=9000,max-port=9009''])
    (sample_world\<lparr> nw_busy := (\<lambda>n p. p = 9000) \<rparr>) sample_run_world empty_lounge) = Terminates (LogicError e)"
  by (rule busy_range_terminates [OF range_init, where mn = 9000 and mx = 9009
      and c = "range_conf\<lparr> lc_name := ''n'', lc_address := ''a'' \<rparr>" and cs = "[]"])
    (use range_conf_facts in \<open>simp_all add: sample_builder_fields sample_world_def\<close>)

text \<open>Nothing but errors is written by a worker without a debug level, and giving it the level
  \<open>ep_all\<close> changes nothing: the switch has no case for it.\<close>

theorem all_level_logs_errors_only:
  assumes "worker_init si = Inr b" and "cb_debug b = DbgNone \<or> cb_debug b = DbgAll \<or> cb_debug b = DbgError"
    and "(l, t) \<in> set (pr_log (main_worker su si w rw lg0))"
  shows "l = LvlErr \<and> t = ''Worker Server failed.''"
proof -
  have lev: "lo_level lo = LvlErr" if "make_logger su LvlOff (to_worker_config b) = Inr lo" for lo
    using that assms(2)
    by (auto simp: make_logger_def Let_def worker_config_fields split: option.splits if_splits)
  show ?thesis
    using assms(1,3) lev
    by (auto simp: main_worker_def worker_init_def written_def died_def Let_def
        split: sum.splits option.splits prod.splits)
qed

lemma sample_failure:
  "pr_log (main_worker sample_place (sample_input two_ports) (sample_world\<lparr> nw_listens := (\<lambda>_. False) \<rparr>)
      sample_run_world empty_lounge) = [(LvlErr, ''Worker Server failed.'')]"
proof -
  let ?w = "sample_world\<lparr> nw_listens := (\<lambda>_. False) \<rparr>"
  let ?c = "to_worker_config (sample_builder [fixed_listener ''9'', fixed_listener ''8''])"
  have "\<exists>reg'. worker_make_server ?w empty_lounge ?c new_registry = Inr (None, reg')"
    using worker_make_server_fixed [of ?c ?w empty_lounge new_registry] sample_fixed(1)
    by (simp add: worker_config_fields sample_builder_fields starts_def)
  then show ?thesis using sample_init
    by (auto simp: main_worker_def worker_init_def worker_config_fields sample_builder_fields
        make_logger_def written_def Let_def)
qed

theorem all_level_logs_errors_only_witness:
  "fst (hd (pr_log (main_worker sample_place (sample_input two_ports)
      (sample_world\<lparr> nw_listens := (\<lambda>_. False) \<rparr>) sample_run_world empty_lounge))) = LvlErr"
  using all_level_logs_errors_only [OF sample_init, of LvlErr "''Worker Server failed.''" sample_place
      "sample_world\<lparr> nw_listens := (\<lambda>_. False) \<rparr>" sample_run_world empty_lounge] sample_failure
  by (simp add: sample_builder_fields)

text \<open>Asking for help does not stop a worker: the text is printed, with the description of the
  service and not of the worker, and the program goes on to serve.\<close>

theorem help_goes_on:
  assumes "worker_init si = Inr b" and "\<And>f. cb_log_file b = Some f \<Longrightarrow> su_opens su f"
    and "kb_control b \<longrightarrow> rw_connected rw" and "list_all fixed_port (sb_listeners b)"
    and "all_start w 0 (sb_listeners b)" and "cb_help b"
    and "thread_target (to_worker_config b) + 1 \<le> rw_threads rw"
  shows "pr_out (main_worker su si w rw lg0) =
      service_description @ newline @ cb_help_str b @ newline \<and>
    (\<exists>x. pr_end (main_worker su si w rw lg0) = Serves x)"
proof -
  obtain lo where lo: "make_logger su LvlOff (to_worker_config b) = Inr lo"
    using make_logger_opens [of "to_worker_config b" su LvlOff] assms(2) by (auto simp: worker_config_fields)
  have m: "list_all fixed_port (sf_listeners (to_worker_config b))"
    using assms(4) by (simp add: worker_config_fields)
  obtain s ls reg' where s: "worker_make_server w lg0 (to_worker_config b) new_registry = Inr (Some (s, ls), reg')"
    "\<not> sv_running s" "wa_control s = kb_control b"
    using worker_make_server_fixed [OF m, of w lg0 new_registry] assms(5) by (auto simp: worker_config_fields)
  show ?thesis
    using assms(1,3,6,7) lo s(1,3) worker_run_cases [OF s(2), of rw "to_worker_config b" reg']
    by (auto simp add: main_worker_def worker_init_def worker_config_fields Let_def help_text_def)
qed

definition help_input :: start_input where
  "help_input = (sample_input [])\<lparr> si_cmdline := Inr [''help'' \<mapsto> OptBool True], si_desc := ''options'' \<rparr>"

lemma help_init:
  "worker_init help_input = Inr ((sample_builder [])\<lparr> cb_help := True, cb_help_str := ''options'' \<rparr>)"
  by (simp add: worker_init_def help_input_def sample_input_def init_worker_def option_defs
      sample_builder_def new_worker_builder_def new_service_builder_def service_builder.defs
      worker_builder.defs)

theorem help_goes_on_witness:
  "\<exists>x. pr_end (main_worker sample_place help_input sample_world sample_run_world empty_lounge) = Serves x"
proof -
  have "thread_target (to_worker_config ((sample_builder [])\<lparr> cb_help := True, cb_help_str := ''options'' \<rparr>)) = 1"
    using sample_threads [of "[]"] by (simp add: thread_target_def worker_config_fields)
  then show ?thesis
    using help_goes_on [OF help_init, of sample_place sample_run_world sample_world empty_lounge]
    by (simp add: sample_builder_fields sample_run_world_def)
qed

text \<open>The number of threads of a program is compared as an unsigned number: a negative one, which
  the option accepts, asks for more than \<open>2 ^ 63\<close> threads, and 0 for none.\<close>

theorem thread_target_value:
  assumes "int32_range (sf_threads c)"
  shows "int (thread_target c) = (if 0 \<le> sf_threads c then sf_threads c else 2 ^ 64 + sf_threads c)"
proof -
  have "sf_threads c mod 2 ^ 64 = (2 ^ 64 + sf_threads c) mod 2 ^ 64" by simp
  with assms show ?thesis
    by (auto simp: thread_target_def int32_range_def uint_word_of_int mod_pos_pos_trivial
        simp del: mod_add_self1)
qed

theorem thread_target_value_witness:
  "int (thread_target (to_worker_config ((sample_builder [])\<lparr> sb_threads := - 1 \<rparr>))) = 2 ^ 64 - 1"
  using thread_target_value [of "to_worker_config ((sample_builder [])\<lparr> sb_threads := - 1 \<rparr>)"]
  by (simp add: worker_config_fields int32_range_def)

definition wcntl_init :: "start_input \<Rightarrow> wcntl_builder result" where
  "wcntl_init si = rbind (si_cmdline si)
     (init_wcntl (si_compile si) (si_files si) (si_tok si) (si_desc si) (si_garbage si) (si_garbage_int si))"

text \<open>The controller needs the option \<open>worker-exe\<close>: its main function reaches the supervising loop
  exactly when a worker program is configured; without it the exception of the missing command is
  caught nowhere.\<close>

theorem wcntl_needs_exe:
  assumes "wcntl_init si = Inr b" and "\<And>f. cb_log_file b = Some f \<Longrightarrow> su_opens su f"
  shows "pr_end (main_wcntl su si pipes) = (case nb_exe b of
      None \<Rightarrow> Terminates (LogicError ''Missing worker command.'')
    | Some x \<Rightarrow> let args = worker_command_args (wcntl_command_of (to_wcntl_config b)) in
        Serves ((x, x @ '' '' @ args, args), controller_start new_registry pipes))"
proof -
  obtain lo where lo: "make_logger su LvlOff (to_wcntl_config b) = Inr lo"
    using make_logger_opens [of "to_wcntl_config b" su LvlOff] assms(2) by (auto simp: wcntl_config_fields)
  then show ?thesis using assms(1)
    by (auto simp: main_wcntl_def wcntl_init_def wcntl_config_fields Let_def worker_command_line_def
        wcntl_command_of_def died_def split: option.splits)
qed

theorem wcntl_needs_exe_witness:
  "pr_end (main_wcntl sample_place ((sample_input [])\<lparr> si_cmdline := Inr Map.empty, si_garbage := True \<rparr>)
      new_pipe_server)
    = Terminates (LogicError ''Missing worker command.'')"
proof -
  have "wcntl_init ((sample_input [])\<lparr> si_cmdline := Inr Map.empty, si_garbage := True \<rparr>)
    = Inr (new_wcntl_builder True 7)"
    using init_wcntl_empty by (simp add: wcntl_init_def sample_input_def)
  from wcntl_needs_exe [OF this, of sample_place new_pipe_server] show ?thesis
    by (simp add: new_wcntl_builder_def new_service_builder_def service_builder.defs wcntl_builder.defs)
qed

text \<open>A bad command line ends every program with 1.\<close>

lemma bad_command_line:
  assumes "si_cmdline si = Inl e"
  shows "pr_end (main_server su si w rw) = (if is_logic_error e then Exits 1 else Terminates e)"
    and "pr_end (main_worker su si w rw lg0) = (if is_logic_error e then Exits 1 else Terminates e)"
    and "pr_end (main_wcntl su si pipes) = (if is_logic_error e then Exits 1 else Terminates e)"
  using assms by (simp_all add: main_server_def main_worker_def main_wcntl_def failed_args_def died_def)

end
