(* ===== verification/SessionLife.thy ===== *)
theory SessionLife imports Listener HttpSession begin

text \<open>
  The life of a connection around its requests (\<open>session.hpp\<close>, \<open>session.cpp\<close>, \<open>http_session.cpp\<close>):
  what an HTTP session over a plain or a TLS stream takes from its server, its TLS handshake and
  shutdown, its upgrade to a WebSocket session and who owns that, and what becomes of the sessions
  of a listener that stops.
\<close>

section \<open>What a session takes from its server\<close>

datatype stream_kind = PlainStream | TlsStream

type_synonym script_hook = "string \<Rightarrow> string \<Rightarrow> string \<Rightarrow> string result"

text \<open>The hooks of the server: the web root, the patterns of the scripts, the dispatcher of calls, the
  interpreter and, in the proxy only, the function that forwards to a worker.\<close>

record ('rx, 'd) server_hooks =
  sh_doc_root :: "string option"
  sh_exts :: "'rx list"
  sh_dispatch :: "'d option"
  sh_epjs :: "script_hook option"
  sh_forwards :: bool

record ('rx, 'd) http_setup =
  hs_kind :: stream_kind
  hs_doc_root :: "string option"
  hs_exts :: "'rx list"
  hs_dispatch :: "'d option"
  hs_epjs :: "script_hook option"
  hs_forwards :: bool

definition blank_http :: "stream_kind \<Rightarrow> ('rx, 'd) http_setup" where
  "blank_http k = \<lparr> hs_kind = k, hs_doc_root = None, hs_exts = [], hs_dispatch = None, hs_epjs = None,
     hs_forwards = False \<rparr>"

definition plain_http_session :: "('rx, 'd) server_hooks \<Rightarrow> ('rx, 'd) http_setup" where
  "plain_http_session h = (blank_http PlainStream)\<lparr> hs_doc_root := sh_doc_root h, hs_exts := sh_exts h,
     hs_dispatch := sh_dispatch h, hs_epjs := sh_epjs h, hs_forwards := sh_forwards h \<rparr>"

definition ssl_http_session :: "('rx, 'd) server_hooks \<Rightarrow> ('rx, 'd) http_setup" where
  "ssl_http_session h = (blank_http TlsStream)\<lparr> hs_doc_root := sh_doc_root h \<rparr>"

definition run_session :: "stream_kind \<Rightarrow> ('rx, 'd) server_hooks \<Rightarrow> ('rx, 'd) http_setup" where
  "run_session k h = (case k of PlainStream \<Rightarrow> plain_http_session h | TlsStream \<Rightarrow> ssl_http_session h)"

text \<open>What the two programs set: the worker a dispatcher and an interpreter, the proxy the function that
  forwards, and neither of the others.\<close>

definition worker_server_hooks ::
  "string option \<Rightarrow> 'rx list \<Rightarrow> 'd \<Rightarrow> script_hook \<Rightarrow> ('rx, 'd) server_hooks" where
  "worker_server_hooks root exts d f = \<lparr> sh_doc_root = root, sh_exts = exts, sh_dispatch = Some d,
     sh_epjs = Some f, sh_forwards = False \<rparr>"

definition proxy_server_hooks :: "string option \<Rightarrow> 'rx list \<Rightarrow> ('rx, 'd) server_hooks" where
  "proxy_server_hooks root exts = \<lparr> sh_doc_root = root, sh_exts = exts, sh_dispatch = None,
     sh_epjs = None, sh_forwards = True \<rparr>"

text \<open>The branch of the coroutine: forward to a worker, or answer here.\<close>

datatype served = Forwarded | Answered "http_response result"

definition serve :: "'rx fs_lib \<Rightarrow> ('rx, 'd) http_setup \<Rightarrow> http_request \<Rightarrow> served" where
  "serve l s req = (if hs_forwards s then Forwarded
     else Answered (handle_request l (hs_doc_root s) (hs_exts s) (hs_epjs s) req))"

section \<open>Handshake, shutdown and failures\<close>

datatype error_kind = Aborted | Truncated | OtherError

datatype conn_phase = NotRun | Handshaking | InHttp | Closing | Ended

text \<open>A connection: its buffered bytes, the timeout of its current operation, whether each direction is
  open, and what \<open>fail\<close> reported.\<close>

record http_conn =
  hc_kind :: stream_kind
  hc_phase :: conn_phase
  hc_storage :: "byte list"
  hc_timeout :: "nat option"
  hc_open :: bool
  hc_send_open :: bool
  hc_reports :: "string list"

definition new_conn :: "stream_kind \<Rightarrow> byte list \<Rightarrow> http_conn" where
  "new_conn k bs = \<lparr> hc_kind = k, hc_phase = NotRun, hc_storage = bs, hc_timeout = None, hc_open = True,
     hc_send_open = True, hc_reports = [] \<rparr>"

definition not_implemented :: cpp_error where
  "not_implemented = LogicError ''The method or operation is not implemented.''"

definition fail_conn :: "error_kind \<Rightarrow> string \<Rightarrow> http_conn \<Rightarrow> http_conn" where
  "fail_conn e what c =
    (if hc_kind c = TlsStream \<and> e = Truncated then c\<lparr> hc_phase := Ended \<rparr>
     else c\<lparr> hc_phase := Ended, hc_reports := hc_reports c @ [what] \<rparr>)"

definition enter_http :: "http_conn \<Rightarrow> http_conn" where
  "enter_http c = c\<lparr> hc_phase := InHttp, hc_timeout := Some 30 \<rparr>"

definition run_conn :: "http_conn \<Rightarrow> http_conn" where
  "run_conn c = (case hc_kind c of
     PlainStream \<Rightarrow> enter_http c
   | TlsStream \<Rightarrow> c\<lparr> hc_phase := Handshaking, hc_timeout := Some 30 \<rparr>)"

definition on_handshake :: "error_kind option \<Rightarrow> nat \<Rightarrow> http_conn \<Rightarrow> http_conn" where
  "on_handshake ec n c =
    (let c1 = c\<lparr> hc_storage := drop n (hc_storage c) \<rparr> in
     case ec of Some e \<Rightarrow> fail_conn e ''async_handshake'' c1 | None \<Rightarrow> enter_http c1)"

definition close_conn :: "http_conn \<Rightarrow> http_conn" where
  "close_conn c = (case hc_kind c of
     PlainStream \<Rightarrow> c\<lparr> hc_phase := Ended, hc_send_open := False \<rparr>
   | TlsStream \<Rightarrow> c\<lparr> hc_phase := Closing, hc_timeout := Some 30 \<rparr>)"

definition on_shutdown :: "error_kind option \<Rightarrow> http_conn \<Rightarrow> http_conn" where
  "on_shutdown ec c = (case ec of
     Some e \<Rightarrow> fail_conn e ''async_shutdown'' c
   | None \<Rightarrow> c\<lparr> hc_phase := Ended, hc_send_open := False \<rparr>)"

text \<open>\<open>on_stop\<close> of a plain session posts \<open>do_stop\<close>, which closes the socket; that of a TLS session
  throws. \<open>send\<close> throws in both.\<close>

definition do_stop_conn :: "http_conn \<Rightarrow> http_conn" where
  "do_stop_conn c = c\<lparr> hc_open := False, hc_send_open := False \<rparr>"

definition on_stop_conn :: "http_conn \<Rightarrow> http_conn result" where
  "on_stop_conn c = (case hc_kind c of
     PlainStream \<Rightarrow> Inr (do_stop_conn c)
   | TlsStream \<Rightarrow> Inl not_implemented)"

definition send_conn :: "'m \<Rightarrow> http_conn \<Rightarrow> http_conn result" where
  "send_conn m c = Inl not_implemented"

section \<open>The upgrade to a WebSocket session\<close>

record 'd ws_conn =
  wsn_kind :: stream_kind
  wsn_doc_root :: "string option"
  wsn_dispatch :: "'d option"
  wsn_epjs :: "script_hook option"
  wsn_wrapper :: bool
  wsn_accepting :: bool
  wsn_read_max :: nat

text \<open>The connection a \<open>ws_session_t\<close> is made of, then the calls that go through the wrapper: each does
  nothing when the connection is a TLS one.\<close>

definition new_ws_conn :: "stream_kind \<Rightarrow> string option \<Rightarrow> 'd ws_conn" where
  "new_ws_conn k root = \<lparr> wsn_kind = k, wsn_doc_root = root, wsn_dispatch = None, wsn_epjs = None,
     wsn_wrapper = False, wsn_accepting = False, wsn_read_max = 16 * 1024 * 1024 \<rparr>"

definition through_plain :: "('d ws_conn \<Rightarrow> 'd ws_conn) \<Rightarrow> 'd ws_conn \<Rightarrow> 'd ws_conn" where
  "through_plain f c = (if wsn_kind c = PlainStream then f c else c)"

definition ws_set_dispatch :: "'d option \<Rightarrow> 'd ws_conn \<Rightarrow> 'd ws_conn" where
  "ws_set_dispatch d = through_plain (\<lambda>c. c\<lparr> wsn_dispatch := d \<rparr>)"

definition ws_set_epjs :: "script_hook option \<Rightarrow> 'd ws_conn \<Rightarrow> 'd ws_conn" where
  "ws_set_epjs f = through_plain (\<lambda>c. c\<lparr> wsn_epjs := f \<rparr>)"

definition ws_set_wrapper :: "'d ws_conn \<Rightarrow> 'd ws_conn" where
  "ws_set_wrapper = through_plain (\<lambda>c. c\<lparr> wsn_wrapper := True \<rparr>)"

definition ws_run :: "'d ws_conn \<Rightarrow> 'd ws_conn" where
  "ws_run = through_plain (\<lambda>c. c\<lparr> wsn_read_max := 64 * 1024, wsn_accepting := True \<rparr>)"

definition run_ws_session :: "stream_kind \<Rightarrow> ('rx, 'd) http_setup \<Rightarrow> 'd ws_conn" where
  "run_ws_session k s = ws_run (ws_set_wrapper (ws_set_epjs (hs_epjs s)
     (ws_set_dispatch (hs_dispatch s) (new_ws_conn k (hs_doc_root s)))))"

text \<open>The overload for a TLS stream has an empty body: the stream it is given dies with its parameter.\<close>

definition upgrade :: "('rx, 'd) http_setup \<Rightarrow> 'd ws_conn option" where
  "upgrade s = (case hs_kind s of
     PlainStream \<Rightarrow> Some (run_ws_session PlainStream s)
   | TlsStream \<Rightarrow> None)"

definition run_ws_session_tls :: "('rx, 'd) server_hooks \<Rightarrow> 'd ws_conn" where
  "run_ws_session_tls h = ws_run (ws_set_wrapper (ws_set_epjs (sh_epjs h)
     (ws_set_dispatch (sh_dispatch h) (new_ws_conn TlsStream (sh_doc_root h)))))"

section \<open>Who owns a WebSocket session\<close>

text \<open>Shared pointers from an owner to an object: the caller's local variable, a pending operation, or a
  member of another object. An object without an owner is destroyed, and its members with it.\<close>

datatype ws_obj = SessionWrapper | SessionConn

datatype ws_owner = OnStack | InFlight | MemberOf ws_obj

type_synonym ownership = "(ws_owner \<times> ws_obj) list"

definition unowned :: "ownership \<Rightarrow> ws_obj list \<Rightarrow> ws_obj list" where
  "unowned es objs = filter (\<lambda>x. x \<notin> set (map snd es)) objs"

fun settle :: "nat \<Rightarrow> ownership \<Rightarrow> ws_obj list \<Rightarrow> ws_obj list" where
  "settle 0 es objs = objs"
| "settle (Suc n) es objs = (let dead = unowned es objs in
     settle n (filter (\<lambda>(a, x). a \<notin> set (map MemberOf dead)) es) (filter (\<lambda>x. x \<notin> set dead) objs))"

definition drop_owner :: "ws_owner \<Rightarrow> ownership \<Rightarrow> ownership" where
  "drop_owner o' es = filter (\<lambda>(a, x). a \<noteq> o') es"

definition owners :: "'d ws_conn \<Rightarrow> ownership" where
  "owners c = [(OnStack, SessionWrapper), (MemberOf SessionWrapper, SessionConn)]
     @ (if wsn_wrapper c then [(MemberOf SessionConn, SessionWrapper)] else [])
     @ (if wsn_accepting c then [(InFlight, SessionConn)] else [])"

text \<open>What is left when the function that made the session has returned and no operation on its
  connection is pending any more.\<close>

definition leftover :: "nat \<Rightarrow> 'd ws_conn \<Rightarrow> ws_obj list" where
  "leftover n c = settle n (drop_owner InFlight (drop_owner OnStack (owners c))) [SessionWrapper, SessionConn]"

section \<open>Stopping a listener\<close>

datatype session_class = DetectorSession | PlainHttpSession | TlsHttpSession

text \<open>The loop of \<open>do_stop\<close> over the sessions that still have an owner, in the order of their addresses:
  those whose stop was posted, and the exception that left the loop.\<close>

fun stop_sessions :: "(nat \<Rightarrow> session_class) \<Rightarrow> nat list \<Rightarrow> nat list \<times> cpp_error option" where
  "stop_sessions cls [] = ([], None)"
| "stop_sessions cls (s # ss) = (case cls s of
     TlsHttpSession \<Rightarrow> ([], Some not_implemented)
   | _ \<Rightarrow> (let (done, e) = stop_sessions cls ss in (s # done, e)))"

definition stop_listener ::
  "(nat \<Rightarrow> bool) \<Rightarrow> (nat \<Rightarrow> session_class) \<Rightarrow> listener \<Rightarrow> (nat list \<times> cpp_error option) \<times> listener" where
  "stop_listener alive cls l =
    (let (told, l1) = listener_do_stop alive l in (stop_sessions cls (sorted_list_of_set told), l1))"

section \<open>Facts\<close>

lemma stop_sessions_eq:
  "stop_sessions cls ss = (takeWhile (\<lambda>s. cls s \<noteq> TlsHttpSession) ss,
     if \<exists>s \<in> set ss. cls s = TlsHttpSession then Some not_implemented else None)"
  by (induction ss) (auto split: session_class.split)

lemma settle_stable: "unowned es objs = [] \<Longrightarrow> settle n es objs = objs"
  by (induction n) (simp_all add: case_prod_beta')

section \<open>Properties\<close>

text \<open>One TLS session breaks the stop of a listener: its \<open>on_stop\<close> throws, so when a session the
  listener has to stop is a TLS one, an exception leaves the handler, and the sessions behind the first
  such one are not told to stop although the listener has forgotten them all; without TLS
  sessions every live session is told.\<close>

theorem tls_session_breaks_stop:
  assumes "finite (li_sessions l)"
  shows "stop_listener alive cls l =
    ((takeWhile (\<lambda>s. cls s \<noteq> TlsHttpSession) (sorted_list_of_set {s \<in> li_sessions l. alive s}),
      if \<exists>s. s \<in> li_sessions l \<and> alive s \<and> cls s = TlsHttpSession then Some not_implemented else None),
     l\<lparr> li_open := False, li_listening := False, li_sessions := {} \<rparr>)"
proof -
  have "set (sorted_list_of_set {s \<in> li_sessions l. alive s}) = {s \<in> li_sessions l. alive s}"
    using assms by simp
  then show ?thesis by (auto simp: stop_listener_def listener_do_stop_def stop_sessions_eq Let_def)
qed

definition busy_listener :: listener where
  "busy_listener = (new_listener blank_listener new_registry)\<lparr> li_open := True, li_sessions := {1, 2, 3} \<rparr>"

theorem tls_session_breaks_stop_witness:
  "fst (stop_listener (\<lambda>_. True) (\<lambda>s. if s = 2 then TlsHttpSession else PlainHttpSession) busy_listener)
    = ([1], Some not_implemented)"
proof -
  have e: "{s. s = Suc 0 \<or> s = 2 \<or> s = 3} = {Suc 0, 2, 3}" by auto
  have m: "li_sessions busy_listener = {Suc 0, 2, 3}" by (simp add: busy_listener_def)
  show ?thesis
    using tls_session_breaks_stop [of busy_listener "\<lambda>_. True" "\<lambda>s. if s = 2 then TlsHttpSession else PlainHttpSession"]
    by (auto simp: m e)
qed

text \<open>C30: What a client gets over TLS is not what it gets over a plain connection. Take a GET of a path that is a
  script by the configured patterns. Over a plain connection the proxy forwards it to a worker, and the worker
  answers with the output of the script, or with the exception its run ends in. Over TLS neither forwards and
  neither runs it: both answer from the web root with the file itself, the source of the script, with "not found" or
  with the error of its opening. For every other request as well, a TLS session of either answers as a
  server without patterns and without an interpreter.\<close>

theorem tls_sends_script_source:
  assumes "rq_method req = VerbGet" and "target_ok (rq_target req)"
    and "path = request_path l root (rq_target req)" and "list_ex (\<lambda>r. fs_regex_match l r path) exts"
    and "h = worker_server_hooks (Some root) exts d f \<or> h = proxy_server_hooks (Some root) exts"
  shows "serve l (run_session PlainStream (proxy_server_hooks (Some root) exts)) req = Forwarded \<and>
    serve l (run_session PlainStream (worker_server_hooks (Some root) exts d f)) req = Answered (
      case f path root (rq_target req) of
        Inl e \<Rightarrow> Inl e
      | Inr out \<Rightarrow> Inr \<lparr> rs_status = 200, rs_version = rq_version req, rs_content_type = None,
          rs_keep_alive = rq_keep_alive req, rs_length = Some (length out), rs_body = StringBody out \<rparr>) \<and>
    serve l (run_session TlsStream h) req = Answered (Inr (
      case fs_open l path of
        FileMissing \<Rightarrow> not_found req (rq_target req)
      | FileError e \<Rightarrow> server_error req e
      | FileOpened n \<Rightarrow> \<lparr> rs_status = 200, rs_version = rq_version req,
          rs_content_type = Some (mime_type path), rs_keep_alive = rq_keep_alive req,
          rs_length = Some n, rs_body = FileBody path \<rparr>)) \<and>
    (\<forall>req'. serve l (run_session TlsStream h) req' = Answered (handle_request l (Some root) [] None req'))"
  using assms
  by (auto simp: serve_def run_session_def plain_http_session_def ssl_http_session_def blank_http_def
      worker_server_hooks_def proxy_server_hooks_def handle_request_def Let_def
      split: sum.split file_opened.split)

definition script_fs :: "string fs_lib" where
  "script_fs = sample_fs\<lparr> fs_open := (\<lambda>p. FileOpened 10) \<rparr>"

definition script_request :: http_request where
  "script_request = sample_get\<lparr> rq_target := ''/a.epjs'' \<rparr>"

lemma script_path: "request_path script_fs ''/www'' ''/a.epjs'' = ''/www/a.epjs''"
  by (simp add: request_path_def script_fs_def sample_fs_def Let_def)

theorem tls_sends_script_source_witness:
  "\<exists>r1 r2. serve script_fs (run_session PlainStream (worker_server_hooks (Some ''/www'') [''.epjs''] ()
      (\<lambda>p r t. Inr ''42''))) script_request = Answered (Inr r1) \<and> rs_body r1 = StringBody ''42'' \<and>
    serve script_fs (run_session TlsStream (worker_server_hooks (Some ''/www'') [''.epjs''] ()
      (\<lambda>p r t. Inr ''42''))) script_request = Answered (Inr r2) \<and> rs_body r2 = FileBody ''/www/a.epjs''"
proof -
  have q: "rq_method script_request = VerbGet" "rq_target script_request = ''/a.epjs''"
    by (simp_all add: script_request_def sample_get_def)
  have x: "target_ok (rq_target script_request)"
    "list_ex (\<lambda>r. fs_regex_match script_fs r ''/www/a.epjs'') [''.epjs'']"
    by (simp_all add: q script_fs_def sample_fs_def target_ok_def extension_of_def)
  have "fs_open script_fs ''/www/a.epjs'' = FileOpened 10" by (simp add: script_fs_def)
  then show ?thesis
    using tls_sends_script_source [OF q(1) x(1) _ x(2), of "''/www''"
        "worker_server_hooks (Some ''/www'') [''.epjs''] () (\<lambda>p r t. Inr ''42'')" "()" "\<lambda>p r t. Inr ''42''"]
    by (auto simp: q(2) script_path)
qed

text \<open>A WebSocket session is never freed: the session object and its connection hold shared pointers
  to each other, and nothing resets either, so both are left when the upgrade has returned and the
  connection has no operation pending, however long one waits. The pointer back, set by the upgrade, is
  what does it.\<close>

theorem websocket_session_leaks:
  "leftover n (run_ws_session PlainStream s) = [SessionWrapper, SessionConn] \<and>
   leftover (n + 2) ((run_ws_session PlainStream s)\<lparr> wsn_wrapper := False \<rparr>) = []"
proof -
  have c: "wsn_wrapper (run_ws_session PlainStream s)" "wsn_accepting (run_ws_session PlainStream s)"
    by (simp_all add: run_ws_session_def ws_run_def ws_set_wrapper_def ws_set_epjs_def ws_set_dispatch_def
        through_plain_def new_ws_conn_def)
  have e: "settle n [] [] = []" for n by (simp add: settle_stable unowned_def)
  show ?thesis
    by (simp add: leftover_def owners_def drop_owner_def c settle_stable unowned_def e)
qed

text \<open>Only a plain connection can be upgraded: the upgraded session accepts the handshake, with the
  server's dispatcher and interpreter and messages of up to 64 KiB; over TLS the stream is
  dropped, and a session made for one would neither accept nor know the dispatcher.\<close>

theorem upgrade_plain_only:
  "(\<exists>c. upgrade (run_session PlainStream h) = Some c \<and> wsn_accepting c \<and> wsn_dispatch c = sh_dispatch h \<and>
      wsn_epjs c = sh_epjs h \<and> wsn_doc_root c = sh_doc_root h \<and> wsn_read_max c = 65536) \<and>
   upgrade (run_session TlsStream h) = (None :: 'd ws_conn option) \<and>
   \<not> wsn_accepting (run_ws_session_tls h) \<and> wsn_dispatch (run_ws_session_tls h) = None"
  for h :: "('rx, 'd) server_hooks"
  by (simp add: upgrade_def run_session_def plain_http_session_def ssl_http_session_def blank_http_def
      run_ws_session_def run_ws_session_tls_def ws_run_def ws_set_wrapper_def ws_set_epjs_def
      ws_set_dispatch_def through_plain_def new_ws_conn_def)

text \<open>A TLS connection that completes its handshake has what the handshake left of the buffered bytes,
  then serves HTTP as a plain one; a peer that closes without the closing handshake is not reported.\<close>

lemma tls_handshake:
  "on_handshake None n (run_conn (new_conn TlsStream bs)) =
     (run_conn (new_conn PlainStream (drop n bs)))\<lparr> hc_kind := TlsStream \<rparr>"
  "hc_reports (on_shutdown (Some Truncated) (close_conn (new_conn TlsStream bs))) = []"
  "hc_reports (on_shutdown (Some OtherError) (close_conn (new_conn TlsStream bs))) = [''async_shutdown'']"
  by (simp_all add: on_handshake_def run_conn_def new_conn_def enter_http_def on_shutdown_def close_conn_def
      fail_conn_def Let_def)

end
