(* ===== verification/ScriptPages.thy ===== *)
theory ScriptPages imports JsHost SessionLife begin

text \<open>
  The pages a worker makes by running scripts: the hook its constructor sets
  (\<open>worker-server-app.cpp\<close>, \<open>set_epjs_process_req_impl\<close>) over the contexts of the JavaScript host, and the
  worker's connections one after the other as its network thread serves them. An exception that
  leaves a handler leaves \<open>io_context::run\<close> and the thread, which ends the program.
\<close>

section \<open>The hook\<close>

text \<open>The files (whether a path exists, which may throw, and a file's text), the engine, and a context as
  it is when it is new.\<close>

record ('c, 'f) page_world =
  pw_exists :: "string \<Rightarrow> bool result"
  pw_read :: "string \<Rightarrow> string option"
  pw_engine :: "('c, 'f) js_engine"
  pw_context :: 'c

definition script_text :: "('c, 'f) page_world \<Rightarrow> string \<Rightarrow> string" where
  "script_text w path = (case pw_read w path of None \<Rightarrow> [] | Some t \<Rightarrow> t)"

definition script_page ::
  "('c, 'f) page_world \<Rightarrow> string \<Rightarrow> string \<Rightarrow> string \<Rightarrow> 'c js_host
    \<Rightarrow> (string list \<times> string result) \<times> 'c js_host" where
  "script_page w path root target h = (case pw_exists w path of
     Inl e \<Rightarrow> (([], Inl e), h)
   | Inr found \<Rightarrow>
      (let log = (if found then [] else [''resolved_path '' @ [CHR 0x27] @ path @ [CHR 0x27] @ '' does not exist'']);
           ((code, i), h1) = create_context (pw_context w) h
       in if code \<noteq> 0 then ((log, Inl (LogicError ''Context error'')), h1)
       else (let ((report, res), h2) = run_javascript (pw_engine w) i (script_text w path) h1
         in case res of
              Inl e \<Rightarrow> ((log @ report, Inl e), h2)
            | Inr r \<Rightarrow> ((log @ report, Inr (to_string_js r)), snd (remove_context i h2)))))"

definition page_hook :: "('c, 'f) page_world \<Rightarrow> 'c js_host \<Rightarrow> script_hook" where
  "page_hook w h path root target = snd (fst (script_page w path root target h))"

section \<open>The worker's connections\<close>

definition worker_hooks ::
  "('c, 'f) page_world \<Rightarrow> string \<Rightarrow> 'rx list \<Rightarrow> 'c js_host \<Rightarrow> ('rx, unit) server_hooks" where
  "worker_hooks w root exts h = \<lparr> sh_doc_root = Some root, sh_exts = exts, sh_dispatch = Some (),
     sh_epjs = Some (page_hook w h), sh_forwards = False \<rparr>"

text \<open>The path of the script a request runs, if it runs one.\<close>

definition script_run :: "'rx fs_lib \<Rightarrow> string \<Rightarrow> 'rx list \<Rightarrow> read_outcome \<Rightarrow> (string \<times> string) option" where
  "script_run l root exts out = (case out of
     ReadRequest False req \<Rightarrow>
       (let path = request_path l root (rq_target req) in
        if (rq_method req = VerbGet \<or> rq_method req = VerbHead) \<and> target_ok (rq_target req) \<and>
           list_ex (\<lambda>r. fs_regex_match l r path) exts
        then Some (path, rq_target req) else None)
   | _ \<Rightarrow> None)"

definition page_handler ::
  "'rx fs_lib \<Rightarrow> ('c, 'f) page_world \<Rightarrow> string \<Rightarrow> 'rx list \<Rightarrow> 'c js_host \<Rightarrow> http_request \<Rightarrow> http_response result" where
  "page_handler l w root exts h req = (case serve l (run_session PlainStream (worker_hooks w root exts h)) req of
     Answered r \<Rightarrow> r
   | Forwarded \<Rightarrow> Inl UndefinedBehaviour)"

text \<open>The worker: its host, what it logged, the sessions it has had, and the exception that ended it.\<close>

record 'c page_worker =
  pg_host :: "'c js_host"
  pg_log :: "string list"
  pg_sessions :: "worker_session list"
  pg_ended :: "cpp_error option"

definition new_page_worker :: "'c page_worker" where
  "new_page_worker = \<lparr> pg_host = new_host, pg_log = [], pg_sessions = [], pg_ended = None \<rparr>"

definition first_read ::
  "'rx fs_lib \<Rightarrow> ('c, 'f) page_world \<Rightarrow> string \<Rightarrow> 'rx list \<Rightarrow> 'c js_host \<Rightarrow> read_outcome \<Rightarrow> worker_session result" where
  "first_read l w root exts h out =
     worker_resume (page_handler l w root exts h) (RequestRead out) worker_start"

text \<open>What a worker that has run no script gives a connection.\<close>

definition lone_read ::
  "'rx fs_lib \<Rightarrow> ('c, 'f) page_world \<Rightarrow> string \<Rightarrow> 'rx list \<Rightarrow> read_outcome \<Rightarrow> worker_session result" where
  "lone_read l w root exts out = first_read l w root exts new_host out"

definition page_connection ::
  "'rx fs_lib \<Rightarrow> ('c, 'f) page_world \<Rightarrow> string \<Rightarrow> 'rx list \<Rightarrow> read_outcome \<Rightarrow> 'c page_worker \<Rightarrow> 'c page_worker" where
  "page_connection l w root exts out s = (case pg_ended s of
     Some e \<Rightarrow> s
   | None \<Rightarrow>
      (let (log, h) = (case script_run l root exts out of
              None \<Rightarrow> ([], pg_host s)
            | Some (path, target) \<Rightarrow>
                (let ((log, res), h) = script_page w path root target (pg_host s) in (log, h)));
           s1 = s\<lparr> pg_host := h, pg_log := pg_log s @ log \<rparr>
       in case first_read l w root exts (pg_host s) out of
            Inl e \<Rightarrow> s1\<lparr> pg_ended := Some e \<rparr>
          | Inr ses \<Rightarrow> s1\<lparr> pg_sessions := pg_sessions s @ [ses] \<rparr>))"

section \<open>Facts\<close>

text \<open>With no context left over, a page is what it would be on a new host, and it leaves none.\<close>

lemma script_page_alone:
  assumes "jh_contexts h = Map.empty"
  shows "fst (script_page w path root target h) = fst (script_page w path root target new_host)"
    and "\<not> isl (snd (fst (script_page w path root target h))) \<Longrightarrow>
      jh_contexts (snd (script_page w path root target h)) = Map.empty"
  using assms
  by (auto simp: script_page_def create_context_def get_next_context_id_def remove_context_def run_javascript_def
      new_host_def Let_def isl_def split: sum.split option.split prod.split)

lemma page_hook_alone: "jh_contexts h = Map.empty \<Longrightarrow> page_hook w h = page_hook w new_host"
  by (simp add: page_hook_def fun_eq_iff script_page_alone(1))

lemma first_read_alone:
  "jh_contexts h = Map.empty \<Longrightarrow> first_read l w root exts h out = first_read l w root exts new_host out"
  using page_hook_alone [of h w]
  by (simp add: first_read_def page_handler_def [abs_def] worker_hooks_def)

text \<open>A request that runs a script is answered exactly when the hook gives a text.\<close>

lemma first_read_script:
  assumes "script_run l root exts out = Some (path, target)"
  shows "isl (first_read l w root exts h out) = isl (page_hook w h path root target)"
  using assms
  by (auto simp: script_run_def first_read_def page_handler_def worker_hooks_def serve_def run_session_def
      plain_http_session_def blank_http_def worker_resume_def worker_start_def handle_request_def Let_def
      split: read_outcome.splits bool.splits if_splits sum.split simp: isl_def rbind_Inl_iff)

lemma page_connection_step:
  assumes "pg_ended s = None" and "jh_contexts (pg_host s) = Map.empty"
  shows "case first_read l w root exts new_host out of
      Inl e \<Rightarrow> pg_ended (page_connection l w root exts out s) = Some e \<and>
        pg_sessions (page_connection l w root exts out s) = pg_sessions s
    | Inr ses \<Rightarrow> pg_ended (page_connection l w root exts out s) = None \<and>
        jh_contexts (pg_host (page_connection l w root exts out s)) = Map.empty \<and>
        pg_sessions (page_connection l w root exts out s) = pg_sessions s @ [ses]"
proof (cases "script_run l root exts out")
  case None
  then show ?thesis using assms
    by (simp add: page_connection_def first_read_alone split: sum.split)
next
  case (Some pt)
  obtain path target where pt: "pt = (path, target)" by (cases pt)
  have "isl (first_read l w root exts new_host out) = isl (snd (fst (script_page w path root target (pg_host s))))"
    using first_read_script [of l root exts out path target w new_host] Some pt
      script_page_alone(1) [OF assms(2), of w path root target] by (simp add: page_hook_def)
  then show ?thesis using assms Some pt script_page_alone(2) [OF assms(2), of w path root target]
    by (auto simp: page_connection_def first_read_alone Let_def isl_def split: sum.splits prod.splits)
qed

lemma page_connection_ended: "pg_ended s = Some e \<Longrightarrow> fold (page_connection l w root exts) outs s = s"
  by (induction outs) (simp_all add: page_connection_def)

text \<open>The connections a worker serves from any state with no context.\<close>

lemma pages_from:
  assumes "pg_ended s = None" and "jh_contexts (pg_host s) = Map.empty"
  shows "pg_sessions (fold (page_connection l w root exts) outs s)
      = pg_sessions s @ map projr (takeWhile (\<lambda>r. \<not> isl r) (map (lone_read l w root exts) outs)) \<and>
    (case pg_ended (fold (page_connection l w root exts) outs s) of
       None \<Rightarrow> list_all (\<lambda>out. \<not> isl (lone_read l w root exts out)) outs \<and>
         jh_contexts (pg_host (fold (page_connection l w root exts) outs s)) = Map.empty
     | Some e \<Rightarrow> (\<exists>before out later. outs = before @ out # later \<and> lone_read l w root exts out = Inl e \<and>
         list_all (\<lambda>out. \<not> isl (lone_read l w root exts out)) before))"
  using assms
proof (induction outs arbitrary: s)
  case (Cons out outs)
  let ?s = "page_connection l w root exts out s"
  have step: "case lone_read l w root exts out of
      Inl e \<Rightarrow> pg_ended ?s = Some e \<and> pg_sessions ?s = pg_sessions s
    | Inr ses \<Rightarrow> pg_ended ?s = None \<and> jh_contexts (pg_host ?s) = Map.empty \<and>
        pg_sessions ?s = pg_sessions s @ [ses]"
    using page_connection_step [OF Cons.prems, of l w root exts out] unfolding lone_read_def .
  show ?case (is ?goal)
  proof (cases "lone_read l w root exts out")
    case (Inl e)
    then have "fold (page_connection l w root exts) outs ?s = ?s" using step by (intro page_connection_ended) simp
    moreover have "\<exists>before o' later. out # outs = before @ o' # later \<and> lone_read l w root exts o' = Inl e \<and>
        list_all (\<lambda>out. \<not> isl (lone_read l w root exts out)) before"
      using Inl by (intro exI [of _ "[]"]) simp
    ultimately show ?thesis using step Inl by simp
  next
    case (Inr ses)
    have ?goal if some: "pg_ended (fold (page_connection l w root exts) outs ?s) = Some e" for e
    proof -
      obtain before o' later where "outs = before @ o' # later" "lone_read l w root exts o' = Inl e"
        "list_all (\<lambda>out. \<not> isl (lone_read l w root exts out)) before"
        using Cons.IH [of ?s] step Inr some by auto
      then have "\<exists>before o' later. out # outs = before @ o' # later \<and> lone_read l w root exts o' = Inl e \<and>
          list_all (\<lambda>out. \<not> isl (lone_read l w root exts out)) before"
        using Inr by (intro exI [of _ "out # before"] exI [of _ o'] exI [of _ later]) simp
      then show ?thesis using Cons.IH [of ?s] step Inr some by simp
    qed
    moreover have ?goal if "pg_ended (fold (page_connection l w root exts) outs ?s) = None"
      using Cons.IH [of ?s] step Inr that by simp
    ultimately show ?thesis by (cases "pg_ended (fold (page_connection l w root exts) outs ?s)") blast+
  qed
qed simp

section \<open>Properties\<close>

text \<open>C17: Script pages do not touch one another, until one fails. Whatever connections come, each up to the
  first failure gets what a worker that has run no script would give it, and no context is left in
  the host when all went well. The first request whose handler throws, as it does for a script that does not
  compile or throws, ends the worker with its exception: no later connection is served.\<close>

theorem pages_independent:
  "pg_sessions (fold (page_connection l w root exts) outs new_page_worker)
      = map projr (takeWhile (\<lambda>r. \<not> isl r) (map (lone_read l w root exts) outs)) \<and>
    (case pg_ended (fold (page_connection l w root exts) outs new_page_worker) of
       None \<Rightarrow> list_all (\<lambda>out. \<not> isl (lone_read l w root exts out)) outs \<and>
         jh_contexts (pg_host (fold (page_connection l w root exts) outs new_page_worker)) = Map.empty
     | Some e \<Rightarrow> (\<exists>before out later. outs = before @ out # later \<and> lone_read l w root exts out = Inl e \<and>
         list_all (\<lambda>out. \<not> isl (lone_read l w root exts out)) before))"
  using pages_from [of new_page_worker] by (simp add: new_page_worker_def new_host_def)

text \<open>A script that is not there is not missed: the hook logs it and runs the empty text, and the value of
  that is sent with status 200, to a HEAD request with its body too.\<close>

theorem missing_script_answered:
  assumes "script_run l root exts (ReadRequest False req) = Some (path, target)"
    and "pw_exists w path = Inr False" and "pw_read w path = None"
    and "je_source (pw_engine w) []" and "je_compile (pw_engine w) (pw_context w) [] = None"
    and "je_run (pw_engine w) (pw_context w) [] = (c', Some JsUndefined, None)"
    and "je_utf8 (pw_engine w) JsUndefined = Some ''undefined''"
  shows "\<exists>r. page_handler l w root exts new_host req = Inr r \<and> rs_status r = 200 \<and>
    rs_body r = StringBody ''undefined''"
proof -
  have "page_hook w new_host path root target = Inr ''undefined''"
    using assms(2-7)
    by (simp add: page_hook_def script_page_def script_text_def create_context_def get_next_context_id_def
        new_host_def run_javascript_def Let_def to_string_js_def create_result_def result_none_def value_to_string_def)
  then show ?thesis using assms(1)
    by (auto simp: script_run_def page_handler_def serve_def run_session_def plain_http_session_def
        worker_hooks_def blank_http_def handle_request_def Let_def split: if_splits)
qed

definition sample_world :: "(unit, nat) page_world" where
  "sample_world = \<lparr> pw_exists = (\<lambda>p. Inr False), pw_read = (\<lambda>p. None),
     pw_engine = \<lparr> je_source = (\<lambda>t. True), je_compile = (\<lambda>c t. None),
       je_run = (\<lambda>c t. ((), Some JsUndefined, None)), je_utf8 = (\<lambda>v. Some ''undefined'') \<rparr>,
     pw_context = () \<rparr>"

theorem missing_script_answered_witness:
  "\<exists>r. page_handler script_fs sample_world ''/www'' [''.epjs''] new_host script_request = Inr r \<and> rs_status r = 200"
proof -
  have "script_run script_fs ''/www'' [''.epjs''] (ReadRequest False script_request)
      = Some (''/www/a.epjs'', ''/a.epjs'')"
    by (simp add: script_run_def script_request_def sample_get_def target_ok_def request_path_def Let_def script_fs_def
        sample_fs_def extension_of_def)
  from missing_script_answered [OF this, of sample_world] show ?thesis
    by (auto simp: sample_world_def)
qed

end
