(* ===== verification/ProxyForward.thy ===== *)
theory ProxyForward imports Downstream begin

text \<open>
  The proxy's forwarding as it runs (\<open>server.cpp\<close>, the constructor and the function it sets): every call
  of an HTTP session spawns a coroutine that executes \<open>start_request\<close>, and coroutines
  interleave wherever one waits for the network. Theory \<open>Downstream\<close> has the same function as one step;
  here its waits are phases, and the streams of a connection have numbers, because \<open>init\<close> replaces one.
\<close>

section \<open>State\<close>

text \<open>Where a coroutine waits: for the look-up of the address, for the connect of a stream, for a write
  (whose bytes are out, or which failed), for the response. A write and a read hold their stream, a connect
  does not.\<close>

datatype fwd_phase =
    FwNew
  | FwResolving nat
  | FwConnecting nat nat
  | FwWriting nat nat bool
  | FwReading nat nat
  | FwDone

record 'b forward =
  fw_backend :: int
  fw_first :: "http_req option"
  fw_position :: int
  fw_cont :: "'b continuation option"
  fw_phase :: fwd_phase

datatype 'b wire = WireRequest beast_request | WireBytes "'b list"

record ('b, 'r) proxy_server =
  px_down :: "('b, 'r) downstream"
  px_stream :: "nat \<Rightarrow> nat option"
  px_made :: nat
  px_connected :: "nat \<Rightarrow> bool"
  px_wire :: "(nat \<times> 'b wire) list"
  px_dialled :: "(string \<times> string) list"
  px_tasks :: "'b forward list"

definition new_proxy_server :: "(string \<times> string) list option \<Rightarrow> ('b, 'r) proxy_server" where
  "new_proxy_server backends = \<lparr> px_down = (case backends of
        Some bs \<Rightarrow> set_backends bs new_downstream | None \<Rightarrow> new_downstream),
     px_stream = (\<lambda>_. None), px_made = 0, px_connected = (\<lambda>_. False), px_wire = [], px_dialled = [],
     px_tasks = [] \<rparr>"

text \<open>The function handed to the sessions: the back end is always the first.\<close>

definition send_worker_req ::
  "http_req option \<Rightarrow> int \<Rightarrow> 'b continuation option \<Rightarrow> ('b, 'r) proxy_server \<Rightarrow> ('b, 'r) proxy_server" where
  "send_worker_req first pos cont px = px\<lparr> px_tasks := px_tasks px @
     [\<lparr> fw_backend = 0, fw_first = first, fw_position = pos, fw_cont = cont, fw_phase = FwNew \<rparr>] \<rparr>"

section \<open>The coroutine\<close>

definition set_phase :: "nat \<Rightarrow> fwd_phase \<Rightarrow> ('b, 'r) proxy_server \<Rightarrow> ('b, 'r) proxy_server" where
  "set_phase j ph px = px\<lparr> px_tasks := (px_tasks px)[j := (px_tasks px ! j)\<lparr> fw_phase := ph \<rparr>] \<rparr>"

definition put_conn :: "nat \<Rightarrow> ds_connection \<Rightarrow> ('b, 'r) proxy_server \<Rightarrow> ('b, 'r) proxy_server" where
  "put_conn c cn px = px\<lparr> px_down := (px_down px)\<lparr> dn_heap := (dn_heap (px_down px))[c := cn] \<rparr> \<rparr>"

text \<open>The start of \<open>init\<close>: a new stream takes the place of the connection's, and the address is looked up.\<close>

definition begin_init ::
  "(string \<times> string) \<Rightarrow> nat \<Rightarrow> ('b, 'r) proxy_server \<Rightarrow> ('b, 'r) proxy_server" where
  "begin_init be c px = (put_conn c ((dn_heap (px_down px) ! c)\<lparr> cn_stream := True \<rparr>) px)\<lparr>
     px_stream := (px_stream px)(c := Some (px_made px)), px_made := px_made px + 1,
     px_dialled := px_dialled px @ [be] \<rparr>"

fun holds_stream :: "nat \<Rightarrow> fwd_phase \<Rightarrow> bool" where
  "holds_stream k (FwWriting c k' ok) = (k' = k)"
| "holds_stream k (FwReading c k') = (k' = k)"
| "holds_stream k _ = False"

text \<open>A stream is closed when the last reference to it goes; its connect is then cancelled.\<close>

definition stream_alive :: "nat \<Rightarrow> nat \<Rightarrow> ('b, 'r) proxy_server \<Rightarrow> bool" where
  "stream_alive c k px = (px_stream px c = Some k \<or> list_ex (\<lambda>t. holds_stream k (fw_phase t)) (px_tasks px))"

definition end_init :: "nat \<Rightarrow> nat \<Rightarrow> ('b, 'r) proxy_server \<Rightarrow> ('b, 'r) proxy_server" where
  "end_init c k px = (put_conn c ((dn_heap (px_down px) ! c)\<lparr> cn_initialized := True \<rparr>) px)\<lparr>
     px_connected := (px_connected px)(k := True) \<rparr>"

definition write_out ::
  "nat \<Rightarrow> nat \<Rightarrow> 'b wire \<Rightarrow> ('b, 'r) proxy_server \<Rightarrow> ('b, 'r) proxy_server" where
  "write_out c k x px = px\<lparr> px_wire := px_wire px @ [(k, x)],
     px_down := log_effect (case x of WireRequest q \<Rightarrow> DsWrite c q | WireBytes b \<Rightarrow> DsWriteRaw c b) (px_down px) \<rparr>"

definition forward_finish :: "nat \<Rightarrow> nat \<Rightarrow> nat \<Rightarrow> ('b, 'r) proxy_server \<Rightarrow> ('b, 'r) proxy_server" where
  "forward_finish j c k px = (let t = px_tasks px ! j in
     set_phase j (if unfinished (fw_first t) (fw_cont t) then FwDone else FwReading c k) px)"

definition forward_put ::
  "'r ds_io \<Rightarrow> nat \<Rightarrow> nat \<Rightarrow> nat \<Rightarrow> 'b wire \<Rightarrow> ('b, 'r) proxy_server \<Rightarrow> ('b, 'r) proxy_server" where
  "forward_put io j c k x px = (let ok = io_write_ok io \<and> px_connected px k in
     set_phase j (FwWriting c k ok) (if ok then write_out c k x px else px))"

definition forward_write ::
  "(string \<Rightarrow> bool) \<Rightarrow> (uuid \<Rightarrow> string) \<Rightarrow> 'r ds_io \<Rightarrow> nat \<Rightarrow> nat \<Rightarrow> ('b, 'r) proxy_server
    \<Rightarrow> (('b, 'r) proxy_server) result" where
  "forward_write known uu io j c px = (let t = px_tasks px ! j in
     case fw_first t of
       Some r \<Rightarrow> rbind (to_beast_request known uu (to_request (builder_of_request nil_uuid r))) (\<lambda>q.
         (case px_stream px c of
            None \<Rightarrow> Inl UndefinedBehaviour
          | Some k \<Rightarrow> Inr (forward_put io j c k (WireRequest q) px)))
     | None \<Rightarrow> (case px_stream px c of
         None \<Rightarrow> Inl UndefinedBehaviour
       | Some k \<Rightarrow> (case fw_cont t of
           Some co \<Rightarrow> Inr (forward_put io j c k (WireBytes (take (io_written io) (co_buffer co))) px)
         | None \<Rightarrow> Inr (forward_finish j c k px))))"

definition current_request :: "'b forward \<Rightarrow> http_req result" where
  "current_request t = (case fw_first t of
     Some r \<Rightarrow> Inr r
   | None \<Rightarrow> (case fw_cont t of
       None \<Rightarrow> Inl UndefinedBehaviour
     | Some c \<Rightarrow> (case co_first c of None \<Rightarrow> Inl UndefinedBehaviour | Some r \<Rightarrow> Inr r)))"

definition session_connection ::
  "int \<Rightarrow> uuid \<Rightarrow> ('b, 'r) downstream \<Rightarrow> (nat \<times> ('b, 'r) downstream) result" where
  "session_connection backend sid d = (case dn_sessions d sid of
     Some (Some i) \<Rightarrow> Inr (i, d)
   | _ \<Rightarrow> rbind (get_connection backend sid d) (\<lambda>(i, d1).
       Inr (i, d1\<lparr> dn_sessions := (dn_sessions d1)(sid \<mapsto> Some i) \<rparr>)))"

text \<open>Up to the first wait.\<close>

definition forward_begin ::
  "(string \<Rightarrow> bool) \<Rightarrow> (uuid \<Rightarrow> string) \<Rightarrow> 'r ds_io \<Rightarrow> nat \<Rightarrow> ('b, 'r) proxy_server
    \<Rightarrow> (('b, 'r) proxy_server) result" where
  "forward_begin known uu io j px = (let t = px_tasks px ! j; b = fw_backend t in
     rbind (current_request t) (\<lambda>r.
     rbind (get_session (io_fresh io) (hr_session r) False (px_down px)) (\<lambda>(sid, d1).
     rbind (session_connection b sid d1) (\<lambda>(c, d2).
       let px2 = px\<lparr> px_down := d2 \<rparr> in
       if cn_initialized (dn_heap d2 ! c) then forward_write known uu io j c px2
       else if b < 0 \<or> int (length (dn_backends d2)) \<le> b then Inl UndefinedBehaviour
       else Inr (set_phase j (FwResolving c) (begin_init (dn_backends d2 ! nat b) c px2))))))"

definition forward_resume ::
  "(string \<Rightarrow> bool) \<Rightarrow> (uuid \<Rightarrow> string) \<Rightarrow> 'r ds_io \<Rightarrow> nat \<Rightarrow> ('b, 'r) proxy_server
    \<Rightarrow> (('b, 'r) proxy_server) result" where
  "forward_resume known uu io j px = (if length (px_tasks px) \<le> j then Inr px else
     case fw_phase (px_tasks px ! j) of
       FwNew \<Rightarrow> forward_begin known uu io j px
     | FwResolving c \<Rightarrow>
         (case io_init io of
            ResolveFails \<Rightarrow> forward_write known uu io j c px
          | _ \<Rightarrow> (case px_stream px c of
              None \<Rightarrow> Inl UndefinedBehaviour
            | Some k \<Rightarrow> Inr (set_phase j (FwConnecting c k) px)))
     | FwConnecting c k \<Rightarrow>
         (if io_init io = Connected \<and> stream_alive c k px
          then forward_write known uu io j c (end_init c k px)
          else forward_write known uu io j c px)
     | FwWriting c k ok \<Rightarrow>
         (if ok then (case px_stream px c of
              None \<Rightarrow> Inl UndefinedBehaviour
            | Some k' \<Rightarrow> Inr (forward_finish j c k' px))
          else Inr (set_phase j FwDone px))
     | FwReading c k \<Rightarrow>
         (case io_read io of
            None \<Rightarrow> Inr (set_phase j FwDone px)
          | Some res \<Rightarrow> Inr (set_phase j FwDone (px\<lparr> px_down := log_effect (DsReply res) (px_down px) \<rparr>)))
     | FwDone \<Rightarrow> Inr px)"

section \<open>Histories\<close>

datatype ('b, 'r) px_event =
    PxSend "http_req option" int "'b continuation option"
  | PxResume nat "'r ds_io"

definition proxy_step ::
  "(string \<Rightarrow> bool) \<Rightarrow> (uuid \<Rightarrow> string) \<Rightarrow> ('b, 'r) px_event \<Rightarrow> ('b, 'r) proxy_server
    \<Rightarrow> (('b, 'r) proxy_server) result" where
  "proxy_step known uu e px = (case e of
     PxSend first pos cont \<Rightarrow> Inr (send_worker_req first pos cont px)
   | PxResume j io \<Rightarrow> forward_resume known uu io j px)"

fun proxy_run ::
  "(string \<Rightarrow> bool) \<Rightarrow> (uuid \<Rightarrow> string) \<Rightarrow> ('b, 'r) px_event list \<Rightarrow> ('b, 'r) proxy_server
    \<Rightarrow> (('b, 'r) proxy_server) result" where
  "proxy_run known uu [] px = Inr px"
| "proxy_run known uu (e # es) px = rbind (proxy_step known uu e px) (proxy_run known uu es)"

section \<open>One coroutine alone\<close>

lemma ensure_split: "ensure_connection io b sid d = rbind (session_connection b sid d) (\<lambda>(i, d1).
    if cn_initialized (dn_heap d1 ! i) then Inr (i, d1)
    else if b < 0 \<or> int (length (dn_backends d1)) \<le> b then Inl UndefinedBehaviour
    else Inr (i, d1\<lparr> dn_heap := (dn_heap d1)[i := init_connection (io_init io) (dn_heap d1 ! i)] \<rparr>))"
  by (simp add: ensure_connection_def session_connection_def)

lemma start_split: "start_request known uu io b (fw_first t) (fw_cont t) d =
    rbind (current_request t) (\<lambda>curr.
    rbind (get_session (io_fresh io) (hr_session curr) False d) (\<lambda>(sid, d1).
    rbind (ensure_connection io b sid d1) (\<lambda>(i, d2).
    rbind (write_request known uu io i (fw_first t) (fw_cont t) d2) (\<lambda>w.
      Inr (finish_request io (fw_first t) (fw_cont t) d2 w)))))"
  by (simp add: start_request_def current_request_def)

text \<open>The streams agree with what theory \<open>Downstream\<close> keeps of them: a connection has one when it says
  so, an initialised one has one that is connected, and streams not made yet are not.\<close>

definition px_ok :: "('b, 'r) proxy_server \<Rightarrow> bool" where
  "px_ok px = ((\<forall>c < length (dn_heap (px_down px)).
       cn_stream (dn_heap (px_down px) ! c) = (px_stream px c \<noteq> None) \<and>
       (cn_initialized (dn_heap (px_down px) ! c) \<longrightarrow> (\<exists>k. px_stream px c = Some k \<and> px_connected px k))) \<and>
     (\<forall>c \<ge> length (dn_heap (px_down px)). px_stream px c = None))"

lemma px_ok_new: "px_ok (new_proxy_server bs)"
  by (simp add: px_ok_def new_proxy_server_def set_backends_def new_downstream_def split: option.split)

abbreviation fw_view :: "nat \<Rightarrow> ('b, 'r) proxy_server \<Rightarrow> ('b, 'r) downstream \<times> fwd_phase" where
  "fw_view j px \<equiv> (px_down px, fw_phase (px_tasks px ! j))"

lemma set_phase_frame [simp]:
  "px_down (set_phase j ph px) = px_down px" "px_stream (set_phase j ph px) = px_stream px"
  "px_connected (set_phase j ph px) = px_connected px" "px_made (set_phase j ph px) = px_made px"
  "px_wire (set_phase j ph px) = px_wire px" "px_dialled (set_phase j ph px) = px_dialled px"
  "length (px_tasks (set_phase j ph px)) = length (px_tasks px)"
  by (simp_all add: set_phase_def)

lemma set_phase_task [simp]:
  "px_tasks (set_phase j ph px) ! i =
    (if i = j \<and> j < length (px_tasks px) then (px_tasks px ! i)\<lparr> fw_phase := ph \<rparr> else px_tasks px ! i)"
  by (cases "j < length (px_tasks px)") (auto simp: set_phase_def nth_list_update list_update_beyond)

lemma run_ended:
  "fw_phase (px_tasks px ! j) = FwDone \<Longrightarrow> proxy_run known uu (replicate n (PxResume j io)) px = Inr px"
  by (induction n) (simp_all add: proxy_step_def forward_resume_def)

lemma proxy_run_Suc: "proxy_run known uu (replicate (Suc n) (PxResume j io)) px =
    rbind (forward_resume known uu io j px) (proxy_run known uu (replicate n (PxResume j io)))"
  by (simp add: proxy_step_def)

text \<open>From a write on: two more turns end the coroutine.\<close>

lemma write_tail:
  assumes "j < length (px_tasks px)" and "t = px_tasks px ! j" and "px_stream px c = Some k"
    and "cn_stream (dn_heap (px_down px) ! c)" and "io_write_ok io \<longrightarrow> px_connected px k"
    and "fw_first t \<noteq> None \<or> fw_cont t \<noteq> None"
  shows "map_sum id (fw_view j) (rbind (forward_write known uu io j c px)
      (proxy_run known uu (replicate (Suc (Suc n)) (PxResume j io)))) =
    map_sum id (\<lambda>d. (d, FwDone)) (rbind (write_request known uu io c (fw_first t) (fw_cont t) (px_down px))
      (\<lambda>w. Inr (finish_request io (fw_first t) (fw_cont t) (px_down px) w)))"
proof -
  have tail: "map_sum id (fw_view j) (proxy_run known uu (replicate (Suc (Suc n)) (PxResume j io))
        (forward_put io j c k x px)) =
      Inr (finish_request io (fw_first t) (fw_cont t) (px_down px)
        (if io_write_ok io then Some (log_effect (case x of WireRequest q \<Rightarrow> DsWrite c q | WireBytes b \<Rightarrow> DsWriteRaw c b)
          (px_down px)) else None), FwDone)" for x
    using assms(1-3,5) unfolding proxy_run_Suc
    by (auto simp: forward_put_def forward_resume_def forward_finish_def write_out_def finish_request_def Let_def
        run_ended split: option.split)
  show ?thesis
  proof (cases "fw_first t")
    case None
    then obtain co where "fw_cont t = Some co" using assms(6) by auto
    then show ?thesis using None assms(2-4) tail [of "WireBytes (take (io_written io) (co_buffer co))"]
      by (simp add: forward_write_def write_request_def Let_def del: replicate.simps)
  next
    case (Some r)
    show ?thesis
    proof (cases "to_beast_request known uu (to_request (builder_of_request nil_uuid r))")
      case (Inr q)
      then show ?thesis using Some assms(2-4) tail [of "WireRequest q"]
        by (simp add: forward_write_def write_request_def Let_def del: replicate.simps)
    qed (use Some assms(2) in \<open>simp add: forward_write_def write_request_def Let_def\<close>)
  qed
qed

text \<open>The connection of a session, and what the search for it leaves of the rest.\<close>

lemma session_connection_facts:
  assumes "session_connection b sid d = Inr (c, d')" and "ds_inv d" and "sid \<noteq> nil_uuid"
  shows "c < length (dn_heap d') \<and> take (length (dn_heap d)) (dn_heap d') = dn_heap d \<and>
    (length (dn_heap d) \<le> c \<longrightarrow> \<not> cn_stream (dn_heap d' ! c) \<and> \<not> cn_initialized (dn_heap d' ! c))"
proof (cases "dn_sessions d sid = Some None \<or> dn_sessions d sid = None")
  case True
  then obtain d1 where g: "get_connection b sid d = Inr (c, d1)" and h: "dn_heap d' = dn_heap d1"
    using assms(1) by (auto simp: session_connection_def rbind_Inr_iff split: option.splits)
  show ?thesis using get_connection_new [OF g assms(2,3)] h by simp
next
  case False
  then obtain i where i: "dn_sessions d sid = Some (Some i)" by (cases "dn_sessions d sid") auto
  then have "c = i" "d' = d" using assms(1) by (auto simp: session_connection_def)
  moreover have "i < length (dn_heap d)" using i assms(2) by (simp add: ds_inv_def)
  ultimately show ?thesis by simp
qed

lemma put_conn_frame [simp]:
  "px_tasks (put_conn c cn px) = px_tasks px" "px_stream (put_conn c cn px) = px_stream px"
  "px_connected (put_conn c cn px) = px_connected px" "px_made (put_conn c cn px) = px_made px"
  "px_down (put_conn c cn px) = (px_down px)\<lparr> dn_heap := (dn_heap (px_down px))[c := cn] \<rparr>"
  by (simp_all add: put_conn_def)

text \<open>A connection that is not initialised: the look-up, the connect, and the rest.\<close>

lemma init_tail:
  assumes "j < length (px_tasks px)" and "t = px_tasks px ! j" and "c < length (dn_heap (px_down px))"
    and "io_init io = Connected \<or> \<not> io_write_ok io" and "fw_first t \<noteq> None \<or> fw_cont t \<noteq> None"
    and "d' = (px_down px)\<lparr> dn_heap := (dn_heap (px_down px))[c := init_connection (io_init io) (dn_heap (px_down px) ! c)] \<rparr>"
  shows "map_sum id (fw_view j) (proxy_run known uu (replicate 4 (PxResume j io))
      (set_phase j (FwResolving c) (begin_init be c px))) =
    map_sum id (\<lambda>d. (d, FwDone)) (rbind (write_request known uu io c (fw_first t) (fw_cont t) d')
      (\<lambda>w. Inr (finish_request io (fw_first t) (fw_cont t) d' w)))"
proof -
  let ?p = "set_phase j (FwResolving c) (begin_init be c px)"
  let ?k = "px_made px"
  have four: "replicate 4 (PxResume j io) = replicate (Suc (Suc (Suc (Suc 0)))) (PxResume j io)"
    by (simp add: numeral_eq_Suc)
  have d: "px_down ?p = (px_down px)\<lparr> dn_heap := (dn_heap (px_down px))[c := (dn_heap (px_down px) ! c)\<lparr> cn_stream := True \<rparr>] \<rparr>"
    and st: "px_stream ?p c = Some ?k" and len: "length (px_tasks ?p) = length (px_tasks px)"
    and t: "fw_first (px_tasks ?p ! j) = fw_first t" "fw_cont (px_tasks ?p ! j) = fw_cont t"
      "fw_phase (px_tasks ?p ! j) = FwResolving c"
    using assms(1,2) by (simp_all add: begin_init_def)
  show ?thesis
  proof (cases "io_init io")
    case ResolveFails
    have d': "d' = px_down ?p" unfolding assms(6) d ResolveFails by (simp add: init_connection_def Let_def)
    have "forward_resume known uu io j ?p = forward_write known uu io j c ?p"
      using assms(1) len t ResolveFails by (simp add: forward_resume_def)
    then show ?thesis unfolding four proxy_run_Suc [of known uu "Suc (Suc (Suc 0))"] d'
      using write_tail [of j ?p "px_tasks ?p ! j" c ?k io known uu "Suc 0"] assms st len t ResolveFails d
      by (simp del: replicate.simps set_phase_task)
  next
    case ConnectFails
    let ?q = "set_phase j (FwConnecting c ?k) ?p"
    have d': "d' = px_down ?q"
      unfolding assms(6) ConnectFails by (simp add: begin_init_def init_connection_def Let_def)
    have cs: "cn_stream (dn_heap (px_down ?q) ! c)" using assms(3) by (simp add: begin_init_def)
    have "forward_resume known uu io j ?p = Inr ?q"
      using assms(1) len t st ConnectFails by (simp add: forward_resume_def del: set_phase_task)
    moreover have "forward_resume known uu io j ?q = forward_write known uu io j c ?q"
      using assms(1) len ConnectFails by (simp add: forward_resume_def)
    ultimately show ?thesis unfolding four proxy_run_Suc [of known uu "Suc (Suc (Suc 0))"] d'
      using write_tail [of j ?q "px_tasks ?q ! j" c ?k io known uu 0] assms st len t ConnectFails d cs
      by (simp del: replicate.simps set_phase_frame(1) add: proxy_run_Suc [of known uu "Suc (Suc 0)"])
  next
    case Connected
    let ?q = "set_phase j (FwConnecting c ?k) ?p"
    let ?r = "end_init c ?k ?q"
    have d': "d' = px_down ?r" unfolding assms(6)
      by (simp add: begin_init_def end_init_def Connected init_connection_def Let_def assms(3))
    have "forward_resume known uu io j ?p = Inr ?q"
      using assms(1) len t st Connected by (simp add: forward_resume_def del: set_phase_task)
    moreover have "forward_resume known uu io j ?q = forward_write known uu io j c ?r"
      using assms(1) len Connected st by (simp add: forward_resume_def stream_alive_def)
    ultimately show ?thesis unfolding four proxy_run_Suc [of known uu "Suc (Suc (Suc 0))"] d'
      using write_tail [of j ?r "px_tasks ?r ! j" c ?k io known uu 0] assms st len t Connected d
      by (simp del: replicate.simps add: proxy_run_Suc [of known uu "Suc (Suc 0)"] end_init_def)
  qed
qed

section \<open>Two coroutines of one session\<close>

fun is_request :: "'b wire \<Rightarrow> bool" where
  "is_request (WireRequest q) = True"
| "is_request (WireBytes bs) = False"

text \<open>A stream carries the request and then some of its body.\<close>

definition whole_on :: "nat \<Rightarrow> (nat \<times> 'b wire) list \<Rightarrow> bool" where
  "whole_on k ws = list_ex (\<lambda>(m, x). m = k \<and> \<not> is_request x)
     (dropWhile (\<lambda>(m, x). \<not> (m = k \<and> is_request x)) ws)"

text \<open>Bytes first, requests after them.\<close>

definition body_first :: "(nat \<times> 'b wire) list \<Rightarrow> bool" where
  "body_first ws = (\<exists>xs ys. ws = xs @ ys \<and> list_all (\<lambda>(m, x). \<not> is_request x) xs \<and>
     list_all (\<lambda>(m, x). is_request x) ys)"

lemma body_first_Nil [simp]: "body_first []"
  by (simp add: body_first_def)

lemma body_first_bytes [simp]: "body_first [(k, WireBytes bs)]"
  unfolding body_first_def by (intro exI [of _ "[(k, WireBytes bs)]"] exI [of _ "[]"]) simp

lemma body_first_request: "body_first ws \<Longrightarrow> body_first (ws @ [(k, WireRequest q)])"
proof -
  assume "body_first ws"
  then obtain xs ys where "ws = xs @ ys" "list_all (\<lambda>(m, x). \<not> is_request x) xs" "list_all (\<lambda>(m, x). is_request x) ys"
    by (auto simp: body_first_def)
  then show ?thesis unfolding body_first_def
    by (intro exI [of _ xs] exI [of _ "ys @ [(k, WireRequest q)]"]) simp
qed

lemma body_first_not_whole: "body_first ws \<Longrightarrow> \<not> whole_on k ws"
proof -
  assume "body_first ws"
  then obtain xs ys where ws: "ws = xs @ ys" and xs: "list_all (\<lambda>(m, x). \<not> is_request x) xs"
    and ys: "list_all (\<lambda>(m, x). is_request x) ys" by (auto simp: body_first_def)
  have "dropWhile (\<lambda>(m, x). \<not> (m = k \<and> is_request x)) (xs @ ys) =
      dropWhile (\<lambda>(m, x). \<not> (m = k \<and> is_request x)) ys"
    using xs by (intro dropWhile_append2) (auto simp: list_all_iff)
  then show ?thesis using ys set_dropWhileD [of _ "\<lambda>(m, x). \<not> (m = k \<and> is_request x)" ys]
    by (fastforce simp: ws whole_on_def list_ex_iff list_all_iff)
qed

text \<open>The first coroutine waits for the connect of a stream that was replaced, the second is on its
  way to the new one.\<close>

fun overtaken_first :: "nat \<Rightarrow> nat \<Rightarrow> nat \<Rightarrow> fwd_phase \<Rightarrow> bool" where
  "overtaken_first c k k' (FwConnecting c1 k1) = (c1 = c \<and> k1 = k)"
| "overtaken_first c k k' (FwWriting c1 k1 ok) = (c1 = c \<and> k1 = k')"
| "overtaken_first c k k' (FwReading c1 k1) = (c1 = c \<and> k1 = k')"
| "overtaken_first c k k' FwDone = True"
| "overtaken_first c k k' _ = False"

fun overtaking :: "nat \<Rightarrow> nat \<Rightarrow> (nat \<Rightarrow> bool) \<Rightarrow> (nat \<times> 'b wire) list \<Rightarrow> fwd_phase \<Rightarrow> bool" where
  "overtaking c k' con ws (FwResolving c1) = (c1 = c \<and> \<not> con k' \<and> ws = [])"
| "overtaking c k' con ws (FwConnecting c1 k1) = (c1 = c \<and> k1 = k' \<and> \<not> con k' \<and> ws = [])"
| "overtaking c k' con ws (FwWriting c1 k1 ok) = (c1 = c \<and> k1 = k' \<and> body_first ws)"
| "overtaking c k' con ws (FwReading c1 k1) = (c1 = c \<and> k1 = k' \<and> body_first ws)"
| "overtaking c k' con ws FwDone = body_first ws"
| "overtaking c k' con ws FwNew = False"

definition overtaken :: "nat \<Rightarrow> nat \<Rightarrow> nat \<Rightarrow> ('b, 'r) proxy_server \<Rightarrow> bool" where
  "overtaken c k k' px = (length (px_tasks px) = 2 \<and> fw_first (px_tasks px ! 0) \<noteq> None \<and>
     fw_first (px_tasks px ! 1) = None \<and> fw_cont (px_tasks px ! 1) \<noteq> None \<and>
     px_stream px c = Some k' \<and> k \<noteq> k' \<and> overtaken_first c k k' (fw_phase (px_tasks px ! 0)) \<and>
     overtaking c k' (px_connected px) (px_wire px) (fw_phase (px_tasks px ! 1)))"

lemma overtaken_dead: "overtaken c k k' px \<Longrightarrow> \<not> stream_alive c k px"
proof -
  assume o: "overtaken c k k' px"
  then obtain a b where t: "px_tasks px = [a, b]" by (auto simp: overtaken_def numeral_2_eq_2 length_Suc_conv)
  have "\<not> holds_stream k (fw_phase a)" "\<not> holds_stream k (fw_phase b)"
    using o t by (cases "fw_phase a"; cases "fw_phase b"; simp add: overtaken_def)+
  then show ?thesis using o t by (simp add: stream_alive_def overtaken_def)
qed

lemma overtaken_step_first:
  assumes "overtaken c k k' px" and "forward_resume known uu io 0 px = Inr px'"
  shows "overtaken c k k' px'"
proof -
  obtain r where r: "fw_first (px_tasks px ! 0) = Some r" using assms(1) by (auto simp: overtaken_def)
  have w: "overtaken c k k' p'" if "forward_write known uu io 0 c px = Inr p'" for p'
    using that assms(1) r
    by (cases "fw_phase (px_tasks px ! 1)")
      (auto simp: overtaken_def forward_write_def forward_put_def write_out_def rbind_Inr_iff Let_def
        body_first_request split: if_splits)
  show ?thesis
    using assms w overtaken_dead [OF assms(1)]
    by (cases "fw_phase (px_tasks px ! 0)")
      (auto simp: overtaken_def forward_resume_def forward_finish_def Let_def split: if_splits option.splits)
qed

lemma overtaken_step_second:
  assumes "overtaken c k k' px" and "forward_resume known uu io 1 px = Inr px'"
  shows "overtaken c k k' px'"
proof -
  obtain co where co: "fw_cont (px_tasks px ! 1) = Some co" using assms(1) by (auto simp: overtaken_def)
  have w: "overtaken c k k' p'" if "forward_write known uu io 1 c q = Inr p'" "px_wire px = []"
    "q = px \<or> q = end_init c k' px" for p' q
    using that assms(1) co
    by (auto simp: overtaken_def forward_write_def forward_put_def write_out_def end_init_def put_conn_def Let_def
        split: if_splits)
  show ?thesis
    using assms w
    by (cases "fw_phase (px_tasks px ! 1)")
      (auto simp: overtaken_def forward_resume_def forward_finish_def Let_def
        split: if_splits option.splits init_outcome.splits)
qed

lemma overtaken_step:
  assumes "overtaken c k k' px" and "forward_resume known uu io j px = Inr px'"
  shows "overtaken c k k' px'"
proof -
  consider "j = 0" | "j = 1" | "2 \<le> j" by linarith
  then show ?thesis
  proof cases
    case 3
    then show ?thesis using assms by (simp add: overtaken_def forward_resume_def)
  qed (use assms overtaken_step_first overtaken_step_second in blast)+
qed

lemma overtaken_run:
  "overtaken c k k' px \<Longrightarrow> proxy_run known uu (map (\<lambda>(j, io). PxResume j io) es) px = Inr px' \<Longrightarrow> overtaken c k k' px'"
  by (induction es arbitrary: px) (auto simp: rbind_Inr_iff proxy_step_def dest: overtaken_step)

section \<open>Properties\<close>

text \<open>Left alone, a forwarding coroutine does what \<open>start_request\<close> does in one step: from any state
  whose streams agree with its connections, five turns of a new coroutine, with no other in between,
  end it, with the connections, sessions, writes and replies of the step, or with its exception; given
  only that no write succeeds where the connect did not.\<close>

theorem forward_alone:
  assumes "px_ok px" and "ds_inv (px_down px)" and "j < length (px_tasks px)" and "t = px_tasks px ! j"
    and "fw_phase t = FwNew" and "io_fresh io \<noteq> nil_uuid" and "dn_sessions (px_down px) (io_fresh io) = None"
    and "io_init io = Connected \<or> \<not> io_write_ok io"
  shows "map_sum id (\<lambda>px'. (px_down px', fw_phase (px_tasks px' ! j)))
      (proxy_run known uu (replicate 5 (PxResume j io)) px) =
    map_sum id (\<lambda>d. (d, FwDone))
      (start_request known uu io (fw_backend t) (fw_first t) (fw_cont t) (px_down px))"
proof -
  have five: "replicate 5 (PxResume j io) = replicate (Suc 4) (PxResume j io)" by (simp add: numeral_eq_Suc)
  have four: "replicate 4 (PxResume j io) = replicate (Suc (Suc 2)) (PxResume j io)" by (simp add: numeral_eq_Suc)
  have start: "forward_resume known uu io j px = forward_begin known uu io j px"
    using assms(3-5) by (simp add: forward_resume_def)
  show ?thesis
  proof (cases "current_request t")
    case (Inl e)
    then show ?thesis unfolding five proxy_run_Suc start start_split using assms(4)
      by (simp add: forward_begin_def Let_def)
  next
    case (Inr r)
    then have some: "fw_first t \<noteq> None \<or> fw_cont t \<noteq> None"
      by (auto simp: current_request_def split: option.splits)
    show ?thesis
    proof (cases "get_session (io_fresh io) (hr_session r) False (px_down px)")
      case (Inl e)
      then show ?thesis unfolding five proxy_run_Suc start start_split using assms(4) Inr
        by (simp add: forward_begin_def Let_def)
    next
      case s: (Inr a)
      obtain sid d1 where a: "a = (sid, d1)" by (cases a)
      have g: "ds_inv d1" "sid \<noteq> nil_uuid" "dn_heap d1 = dn_heap (px_down px)"
        using get_session_facts [OF s [unfolded a] assms(2,6,7)] by simp_all
      show ?thesis
      proof (cases "session_connection (fw_backend t) sid d1")
        case (Inl e)
        then show ?thesis unfolding five proxy_run_Suc start start_split using assms(4) Inr s a
          by (simp add: forward_begin_def Let_def ensure_split)
      next
        case c: (Inr b)
        obtain i d2 where b: "b = (i, d2)" by (cases b)
        note f = session_connection_facts [OF c [unfolded b] g(1,2)]
        let ?p = "px\<lparr> px_down := d2 \<rparr>"
        have keep: "dn_heap d2 ! i = dn_heap (px_down px) ! i" if "i < length (dn_heap (px_down px))"
          using f g(3) that by (metis nth_take)
        have old: "\<exists>k. px_stream px i = Some k \<and> px_connected px k" "cn_stream (dn_heap d2 ! i)"
          if "cn_initialized (dn_heap d2 ! i)"
          using that f g(3) keep assms(1) unfolding px_ok_def by (cases "i < length (dn_heap (px_down px))"; force)+
        show ?thesis
        proof (cases "cn_initialized (dn_heap d2 ! i)")
          case True
          obtain k where k: "px_stream px i = Some k" "px_connected px k" using old(1) [OF True] by blast
          have "forward_begin known uu io j px = forward_write known uu io j i ?p"
            using True assms(4) Inr s a c b by (simp add: forward_begin_def Let_def)
          then show ?thesis unfolding five proxy_run_Suc start start_split
            using write_tail [of j ?p t i k io known uu 2, folded four] True assms(3,4) Inr s a c b k old(2) some
            by (simp add: ensure_split del: replicate.simps)
        next
          case False
          show ?thesis
          proof (cases "fw_backend t < 0 \<or> int (length (dn_backends d2)) \<le> fw_backend t")
            case True
            then show ?thesis unfolding five proxy_run_Suc start start_split using assms(4) Inr s a c b False
              by (simp add: forward_begin_def Let_def ensure_split)
          next
            case range: False
            then have "forward_begin known uu io j px = Inr (set_phase j (FwResolving i)
                (begin_init (dn_backends d2 ! nat (fw_backend t)) i ?p))"
              using False assms(4) Inr s a c b by (simp add: forward_begin_def Let_def)
            then show ?thesis unfolding five proxy_run_Suc start start_split
              using init_tail [of j ?p t i io _ known uu "dn_backends d2 ! nat (fw_backend t)"] False range
                assms(3,4,8) Inr s a c b f some
              by (simp add: ensure_split del: replicate.simps)
          qed
        qed
      qed
    qed
  qed
qed

definition upload_head :: http_req where
  "upload_head = (sample_get_req 7)\<lparr> hr_done := False \<rparr>"

definition upload_piece :: "byte continuation" where
  "upload_piece = \<lparr> co_first = Some upload_head, co_buffer = [1], co_done = True \<rparr>"

definition one_backend :: "(byte, nat) proxy_server" where
  "one_backend = new_proxy_server (Some [(''localhost'', ''8082'')])"

theorem forward_alone_witness:
  "\<exists>d. map_sum id (\<lambda>px'. (px_down px', fw_phase (px_tasks px' ! 0))) (proxy_run (\<lambda>_. True) (\<lambda>_. ''u'')
      (replicate 5 (PxResume 0 sample_io)) (send_worker_req (Some (sample_get_req 7)) 0 None one_backend)) = Inr (d, FwDone)"
proof -
  let ?p = "send_worker_req (Some (sample_get_req 7)) 0 None one_backend"
  have "px_ok ?p" using px_ok_new [of "Some [(''localhost'', ''8082'')]"]
    by (simp add: px_ok_def send_worker_req_def one_backend_def)
  moreover have "ds_inv (px_down ?p)" using ds_inv_new by (simp add: send_worker_req_def one_backend_def new_proxy_server_def)
  moreover have "0 < length (px_tasks ?p)" "fw_phase (px_tasks ?p ! 0) = FwNew" "io_fresh sample_io \<noteq> nil_uuid"
    "dn_sessions (px_down ?p) (io_fresh sample_io) = None"
    "io_init sample_io = Connected \<or> \<not> io_write_ok sample_io"
    by (simp_all add: send_worker_req_def one_backend_def new_proxy_server_def set_backends_def new_downstream_def sample_io_def)
  moreover obtain d where "sample_forward 7 (px_down ?p) = Inr d"
    by (simp add: sample_forward_def sample_get_req_def sample_io_def start_defs builder_of_request_def
        to_request_def new_http_req_def blank_builder_def Let_def send_worker_req_def one_backend_def new_proxy_server_def
        set_backends_def new_downstream_def)
  then have "start_request (\<lambda>_. True) (\<lambda>_. ''u'') sample_io 0 (Some (sample_get_req 7)) None (px_down ?p) = Inr d"
    by (simp add: sample_forward_def)
  ultimately show ?thesis
    using forward_alone [of ?p 0 "px_tasks ?p ! 0" sample_io "\<lambda>_. True" "\<lambda>_. ''u''"]
    by (simp add: send_worker_req_def one_backend_def new_proxy_server_def)
qed

text \<open>C18: An upload that arrives while the proxy still connects is lost. When a piece of a body is forwarded
  before the connect of its request is through, its coroutine finds the connection not initialised and
  replaces the stream under the first one; then, however the two go on and whatever the network does, no
  worker ever gets the request followed by that piece: the piece goes first, or one of them is not sent.\<close>

theorem upload_overtakes_request:
  assumes "px_tasks px = [a, b]" and "fw_phase a = FwConnecting c k" and "fw_first a = Some r"
    and "fw_phase b = FwNew" and "fw_backend b = 0" and "fw_first b = None" and "fw_cont b = Some co"
    and "co_first co = Some r" and "dn_sessions (px_down px) (hr_session r) = Some (Some c)"
    and "c < length (dn_heap (px_down px))" and "\<not> cn_initialized (dn_heap (px_down px) ! c)"
    and "k < px_made px" and "\<not> px_connected px (px_made px)" and "px_wire px = []"
    and "proxy_run known uu (PxResume 1 io # map (\<lambda>(j, io). PxResume j io) es) px = Inr px'"
  shows "\<not> whole_on m (px_wire px')"
proof -
  obtain q where q: "forward_resume known uu io 1 px = Inr q"
    and run: "proxy_run known uu (map (\<lambda>(j, io). PxResume j io) es) q = Inr px'"
    using assms(15) by (auto simp: rbind_Inr_iff proxy_step_def)
  have s: "get_session (io_fresh io) (hr_session r) False (px_down px) = Inr (hr_session r, px_down px)"
    "session_connection 0 (hr_session r) (px_down px) = Inr (c, px_down px)"
    using assms(9) by (simp_all add: get_session_def session_connection_def)
  have "q = set_phase 1 (FwResolving c) (begin_init (dn_backends (px_down px) ! 0) c px)"
    using q assms(1,4-8,11) s
    by (auto simp: forward_resume_def forward_begin_def current_request_def Let_def split: if_splits)
  then have "overtaken c k (px_made px) q"
    using assms(1-3,6,7,12-14) by (simp add: overtaken_def begin_init_def put_conn_def)
  then have "overtaken c k (px_made px) px'" using run by (rule overtaken_run)
  then have "body_first (px_wire px')"
    by (cases "fw_phase (px_tasks px' ! 1)") (simp_all add: overtaken_def)
  then show ?thesis by (rule body_first_not_whole)
qed

text \<open>The state in question is reached: a request is forwarded and its address looked up, and then the
  first piece of its body comes. The piece is all the worker gets.\<close>

definition overtaken_start :: "((byte, nat) proxy_server) result" where
  "overtaken_start = proxy_run (\<lambda>_. True) (\<lambda>_. ''u'') [PxSend (Some upload_head) 0 None, PxResume 0 sample_io,
     PxResume 0 sample_io, PxSend None 1 (Some upload_piece)] one_backend"

lemmas upload_defs = overtaken_start_def proxy_step_def send_worker_req_def forward_resume_def forward_begin_def
  current_request_def get_session_def session_connection_def get_connection_def acquire_def new_connection_def begin_init_def
  end_init_def put_conn_def set_phase_def forward_write_def forward_put_def write_out_def log_effect_def stream_alive_def
  upload_head_def upload_piece_def one_backend_def new_proxy_server_def set_backends_def new_downstream_def
  sample_get_req_def sample_io_def new_http_req_def to_beast_request_def

theorem upload_overtakes_request_witness:
  "\<exists>px px'. overtaken_start = Inr px \<and> proxy_run (\<lambda>_. True) (\<lambda>_. ''u'') (PxResume 1 sample_io #
      map (\<lambda>(j, io). PxResume j io) [(0, sample_io), (1, sample_io), (1, sample_io)]) px = Inr px' \<and>
    px_wire px' = [(1, WireBytes [1])] \<and> \<not> whole_on 1 (px_wire px')"
proof -
  obtain px where px: "overtaken_start = Inr px" "px_tasks px = [\<lparr> fw_backend = 0, fw_first = Some upload_head,
      fw_position = 0, fw_cont = None, fw_phase = FwConnecting 0 0 \<rparr>, \<lparr> fw_backend = 0, fw_first = None,
      fw_position = 1, fw_cont = Some upload_piece, fw_phase = FwNew \<rparr>]"
    and d: "px_down px = (set_backends [(''localhost'', ''8082'')] new_downstream)\<lparr> dn_sessions := [7 \<mapsto> Some 0],
      dn_heap := [\<lparr> cn_session = 7, cn_stream = True, cn_initialized = False \<rparr>] \<rparr>"
    and f: "px_stream px = [0 \<mapsto> 0]" "px_made px = 1" "px_connected px = (\<lambda>_. False)" "px_wire px = []"
    by (simp add: upload_defs Let_def)
  obtain px' where px': "proxy_run (\<lambda>_. True) (\<lambda>_. ''u'') (PxResume 1 sample_io #
      map (\<lambda>(j, io). PxResume j io) [(0, sample_io), (1, sample_io), (1, sample_io)]) px = Inr px'"
    "px_wire px' = [(1, WireBytes [1])]"
    using px(2) d f by (simp add: upload_defs Let_def)
  have "hr_session upload_head = 7" by (simp add: upload_head_def sample_get_req_def new_http_req_def)
  then have "\<not> whole_on 1 (px_wire px')"
    by (intro upload_overtakes_request [OF px(2) _ _ _ _ _ _ _ _ _ _ _ _ _ px'(1), where c = 0 and k = 0
        and r = upload_head and co = upload_piece]) (simp_all add: upload_piece_def d f)
  then show ?thesis using px(1) px' by blast
qed

text \<open>However many back ends are configured, only the first is ever dialled.\<close>

definition first_only :: "(string \<times> string) list \<Rightarrow> ('b, 'r) proxy_server \<Rightarrow> bool" where
  "first_only bs px = (list_all (\<lambda>t. fw_backend t = 0) (px_tasks px) \<and> dn_backends (px_down px) = bs \<and>
     set (px_dialled px) \<subseteq> set (take 1 bs))"

lemma get_session_backends: "get_session f s b d = Inr (sid, d') \<Longrightarrow> dn_backends d' = dn_backends d"
  by (auto simp: get_session_def Let_def split: option.splits if_splits)

lemma session_connection_backends: "session_connection b s d = Inr (c, d') \<Longrightarrow> dn_backends d' = dn_backends d"
  by (auto simp: session_connection_def get_connection_def rbind_Inr_iff Let_def
      split: option.splits if_splits prod.splits)

lemma first_only_phase [simp]: "first_only bs (set_phase j ph px) = first_only bs px"
  by (cases "j < length (px_tasks px)") (auto simp: first_only_def set_phase_def list_all_length nth_list_update)

lemma first_only_put [simp]: "first_only bs (forward_put io j c k x px) = first_only bs px"
  by (simp add: forward_put_def Let_def) (simp add: first_only_def write_out_def)

lemma first_only_finish [simp]: "first_only bs (forward_finish j c k px) = first_only bs px"
  by (simp add: forward_finish_def Let_def)

lemma first_only_write: "forward_write known uu io j c px = Inr px' \<Longrightarrow> first_only bs px' = first_only bs px"
  by (auto simp: forward_write_def rbind_Inr_iff Let_def split: option.splits)

lemma first_only_resume:
  assumes "forward_resume known uu io j px = Inr px'" and "first_only bs px"
  shows "first_only bs px'"
proof (cases "length (px_tasks px) \<le> j")
  case j: False
  then have b: "fw_backend (px_tasks px ! j) = 0" using assms(2) by (simp add: first_only_def list_all_length)
  show ?thesis
  proof (cases "fw_phase (px_tasks px ! j)")
    case FwNew
    then obtain r :: http_req and sid d1 c d2 where s: "get_session (io_fresh io) (hr_session r) False (px_down px) = Inr (sid, d1)"
      "session_connection 0 sid d1 = Inr (c, d2)" and q: "(if cn_initialized (dn_heap d2 ! c)
        then forward_write known uu io j c (px\<lparr> px_down := d2 \<rparr>) else if dn_backends d2 = [] then Inl UndefinedBehaviour
        else Inr (set_phase j (FwResolving c) (begin_init (dn_backends d2 ! 0) c (px\<lparr> px_down := d2 \<rparr>)))) = Inr px'"
      using assms(1) j b that
      by (simp add: forward_resume_def forward_begin_def rbind_Inr_iff Let_def split_paired_Ex cong: if_cong) blast
    have d2: "dn_backends d2 = bs" using s assms(2)
      by (simp add: first_only_def get_session_backends session_connection_backends)
    then have "first_only bs (px\<lparr> px_down := d2 \<rparr>)" using assms(2) by (simp add: first_only_def)
    moreover have "first_only bs (begin_init (bs ! 0) c (px\<lparr> px_down := d2 \<rparr>))" if "bs \<noteq> []"
      using assms(2) d2 that by (cases bs) (auto simp: first_only_def begin_init_def put_conn_def)
    ultimately show ?thesis using q d2 by (auto dest: first_only_write [where bs = bs] split: if_splits)
  next
    case (FwConnecting c k)
    have "first_only bs (end_init c k px)" using assms(2) by (simp add: first_only_def end_init_def put_conn_def)
    then show ?thesis using FwConnecting assms j
      by (auto simp: forward_resume_def dest: first_only_write [where bs = bs] split: if_splits)
  next
    case (FwReading c k)
    have "first_only bs (px\<lparr> px_down := log_effect e (px_down px) \<rparr>)" for e
      using assms(2) by (simp add: first_only_def)
    then show ?thesis using FwReading assms j by (auto simp: forward_resume_def split: option.splits)
  qed (use assms j in
      \<open>auto simp: forward_resume_def dest: first_only_write [where bs = bs] split: if_splits option.splits init_outcome.splits\<close>)
qed (use assms in \<open>simp add: forward_resume_def\<close>)

theorem first_backend_only:
  assumes "proxy_run known uu es (new_proxy_server (Some bs)) = Inr px"
  shows "set (px_dialled px) \<subseteq> set (take 1 bs)"
proof -
  have "proxy_run known uu es p = Inr px \<Longrightarrow> first_only bs p \<Longrightarrow> first_only bs px" for p
  proof (induction es arbitrary: p)
    case (Cons e es)
    then obtain q where q: "proxy_step known uu e p = Inr q" "proxy_run known uu es q = Inr px"
      by (auto simp: rbind_Inr_iff)
    have "first_only bs q"
    proof (cases e)
      case (PxSend first pos cont)
      then show ?thesis using q(1) Cons.prems(2) by (auto simp: proxy_step_def send_worker_req_def first_only_def)
    next
      case (PxResume j io)
      then show ?thesis using q(1) Cons.prems(2) first_only_resume [of known uu io j p q]
        by (simp add: proxy_step_def)
    qed
    then show ?case using Cons.IH q(2) by blast
  qed simp
  moreover have "first_only bs (new_proxy_server (Some bs))"
    by (simp add: first_only_def new_proxy_server_def set_backends_def)
  ultimately show ?thesis using assms by (auto simp: first_only_def)
qed

end
