(* ===== verification/SfListing.thy ===== *)
theory SfListing imports SfPlugin begin

text \<open>
  The listing of a catalogue (\<open>sf_catalog_split\<close>, \<open>walk_xa_catalog\<close> of
  \<open>easyprospect-service-plugin-salesforce.cpp\<close>): the document is parsed, five paths are evaluated on it,
  and what is found goes to the log at the debug level. The evaluator is Xalan's: an argument. The
  state is the plug-in's with the debug lines beside it.
\<close>

section \<open>The evaluator\<close>

text \<open>What leaves a call of the libraries: one of the two exceptions the function catches, or another.\<close>

datatype xpath_error = XercesXPathException | XercesDomException | OtherException cpp_error

record ('d, 'n) xpath_lib =
  xp_normalize :: "'d \<Rightarrow> xpath_error + 'd"
  xp_first_child :: "'d \<Rightarrow> 'n option"
  xp_doc_prefix :: "'d \<Rightarrow> string \<Rightarrow> string option"
  xp_select :: "(string \<Rightarrow> string option) \<Rightarrow> string \<Rightarrow> 'd \<Rightarrow> xpath_error + 'n list"
  xp_name :: "'n \<Rightarrow> string"

definition catalog_uri :: string where
  "catalog_uri = ''http://www.demandware.com/xml/impex/catalog/2006-10-31''"

text \<open>The plug-in's resolver gives every prefix the same name space.\<close>

definition namespace_for_prefix :: "string \<Rightarrow> string \<Rightarrow> string option" where
  "namespace_for_prefix uri prefix = Some uri"

text \<open>Lines said so far, and then a value or an exception.\<close>

type_synonym 'a said = "string list \<times> (xpath_error + 'a)"

definition and_then :: "'a said \<Rightarrow> ('a \<Rightarrow> 'b said) \<Rightarrow> 'b said" where
  "and_then m f = (case m of
     (ls, Inl e) \<Rightarrow> (ls, Inl e)
   | (ls, Inr x) \<Rightarrow> (let (ls', r) = f x in (ls @ ls', r)))"

definition quiet :: "xpath_error + 'a \<Rightarrow> 'a said" where
  "quiet r = ([], r)"

definition header_lines :: "('d, 'n) xpath_lib \<Rightarrow> 'n list \<Rightarrow> string list" where
  "header_lines xp ns = (if ns = [] then [''No nodes returned''] else map (xp_name xp) ns)"

definition listing :: "('d, 'n) xpath_lib \<Rightarrow> 'd \<Rightarrow> 'n list said" where
  "listing xp doc0 =
    and_then (quiet (xp_normalize xp doc0)) (\<lambda>doc.
    and_then (case xp_first_child xp doc of
        None \<Rightarrow> ([], Inl (OtherException UndefinedBehaviour))
      | Some c \<Rightarrow> ([xp_name xp c], Inr ())) (\<lambda>_.
    and_then (quiet (xp_select xp (namespace_for_prefix catalog_uri)
        ''/epsfcatalog:catalog/epsfcatalog:header'' doc)) (\<lambda>headers.
    and_then (header_lines xp headers, Inr ()) (\<lambda>_.
    and_then (quiet (xp_select xp (xp_doc_prefix xp doc) ''/catalog/product'' doc)) (\<lambda>products.
    and_then (quiet (xp_select xp (xp_doc_prefix xp doc) ''/catalog/category'' doc)) (\<lambda>_.
    and_then (quiet (xp_select xp (xp_doc_prefix xp doc) ''/catalog/category-assignment'' doc)) (\<lambda>_.
    and_then (quiet (xp_select xp (xp_doc_prefix xp doc) ''/catalog/recommendation'' doc)) (\<lambda>_.
      ([], Inr products)))))))))"

section \<open>The function\<close>

type_synonym ('d, 'a) listing_action = "('d sf_plugin \<times> string list, 'a) action"

definition on_plugin :: "('d, 'a) sf_action \<Rightarrow> ('d, 'a) listing_action" where
  "on_plugin m = (\<lambda>(s, ls). case m s of (r, s') \<Rightarrow> (r, (s', ls)))"

definition say :: "string list \<Rightarrow> ('d, unit) listing_action" where
  "say ls = modify (\<lambda>(s, ls0). (s, ls0 @ ls))"

text \<open>The list of products is a local variable. The text of the two handlers has no place for the message.
  The document goes with the function, however it is left.\<close>

definition sf_catalog_split ::
  "('g, 'd) xml_lib \<Rightarrow> ('d, 'n) xpath_lib \<Rightarrow> sf_context \<Rightarrow> string \<Rightarrow> ('d, unit) listing_action" where
  "sf_catalog_split l xp x content =
    bnd (on_plugin (parse_str l x content (cx_catalog_xsd x))) (\<lambda>d.
    bnd (on_plugin (shared_doc d)) (\<lambda>doc.
    let (ls, r) = listing xp doc in
    bnd (say ls) (\<lambda>_.
    bnd (on_plugin (case r of
        Inl XercesXPathException \<Rightarrow> log_line SevError ''An error occurred during processing of the XPath expression. Msg is: %s''
      | Inl XercesDomException \<Rightarrow> log_line SevError ''An error occurred during processing of the XPath expression. Msg is: %s''
      | _ \<Rightarrow> ret ())) (\<lambda>_.
    bnd (on_plugin (drop_doc d)) (\<lambda>_.
      case r of Inl (OtherException e) \<Rightarrow> throw e | _ \<Rightarrow> ret ())))))"

section \<open>The walk over one node\<close>

text \<open>A name or a value that cannot be converted to the local code page is none.\<close>

record xa_node =
  xa_element :: bool
  xa_name :: "string option"
  xa_attributes :: "(string option \<times> string option) list option"

definition attribute_lines :: "string option \<times> string option \<Rightarrow> string list" where
  "attribute_lines a = (case a of
     (None, v) \<Rightarrow> [''transcoding failed'']
   | (Some n, None) \<Rightarrow> [''node attribute name '' @ [CHR 0x27] @ ''%s'' @ [CHR 0x27], ''transcoding failed'']
   | (Some n, Some v) \<Rightarrow> [''node attribute name '' @ [CHR 0x27] @ ''%s'' @ [CHR 0x27],
       ''node attribute value '' @ [CHR 0x27] @ ''%s'' @ [CHR 0x27]])"

definition walk_xa_catalog :: "xa_node option \<Rightarrow> string list" where
  "walk_xa_catalog n = (case n of
     None \<Rightarrow> []
   | Some n \<Rightarrow>
      (if xa_element n
       then (case xa_name n of
             None \<Rightarrow> [''transcoding failed'']
           | Some s \<Rightarrow> [''node name '' @ [CHR 0x27] @ ''%s'' @ [CHR 0x27]])
         @ (case xa_attributes n of
             None \<Rightarrow> []
           | Some as \<Rightarrow> ''attribute count %d'' # concat (map attribute_lines as))
       else []))"

section \<open>Facts\<close>

lemma parse_str_split:
  "parse_str l x content p s = (case parse_content l x content p s of
     (Inl e, s') \<Rightarrow> (Inl e, s')
   | (Inr d, s') \<Rightarrow> (Inr (sp_fresh s'), s'\<lparr> sp_docs := (sp_docs s')(sp_fresh s' \<mapsto> d), sp_fresh := sp_fresh s' + 1 \<rparr>))"
  by (simp add: parse_str_def bnd_def new_doc_def split: prod.split sum.split)

text \<open>The parse leaves the counter of addresses.\<close>

definition same_fresh :: "'d sf_plugin \<Rightarrow> 'd sf_plugin \<Rightarrow> bool" where
  "same_fresh s t \<longleftrightarrow> sp_fresh t = sp_fresh s"

interpretation fresh: kept_relation same_fresh
  by unfold_locales (simp_all add: same_fresh_def)

lemma fresh_log: "fresh.kept (log_line v t)"
  by (simp add: fresh.kept_def log_line_def same_fresh_def)

lemma fresh_reports: "fresh.kept (on_reports rs)"
  by (induction rs) (simp_all only: on_reports.simps fresh.kept_ret fresh.kept_bnd on_report_def
      fresh_log severity.splits simp_thms)

lemma fresh_content: "fresh.kept (parse_content l x content p)"
proof -
  have "fresh.kept (load_file q)" "fresh.kept (canonical l q)" for q
    by (auto simp: fresh.kept_def same_fresh_def load_file_def canonical_def split: option.split)
  then show ?thesis unfolding parse_content_def by (intro fresh.kept_cases fresh_reports fresh_log)
qed

section \<open>Properties\<close>

text \<open>The listing changes nothing but the log: whatever the evaluator answers or throws, the contexts, the error
  lists, the files and the documents are as before, and an exception of Xalan, which is none of the two that
  are caught, is thrown on.\<close>

theorem listing_changes_nothing:
  assumes "sp_docs s (sp_fresh s) = None" and "sf_catalog_split l xp x content (s, ls) = (r, (t, ls'))"
  shows "sp_ctx t = sp_ctx s \<and> sp_handlers t = sp_handlers s \<and> sp_files t = sp_files s \<and> sp_docs t = sp_docs s"
proof -
  obtain q s1 where p: "parse_content l x content (cx_catalog_xsd x) s = (q, s1)" by (cases "parse_content l x content (cx_catalog_xsd x) s")
  have keep: "same_errors s s1" "sp_docs s1 = sp_docs s" "sp_fresh s1 = sp_fresh s"
    using same.keptD [OF same_content p] docs.keptD [OF docs_content p] fresh.keptD [OF fresh_content p]
    by (simp_all add: same_docs_def same_fresh_def)
  show ?thesis
  proof (cases q)
    case (Inl e)
    then show ?thesis using assms(2) p keep(1,2)
      by (simp add: sf_catalog_split_def bnd_def on_plugin_def parse_str_split same_errors_def)
  next
    case (Inr d)
    obtain ls1 o1 where li: "listing xp d = (ls1, o1)" by (cases "listing xp d")
    have "sp_ctx t = sp_ctx s1 \<and> sp_handlers t = sp_handlers s1 \<and> sp_files t = sp_files s1 \<and>
        sp_docs t = (sp_docs s1)(sp_fresh s1 := None)"
      using assms(2) p Inr li
      by (cases o1; cases "projl o1")
        (auto simp: sf_catalog_split_def bnd_def on_plugin_def parse_str_split shared_doc_def say_def
          modify_def ret_def throw_def drop_doc_def log_line_def)
    then show ?thesis using keep assms(1) by (auto simp: same_errors_def)
  qed
qed

text \<open>The walk logs no name and no value: the lines are fixed texts, and only their number tells of the node.\<close>

theorem walk_names_nothing:
  "walk_xa_catalog (Some \<lparr> xa_element = e, xa_name = map_option f n, xa_attributes = map_option (map (map_prod (map_option g) (map_option h))) as \<rparr>)
    = walk_xa_catalog (Some \<lparr> xa_element = e, xa_name = n, xa_attributes = as \<rparr>)"
proof -
  have "attribute_lines (map_prod (map_option g) (map_option h) a) = attribute_lines a" for a
    by (cases a; cases "fst a"; cases "snd a") (auto simp: attribute_lines_def)
  then have "attribute_lines \<circ> map_prod (map_option g) (map_option h) = attribute_lines" by (simp add: fun_eq_iff)
  then show ?thesis by (simp add: walk_xa_catalog_def split: option.split)
qed

end
