(* ===== verification/JsExternal.thy ===== *)
theory JsExternal imports JsHost JsConvert "HOL-Library.Multiset" begin

text \<open>
  What C++ hands to the engine to keep (\<open>function.h\<close>): a small value travels in the pointer of an external
  itself, a large one in a block on the heap that goes when the engine has collected the external. Then
  the handles that pass through the converters, and the life of the engine around its contexts
  (\<open>easyprospect-v8.cpp\<close>: \<open>init\<close>, \<open>destroy\<close>, the destructor).
\<close>

section \<open>External data\<close>

text \<open>\<open>ExternalData\<close>: its storage, which holds a value once one was constructed there, and whether its weak
  handle is set.\<close>

record 't external_block =
  xb_value :: "'t option"
  xb_weak :: bool

datatype 't external = ExtPointer 't | ExtAddress nat

record 't external_heap =
  xh_blocks :: "nat \<rightharpoonup> 't external_block"
  xh_fresh :: nat
  xh_destroyed :: "'t list"

definition empty_heap :: "'t external_heap" where
  "empty_heap = \<lparr> xh_blocks = Map.empty, xh_fresh = 0, xh_destroyed = [] \<rparr>"

definition external_new :: "'t external_heap \<Rightarrow> nat \<times> 't external_heap" where
  "external_new h = (xh_fresh h, h\<lparr> xh_blocks := (xh_blocks h)(xh_fresh h \<mapsto> \<lparr> xb_value = None, xb_weak = False \<rparr>),
     xh_fresh := xh_fresh h + 1 \<rparr>)"

text \<open>\<open>delete\<close>: the destructor ends the value only when the handle is set; a block deleted twice is
  undefined behaviour.\<close>

definition external_delete :: "nat \<Rightarrow> 't external_heap \<Rightarrow> ('t external_heap) result" where
  "external_delete a h = (case xh_blocks h a of
     None \<Rightarrow> Inl UndefinedBehaviour
   | Some b \<Rightarrow>
       if xb_weak b then (case xb_value b of
           None \<Rightarrow> Inl UndefinedBehaviour
         | Some v \<Rightarrow> Inr (h\<lparr> xh_blocks := (xh_blocks h)(a := None), xh_destroyed := xh_destroyed h @ [v] \<rparr>))
       else Inr (h\<lparr> xh_blocks := (xh_blocks h)(a := None) \<rparr>))"

text \<open>\<open>ExternalData::set\<close>: the exception is what the value's constructor throws, if it does.\<close>

definition external_set ::
  "cpp_error option \<Rightarrow> 't \<Rightarrow> 't external_heap \<Rightarrow> ('t external result \<times> 't external_heap) result" where
  "external_set ex v h = (let (a, h1) = external_new h in
     case ex of
       Some e \<Rightarrow> rbind (external_delete a h1) (\<lambda>h2. Inr (Inl e, h2))
     | None \<Rightarrow> Inr (Inr (ExtAddress a),
         h1\<lparr> xh_blocks := (xh_blocks h1)(a \<mapsto> \<lparr> xb_value = Some v, xb_weak = True \<rparr>) \<rparr>))"

definition external_get :: "nat \<Rightarrow> 't external_heap \<Rightarrow> 't result" where
  "external_get a h = (case xh_blocks h a of
     None \<Rightarrow> Inl UndefinedBehaviour
   | Some b \<Rightarrow> (case xb_value b of None \<Rightarrow> Inl UndefinedBehaviour | Some v \<Rightarrow> Inr v))"

definition set_external_data ::
  "bool \<Rightarrow> cpp_error option \<Rightarrow> 't \<Rightarrow> 't external_heap \<Rightarrow> ('t external result \<times> 't external_heap) result" where
  "set_external_data small ex v h = (if small then Inr (Inr (ExtPointer v), h) else external_set ex v h)"

fun get_external_data :: "'t external \<Rightarrow> 't external_heap \<Rightarrow> 't result" where
  "get_external_data (ExtPointer v) h = Inr v"
| "get_external_data (ExtAddress a) h = external_get a h"

text \<open>The callback of the weak handle.\<close>

fun external_collected :: "'t external \<Rightarrow> 't external_heap \<Rightarrow> ('t external_heap) result" where
  "external_collected (ExtPointer v) h = Inr h"
| "external_collected (ExtAddress a) h = external_delete a h"

section \<open>The engine's side\<close>

text \<open>The externals the engine was given, until it collects them.\<close>

record 't engine_side =
  es_heap :: "'t external_heap"
  es_held :: "'t external option list"

datatype 't external_event = MakeExternal bool "cpp_error option" 't | CollectExternal nat

definition external_step :: "'t external_event \<Rightarrow> 't engine_side \<Rightarrow> ('t engine_side) result" where
  "external_step e s = (case e of
     MakeExternal small ex v \<Rightarrow> rbind (set_external_data small ex v (es_heap s)) (\<lambda>(r, h).
       Inr (s\<lparr> es_heap := h, es_held := es_held s @ [case r of Inl x \<Rightarrow> None | Inr p \<Rightarrow> Some p] \<rparr>))
   | CollectExternal i \<Rightarrow>
       (if length (es_held s) \<le> i then Inr s
        else case es_held s ! i of
          None \<Rightarrow> Inr s
        | Some p \<Rightarrow> rbind (external_collected p (es_heap s)) (\<lambda>h.
            Inr (s\<lparr> es_heap := h, es_held := (es_held s)[i := None] \<rparr>))))"

fun external_run :: "'t external_event list \<Rightarrow> 't engine_side \<Rightarrow> ('t engine_side) result" where
  "external_run [] s = Inr s"
| "external_run (e # es) s = rbind (external_step e s) (external_run es)"

definition new_engine_side :: "'t engine_side" where
  "new_engine_side = \<lparr> es_heap = empty_heap, es_held = [] \<rparr>"

section \<open>What an ideal engine would hold\<close>

text \<open>The values themselves, each until it is collected, and those that were kept on the heap and ended.\<close>

type_synonym 't ideal = "(bool \<times> 't) option list \<times> 't list"

definition ideal_step :: "'t external_event \<Rightarrow> 't ideal \<Rightarrow> 't ideal" where
  "ideal_step e = (\<lambda>(held, gone). case e of
     MakeExternal small ex v \<Rightarrow> (held @ [if \<not> small \<and> ex \<noteq> None then None else Some (small, v)], gone)
   | CollectExternal i \<Rightarrow>
       (if length held \<le> i then (held, gone)
        else case held ! i of
          None \<Rightarrow> (held, gone)
        | Some (small, v) \<Rightarrow> (held[i := None], if small then gone else gone @ [v])))"

definition stands_for :: "'t external_heap \<Rightarrow> 't external option \<Rightarrow> (bool \<times> 't) option \<Rightarrow> bool" where
  "stands_for h p o' = (case (p, o') of
     (None, None) \<Rightarrow> True
   | (Some (ExtPointer v), Some (True, w)) \<Rightarrow> v = w
   | (Some (ExtAddress a), Some (False, w)) \<Rightarrow> xh_blocks h a = Some \<lparr> xb_value = Some w, xb_weak = True \<rparr>
   | _ \<Rightarrow> False)"

text \<open>The addresses of the blocks, in the order of the externals.\<close>

definition addresses :: "'t external option list \<Rightarrow> nat list" where
  "addresses ps = concat (map (\<lambda>p. case p of Some (ExtAddress a) \<Rightarrow> [a] | _ \<Rightarrow> []) ps)"

definition engine_rel :: "'t engine_side \<Rightarrow> 't ideal \<Rightarrow> bool" where
  "engine_rel s o' = (list_all2 (stands_for (es_heap s)) (es_held s) (fst o') \<and> distinct (addresses (es_held s)) \<and>
     dom (xh_blocks (es_heap s)) = set (addresses (es_held s)) \<and>
     (\<forall>a \<ge> xh_fresh (es_heap s). xh_blocks (es_heap s) a = None) \<and> xh_destroyed (es_heap s) = snd o')"

section \<open>Facts\<close>

lemma addresses_simps [simp]:
  "addresses [] = []" "addresses (ps @ qs) = addresses ps @ addresses qs"
  "addresses (p # ps) = (case p of Some (ExtAddress a) \<Rightarrow> [a] | _ \<Rightarrow> []) @ addresses ps"
  by (simp_all add: addresses_def)

lemma addresses_remove:
  assumes "i < length ps" and "ps ! i = Some (ExtAddress a)" and "distinct (addresses ps)"
  shows "set (addresses (ps[i := None])) = set (addresses ps) - {a} \<and> distinct (addresses (ps[i := None]))"
proof -
  have ps: "ps = take i ps @ Some (ExtAddress a) # drop (Suc i) ps" using assms(1,2) by (metis id_take_nth_drop)
  have new: "ps[i := None] = take i ps @ None # drop (Suc i) ps" using assms(1) by (simp add: upd_conv_take_nth_drop)
  have d: "distinct (addresses (take i ps) @ a # addresses (drop (Suc i) ps))"
    using assms(3) by (subst (asm) ps) simp
  have "addresses ps = addresses (take i ps) @ a # addresses (drop (Suc i) ps)" by (subst ps) simp
  then show ?thesis using d unfolding new by auto
qed

lemma addresses_keep:
  "i < length ps \<Longrightarrow> ps ! i = Some (ExtPointer v) \<Longrightarrow> addresses (ps[i := None]) = addresses ps"
  by (subst (2) id_take_nth_drop [of i ps]) (simp_all add: upd_conv_take_nth_drop)

text \<open>A block that is not of the address changed stands for what it did.\<close>

lemma stands_other:
  assumes "stands_for h p o'" and "\<And>a. p = Some (ExtAddress a) \<Longrightarrow> xh_blocks h' a = xh_blocks h a"
  shows "stands_for h' p o'"
  using assms by (auto simp: stands_for_def split: option.splits external.splits bool.splits prod.splits)

lemma address_mem: "i < length ps \<Longrightarrow> ps ! i = Some (ExtAddress a) \<Longrightarrow> a \<in> set (addresses ps)"
  by (force simp: addresses_def in_set_conv_nth)

lemma stands_none [simp]: "stands_for h None None"
  by (simp add: stands_for_def)

text \<open>On the heap, and not collected.\<close>

definition is_large :: "(bool \<times> 't) option \<Rightarrow> bool" where
  "is_large o' = (case o' of Some (small, v) \<Rightarrow> \<not> small | None \<Rightarrow> False)"

lemma stands_reads:
  assumes "stands_for h p o'"
  shows "map_option (\<lambda>p. get_external_data p h) p = map_option (\<lambda>(small, v). Inr v) o'"
    and "length (addresses [p]) = (if is_large o' then 1 else 0)"
  using assms
  by (cases p; cases o'; cases "the p"; cases "fst (the o')";
      auto simp: stands_for_def external_get_def is_large_def split: bool.splits)+

lemma list_all2_snoc: "list_all2 P xs ys \<Longrightarrow> P x y \<Longrightarrow> list_all2 P (xs @ [x]) (ys @ [y])"
  by (rule list_all2_appendI) simp_all

lemma engine_make:
  assumes "engine_rel s o'"
  shows "\<exists>s'. external_step (MakeExternal small ex v) s = Inr s' \<and> engine_rel s' (ideal_step (MakeExternal small ex v) o')"
proof -
  let ?h = "es_heap s"
  have none: "xh_blocks ?h (xh_fresh ?h) = None" using assms by (simp add: engine_rel_def)
  have fresh: "xh_fresh ?h \<notin> set (addresses (es_held s))" using assms none by (auto simp: engine_rel_def)
  consider "small" | e where "\<not> small" "ex = Some e" | "\<not> small" "ex = None" by (cases ex) auto
  then show ?thesis
  proof cases
    case 1
    then show ?thesis using assms
      by (auto simp: external_step_def set_external_data_def engine_rel_def ideal_step_def stands_for_def
          intro!: list_all2_snoc split: prod.split)
  next
    case 2
    have "(xh_blocks ?h)(xh_fresh ?h := None) = xh_blocks ?h" using none by (simp add: fun_upd_idem)
    moreover have "list_all2 (stands_for h') (es_held s) (fst o')" if "xh_blocks h' = xh_blocks ?h" for h'
      using assms that by (auto simp: engine_rel_def elim!: list_all2_mono stands_other)
    ultimately show ?thesis using assms 2
      by (auto simp: external_step_def set_external_data_def external_set_def external_new_def external_delete_def
          engine_rel_def ideal_step_def stands_for_def Let_def intro!: list_all2_snoc split: prod.split)
  next
    case 3
    let ?h' = "?h\<lparr> xh_fresh := xh_fresh ?h + 1, xh_blocks := (xh_blocks ?h)(xh_fresh ?h \<mapsto> \<lparr> xb_value = Some v, xb_weak = True \<rparr>) \<rparr>"
    have "list_all2 (stands_for ?h') (es_held s) (fst o')"
      unfolding list_all2_conv_all_nth
    proof (intro conjI allI impI)
      fix i assume i: "i < length (es_held s)"
      then have "stands_for ?h (es_held s ! i) (fst o' ! i)" using assms by (simp add: engine_rel_def list_all2_nthD)
      then show "stands_for ?h' (es_held s ! i) (fst o' ! i)"
        by (rule stands_other) (use fresh address_mem [OF i] in auto)
    qed (use assms in \<open>auto simp: engine_rel_def dest: list_all2_lengthD\<close>)
    then show ?thesis using assms 3 fresh
      by (auto simp: external_step_def set_external_data_def external_set_def external_new_def
          engine_rel_def ideal_step_def stands_for_def Let_def intro!: list_all2_snoc split: prod.split)
  qed
qed

lemma engine_collect:
  assumes "engine_rel s o'"
  shows "\<exists>s'. external_step (CollectExternal i) s = Inr s' \<and> engine_rel s' (ideal_step (CollectExternal i) o')"
proof (cases "length (es_held s) \<le> i")
  case True
  then show ?thesis using assms
    by (auto simp: external_step_def ideal_step_def engine_rel_def dest: list_all2_lengthD split: prod.split)
next
  case False
  have l: "length (fst o') = length (es_held s)" using assms by (auto simp: engine_rel_def dest: list_all2_lengthD)
  have st: "stands_for (es_heap s) (es_held s ! j) (fst o' ! j)" if "j < length (es_held s)" for j
    using assms that by (simp add: engine_rel_def list_all2_nthD)
  note sti = st [of i]
  show ?thesis
  proof (cases "es_held s ! i")
    case None
    then have "fst o' ! i = None" using sti False by (auto simp: stands_for_def split: option.splits)
    then show ?thesis using assms False None l
      by (auto simp: external_step_def ideal_step_def split: prod.split)
  next
    case (Some p)
    show ?thesis
    proof (cases p)
      case (ExtPointer v)
      then have o: "fst o' ! i = Some (True, v)"
        using sti False Some by (auto simp: stands_for_def split: option.splits bool.splits)
      show ?thesis using assms False Some ExtPointer o l addresses_keep [of i "es_held s" v]
        by (auto simp: external_step_def ideal_step_def engine_rel_def stands_for_def
            intro!: list_all2_update_cong split: prod.split)
    next
      case (ExtAddress a)
      then obtain v where o: "fst o' ! i = Some (False, v)"
        and b: "xh_blocks (es_heap s) a = Some \<lparr> xb_value = Some v, xb_weak = True \<rparr>"
        using sti False Some by (auto simp: stands_for_def split: option.splits bool.splits)
      let ?h = "es_heap s"
      let ?h' = "?h\<lparr> xh_blocks := (xh_blocks ?h)(a := None), xh_destroyed := xh_destroyed ?h @ [v] \<rparr>"
      have rem: "set (addresses ((es_held s)[i := None])) = set (addresses (es_held s)) - {a}"
        "distinct (addresses ((es_held s)[i := None]))"
        using addresses_remove [of i "es_held s" a] False Some ExtAddress assms by (auto simp: engine_rel_def)
      have "list_all2 (stands_for ?h') ((es_held s)[i := None]) ((fst o')[i := None])"
        unfolding list_all2_conv_all_nth
      proof (intro conjI allI impI)
        fix j assume j: "j < length ((es_held s)[i := None])"
        show "stands_for ?h' ((es_held s)[i := None] ! j) ((fst o')[i := None] ! j)"
        proof (cases "j = i")
          case True
          then show ?thesis using j l by (simp add: stands_for_def)
        next
          case jn: False
          have "((es_held s)[i := None]) ! j = Some (ExtAddress a') \<Longrightarrow> a' \<noteq> a" for a'
            using address_mem [of j "(es_held s)[i := None]" a'] j rem(1) by auto
          then show ?thesis using st [of j] j jn by (auto intro: stands_other)
        qed
      qed (simp add: l)
      then show ?thesis using assms False Some ExtAddress o b l rem
        by (auto simp: external_step_def ideal_step_def external_delete_def engine_rel_def split: prod.split)
    qed
  qed
qed

section \<open>Handles that pass through\<close>

text \<open>The converter of handles: a cast that checks nothing but that there is a value.\<close>

definition conv_local :: "jsv converter" where
  "conv_local = \<lparr> cv_valid = (\<lambda>v. v \<noteq> VEmpty), cv_from = Inr, cv_to = Inr \<rparr>"

section \<open>The life of the engine\<close>

datatype engine_phase = EngineFresh | EngineRunning | EngineDisposed

record v8_process =
  vp_phase :: engine_phase
  vp_icu :: "string list"

text \<open>\<open>init\<close> looks for the ICU data beside the program or in the working directory; a second start, or
  one after the end, is refused by the engine, which ends the process.\<close>

definition host_init :: "string option \<Rightarrow> string \<Rightarrow> v8_process \<Rightarrow> (nat \<times> v8_process) result" where
  "host_init exec_path cwd p = (if vp_phase p = EngineFresh
     then Inr (0, p\<lparr> vp_phase := EngineRunning,
       vp_icu := vp_icu p @ [case exec_path of Some e \<Rightarrow> e | None \<Rightarrow> cwd] \<rparr>)
     else Inl AssertionFailed)"

definition host_destroy :: "v8_process \<Rightarrow> v8_process" where
  "host_destroy p = p\<lparr> vp_phase := EngineDisposed \<rparr>"

definition host_end :: "'c js_host \<Rightarrow> 'c js_host" where
  "host_end h = h\<lparr> jh_contexts := Map.empty \<rparr>"

text \<open>The casts of values, which the engine does not check in a release.\<close>

definition value_to_number :: "(32 word \<Rightarrow> 'f) \<Rightarrow> 'f js_value \<Rightarrow> 'f result" where
  "value_to_number of_int32 v = (case v of
     JsNumber x \<Rightarrow> Inr x | JsInt32 i \<Rightarrow> Inr (of_int32 i) | _ \<Rightarrow> Inl UndefinedBehaviour)"

definition value_to_int32 :: "'f js_value \<Rightarrow> (32 word) result" where
  "value_to_int32 v = (case v of JsInt32 i \<Rightarrow> Inr i | _ \<Rightarrow> Inl UndefinedBehaviour)"

definition value_to_boolean :: "('f js_value \<Rightarrow> bool) \<Rightarrow> 'f js_value \<Rightarrow> bool" where
  "value_to_boolean truthy v = truthy v"

section \<open>Properties\<close>

text \<open>C37: What C++ gives the engine is there as long as the engine holds it, and ends once. Whatever values are
  handed over, in a pointer or on the heap, with constructors that throw or not, and in whatever order
  the engine collects them, no step is undefined, every external that is still held reads back the value
  it was made of, the values ended are those of the large ones collected, in that order, each
  once, and no block is left over but those of the externals held.\<close>

theorem externals_kept:
  "\<exists>s. external_run es new_engine_side = Inr s \<and>
    (let (held, gone) = fold ideal_step es ([], []) in
      map (map_option (\<lambda>p. get_external_data p (es_heap s))) (es_held s) = map (map_option (\<lambda>(small, v). Inr v)) held \<and>
      xh_destroyed (es_heap s) = gone \<and>
      card (dom (xh_blocks (es_heap s))) = length (filter is_large held))"
proof -
  have run: "\<exists>s'. external_run es s = Inr s' \<and> engine_rel s' (fold ideal_step es o')"
    if "engine_rel s o'" for s :: "'a engine_side" and o'
    using that
  proof (induction es arbitrary: s o')
    case (Cons e es)
    obtain s1 where "external_step e s = Inr s1" "engine_rel s1 (ideal_step e o')"
      using engine_make [OF Cons.prems] engine_collect [OF Cons.prems] by (cases e) blast+
    then show ?case using Cons.IH by simp
  qed simp
  obtain s where s: "external_run es new_engine_side = Inr s" "engine_rel s (fold ideal_step es ([], []))"
    using run [of new_engine_side "([], [])"] by (auto simp: engine_rel_def new_engine_side_def empty_heap_def)
  obtain held gone where o: "fold ideal_step es ([], []) = (held, gone)" by (cases "fold ideal_step es ([], [])")
  have all: "list_all2 (stands_for (es_heap s)) (es_held s) held" using s(2) o by (simp add: engine_rel_def)
  have reads: "map (map_option (\<lambda>p. get_external_data p (es_heap s))) ps = map (map_option (\<lambda>(small, v). Inr v)) hs \<and>
      length (addresses ps) = length (filter is_large hs)"
    if "list_all2 (stands_for (es_heap s)) ps hs" for ps hs
    using that
  proof (induction rule: list_all2_induct)
    case (Cons p ps o1 hs)
    then show ?case using stands_reads [OF Cons.hyps(1)] by simp
  qed simp
  have "card (dom (xh_blocks (es_heap s))) = length (addresses (es_held s))"
    using s(2) by (simp add: engine_rel_def distinct_card)
  then have "map (map_option (\<lambda>p. get_external_data p (es_heap s))) (es_held s) = map (map_option (\<lambda>(small, v). Inr v)) held \<and>
      xh_destroyed (es_heap s) = gone \<and>
      card (dom (xh_blocks (es_heap s))) = length (filter is_large held)"
    using reads [OF all] s(2) o by (simp add: engine_rel_def)
  then show ?thesis using s(1) unfolding o by (intro exI [of _ s]) simp
qed

text \<open>The engine starts once in a process.\<close>

theorem engine_starts_once:
  "host_init e cwd p = Inr (n, p') \<Longrightarrow> host_init e' cwd' p' = Inl AssertionFailed \<and>
    host_init e' cwd' (host_destroy p') = Inl AssertionFailed"
  by (auto simp: host_init_def host_destroy_def split: if_splits)

end
