(* ===== verification/Plugins.thy ===== *)
theory Plugins imports EpPrelude begin

text \<open>
  What a plug-in is (\<open>easyprospect-plugin.h\<close>, \<open>easyprospect-v8-plugin.h\<close>, \<open>easyprospect-service-plugin.h\<close>),
  the two there are, and what the print plug-in puts into the scope of the scripts
  (\<open>easyprospect-v8-plugin-print-console.cpp\<close>). How the engine's binding library makes classes callable is its own.
\<close>

datatype plugin_type_id = PLUGIN_NONE | PLUGIN_V8_PRINT_CONSOLE | PLUGIN_SRV_SALESFORCE

fun plugin_type_value :: "plugin_type_id \<Rightarrow> int" where
  "plugin_type_value PLUGIN_NONE = 0"
| "plugin_type_value PLUGIN_V8_PRINT_CONSOLE = 1"
| "plugin_type_value PLUGIN_SRV_SALESFORCE = 2"

datatype plugin_category = TYPE_NONE | TYPE_PRINT | TYPE_SERVICE

fun plugin_category_value :: "plugin_category \<Rightarrow> int" where
  "plugin_category_value TYPE_NONE = 0"
| "plugin_category_value TYPE_PRINT = 1"
| "plugin_category_value TYPE_SERVICE = 2"

record 'u plugin =
  pi_name :: string
  pi_category :: plugin_category
  pi_type_id :: plugin_type_id
  pi_id :: 'u

definition new_plugin_object :: "string \<Rightarrow> plugin_category \<Rightarrow> plugin_type_id \<Rightarrow> 'u \<Rightarrow> 'u plugin" where
  "new_plugin_object n c t i = \<lparr> pi_name = n, pi_category = c, pi_type_id = t, pi_id = i \<rparr>"

definition print_console_plugin :: "'u \<Rightarrow> 'u plugin" where
  "print_console_plugin fresh = new_plugin_object ''Console Print Plugin'' TYPE_PRINT PLUGIN_V8_PRINT_CONSOLE fresh"

definition salesforce_plugin :: "'u \<Rightarrow> 'u plugin" where
  "salesforce_plugin fresh = new_plugin_object ''Service Salesforce Plugin'' TYPE_SERVICE PLUGIN_SRV_SALESFORCE fresh"

section \<open>The scope of the scripts\<close>

text \<open>What the binding library is told: modules with members, and classes with methods.\<close>

datatype 'f js_member = JsModule "(string \<times> 'f js_member) list" | JsClass "(string \<times> 'f) list"

datatype native = NativePrint

fun set_member :: "string \<Rightarrow> 'a \<Rightarrow> (string \<times> 'a) list \<Rightarrow> (string \<times> 'a) list" where
  "set_member n v [] = [(n, v)]"
| "set_member n v ((m, w) # ms) = (if m = n then (n, v) # ms else (m, w) # set_member n v ms)"

definition register_print_console ::
  "(string \<rightharpoonup> native js_member) \<Rightarrow> (string \<rightharpoonup> native js_member)" where
  "register_print_console globals =
    (let print_console = JsClass (set_member ''print'' NativePrint []);
         printlib = JsModule (set_member ''out'' print_console [])
     in globals(''console'' \<mapsto> printlib))"

text \<open>\<open>register_plugin\<close> of the Salesforce plug-in does nothing.\<close>

definition register_salesforce :: "(string \<rightharpoonup> native js_member) \<Rightarrow> (string \<rightharpoonup> native js_member)" where
  "register_salesforce globals = globals"

definition print_debug :: "string \<Rightarrow> string list \<Rightarrow> string list" where
  "print_debug s log = log @ [s]"

section \<open>Properties\<close>

text \<open>After the registration a script finds the method under \<open>console.out\<close> and not under \<open>console\<close> itself, so the
  engine's own \<open>console.log\<close> is gone; nothing else in the scope changes, and a second registration changes nothing.\<close>

theorem console_replaced:
  "(case register_print_console g ''console'' of
      Some (JsModule ms) \<Rightarrow> map_of ms ''log'' = None \<and> map_of ms ''out'' = Some (JsClass [(''print'', NativePrint)])
    | _ \<Rightarrow> False) \<and>
   (n = ''console'' \<or> register_print_console g n = g n) \<and>
   register_print_console (register_print_console g) = register_print_console g"
  by (simp add: register_print_console_def)

end
