(* ===== verification/Lobby.thy ===== *)
theory Lobby imports Channels WsSession begin

text \<open>
  The lobby from end to end: a text frame of a client, as the read loop of its WebSocket session gets it
  (\<open>session.hpp\<close>), through the JSON-RPC call (\<open>rpc.cpp\<close>) and the channels (\<open>ws-user.cpp\<close>), to the bytes in the
  queues of the sessions that are told of it (\<open>message.cpp\<close>). The theories of these parts are put together here;
  the parser and the printer of JSON are arguments.
\<close>

section \<open>State\<close>

record lobby_lib =
  lb_json :: json_lib
  lb_parse :: "string \<Rightarrow> json option"
  lb_dump :: "json \<Rightarrow> string"

text \<open>The channels and users, with the queue of each session.\<close>

record lobby = lounge +
  lb_queue :: "nat \<Rightarrow> string ws_queue"

text \<open>A message reaches its session: \<open>make_message\<close>, then the queue.\<close>

definition deliver :: "(json \<Rightarrow> string) \<Rightarrow> nat \<times> json \<Rightarrow> lobby \<Rightarrow> lobby result" where
  "deliver dump sj lg = (case sj of (s, j) \<Rightarrow>
     rbind (make_message dump j) (\<lambda>m. rbind (do_send m (lb_queue lg s)) (\<lambda>q.
       Inr (lg\<lparr> lb_queue := (lb_queue lg)(s := q) \<rparr>))))"

fun deliver_all :: "(json \<Rightarrow> string) \<Rightarrow> (nat \<times> json) list \<Rightarrow> lobby \<Rightarrow> lobby result" where
  "deliver_all dump [] lg = Inr lg"
| "deliver_all dump (x # xs) lg = rbind (deliver dump x lg) (deliver_all dump xs)"

text \<open>A frame: the channels say what is sent, and the read loop adds the answer to an error.\<close>

definition outgoing :: "nat \<Rightarrow> lobby \<Rightarrow> lobby \<Rightarrow> json option \<Rightarrow> (nat \<times> json) list" where
  "outgoing s lg lg' answer = drop (length (lg_sent lg)) (lg_sent lg') @
     (case answer of None \<Rightarrow> [] | Some j \<Rightarrow> [(s, j)])"

definition on_frame :: "lobby_lib \<Rightarrow> nat \<Rightarrow> string \<Rightarrow> lobby \<Rightarrow> lobby ws_outcome" where
  "on_frame l s frame lg =
    (case ws_on_message (lb_json l) (\<lambda>rpc lg. list_dispatch (lb_json l) lobby_vtable s rpc lg) (lb_parse l frame) lg of
       WsContinue lg' answer \<Rightarrow>
         (case deliver_all (lb_dump l) (outgoing s lg lg' answer) lg' of
            Inl e \<Rightarrow> WsCrash e
          | Inr lg'' \<Rightarrow> WsContinue lg'' answer)
     | WsClosed lg' \<Rightarrow> WsClosed lg'
     | WsCrash e \<Rightarrow> WsCrash e)"

section \<open>Facts\<close>

text \<open>What a session has been given, written or still waiting.\<close>

definition given :: "nat \<Rightarrow> lobby \<Rightarrow> string multiset" where
  "given s lg = mset (wq_written (lb_queue lg s)) + mset (wq_mq (lb_queue lg s))"

definition lobby_ok :: "lobby \<Rightarrow> bool" where
  "lobby_ok lg \<longleftrightarrow> (\<forall>s. ws_inv (lb_queue lg s))"

definition sent_to :: "nat \<Rightarrow> (nat \<times> json) list \<Rightarrow> json list" where
  "sent_to s xs = map snd (filter (\<lambda>x. fst x = s) xs)"

lemma sent_to_simps [simp]:
  "sent_to s [] = []" "sent_to s (xs @ ys) = sent_to s xs @ sent_to s ys"
  "sent_to s ((t, j) # xs) = (if t = s then [j] else []) @ sent_to s xs"
  by (simp_all add: sent_to_def)

lemma deliver_ok:
  assumes "lobby_ok lg"
  shows "if message_buffer < length (dump j) + 1 then deliver dump (s, j) lg = Inl UndefinedBehaviour
    else (\<exists>lg'. deliver dump (s, j) lg = Inr lg' \<and> lobby_ok lg' \<and> lounge.truncate lg' = lounge.truncate lg \<and>
      (\<forall>t. wq_open (lb_queue lg' t) = wq_open (lb_queue lg t)) \<and>
      (\<forall>t. given t lg' = given t lg + (if t = s \<and> wq_open (lb_queue lg t) then {#dump j#} else {#})))"
proof -
  obtain q where q: "do_send (dump j) (lb_queue lg s) = Inr q" "ws_inv q" "wq_written q = wq_written (lb_queue lg s)"
    "wq_open q = wq_open (lb_queue lg s)"
    "mset (wq_mq q) = mset (wq_mq (lb_queue lg s)) + (if wq_open (lb_queue lg s) then {#dump j#} else {#})"
    using ws_inv_send [of "lb_queue lg s" "dump j"] assms by (auto simp: lobby_ok_def)
  then show ?thesis using assms
    by (simp add: deliver_def make_message_def lobby_ok_def given_def lounge.truncate_def)
qed

text \<open>Everything is delivered, unless a text does not fit.\<close>

lemma deliver_all_ok:
  assumes "lobby_ok lg"
  shows "if list_ex (\<lambda>(s, j). message_buffer < length (dump j) + 1) xs
    then deliver_all dump xs lg = Inl UndefinedBehaviour
    else (\<exists>lg'. deliver_all dump xs lg = Inr lg' \<and> lobby_ok lg' \<and> lounge.truncate lg' = lounge.truncate lg \<and>
      (\<forall>t. given t lg' = given t lg + (if wq_open (lb_queue lg t) then mset (map dump (sent_to t xs)) else {#})))"
  using assms
proof (induction xs arbitrary: lg)
  case (Cons x xs)
  obtain s j where x: "x = (s, j)" by (cases x)
  show ?case
  proof (cases "message_buffer < length (dump j) + 1")
    case True
    then show ?thesis using deliver_ok [OF Cons.prems, of dump j s] by (simp add: x)
  next
    case False
    then obtain lg1 where d: "deliver dump (s, j) lg = Inr lg1" "lobby_ok lg1" "lounge.truncate lg1 = lounge.truncate lg"
      "\<forall>t. wq_open (lb_queue lg1 t) = wq_open (lb_queue lg t)"
      "\<forall>t. given t lg1 = given t lg + (if t = s \<and> wq_open (lb_queue lg t) then {#dump j#} else {#})"
      using deliver_ok [OF Cons.prems, of dump j s] by auto
    show ?thesis
    proof (cases "list_ex (\<lambda>(s, j). message_buffer < length (dump j) + 1) xs")
      case True
      then show ?thesis using Cons.IH [OF d(2)] d(1) by (simp add: x)
    next
      case f: False
      then obtain lg2 where "deliver_all dump xs lg1 = Inr lg2" "lobby_ok lg2" "lounge.truncate lg2 = lounge.truncate lg1"
        "\<forall>t. given t lg2 = given t lg1 + (if wq_open (lb_queue lg1 t) then mset (map dump (sent_to t xs)) else {#})"
        using Cons.IH [OF d(2)] by auto
      then show ?thesis using d f False by (auto simp: x)
    qed
  qed
qed simp

text \<open>What a request to a room or to the system channel sends: events without an id, and at its end the answer.\<close>

definition is_event :: "json \<Rightarrow> bool" where
  "is_event j \<longleftrightarrow> jfind ''id'' j = None"

lemma event_json_event [simp]: "is_event (event_json v cid s lg)"
  by (simp add: is_event_def event_json_def)

definition answers_call :: "nat \<Rightarrow> rpc_call \<Rightarrow> lobby \<Rightarrow> lobby \<times> unit handler \<Rightarrow> bool" where
  "answers_call s rpc lg r = (case snd r of
     Inl e \<Rightarrow> lg_sent (fst r) = lg_sent lg
   | Inr _ \<Rightarrow> \<exists>es. list_all (\<lambda>(t, j). is_event j) es \<and> lg_sent (fst r) = lg_sent lg @ es @
       (case complete rpc of None \<Rightarrow> [] | Some j \<Rightarrow> if lg_attached lg s then [(s, j)] else []))"

definition only_events :: "lobby \<Rightarrow> lobby \<Rightarrow> bool" where
  "only_events lg lg' \<longleftrightarrow> lg_attached lg' = lg_attached lg \<and>
     (\<exists>es. lg_sent lg' = lg_sent lg @ es \<and> list_all (\<lambda>(t, j). is_event j) es)"

lemma only_events_trans: "only_events lg lg1 \<Longrightarrow> only_events lg1 lg2 \<Longrightarrow> only_events lg lg2"
  unfolding only_events_def by (metis append.assoc list_all_append)

lemma only_events_same: "lg_attached lg' = lg_attached lg \<Longrightarrow> lg_sent lg' = lg_sent lg \<Longrightarrow> only_events lg lg'"
  by (simp add: only_events_def)

lemma only_events_send: "is_event j \<Longrightarrow> only_events lg (session_send t j lg)" "is_event j \<Longrightarrow> only_events lg (chan_send cid j lg)"
  by (auto simp: only_events_def session_send_def list_all_iff)

lemma answers_reply: "only_events lg lg1 \<Longrightarrow> answers_call s rpc lg (reply rpc s lg1, Inr ())"
  by (auto simp: only_events_def answers_call_def reply_sent cong: option.case_cong)

text \<open>The hooks of these channels send nothing.\<close>

definition silent_vtable :: "lobby channel_vtable \<Rightarrow> bool" where
  "silent_vtable vt \<longleftrightarrow> (\<forall>cid s lg. vt_on_insert vt cid s lg = lg \<and> vt_on_erase vt cid s lg = lg)"

lemma silent_lobby [simp]: "silent_vtable (lobby_vtable k)" "silent_vtable system_base" "silent_vtable room_vtable"
  "silent_vtable system_vtable"
  by (simp_all add: silent_vtable_def lobby_vtable_def room_vtable_def system_base_def system_vtable_def)

lemma insert_events: "silent_vtable vt \<Longrightarrow> only_events lg (snd (chan_insert vt cid s lg))"
  by (auto simp: chan_insert_def silent_vtable_def Let_def
      intro: only_events_same only_events_trans [OF only_events_same only_events_send(2)])

lemma erase_events: "silent_vtable vt \<Longrightarrow> only_events lg (snd (chan_erase vt cid s lg))"
  by (auto simp: chan_erase_def silent_vtable_def Let_def
      intro: only_events_same only_events_trans [OF only_events_trans [OF only_events_same only_events_send(2)] only_events_send(1)])

lemma refused_same: "\<not> fst (chan_insert vt cid s lg) \<Longrightarrow> snd (chan_insert vt cid s lg) = lg"
  "\<not> fst (chan_erase vt cid s lg) \<Longrightarrow> snd (chan_erase vt cid s lg) = lg"
  by (auto simp: chan_insert_def chan_erase_def Let_def split: if_splits)

lemma answers_fail: "answers_call s rpc lg (lg, Inl e)"
  by (simp add: answers_call_def)

lemma answers_join: "silent_vtable vt \<Longrightarrow> answers_call s rpc lg (do_join vt cid rpc s lg)"
  using insert_events [of vt lg cid s] refused_same(1) [of vt cid s lg]
  by (auto simp: do_join_def rpc_fail_def answers_fail answers_reply split: prod.split bool.split)

lemma answers_leave: "silent_vtable vt \<Longrightarrow> answers_call s rpc lg (do_leave vt cid rpc s lg)"
  using erase_events [of vt lg cid s] refused_same(2) [of vt cid s lg]
  by (auto simp: do_leave_def rpc_fail_def answers_fail answers_reply split: prod.split bool.split)

lemma answers_say: "answers_call s rpc lg (do_say cid rpc s lg)"
  by (auto simp: do_say_def rpc_fail_def Let_def is_event_def answers_fail split: sum.split
      intro!: answers_reply only_events_send)

lemma answers_identify:
  assumes "silent_vtable vt"
  shows "answers_call s rpc lg (do_identify vt cid rpc s lg)"
proof -
  have "only_events lg (snd (chan_insert vt cid s (lg\<lparr> lg_name := f \<rparr>)))" for f
    by (rule only_events_trans [OF only_events_same insert_events [OF assms]]) simp_all
  then show ?thesis by (auto simp: do_identify_def rpc_fail_def Let_def answers_fail answers_reply split: sum.split)
qed

lemma answers_app: "answers_call s rpc lg (reply rpc s (lg\<lparr> lg_app := a \<rparr>), Inr ())"
  by (intro answers_reply only_events_same) simp_all

lemma answers_dispatch: "answers_call s rpc lg (list_dispatch l lobby_vtable s rpc lg)"
proof -
  have "answers_call s rpc lg (vt_on_dispatch (lobby_vtable k) cid rpc s lg)" for k cid
    by (simp add: lobby_vtable_def room_on_dispatch_def system_on_dispatch_def do_shutdown_def do_stop_def
        rpc_fail_code_def answers_say answers_identify answers_app answers_fail)
  then have "answers_call s rpc lg (chan_dispatch (lobby_vtable k) cid rpc s lg)" for k cid
    by (simp add: chan_dispatch_def answers_join answers_leave)
  then show ?thesis by (simp add: list_dispatch_def answers_fail split: sum.split option.split)
qed

text \<open>The answer to an error has the id of the call.\<close>

lemma error_answer: "rpc_id c = Some i \<Longrightarrow> 0 \<le> i \<Longrightarrow> \<exists>j. complete_error e c = Some j \<and> jfind ''id'' j = Some (JInt i)"
  by (simp add: complete_error_def error_to_json_def)

lemma extract_keeps_id:
  assumes "rpc_extract l jv new_rpc_call = (c, r)" and "is_object jv" and "jl_int l (jindex ''id'' jv) = Some i"
  shows "rpc_id c = Some i"
  using assms by (auto simp: rpc_extract_def dest: extract_version_id)

text \<open>A frame with a call of id \<open>i\<close> that does not end the worker: events and one answer.\<close>

lemma outgoing_answer:
  assumes "is_object jv" and "jl_int (lb_json l) (jindex ''id'' jv) = Some i" and "0 \<le> i" and "lg_attached lg s"
    and "ws_on_message (lb_json l) (\<lambda>rpc lg. list_dispatch (lb_json l) lobby_vtable s rpc lg) (Some jv) lg = WsContinue lg' answer"
  obtains es j where "outgoing s lg lg' answer = es @ [(s, j)]" and "list_all (\<lambda>(t, j). is_event j) es"
    and "jfind ''id'' j = Some (JInt i)"
proof -
  obtain c r where e: "rpc_extract (lb_json l) jv new_rpc_call = (c, r)" by fastforce
  have id: "rpc_id c = Some i" by (rule extract_keeps_id [OF e assms(1,2)])
  show thesis
  proof (cases r)
    case (ExtractError k)
    then have "lg' = lg" "answer = complete_error (rpc_error_msg invalid_request (rpc_message (rpc_code_value k))) c"
      using assms(5) e by (simp_all add: ws_on_message_def)
    moreover obtain j where "complete_error (rpc_error_msg invalid_request (rpc_message (rpc_code_value k))) c = Some j"
      "jfind ''id'' j = Some (JInt i)" using error_answer [OF id assms(3)] by blast
    ultimately show thesis using that [of "[]" j] by (simp add: outgoing_def)
  next
    case ExtractOk
    obtain q h where d: "list_dispatch (lb_json l) lobby_vtable s c lg = (q, h)" by fastforce
    note a = answers_dispatch [of s c lg "lb_json l", unfolded d]
    show thesis
    proof (cases h)
      case (Inr u)
      then have o: "lg' = q" "answer = None" using assms(5) e d ExtractOk by (simp_all add: ws_on_message_def)
      obtain es where "list_all (\<lambda>(t, j). is_event j) es"
        "lg_sent q = lg_sent lg @ es @ (case complete c of None \<Rightarrow> [] | Some j \<Rightarrow> if lg_attached lg s then [(s, j)] else [])"
        using a Inr by (auto simp: answers_call_def)
      then show thesis using o id assms(4) that [of es] by (simp add: outgoing_def complete_def)
    next
      case (Inl x)
      then obtain err where x: "x = RpcFail err" "lg' = q" "answer = complete_error err c"
        using assms(5) e d ExtractOk by (cases x) (simp_all add: ws_on_message_def)
      have "lg_sent q = lg_sent lg" using a Inl by (simp add: answers_call_def)
      moreover obtain j where "complete_error err c = Some j" "jfind ''id'' j = Some (JInt i)"
        using error_answer [OF id assms(3)] by blast
      ultimately show thesis using x that [of "[]" j] by (simp add: outgoing_def)
    qed
  qed (use assms(5) e in \<open>simp add: ws_on_message_def\<close>)
qed

text \<open>The queues are not touched by the channels.\<close>

lemma queue_frame [simp]:
  "lb_queue (session_send s j lg) = lb_queue lg" "lb_queue (set_sessions cid xs lg) = lb_queue lg"
  "lb_queue (reply rpc s lg) = lb_queue lg"
  by (simp_all add: session_send_def set_sessions_def reply_def split: option.split)

lemma queue_chan_send [simp]: "lb_queue (chan_send cid j lg) = lb_queue lg"
proof -
  have "lb_queue (fold (\<lambda>s. session_send s j) xs lg) = lb_queue lg" for xs
    by (induction xs arbitrary: lg) simp_all
  then show ?thesis by (simp add: chan_send_def)
qed

lemma queue_insert:
  "silent_vtable vt \<Longrightarrow> lb_queue (snd (chan_insert vt cid s lg)) = lb_queue lg"
  "silent_vtable vt \<Longrightarrow> lb_queue (snd (chan_erase vt cid s lg)) = lb_queue lg"
  by (simp_all add: chan_insert_def chan_erase_def silent_vtable_def Let_def)

lemma queue_dispatch: "lb_queue (fst (list_dispatch l lobby_vtable s rpc lg)) = lb_queue lg"
  for lg :: lobby
proof -
  have i: "lb_queue (fst (do_join vt cid rpc s lg)) = lb_queue lg" "lb_queue (fst (do_leave vt cid rpc s lg)) = lb_queue lg"
    if "silent_vtable vt" for vt cid
    using queue_insert [OF that, of cid s lg]
    by (auto simp: do_join_def do_leave_def split: prod.split bool.split)
  have n: "lb_queue (fst (do_identify system_base cid rpc s lg)) = lb_queue lg" for cid
    using queue_insert(1) [of system_base cid s "lg\<lparr> lg_name := _ \<rparr>"]
    by (simp add: do_identify_def Let_def split: sum.split)
  have "lb_queue (fst (vt_on_dispatch (lobby_vtable k) cid rpc s lg)) = lb_queue lg" for k cid
    using n by (simp add: lobby_vtable_def room_on_dispatch_def system_on_dispatch_def do_shutdown_def do_stop_def
        do_say_def Let_def split: sum.split)
  then show ?thesis using i
    by (simp add: list_dispatch_def chan_dispatch_def split: sum.split option.split)
qed

lemma queue_message:
  "ws_on_message l (\<lambda>rpc lg. list_dispatch l lobby_vtable s rpc lg) p lg = WsContinue lg' answer \<Longrightarrow> lb_queue lg' = lb_queue lg"
  for lg :: lobby
  using queue_dispatch [of l s _ lg]
  by (auto simp: ws_on_message_def split: option.splits prod.splits extract_outcome.splits sum.splits rpc_exn.splits)
    (metis fst_conv)+

section \<open>Properties\<close>

text \<open>C7: In the lobby a call is answered once. Let the write queues be well formed, let a frame parse to a JSON object whose
  id the parser reads as an integer that is not negative, and let its session be attached and its queue open. Whatever
  else the call holds, well formed or not, permitted or not, for a room, the system channel or no channel at all: unless
  handling the frame ends the worker, what the session's queue is given beyond what it had is, as a multiset, exactly one text
  with that id and otherwise events; every other session is given events only; and the queues stay well formed. In what order
  a queue is written, and whether its writes succeed, is not said here.\<close>

theorem call_answered_once:
  assumes "lobby_ok lg" and "lb_parse l frame = Some jv" and "is_object jv"
    and "jl_int (lb_json l) (jindex ''id'' jv) = Some i" and "0 \<le> i" and "lg_attached lg s" and "wq_open (lb_queue lg s)"
    and "on_frame l s frame lg = WsContinue lg' answer"
  shows "lobby_ok lg' \<and>
    (\<exists>es j. list_all is_event es \<and> jfind ''id'' j = Some (JInt i) \<and>
      given s lg' = given s lg + mset (map (lb_dump l) (es @ [j]))) \<and>
    (\<forall>t. t \<noteq> s \<longrightarrow> (\<exists>es. list_all is_event es \<and> given t lg' = given t lg + mset (map (lb_dump l) es)))"
proof -
  let ?on = "ws_on_message (lb_json l) (\<lambda>rpc lg. list_dispatch (lb_json l) lobby_vtable s rpc lg) (Some jv) lg"
  obtain lg1 ans where m: "?on = WsContinue lg1 ans" using assms(2,8) by (simp add: on_frame_def split: ws_outcome.splits)
  obtain es j where o: "outgoing s lg lg1 ans = es @ [(s, j)]" "list_all (\<lambda>(t, j). is_event j) es"
    "jfind ''id'' j = Some (JInt i)"
    by (rule outgoing_answer [OF assms(3-6) m])
  have q: "lb_queue lg1 = lb_queue lg" by (rule queue_message [OF m])
  have ok: "lobby_ok lg1" using assms(1) q by (simp add: lobby_ok_def)
  have "deliver_all (lb_dump l) (es @ [(s, j)]) lg1 = Inr lg'"
    using assms(2,8) m o(1) by (simp add: on_frame_def split: sum.splits)
  then have d: "lobby_ok lg'" "\<forall>t. given t lg' = given t lg1 +
      (if wq_open (lb_queue lg1 t) then mset (map (lb_dump l) (sent_to t (es @ [(s, j)]))) else {#})"
    using deliver_all_ok [OF ok, of "lb_dump l" "es @ [(s, j)]"] by (auto split: if_splits)
  have g: "given t lg1 = given t lg" for t using q by (simp add: given_def)
  have ev: "list_all is_event (sent_to t es)" for t
    using o(2) by (auto simp: sent_to_def list_all_iff)
  have "given s lg' = given s lg + mset (map (lb_dump l) (sent_to s es @ [j]))" using d(2) g q assms(7) by simp
  moreover have "\<exists>es'. list_all is_event es' \<and> given t lg' = given t lg + mset (map (lb_dump l) es')" if "t \<noteq> s" for t
    using d(2) g q that ev [of t]
    by (cases "wq_open (lb_queue lg t)") (auto intro: exI [of _ "sent_to t es"] exI [of _ "[]"])
  ultimately show ?thesis using d(1) ev o(3) by blast
qed

definition say_json :: "int \<Rightarrow> string \<Rightarrow> json" where
  "say_json i t = JObj [(''jsonrpc'', JStr ''2.0''), (''id'', JInt i), (''method'', JStr ''say''),
     (''params'', JObj [(''cid'', JInt 2), (''message'', JStr t)])]"

definition sample_lobby :: lobby where
  "sample_lobby = lounge.extend sample_lounge \<lparr> lb_queue = (\<lambda>_. new_ws_queue) \<rparr>"

definition sample_lib :: "(json \<Rightarrow> string) \<Rightarrow> string \<Rightarrow> lobby_lib" where
  "sample_lib dump t = \<lparr> lb_json = simple_json_lib, lb_parse = (\<lambda>_. Some (say_json 5 t)), lb_dump = dump \<rparr>"

lemmas lobby_defs = on_frame_def ws_on_message_def rpc_extract_def extract_version_def extract_check_id_def
  extract_method_def extract_params_def jindex_def list_dispatch_def checked_value_def checked_object_def
  checked_string_def checked_text_def chan_dispatch_def lobby_vtable_def room_on_dispatch_def do_say_def
  is_joined_def outgoing_def new_rpc_call_def

lemma sample_lobby_simps [simp]:
  "chan_at 2 sample_lobby = chan_at 2 sample_lounge" "sessions_of 2 sample_lobby = [4]"
  "lg_name sample_lobby = lg_name sample_lounge" "lg_attached sample_lobby s" "lb_queue sample_lobby s = new_ws_queue"
  "lg_sent sample_lobby = []"
  by (simp_all add: sample_lobby_def lounge.extend_def chan_at_def sessions_of_def sample_lounge_def)

lemma sample_say_outcome:
  "ws_on_message simple_json_lib (\<lambda>rpc lg. list_dispatch simple_json_lib lobby_vtable 4 rpc lg) (Some (say_json 5 t)) sample_lobby =
    WsContinue (reply \<lparr> rpc_id = Some 5, rpc_version = 2, rpc_method = ''say'', rpc_params = JObj [(''cid'', JInt 2), (''message'', JStr t)],
        rpc_result = JNull \<rparr> 4
      (chan_send 2 (JObj [(''verb'', JStr ''say''), (''cid'', JInt 2), (''name'', JStr (name_of 2 sample_lobby)),
        (''user'', JStr ''ann''), (''message'', JStr t)]) sample_lobby)) None"
  by (simp add: lobby_defs say_json_def simple_json_lib_def Let_def)

theorem call_answered_once_witness:
  "\<exists>lg' es j. on_frame (sample_lib (\<lambda>_. ''x'') ''hi'') 4 ''...'' sample_lobby = WsContinue lg' None \<and>
    list_all is_event es \<and> jfind ''id'' j = Some (JInt 5) \<and> given 4 lg' = mset (map (\<lambda>_. ''x'') (es @ [j]))"
proof -
  have ok: "lobby_ok sample_lobby" by (simp add: lobby_ok_def ws_inv_def new_ws_queue_def)
  have "\<exists>lg'. on_frame (sample_lib (\<lambda>_. ''x'') ''hi'') 4 ''...'' sample_lobby = WsContinue lg' None"
    using deliver_all_ok [OF ok] sample_say_outcome [of "''hi''"]
    by (simp add: on_frame_def sample_lib_def outgoing_def reply_sent complete_def deliver_def make_message_def
        message_buffer_def do_send_def do_write_def new_ws_queue_def Let_def)
  then obtain lg' where lg': "on_frame (sample_lib (\<lambda>_. ''x'') ''hi'') 4 ''...'' sample_lobby = WsContinue lg' None" ..
  have "given 4 sample_lobby = {#}" by (simp add: given_def new_ws_queue_def)
  moreover have "lb_parse (sample_lib (\<lambda>_. ''x'') ''hi'') ''...'' = Some (say_json 5 ''hi'')"
    "jl_int (lb_json (sample_lib (\<lambda>_. ''x'') ''hi'')) (jindex ''id'' (say_json 5 ''hi'')) = Some 5"
    "lb_dump (sample_lib (\<lambda>_. ''x'') ''hi'') = (\<lambda>_. ''x'')"
    by (simp_all add: sample_lib_def say_json_def simple_json_lib_def jindex_def)
  ultimately show ?thesis
    using call_answered_once [OF ok, of "sample_lib (\<lambda>_. ''x'') ''hi''" "''...''" "say_json 5 ''hi''" 5 4 lg' None] lg'
    by (auto simp: say_json_def new_ws_queue_def)
qed

text \<open>C19: One line of chat overflows the stack of the worker. A member of a room says a text of at least 16384
  characters, well below what a frame may hold: the text is copied with \<open>strcpy\<close> into a buffer of that size on
  the way out, whatever else the frame, the room and the queues hold.\<close>

theorem say_overflows_buffer:
  assumes "lobby_ok lg" and "chan_at cid lg = Some c" and "ch_kind c = RoomChannel" and "lg_name lg s \<noteq> []"
    and "is_joined cid s lg" and "lg_attached lg s" and "uint cid < 2 ^ 63"
    and "json_lib_ok (lb_json l)" and "lb_parse l frame = Some jv" and "is_object jv"
    and "jindex ''jsonrpc'' jv = JStr ''2.0''" and "jindex ''id'' jv = JInt i" and "0 \<le> i" and "i < 2 ^ 31"
    and "jindex ''method'' jv = JStr ''say''" and "jfind ''params'' jv = Some (JObj ps)"
    and "map_of ps ''cid'' = Some (JInt (uint cid))" and "map_of ps ''message'' = Some (JStr t)"
    and "\<And>j. jfind ''message'' j = Some (JStr t) \<Longrightarrow> length t \<le> length (lb_dump l j)"
    and "message_buffer \<le> length t"
  shows "on_frame l s frame lg = WsCrash UndefinedBehaviour"
proof -
  let ?e = "JObj [(''verb'', JStr ''say''), (''cid'', JInt (uint cid)), (''name'', JStr (name_of cid lg)),
    (''user'', JStr (lg_name lg s)), (''message'', JStr t)]"
  let ?c = "new_rpc_call\<lparr> rpc_id := Some i, rpc_version := 2, rpc_method := ''say'', rpc_params := JObj ps \<rparr>"
  have lib: "jl_int (lb_json l) (JInt i) = Some i" "jl_stof (lb_json l) ''2.0'' = StofTwo"
    "jl_size (lb_json l) (JInt (uint cid)) = Some cid"
    using assms(7,8,13,14) by (simp_all add: json_lib_ok_def)
  have x: "rpc_extract (lb_json l) jv new_rpc_call = (?c, ExtractOk)"
    using assms(10-16) lib
    by (simp add: rpc_extract_def extract_version_def extract_check_id_def extract_method_def extract_params_def
        new_rpc_call_def Let_def)
  let ?lg = "reply ?c s (chan_send cid ?e lg)"
  have "list_dispatch (lb_json l) lobby_vtable s ?c lg = (?lg, Inr ())"
    using assms(2-5,17,18) lib
    by (simp add: list_dispatch_def checked_value_def checked_object_def checked_string_def checked_text_def
        chan_dispatch_def lobby_vtable_def room_on_dispatch_def do_say_def Let_def)
  then have m: "ws_on_message (lb_json l) (\<lambda>rpc lg. list_dispatch (lb_json l) lobby_vtable s rpc lg) (lb_parse l frame) lg
      = WsContinue ?lg None"
    using assms(9) x by (simp add: ws_on_message_def)
  have "(s, ?e) \<in> set (outgoing s lg ?lg None)"
    using assms(5,6) by (simp add: outgoing_def reply_sent is_joined_def)
  moreover have "message_buffer < length (lb_dump l ?e) + 1"
    using assms(19) [of ?e] assms(20) by simp
  ultimately have "list_ex (\<lambda>(s, j). message_buffer < length (lb_dump l j) + 1) (outgoing s lg ?lg None)"
    by (force simp: list_ex_iff)
  moreover have "lobby_ok ?lg" using assms(1) by (simp add: lobby_ok_def)
  ultimately have "deliver_all (lb_dump l) (outgoing s lg ?lg None) ?lg = Inl UndefinedBehaviour"
    using deliver_all_ok [of ?lg "lb_dump l" "outgoing s lg ?lg None"] by simp
  then show ?thesis using m by (simp add: on_frame_def)
qed

text \<open>A printer that gives the text of a message and nothing else.\<close>

definition text_of :: "json \<Rightarrow> string" where
  "text_of j = (case jindex ''message'' j of JStr t \<Rightarrow> t | _ \<Rightarrow> [])"

theorem say_overflows_buffer_witness:
  "on_frame (sample_lib text_of (replicate 16384 CHR ''a'')) 4 ''...'' sample_lobby = WsCrash UndefinedBehaviour"
proof (rule say_overflows_buffer [of sample_lobby 2 "the (chan_at 2 sample_lounge)" 4 _ _ "say_json 5 (replicate 16384 CHR ''a'')" 5
      "[(''cid'', JInt 2), (''message'', JStr (replicate 16384 CHR ''a''))]" "replicate 16384 CHR ''a''"])
  show "lobby_ok sample_lobby" by (simp add: lobby_ok_def ws_inv_def new_ws_queue_def)
  show "json_lib_ok (lb_json (sample_lib text_of (replicate 16384 CHR ''a'')))"
    by (simp add: sample_lib_def simple_json_lib_ok)
qed (simp_all add: sample_lib_def say_json_def jindex_def is_joined_def text_of_def message_buffer_def)

end
