(* ===== verification/ConnLife.thy ===== *)
theory ConnLife imports SessionLife "HOL-Library.Multiset" begin

text \<open>
  The connections of a worker's listener over time (\<open>listener.cpp\<close>, \<open>session.hpp\<close>, \<open>run\<close> in
  \<open>worker-server-app.cpp\<close>): the loop that accepts, the detectors and the HTTP sessions they launch, each
  alive as long as a handler or an operation owns it, and the stop, as handlers of one network thread.
  The handlers of a strand run in the order they were posted. What a session does with its requests is in the
  theories of sessions; here a completion tells whether it starts another operation.
\<close>

section \<open>State\<close>

text \<open>The first socket is accepted on a strand made by \<open>run\<close>; the others are on the acceptor's own. A
  session is on the strand of the detector that launched it.\<close>

datatype strand = ListenerStrand | FirstStrand

text \<open>Handlers: the completion of an accept, the listener's \<open>do_stop\<close>, a session's posted start, the
  completion of its operation (whether it failed, and whether TLS was found or it goes on), and the posted
  \<open>do_stop\<close> of a detector, bound to its raw pointer, and of an HTTP session, bound to a shared one.\<close>

datatype net_handler =
    AcceptDone bool
  | StopListener
  | RunSession nat
  | SessionDone nat bool bool
  | StopDetector nat
  | StopSession nat

record net_conn =
  nc_class :: session_class
  nc_strand :: strand
  nc_pending :: bool
  nc_closed :: bool

record net =
  nt_listener :: listener
  nt_accepting :: bool
  nt_first :: bool
  nt_conns :: "nat \<rightharpoonup> net_conn"
  nt_fresh :: nat
  nt_queue :: "strand \<Rightarrow> net_handler list"
  nt_stopping :: bool
  nt_told :: "nat list"

text \<open>After \<open>on_start\<close>, which starts the first accept.\<close>

definition start_net :: "listener \<Rightarrow> net" where
  "start_net l = \<lparr> nt_listener = l, nt_accepting = True, nt_first = True, nt_conns = Map.empty, nt_fresh = 0,
     nt_queue = (\<lambda>_. []), nt_stopping = False, nt_told = [] \<rparr>"

definition net_post :: "strand \<Rightarrow> net_handler \<Rightarrow> net \<Rightarrow> net" where
  "net_post st h nt = nt\<lparr> nt_queue := (nt_queue nt)(st := nt_queue nt st @ [h]) \<rparr>"

section \<open>Who owns a session\<close>

fun turn_of :: "nat \<Rightarrow> net_handler \<Rightarrow> bool" where
  "turn_of n (RunSession m) = (m = n)"
| "turn_of n (SessionDone m _ _) = (m = n)"
| "turn_of n _ = False"

definition conn_pending :: "nat \<Rightarrow> net \<Rightarrow> bool" where
  "conn_pending n nt = (case nt_conns nt n of None \<Rightarrow> False | Some c \<Rightarrow> nc_pending c)"

definition owned :: "nat \<Rightarrow> net \<Rightarrow> bool" where
  "owned n nt = (conn_pending n nt \<or>
     list_ex (\<lambda>h. turn_of n h \<or> h = StopSession n) (nt_queue nt ListenerStrand @ nt_queue nt FirstStrand))"

text \<open>The last shared pointer goes: the destructor leaves the listener.\<close>

definition release_conn :: "nat \<Rightarrow> net \<Rightarrow> net" where
  "release_conn n nt = (if owned n nt then nt
     else nt\<lparr> nt_conns := (nt_conns nt)(n := None), nt_listener := session_erase n (nt_listener nt) \<rparr>)"

section \<open>Operations\<close>

text \<open>The constructor enters the listener's set, \<open>run\<close> posts the start.\<close>

definition launch_conn :: "session_class \<Rightarrow> strand \<Rightarrow> net \<Rightarrow> net" where
  "launch_conn cls st nt = net_post st (RunSession (nt_fresh nt)) (nt\<lparr>
     nt_conns := (nt_conns nt)(nt_fresh nt \<mapsto> \<lparr> nc_class = cls, nc_strand = st, nc_pending = False, nc_closed = False \<rparr>),
     nt_listener := session_insert (nt_fresh nt) (nt_listener nt), nt_fresh := nt_fresh nt + 1 \<rparr>)"

text \<open>An operation on a closed socket completes with an error at once.\<close>

definition start_op :: "nat \<Rightarrow> net_conn \<Rightarrow> net \<Rightarrow> net" where
  "start_op n c nt = (if nc_closed c then net_post (nc_strand c) (SessionDone n True False) nt
     else nt\<lparr> nt_conns := (nt_conns nt)(n \<mapsto> c\<lparr> nc_pending := True \<rparr>) \<rparr>)"

text \<open>\<open>cancel\<close> and \<open>close\<close>: the pending operation completes with \<open>operation_aborted\<close>. One that is complete already
  is not changed.\<close>

definition abort_op :: "nat \<Rightarrow> net_conn \<Rightarrow> net \<Rightarrow> net" where
  "abort_op n c nt = (let nt1 = nt\<lparr> nt_conns := (nt_conns nt)(n \<mapsto> c\<lparr> nc_pending := False \<rparr>) \<rparr> in
     if nc_pending c then net_post (nc_strand c) (SessionDone n True False) nt1 else nt1)"

definition start_class :: "session_start \<Rightarrow> session_class" where
  "start_class s = (case s of PlainHttp \<Rightarrow> PlainHttpSession | DetectTls \<Rightarrow> DetectorSession | Https \<Rightarrow> TlsHttpSession)"

definition accept_done :: "bool \<Rightarrow> net \<Rightarrow> net" where
  "accept_done failed nt = (case on_accept failed (nt_listener nt) of
     None \<Rightarrow> nt
   | Some s \<Rightarrow> (launch_conn (start_class s) (if nt_first nt then FirstStrand else ListenerStrand) nt)\<lparr>
       nt_accepting := True, nt_first := False \<rparr>)"

definition conn_class :: "net \<Rightarrow> nat \<Rightarrow> session_class" where
  "conn_class nt n = (case nt_conns nt n of None \<Rightarrow> DetectorSession | Some c \<Rightarrow> nc_class c)"

definition post_stop :: "nat \<Rightarrow> net \<Rightarrow> net" where
  "post_stop n nt = (case nt_conns nt n of
     None \<Rightarrow> nt
   | Some c \<Rightarrow> net_post (nc_strand c) (if nc_class c = DetectorSession then StopDetector n else StopSession n) nt)"

definition stop_net :: "net \<Rightarrow> net result" where
  "stop_net nt = (case stop_listener (\<lambda>n. nt_conns nt n \<noteq> None) (conn_class nt) (nt_listener nt) of
     ((told, Some e), l) \<Rightarrow> Inl e
   | ((told, None), l) \<Rightarrow>
       (let nt1 = (if nt_accepting nt then net_post ListenerStrand (AcceptDone True) nt else nt)
        in Inr (fold post_stop told (nt1\<lparr> nt_listener := l, nt_accepting := False, nt_told := nt_told nt @ told \<rparr>))))"

definition session_done :: "nat \<Rightarrow> bool \<Rightarrow> bool \<Rightarrow> net_conn \<Rightarrow> net \<Rightarrow> net" where
  "session_done n failed again c nt = (case nc_class c of
     DetectorSession \<Rightarrow> (case on_detect failed again of
         None \<Rightarrow> nt
       | Some s \<Rightarrow> launch_conn (start_class s) (nc_strand c) nt)
   | PlainHttpSession \<Rightarrow> if \<not> failed \<and> again then start_op n c nt else nt
   | TlsHttpSession \<Rightarrow> if again then start_op n c nt else nt)"

text \<open>Each handler that belongs to a session gives up its pointer at the end.\<close>

definition run_handler :: "net_handler \<Rightarrow> net \<Rightarrow> net result" where
  "run_handler h nt = (case h of
     AcceptDone failed \<Rightarrow> Inr (accept_done failed nt)
   | StopListener \<Rightarrow> stop_net nt
   | RunSession n \<Rightarrow> (case nt_conns nt n of
       None \<Rightarrow> Inl UndefinedBehaviour
     | Some c \<Rightarrow> Inr (release_conn n (start_op n c nt)))
   | SessionDone n failed again \<Rightarrow> (case nt_conns nt n of
       None \<Rightarrow> Inl UndefinedBehaviour
     | Some c \<Rightarrow> Inr (release_conn n (session_done n failed again c nt)))
   | StopDetector n \<Rightarrow> (case nt_conns nt n of
       None \<Rightarrow> Inl UndefinedBehaviour
     | Some c \<Rightarrow> Inr (abort_op n c nt))
   | StopSession n \<Rightarrow> (case nt_conns nt n of
       None \<Rightarrow> Inl UndefinedBehaviour
     | Some c \<Rightarrow> Inr (release_conn n (abort_op n (c\<lparr> nc_closed := True \<rparr>) nt))))"

section \<open>Histories\<close>

text \<open>What may happen next: \<open>run\<close> calls the listener's \<open>on_stop\<close>, once; an accept or an operation of a session
  completes; the thread runs the next handler of a strand.\<close>

datatype net_event = AskStop | Accepted bool | Completed nat bool bool | RunNext strand

definition net_step :: "net_event \<Rightarrow> net \<Rightarrow> net result" where
  "net_step e nt = (case e of
     AskStop \<Rightarrow> Inr (if nt_stopping nt then nt else net_post ListenerStrand StopListener (nt\<lparr> nt_stopping := True \<rparr>))
   | Accepted failed \<Rightarrow> Inr (if nt_accepting nt
       then net_post ListenerStrand (AcceptDone failed) (nt\<lparr> nt_accepting := False \<rparr>) else nt)
   | Completed n failed again \<Rightarrow> Inr (case nt_conns nt n of
       None \<Rightarrow> nt
     | Some c \<Rightarrow> if nc_pending c
         then net_post (nc_strand c) (SessionDone n failed again)
           (nt\<lparr> nt_conns := (nt_conns nt)(n \<mapsto> c\<lparr> nc_pending := False \<rparr>) \<rparr>)
         else nt)
   | RunNext st \<Rightarrow> (case nt_queue nt st of
       [] \<Rightarrow> Inr nt
     | h # q \<Rightarrow> run_handler h (nt\<lparr> nt_queue := (nt_queue nt)(st := q) \<rparr>)))"

fun net_run :: "net_event list \<Rightarrow> net \<Rightarrow> net result" where
  "net_run [] nt = Inr nt"
| "net_run (e # es) nt = rbind (net_step e nt) (net_run es)"

section \<open>The invariant\<close>

definition posted :: "net \<Rightarrow> net_handler multiset" where
  "posted nt = mset (nt_queue nt ListenerStrand) + mset (nt_queue nt FirstStrand)"

text \<open>The turns of a session: its posted start, its pending operation, its completion. It has one at most.\<close>

definition turns :: "nat \<Rightarrow> net \<Rightarrow> nat" where
  "turns n nt = size (filter_mset (turn_of n) (posted nt)) + (if conn_pending n nt then 1 else 0)"

text \<open>The sessions in \<open>X\<close> are owned by the handler that runs.\<close>

definition loose :: "nat set \<Rightarrow> net \<Rightarrow> bool" where
  "loose X nt = ((\<forall>n. nt_conns nt n = None \<longrightarrow> turns n nt = 0) \<and>
     (\<forall>n. nt_conns nt n \<noteq> None \<longrightarrow> turns n nt \<le> 1 \<and> (n \<in> X \<or> turns n nt = 1 \<or> StopSession n \<in># posted nt)) \<and>
     (\<forall>n. StopSession n \<in># posted nt \<longrightarrow> nt_conns nt n \<noteq> None \<and> conn_class nt n \<noteq> DetectorSession) \<and>
     li_sessions (nt_listener nt) = {n. nt_conns nt n \<noteq> None \<and> n \<notin> set (nt_told nt)} \<and>
     (\<forall>n. n \<ge> nt_fresh nt \<longrightarrow> nt_conns nt n = None \<and> n \<notin> set (nt_told nt)) \<and>
     (\<forall>n. StopDetector n \<in># posted nt \<longrightarrow> n \<in> set (nt_told nt)) \<and>
     (li_open (nt_listener nt) \<longrightarrow> nt_told nt = []) \<and>
     count (posted nt) StopListener = (if li_open (nt_listener nt) \<and> nt_stopping nt then 1 else 0) \<and>
     (\<not> li_open (nt_listener nt) \<longrightarrow> nt_stopping nt))"

abbreviation net_ok :: "net \<Rightarrow> bool" where
  "net_ok \<equiv> loose {}"

lemma net_post_frame [simp]:
  "nt_conns (net_post st h nt) = nt_conns nt" "nt_listener (net_post st h nt) = nt_listener nt"
  "nt_told (net_post st h nt) = nt_told nt" "nt_fresh (net_post st h nt) = nt_fresh nt"
  "nt_stopping (net_post st h nt) = nt_stopping nt" "nt_accepting (net_post st h nt) = nt_accepting nt"
  "conn_pending n (net_post st h nt) = conn_pending n nt" "conn_class (net_post st h nt) = conn_class nt"
  by (simp_all add: net_post_def conn_pending_def conn_class_def [abs_def])

lemma posted_post [simp]: "posted (net_post st h nt) = add_mset h (posted nt)"
  by (cases st) (simp_all add: net_post_def posted_def)

lemma posted_same:
  "nt_queue nt' = nt_queue nt \<Longrightarrow> posted nt' = posted nt"
  by (simp add: posted_def)

lemma posted_frame [simp]:
  "posted (nt\<lparr> nt_conns := c \<rparr>) = posted nt" "posted (nt\<lparr> nt_listener := l \<rparr>) = posted nt"
  "posted (nt\<lparr> nt_fresh := k \<rparr>) = posted nt" "posted (nt\<lparr> nt_told := t \<rparr>) = posted nt"
  "posted (nt\<lparr> nt_accepting := b \<rparr>) = posted nt" "posted (nt\<lparr> nt_stopping := b \<rparr>) = posted nt"
  "posted (nt\<lparr> nt_first := b \<rparr>) = posted nt"
  by (simp_all add: posted_def)

lemma turns_post [simp]: "turns n (net_post st h nt) = turns n nt + (if turn_of n h then 1 else 0)"
  by (simp add: turns_def)

lemma owned_iff: "owned n nt \<longleftrightarrow> turns n nt \<noteq> 0 \<or> StopSession n \<in># posted nt"
proof -
  have "size (filter_mset (turn_of n) (posted nt)) \<noteq> 0 \<longleftrightarrow> (\<exists>h. h \<in># posted nt \<and> turn_of n h)"
    by (auto simp: multiset_eq_iff count_eq_zero_iff)
  then show ?thesis by (auto simp: owned_def turns_def posted_def list_ex_iff)
qed

lemma loose_start: "li_open l \<Longrightarrow> li_sessions l = {} \<Longrightarrow> net_ok (start_net l)"
  by (simp add: loose_def start_net_def turns_def posted_def conn_pending_def)

lemma pending_update [simp]:
  "conn_pending n (nt\<lparr> nt_conns := (nt_conns nt)(m \<mapsto> c) \<rparr>) = (if n = m then nc_pending c else conn_pending n nt)"
  "conn_class (nt\<lparr> nt_conns := (nt_conns nt)(m \<mapsto> c) \<rparr>) = (conn_class nt)(m := nc_class c)"
  by (auto simp: conn_pending_def conn_class_def)

lemma turns_update:
  "turns n (nt\<lparr> nt_conns := (nt_conns nt)(m \<mapsto> c) \<rparr>) =
    (if n = m then size (filter_mset (turn_of n) (posted nt)) + (if nc_pending c then 1 else 0) else turns n nt)"
  by (simp add: turns_def)

text \<open>An operation is started by the turn that runs.\<close>

lemma loose_start_op:
  assumes "loose {n} nt" and "nt_conns nt n = Some c" and "turns n nt = 0"
  shows "loose {n} (start_op n c nt)"
proof -
  have "size (filter_mset (turn_of n) (posted nt)) = 0" using assms(3) by (simp add: turns_def)
  then show ?thesis using assms
    by (auto simp: loose_def start_op_def turns_update conn_class_def split: if_splits)
qed

lemma loose_abort_op:
  assumes "loose X nt" and "nt_conns nt n = Some c'" and "nc_class c = nc_class c'" and "nc_pending c = nc_pending c'"
  shows "loose X (abort_op n c nt)"
proof -
  have t: "turns n nt = size (filter_mset (turn_of n) (posted nt)) + (if nc_pending c then 1 else 0)"
    using assms(2,4) by (simp add: turns_def conn_pending_def)
  then show ?thesis using assms
    by (auto simp: loose_def abort_op_def turns_update conn_class_def Let_def split: if_splits)
qed

lemma launch_frame [simp]:
  "posted (launch_conn cls st nt) = add_mset (RunSession (nt_fresh nt)) (posted nt)"
  "nt_conns (launch_conn cls st nt) = (nt_conns nt)(nt_fresh nt \<mapsto>
     \<lparr> nc_class = cls, nc_strand = st, nc_pending = False, nc_closed = False \<rparr>)"
  "nt_listener (launch_conn cls st nt) = session_insert (nt_fresh nt) (nt_listener nt)"
  "nt_told (launch_conn cls st nt) = nt_told nt" "nt_fresh (launch_conn cls st nt) = nt_fresh nt + 1"
  "nt_stopping (launch_conn cls st nt) = nt_stopping nt"
  by (simp_all add: launch_conn_def)

lemma turns_launch: "turns n (launch_conn cls st nt) =
    (if n = nt_fresh nt then size (filter_mset (turn_of n) (posted nt)) + 1 else turns n nt)"
  by (auto simp: turns_def conn_pending_def)

lemma session_insert_frame [simp]:
  "li_open (session_insert n l) = li_open l" "li_sessions (session_insert n l) = insert n (li_sessions l)"
  "li_open (session_erase n l) = li_open l" "li_sessions (session_erase n l) = li_sessions l - {n}"
  by (simp_all add: session_insert_def session_erase_def)

lemma loose_launch:
  assumes "loose X nt"
  shows "loose X (launch_conn cls st nt)"
proof -
  let ?m = "nt_fresh nt"
  have m: "nt_conns nt ?m = None" "?m \<notin> set (nt_told nt)" "turns ?m nt = 0" using assms by (simp_all add: loose_def)
  then have "size (filter_mset (turn_of ?m) (posted nt)) = 0" "StopSession ?m \<notin># posted nt"
    using assms by (auto simp: turns_def loose_def)
  then show ?thesis using assms m
    by (auto simp: loose_def turns_launch conn_class_def split: if_splits)
qed

lemma release_frame:
  assumes "\<not> owned n nt"
  shows "posted (release_conn n nt) = posted nt" "nt_conns (release_conn n nt) = (nt_conns nt)(n := None)"
    "nt_listener (release_conn n nt) = session_erase n (nt_listener nt)" "nt_told (release_conn n nt) = nt_told nt"
    "nt_fresh (release_conn n nt) = nt_fresh nt" "nt_stopping (release_conn n nt) = nt_stopping nt"
    "turns m (release_conn n nt) = (if m = n then 0 else turns m nt)"
  using assms unfolding owned_iff
  by (auto simp: release_conn_def owned_iff turns_def conn_pending_def)

lemma loose_release:
  assumes "loose {n} nt"
  shows "net_ok (release_conn n nt)"
proof (cases "owned n nt")
  case True
  then show ?thesis using assms by (auto simp: loose_def release_conn_def owned_iff)
next
  case False
  then have "turns n nt = 0" "StopSession n \<notin># posted nt" by (simp_all add: owned_iff)
  then show ?thesis using assms
    by (auto simp: loose_def release_frame [OF False] conn_class_def split: if_splits)
qed

text \<open>The handler at the front leaves the queue.\<close>

abbreviation popped :: "strand \<Rightarrow> net_handler list \<Rightarrow> net \<Rightarrow> net" where
  "popped st q nt \<equiv> nt\<lparr> nt_queue := (nt_queue nt)(st := q) \<rparr>"

lemma posted_popped: "nt_queue nt st = h # q \<Longrightarrow> posted nt = add_mset h (posted (popped st q nt))"
  by (cases st) (simp_all add: posted_def)

lemma turns_popped:
  "nt_queue nt st = h # q \<Longrightarrow> turns n nt = turns n (popped st q nt) + (if turn_of n h then 1 else 0)"
  by (simp add: turns_def posted_popped conn_pending_def)

lemma popped_frame [simp]:
  "conn_class (popped st q nt) = conn_class nt"
  by (simp add: conn_class_def [abs_def])

text \<open>Fewer handlers, and fewer turns of the sessions in \<open>X\<close> only.\<close>

lemma loose_fewer:
  assumes ok: "net_ok nt" and same: "nt_conns nt' = nt_conns nt" "nt_listener nt' = nt_listener nt"
      "nt_told nt' = nt_told nt" "nt_fresh nt' = nt_fresh nt" "nt_stopping nt' = nt_stopping nt"
    and p: "posted nt' \<subseteq># posted nt" "count (posted nt') StopListener = count (posted nt) StopListener"
    and t: "\<And>m. turns m nt' \<le> turns m nt" "\<And>m. m \<notin> X \<Longrightarrow> turns m nt' = turns m nt"
    and st: "\<And>m. m \<notin> X \<Longrightarrow> StopSession m \<in># posted nt \<Longrightarrow> StopSession m \<in># posted nt'"
  shows "loose X nt'"
proof -
  have sub: "h \<in># posted nt' \<Longrightarrow> h \<in># posted nt" for h using p(1) by (rule mset_subset_eqD)
  have cls: "conn_class nt' = conn_class nt" by (simp add: conn_class_def [abs_def] same)
  have 1: "turns m nt' = 0" if "nt_conns nt m = None" for m
    using ok that t(1) [of m] by (simp add: loose_def)
  have 2: "turns m nt' \<le> 1 \<and> (m \<in> X \<or> turns m nt' = 1 \<or> StopSession m \<in># posted nt')" if "nt_conns nt m \<noteq> None" for m
  proof -
    have "turns m nt \<le> 1 \<and> (turns m nt = 1 \<or> StopSession m \<in># posted nt)" using ok that by (simp add: loose_def)
    then show ?thesis using t [of m] st [of m] by (cases "m \<in> X") auto
  qed
  show ?thesis using ok sub 1 2 p(2) by (simp add: loose_def same cls del: not_None_eq)
qed

lemma popped_fewer: "nt_queue nt st = h # q \<Longrightarrow> posted (popped st q nt) \<subseteq># posted nt"
  by (simp add: posted_popped)

lemma loose_turn:
  assumes "net_ok nt" and "nt_queue nt st = h # q" and "turn_of n h"
  shows "loose {n} (popped st q nt) \<and> turns n (popped st q nt) = 0 \<and> nt_conns nt n \<noteq> None"
proof -
  have t: "turns m nt = turns m (popped st q nt) + (if m = n then 1 else 0)" for m
    using turns_popped [OF assms(2), of m] assms(3) by (cases h) auto
  have live: "nt_conns nt n \<noteq> None" using assms(1) t [of n] by (auto simp: loose_def)
  then have "turns n nt \<le> 1" using assms(1) by (simp add: loose_def)
  moreover have "loose {n} (popped st q nt)"
    by (rule loose_fewer [OF assms(1)]) (use t assms(3) posted_popped [OF assms(2)] in \<open>cases h, auto\<close>)+
  ultimately show ?thesis using t [of n] live by simp
qed

lemma loose_stop_session:
  assumes "net_ok nt" and "nt_queue nt st = StopSession n # q"
  shows "loose {n} (popped st q nt) \<and> nt_conns nt n \<noteq> None"
proof -
  have "loose {n} (popped st q nt)"
    by (rule loose_fewer [OF assms(1)])
      (use turns_popped [OF assms(2)] posted_popped [OF assms(2)] in auto)
  moreover have "nt_conns nt n \<noteq> None" using assms(1) posted_popped [OF assms(2)] by (simp add: loose_def)
  ultimately show ?thesis ..
qed

lemma loose_other:
  assumes "net_ok nt" and "nt_queue nt st = h # q" and "(\<exists>b. h = AcceptDone b) \<or> (\<exists>n. h = StopDetector n)"
  shows "net_ok (popped st q nt)"
  by (rule loose_fewer [OF assms(1)]) (use assms(3) turns_popped [OF assms(2)] posted_popped [OF assms(2)] in auto)

definition stop_handler :: "(nat \<Rightarrow> session_class) \<Rightarrow> nat \<Rightarrow> net_handler" where
  "stop_handler cls n = (if cls n = DetectorSession then StopDetector n else StopSession n)"

lemma post_stop_live:
  "nt_conns nt n = Some c \<Longrightarrow> post_stop n nt = net_post (nc_strand c) (stop_handler (conn_class nt) n) nt"
  by (simp add: post_stop_def stop_handler_def conn_class_def)

lemma fold_post_stop:
  assumes "\<forall>n \<in> set ns. nt_conns nt n \<noteq> None"
  shows "posted (fold post_stop ns nt) = posted nt + mset (map (stop_handler (conn_class nt)) ns) \<and>
    nt_conns (fold post_stop ns nt) = nt_conns nt \<and> nt_listener (fold post_stop ns nt) = nt_listener nt \<and>
    nt_told (fold post_stop ns nt) = nt_told nt \<and> nt_fresh (fold post_stop ns nt) = nt_fresh nt \<and>
    nt_stopping (fold post_stop ns nt) = nt_stopping nt"
  using assms
proof (induction ns arbitrary: nt)
  case (Cons n ns)
  then obtain c where "nt_conns nt n = Some c" by auto
  then show ?case using Cons.IH [of "post_stop n nt"] Cons.prems by (simp add: post_stop_live)
qed simp

lemma live_finite: "loose X nt \<Longrightarrow> finite {n. nt_conns nt n \<noteq> None}"
  by (rule finite_subset [of _ "{..< nt_fresh nt}"]) (auto simp: loose_def not_less [symmetric])

text \<open>What the stop of the listener does: all the sessions are told.\<close>

definition live_list :: "net \<Rightarrow> nat list" where
  "live_list nt = sorted_list_of_set {n. nt_conns nt n \<noteq> None}"

definition closing :: "net \<Rightarrow> net" where
  "closing nt = (if nt_accepting nt then net_post ListenerStrand (AcceptDone True) nt else nt)\<lparr>
     nt_listener := (nt_listener nt)\<lparr> li_open := False, li_listening := False, li_sessions := {} \<rparr>,
     nt_accepting := False, nt_told := live_list nt \<rparr>"

lemma set_live_list: "loose X nt \<Longrightarrow> set (live_list nt) = {n. nt_conns nt n \<noteq> None}"
  unfolding live_list_def by (rule set_sorted_list_of_set) (rule live_finite)

lemma stop_net_eq:
  assumes "net_ok nt" and "nt_queue nt st = StopListener # q"
  shows "stop_net (popped st q nt) = (if \<exists>n \<in> set (live_list nt). conn_class nt n = TlsHttpSession
    then Inl not_implemented else Inr (fold post_stop (live_list nt) (closing (popped st q nt))))"
proof -
  have told: "nt_told nt = []" using assms(1) posted_popped [OF assms(2)] by (auto simp: loose_def split: if_splits)
  then have s: "{n \<in> li_sessions (nt_listener nt). nt_conns nt n \<noteq> None} = {n. nt_conns nt n \<noteq> None}"
    using assms(1) by (auto simp: loose_def)
  have e: "stop_listener (\<lambda>n. nt_conns nt n \<noteq> None) cls (nt_listener nt) =
      (stop_sessions cls (live_list nt), (nt_listener nt)\<lparr> li_open := False, li_listening := False, li_sessions := {} \<rparr>)" for cls
    unfolding stop_listener_def listener_do_stop_def s live_list_def by simp
  have l: "live_list (popped st q nt) = live_list nt" by (simp add: live_list_def)
  show ?thesis
  proof (cases "\<exists>n \<in> set (live_list nt). conn_class nt n = TlsHttpSession")
    case True
    then show ?thesis by (simp add: stop_net_def e stop_sessions_eq del: not_None_eq)
  next
    case False
    then have "takeWhile (\<lambda>n. conn_class nt n \<noteq> TlsHttpSession) (live_list nt) = live_list nt"
      by (auto simp: takeWhile_eq_all_conv)
    with False have "stop_sessions (conn_class nt) (live_list nt) = (live_list nt, None)"
      by (simp add: stop_sessions_eq)
    then show ?thesis unfolding if_not_P [OF False] using told l
      by (simp add: stop_net_def e closing_def Let_def del: not_None_eq)
  qed
qed

lemma closing_frame [simp]:
  "nt_conns (closing nt) = nt_conns nt" "nt_told (closing nt) = live_list nt" "nt_fresh (closing nt) = nt_fresh nt"
  "nt_stopping (closing nt) = nt_stopping nt" "\<not> li_open (nt_listener (closing nt))"
  "li_sessions (nt_listener (closing nt)) = {}" "conn_class (closing nt) = conn_class nt"
  by (simp_all add: closing_def conn_class_def [abs_def])

lemma posted_closing: "posted (closing nt) = posted nt + (if nt_accepting nt then {#AcceptDone True#} else {#})"
  by (simp add: closing_def)

lemma turns_closing [simp]: "turns n (closing nt) = turns n nt"
  by (simp add: turns_def posted_closing conn_pending_def)

lemma turns_fold_stop:
  assumes "\<forall>n \<in> set ns. nt_conns nt n \<noteq> None"
  shows "turns m (fold post_stop ns nt) = turns m nt"
proof -
  have "filter_mset (turn_of m) (mset (map (stop_handler cls) ns)) = {#}" for cls
    by (auto simp: multiset_eq_iff stop_handler_def count_eq_zero_iff)
  then show ?thesis using fold_post_stop [OF assms] by (simp add: turns_def conn_pending_def)
qed

lemma loose_stop_net:
  assumes ok: "net_ok nt" and q: "nt_queue nt st = StopListener # q"
  shows "net_ok (fold post_stop (live_list nt) (closing (popped st q nt)))"
proof -
  let ?n = "closing (popped st q nt)"
  have "\<forall>n \<in> set (live_list nt). nt_conns ?n n \<noteq> None" using set_live_list [OF ok] by simp
  note f = fold_post_stop [OF this] turns_fold_stop [OF this]
  have p: "posted nt = add_mset StopListener (posted (popped st q nt))" by (rule posted_popped [OF q])
  have told: "nt_told nt = []" "nt_stopping nt" "StopListener \<notin># posted (popped st q nt)"
    using ok p by (auto simp: loose_def not_in_iff split: if_splits)
  then have no: "StopDetector n \<notin># posted (popped st q nt)" for n using ok p by (auto simp: loose_def)
  let ?f = "fold post_stop (live_list nt) ?n"
  have post: "posted ?f = posted (popped st q nt) +
      (if nt_accepting nt then {#AcceptDone True#} else {#}) + mset (map (stop_handler (conn_class nt)) (live_list nt))"
    using f(1) by (simp add: posted_closing)
  have mem: "h \<in># posted ?f \<longleftrightarrow> h \<in># posted (popped st q nt) \<or> (nt_accepting nt \<and> h = AcceptDone True) \<or>
      (\<exists>n. nt_conns nt n \<noteq> None \<and> h = stop_handler (conn_class nt) n)" for h
    unfolding post using set_live_list [OF ok] by (auto simp del: not_None_eq)
  have sh: "StopSession m = stop_handler (conn_class nt) n \<longleftrightarrow> n = m \<and> conn_class nt m \<noteq> DetectorSession"
    "StopDetector m = stop_handler (conn_class nt) n \<longleftrightarrow> n = m \<and> conn_class nt m = DetectorSession"
    "StopListener \<noteq> stop_handler (conn_class nt) n" for n m
    by (auto simp: stop_handler_def)
  have cnt: "count (posted ?f) StopListener = 0"
    by (rule count_eq_zero_iff [THEN iffD2]) (unfold mem, use told(3) sh(3) in auto)
  have t: "turns m ?f = turns m nt" for m using turns_popped [OF q, of m] f(2) by simp
  have cls: "conn_class ?f = conn_class nt" using f(1) by (simp add: conn_class_def [abs_def])
  have 1: "turns m nt = 0" if "nt_conns nt m = None" for m using ok that by (simp add: loose_def)
  have 2: "turns m nt \<le> 1 \<and> (turns m nt = 1 \<or> StopSession m \<in># posted ?f)" if "nt_conns nt m \<noteq> None" for m
    using ok that mem p by (auto simp: loose_def simp del: not_None_eq)
  have 3: "nt_conns nt m \<noteq> None \<and> conn_class nt m \<noteq> DetectorSession" if "StopSession m \<in># posted ?f" for m
    using ok that mem sh(1) p by (auto simp: loose_def simp del: not_None_eq)
  have 4: "nt_conns nt m \<noteq> None" if "StopDetector m \<in># posted ?f" for m
    using that no sh(2) unfolding mem by (auto simp del: not_None_eq)
  have 5: "nt_conns nt m = None" if "m \<ge> nt_fresh nt" for m using ok that by (simp add: loose_def)
  have e: "nt_conns ?f = nt_conns nt" "set (nt_told ?f) = {n. nt_conns nt n \<noteq> None}" "nt_fresh ?f = nt_fresh nt"
    "nt_stopping ?f = True" "li_open (nt_listener ?f) = False" "li_sessions (nt_listener ?f) = {}"
    using f(1) told(2) set_live_list [OF ok] by (simp_all add: live_list_def)
  show ?thesis unfolding loose_def t cls e cnt by (intro conjI allI impI) (use 1 2 3 4 5 in \<open>blast | simp\<close>)+
qed

section \<open>Steps keep the invariant\<close>

lemma loose_session_done:
  assumes "loose {n} nt" and "nt_conns nt n = Some c" and "turns n nt = 0"
  shows "loose {n} (session_done n failed again c nt)"
  using loose_start_op [OF assms] loose_launch [OF assms(1)] assms(1)
  by (simp add: session_done_def split: session_class.split option.split)

lemma loose_accepting: "loose X (nt\<lparr> nt_accepting := b, nt_first := f \<rparr>) = loose X nt"
  "loose X (nt\<lparr> nt_accepting := b \<rparr>) = loose X nt"
  by (simp_all add: loose_def turns_def conn_pending_def conn_class_def [abs_def])

lemma loose_accept_done: "net_ok nt \<Longrightarrow> net_ok (accept_done failed nt)"
  by (simp add: accept_done_def loose_accepting loose_launch split: option.split)

lemma loose_post_accept: "loose X nt \<Longrightarrow> loose X (net_post st (AcceptDone b) nt)"
  by (simp add: loose_def)

lemma loose_completed:
  assumes "net_ok nt" and "nt_conns nt n = Some c" and "nc_pending c"
  shows "net_ok (net_post (nc_strand c) (SessionDone n failed again) (nt\<lparr> nt_conns := (nt_conns nt)(n \<mapsto> c\<lparr> nc_pending := False \<rparr>) \<rparr>))"
proof -
  have "turns n nt = size (filter_mset (turn_of n) (posted nt)) + 1"
    using assms(2,3) by (simp add: turns_def conn_pending_def)
  then show ?thesis using assms
    by (auto simp: loose_def turns_update conn_class_def split: if_splits)
qed

lemma loose_ask_stop:
  assumes "net_ok nt" and "\<not> nt_stopping nt"
  shows "net_ok (net_post ListenerStrand StopListener (nt\<lparr> nt_stopping := True \<rparr>))"
  using assms by (auto simp: loose_def turns_def conn_pending_def conn_class_def [abs_def])

lemma step_keeps:
  assumes ok: "net_ok nt" and step: "net_step e nt = Inr nt'"
  shows "net_ok nt'"
proof (cases e)
  case (RunNext st)
  show ?thesis
  proof (cases "nt_queue nt st")
    case (Cons h q)
    have r: "run_handler h (popped st q nt) = Inr nt'" using step RunNext Cons by (simp add: net_step_def)
    show ?thesis
    proof (cases h)
      case (AcceptDone b)
      then show ?thesis using r loose_accept_done [OF loose_other [OF ok Cons]] by (auto simp: run_handler_def)
    next
      case StopListener
      then have "nt' = fold post_stop (live_list nt) (closing (popped st q nt))"
        using r stop_net_eq [OF ok Cons [unfolded StopListener]] by (simp add: run_handler_def split: if_splits)
      then show ?thesis using loose_stop_net [OF ok Cons [unfolded StopListener]] by simp
    next
      case (RunSession n)
      with loose_turn [OF ok Cons, of n] obtain c where
        c: "loose {n} (popped st q nt)" "turns n (popped st q nt) = 0" "nt_conns nt n = Some c" by auto
      then show ?thesis using r RunSession loose_release [OF loose_start_op [of n "popped st q nt" c]]
        by (auto simp: run_handler_def)
    next
      case (SessionDone n failed again)
      with loose_turn [OF ok Cons, of n] obtain c where
        c: "loose {n} (popped st q nt)" "turns n (popped st q nt) = 0" "nt_conns nt n = Some c" by auto
      then show ?thesis using r SessionDone loose_release [OF loose_session_done [of n "popped st q nt" c failed again]]
        by (auto simp: run_handler_def)
    next
      case (StopDetector n)
      then obtain c where "nt_conns nt n = Some c" using r by (auto simp: run_handler_def split: option.splits)
      then show ?thesis using r StopDetector loose_abort_op [OF loose_other [OF ok Cons], of n c c]
        by (auto simp: run_handler_def)
    next
      case (StopSession n)
      with loose_stop_session [OF ok, of st n q] Cons obtain c where
        "loose {n} (popped st q nt)" "nt_conns nt n = Some c" by auto
      then show ?thesis using r StopSession
          loose_release [OF loose_abort_op [of "{n}" "popped st q nt" n c "c\<lparr> nc_closed := True \<rparr>"]]
        by (auto simp: run_handler_def)
    qed
  qed (use step ok RunNext in \<open>simp add: net_step_def\<close>)
next
  case (Completed n failed again)
  then show ?thesis using step ok loose_completed [OF ok, of n _ failed again]
    by (auto simp: net_step_def split: option.splits if_splits)
qed (use step ok loose_ask_stop loose_post_accept loose_accepting in \<open>auto simp: net_step_def split: if_splits\<close>)

lemma run_keeps: "net_ok nt \<Longrightarrow> net_run es nt = Inr nt' \<Longrightarrow> net_ok nt'"
  by (induction es arbitrary: nt) (auto simp: rbind_Inr_iff dest: step_keeps)

text \<open>What can leave a handler.\<close>

lemma step_fails:
  assumes ok: "net_ok nt" and step: "net_step e nt = Inl x"
  shows "\<exists>st h q. e = RunNext st \<and> nt_queue nt st = h # q \<and>
    (h = StopListener \<and> x = not_implemented \<and> (\<exists>n. nt_conns nt n \<noteq> None \<and> conn_class nt n = TlsHttpSession) \<or>
     (\<exists>n. h = StopDetector n \<and> x = UndefinedBehaviour \<and> nt_conns nt n = None))"
proof -
  obtain st h q where e: "e = RunNext st" and q: "nt_queue nt st = h # q" and r: "run_handler h (popped st q nt) = Inl x"
    using step by (auto simp: net_step_def split: net_event.splits list.splits)
  show ?thesis
  proof (cases h)
    case StopListener
    then show ?thesis using e q r stop_net_eq [OF ok q [unfolded StopListener]] set_live_list [OF ok]
      by (auto simp: run_handler_def simp del: not_None_eq split: if_splits)
  qed (use e q r loose_turn [OF ok q] loose_stop_session [OF ok, of st] in
    \<open>auto simp: run_handler_def split: option.splits\<close>)
qed

section \<open>What a step can only add\<close>

text \<open>Queues grow at their ends, a closed acceptor stays closed, numbers are not used again.\<close>

definition later :: "net \<Rightarrow> net \<Rightarrow> bool" where
  "later nt nt' = ((\<forall>st. \<exists>ex. nt_queue nt' st = nt_queue nt st @ ex) \<and>
     (li_open (nt_listener nt') \<longrightarrow> li_open (nt_listener nt)) \<and> nt_fresh nt \<le> nt_fresh nt' \<and>
     (\<forall>n < nt_fresh nt. (nt_conns nt n = None \<longrightarrow> nt_conns nt' n = None) \<and>
       (nt_conns nt' n = None \<or> conn_class nt' n = conn_class nt n)))"

lemma later_trans:
  assumes "later nt nt1" and "later nt1 nt2"
  shows "later nt nt2"
proof -
  have "\<exists>ex. nt_queue nt2 st = nt_queue nt st @ ex" for st
    using assms unfolding later_def by (metis append_assoc)
  moreover have "(nt_conns nt n = None \<longrightarrow> nt_conns nt2 n = None) \<and>
      (nt_conns nt2 n = None \<or> conn_class nt2 n = conn_class nt n)" if "n < nt_fresh nt" for n
    using assms that unfolding later_def by (metis order_less_le_trans)
  ultimately show ?thesis using assms unfolding later_def by (meson order_trans)
qed

lemma later_queue: "later nt nt' \<Longrightarrow> \<exists>ex. nt_queue nt' st = nt_queue nt st @ ex"
  by (simp add: later_def)

lemma later_same:
  "nt_queue nt' = nt_queue nt \<Longrightarrow> li_open (nt_listener nt') \<longrightarrow> li_open (nt_listener nt) \<Longrightarrow>
    nt_fresh nt' = nt_fresh nt \<Longrightarrow> (\<And>n. nt_conns nt n = None \<Longrightarrow> nt_conns nt' n = None) \<Longrightarrow>
    (\<And>n. nt_conns nt' n = None \<or> conn_class nt' n = conn_class nt n) \<Longrightarrow> later nt nt'"
  by (simp add: later_def)

lemma later_post: "later nt (net_post st h nt)"
  by (auto simp: later_def net_post_def conn_class_def)

lemma later_launch: "later nt (launch_conn cls st nt)"
  by (auto simp: later_def launch_conn_def net_post_def conn_class_def)

lemma later_start_op: "nt_conns nt n = Some c \<Longrightarrow> later nt (start_op n c nt)"
  by (simp add: start_op_def later_post) (simp add: later_def conn_class_def)

lemma later_abort_op:
  assumes "nt_conns nt n = Some c'" and "nc_class c = nc_class c'"
  shows "later nt (abort_op n c nt)"
proof -
  have "later nt (nt\<lparr> nt_conns := (nt_conns nt)(n \<mapsto> c\<lparr> nc_pending := False \<rparr>) \<rparr>)"
    by (rule later_same) (use assms in \<open>auto simp: conn_class_def\<close>)
  then show ?thesis by (auto simp: abort_op_def Let_def intro: later_trans later_post)
qed

lemma later_release: "later nt (release_conn n nt)"
  by (rule later_same) (simp_all add: release_conn_def conn_class_def)

lemma later_post_stop: "later nt (fold post_stop ns nt)"
proof (induction ns arbitrary: nt)
  case Nil
  show ?case by (rule later_same) simp_all
next
  case (Cons n ns)
  have "later nt (post_stop n nt)" by (simp add: post_stop_def later_post later_same split: option.split)
  with Cons.IH [of "post_stop n nt"] show ?case by (auto intro: later_trans)
qed

lemma later_stop_net:
  assumes "stop_net nt = Inr nt'"
  shows "later nt nt'"
proof -
  let ?m = "if nt_accepting nt then net_post ListenerStrand (AcceptDone True) nt else nt"
  obtain told e l where l: "stop_listener (\<lambda>n. nt_conns nt n \<noteq> None) (conn_class nt) (nt_listener nt) = ((told, e), l)"
    by (metis prod.exhaust)
  define n1 where "n1 = ?m\<lparr> nt_listener := l, nt_accepting := False, nt_told := nt_told nt @ told \<rparr>"
  have n: "nt' = fold post_stop told n1"
    using assms l by (simp add: stop_net_def Let_def n1_def del: not_None_eq split: option.splits if_split_asm)
  have closed: "\<not> li_open l" using l by (auto simp: stop_listener_def listener_do_stop_def Let_def)
  have "later nt ?m" using later_post later_same [of nt nt] by simp
  moreover have "later ?m n1"
  proof (rule later_same)
    show "nt_conns n1 n = None \<or> conn_class n1 n = conn_class ?m n" for n by (simp add: n1_def conn_class_def)
  qed (use closed in \<open>simp_all add: n1_def\<close>)
  ultimately have "later nt n1" by (rule later_trans)
  then show ?thesis unfolding n by (rule later_trans [OF _ later_post_stop])
qed

lemma later_session_done: "nt_conns nt n = Some c \<Longrightarrow> later nt (session_done n failed again c nt)"
  by (simp add: session_done_def later_launch later_start_op later_same split: session_class.split option.split)

lemma later_accept_done: "later nt (accept_done failed nt)"
proof -
  have "later nt ((launch_conn cls st nt)\<lparr> nt_accepting := True, nt_first := False \<rparr>)" for cls st
    by (rule later_trans [OF later_launch [of nt cls st] later_same]) (simp_all add: conn_class_def)
  then show ?thesis by (simp add: accept_done_def later_same split: option.split)
qed

lemma later_handler:
  assumes "run_handler h nt = Inr nt'"
  shows "later nt nt'"
proof (cases h)
  case (RunSession n)
  then obtain c where "nt_conns nt n = Some c" "nt' = release_conn n (start_op n c nt)"
    using assms by (auto simp: run_handler_def split: option.splits)
  then show ?thesis using later_trans [OF later_start_op [of nt n c] later_release] by simp
next
  case (SessionDone n failed again)
  then obtain c where "nt_conns nt n = Some c" "nt' = release_conn n (session_done n failed again c nt)"
    using assms by (auto simp: run_handler_def split: option.splits)
  then show ?thesis using later_trans [OF later_session_done [of nt n c] later_release] by simp
next
  case (StopSession n)
  then obtain c where "nt_conns nt n = Some c" "nt' = release_conn n (abort_op n (c\<lparr> nc_closed := True \<rparr>) nt)"
    using assms by (auto simp: run_handler_def split: option.splits)
  then show ?thesis using later_trans [OF later_abort_op [of nt n c "c\<lparr> nc_closed := True \<rparr>"] later_release] by simp
next
  case (StopDetector n)
  then show ?thesis using assms later_abort_op by (auto simp: run_handler_def split: option.splits)
qed (use assms later_accept_done later_stop_net in \<open>auto simp: run_handler_def\<close>)

text \<open>Once the acceptor is closed no one else is told.\<close>

lemma told_release [simp]: "nt_told (release_conn n nt) = nt_told nt"
  by (simp add: release_conn_def)

lemma told_handler: "run_handler h nt = Inr nt' \<Longrightarrow> h \<noteq> StopListener \<Longrightarrow> nt_told nt' = nt_told nt"
  by (auto simp: run_handler_def accept_done_def start_op_def abort_op_def session_done_def Let_def
      split: net_handler.splits option.splits session_class.splits if_splits)

lemma step_later:
  assumes ok: "net_ok nt" and closed: "\<not> li_open (nt_listener nt)" and step: "net_step e nt = Inr nt'"
  shows "\<not> li_open (nt_listener nt') \<and> nt_told nt' = nt_told nt"
proof (cases e)
  case (RunNext st)
  show ?thesis
  proof (cases "nt_queue nt st")
    case (Cons h q)
    have r: "run_handler h (popped st q nt) = Inr nt'" using step RunNext Cons by (simp add: net_step_def)
    have "h \<noteq> StopListener" using ok closed posted_popped [OF Cons] by (auto simp: loose_def)
    then show ?thesis using later_handler [OF r] told_handler [OF r] closed by (simp add: later_def)
  qed (use step closed RunNext in \<open>simp add: net_step_def\<close>)
qed (use step closed in \<open>auto simp: net_step_def split: option.splits if_splits\<close>)

lemma run_later:
  assumes "net_ok nt" and "\<not> li_open (nt_listener nt)" and "net_run es nt = Inr nt'"
  shows "nt_told nt' = nt_told nt"
  using assms
proof (induction es arbitrary: nt)
  case (Cons e es)
  then obtain nt1 where s: "net_step e nt = Inr nt1" "net_run es nt1 = Inr nt'" by (auto simp: rbind_Inr_iff)
  show ?case using Cons.IH [OF step_keeps [OF Cons.prems(1) s(1)] _ s(2)] step_later [OF Cons.prems(1,2) s(1)] by simp
qed simp

section \<open>The race of a stop with a detection\<close>

text \<open>A detector whose detection is done is gone.\<close>

lemma detector_done:
  assumes ok: "net_ok nt" and q: "nt_queue nt st = SessionDone d failed tls # q" and cls: "conn_class nt d = DetectorSession"
  shows "\<exists>nt1. run_handler (SessionDone d failed tls) (popped st q nt) = Inr nt1 \<and> nt_conns nt1 d = None \<and>
    (\<not> failed \<longrightarrow> nt_conns nt1 (nt_fresh nt) \<noteq> None \<and>
      conn_class nt1 (nt_fresh nt) = (if tls then TlsHttpSession else PlainHttpSession) \<and>
      nt_fresh nt \<in> li_sessions (nt_listener nt1))"
proof -
  let ?p = "popped st q nt"
  obtain c where c: "loose {d} ?p" "turns d ?p = 0" "nt_conns nt d = Some c" "nc_class c = DetectorSession"
    using loose_turn [OF ok q, of d] cls by (auto simp: conn_class_def)
  have "StopSession d \<notin># posted ?p" "d < nt_fresh nt"
    using c cls ok by (auto simp: loose_def conn_class_def not_less [symmetric])
  then have "\<not> owned d (session_done d failed tls c ?p)" "d \<noteq> nt_fresh nt" using c
    by (auto simp: session_done_def owned_iff turns_launch split: option.split)
  note r = release_frame [OF this(1)] this(2)
  show ?thesis
    using c r by (auto simp: run_handler_def session_done_def on_detect_def start_class_def conn_class_def)
qed

text \<open>The posted stop of a detector that is gone.\<close>

lemma run_dead_detector:
  assumes "net_ok nt" and "\<not> li_open (nt_listener nt)" and "nt_queue nt st = qs @ StopDetector d # q"
    and "nt_conns nt d = None \<or>
      (\<exists>failed tls. SessionDone d failed tls \<in> set qs) \<and> conn_class nt d = DetectorSession"
    and "d < nt_fresh nt"
  shows "net_run (replicate (Suc (length qs)) (RunNext st)) nt = Inl UndefinedBehaviour"
  using assms
proof (induction qs arbitrary: nt q)
  case Nil
  then show ?case by (simp add: net_step_def run_handler_def)
next
  case (Cons h qs)
  have q: "nt_queue nt st = h # (qs @ StopDetector d # q)" using Cons.prems(3) by simp
  let ?p = "popped st (qs @ StopDetector d # q) nt"
  have step: "net_step (RunNext st) nt = run_handler h ?p" using q by (simp add: net_step_def)
  have no: "h \<noteq> StopListener" using Cons.prems(1,2) posted_popped [OF q] by (auto simp: loose_def)
  show ?case
  proof (cases "run_handler h ?p")
    case (Inl x)
    then have "x = UndefinedBehaviour" using step_fails [OF Cons.prems(1), of "RunNext st" x] step q no by auto
    then show ?thesis using Inl step by simp
  next
    case (Inr nt1)
    have l: "later ?p nt1" by (rule later_handler [OF Inr])
    obtain ex where ex: "nt_queue nt1 st = qs @ StopDetector d # (q @ ex)" using later_queue [OF l, of st] by auto
    have ok: "net_ok nt1" "\<not> li_open (nt_listener nt1)"
      using step_keeps [OF Cons.prems(1)] step_later [OF Cons.prems(1,2)] step Inr by auto
    have fresh: "d < nt_fresh nt1" using l Cons.prems(5) by (simp add: later_def)
    have dead: "nt_conns nt1 d = None \<or>
        (\<exists>failed tls. SessionDone d failed tls \<in> set qs) \<and> conn_class nt1 d = DetectorSession"
    proof (cases "nt_conns nt d")
      case None
      then show ?thesis using l Cons.prems(5) by (simp add: later_def)
    next
      case (Some c)
      then have c: "conn_class nt d = DetectorSession" and h: "\<exists>failed tls. SessionDone d failed tls \<in> set (h # qs)"
        using Cons.prems(4) by auto
      have "nt_conns nt1 d = None \<or> conn_class nt1 d = conn_class ?p d" using l Cons.prems(5) by (simp add: later_def)
      then have "conn_class nt1 d = DetectorSession" using c by (auto simp: conn_class_def)
      moreover have "nt_conns nt1 d = None" if "h = SessionDone d failed tls" for failed tls
        using detector_done [OF Cons.prems(1) q [unfolded that] c] Inr that by simp
      ultimately show ?thesis using h by auto
    qed
    show ?thesis using Cons.IH [OF ok ex dead fresh] step Inr by simp
  qed
qed

section \<open>The end of the sessions\<close>

text \<open>A closed session has no operation pending; one that was told to stop and is no detector is closed or
  its stop is still posted.\<close>

definition told_ok :: "net \<Rightarrow> bool" where
  "told_ok nt = (\<forall>n c. nt_conns nt n = Some c \<longrightarrow> (nc_closed c \<longrightarrow> \<not> nc_pending c) \<and>
     (n \<in> set (nt_told nt) \<and> nc_class c \<noteq> DetectorSession \<longrightarrow> nc_closed c \<or> StopSession n \<in># posted nt))"

text \<open>After a stop that found plain HTTP sessions only.\<close>

definition winding_down :: "net \<Rightarrow> bool" where
  "winding_down nt = (net_ok nt \<and> told_ok nt \<and> \<not> li_open (nt_listener nt) \<and> \<not> nt_accepting nt \<and>
     (\<forall>n. StopDetector n \<notin># posted nt) \<and>
     (\<forall>n. nt_conns nt n \<noteq> None \<longrightarrow> conn_class nt n = PlainHttpSession \<and> n \<in> set (nt_told nt)))"

text \<open>How much is left to run when nothing completes any more.\<close>

fun weight :: "net_handler \<Rightarrow> nat" where
  "weight (RunSession n) = 3"
| "weight (SessionDone n failed again) = (if failed then 1 else 3)"
| "weight _ = 1"

definition work :: "net \<Rightarrow> nat" where
  "work nt = sum_list (map weight (nt_queue nt ListenerStrand)) + sum_list (map weight (nt_queue nt FirstStrand)) +
     2 * card {n. conn_pending n nt}"

lemma told_start: "told_ok (start_net l)"
  by (simp add: told_ok_def start_net_def)

lemma told_same:
  "told_ok nt \<Longrightarrow> nt_conns nt' = nt_conns nt \<Longrightarrow> nt_told nt' = nt_told nt \<Longrightarrow> posted nt \<subseteq># posted nt' \<Longrightarrow> told_ok nt'"
  by (auto simp: told_ok_def dest: mset_subset_eqD)

text \<open>The handler of \<open>n\<close> runs: nothing is known of \<open>n\<close>'s stop if it is that one.\<close>

definition told_but :: "nat set \<Rightarrow> net \<Rightarrow> bool" where
  "told_but X nt = (\<forall>n c. nt_conns nt n = Some c \<longrightarrow> (nc_closed c \<longrightarrow> \<not> nc_pending c) \<and>
     (n \<in> set (nt_told nt) \<and> nc_class c \<noteq> DetectorSession \<longrightarrow> n \<in> X \<or> nc_closed c \<or> StopSession n \<in># posted nt))"

lemma told_but_empty: "told_but {} nt = told_ok nt"
  by (simp add: told_but_def told_ok_def)

lemma told_popped:
  assumes "told_ok nt" and "nt_queue nt st = h # q"
  shows "told_but {n. h = StopSession n} (popped st q nt)"
  using assms posted_popped [OF assms(2)] by (auto simp: told_ok_def told_but_def)

lemma told_start_op: "told_but X nt \<Longrightarrow> nt_conns nt n = Some c \<Longrightarrow> told_but X (start_op n c nt)"
  by (auto simp: told_but_def start_op_def split: if_splits)

lemma told_abort_op:
  assumes "told_but X nt" and "nt_conns nt n = Some c'" and "nc_class c = nc_class c'" and "nc_closed c' \<longrightarrow> nc_closed c"
  shows "told_but (if nc_closed c then X - {n} else X) (abort_op n c nt)"
  using assms by (auto simp: told_but_def abort_op_def Let_def split: if_splits)

lemma told_but_release: "told_but X nt \<Longrightarrow> told_but X (release_conn n nt)"
proof -
  have "posted (release_conn n nt) = posted nt" by (simp add: release_conn_def)
  then show "told_but X nt \<Longrightarrow> told_but X (release_conn n nt)"
    by (auto simp: told_but_def release_conn_def split: if_splits)
qed

lemma told_launch: "told_but X nt \<Longrightarrow> nt_fresh nt \<notin> set (nt_told nt) \<Longrightarrow> told_but X (launch_conn cls st nt)"
  by (auto simp: told_but_def split: if_splits)

lemma told_session_done:
  assumes "told_but X nt" and "nt_conns nt n = Some c" and "nt_fresh nt \<notin> set (nt_told nt)"
  shows "told_but X (session_done n failed again c nt)"
  using assms told_start_op told_launch by (auto simp: session_done_def split: session_class.split option.split)

lemma told_accept_done:
  assumes "told_but X nt" and "nt_fresh nt \<notin> set (nt_told nt)"
  shows "told_but X (accept_done failed nt)"
proof -
  have "told_but X ((launch_conn cls st nt)\<lparr> nt_accepting := True, nt_first := False \<rparr>)" for cls st
    using told_launch [OF assms, of cls st] by (simp add: told_but_def)
  with assms show ?thesis by (simp add: accept_done_def split: option.split)
qed

lemma told_stop:
  assumes ok: "net_ok nt" and q: "nt_queue nt st = StopListener # q" and t: "told_ok nt"
  shows "told_ok (fold post_stop (live_list nt) (closing (popped st q nt)))"
proof -
  have live: "set (live_list nt) = {n. nt_conns nt n \<noteq> None}" by (rule set_live_list [OF ok])
  let ?s = "fold post_stop (live_list nt) (closing (popped st q nt))"
  have f: "posted ?s = posted (closing (popped st q nt)) + mset (map (stop_handler (conn_class nt)) (live_list nt))"
    "nt_conns ?s = nt_conns nt"
    using fold_post_stop [of "live_list nt" "closing (popped st q nt)"] live by simp_all
  have "StopSession n \<in># posted ?s" if "nt_conns nt n = Some c" "nc_class c \<noteq> DetectorSession" for n c
  proof -
    have "StopSession n = stop_handler (conn_class nt) n" using that by (simp add: stop_handler_def conn_class_def)
    moreover have "n \<in> set (live_list nt)" using that(1) live by simp
    ultimately show ?thesis using f(1) by force
  qed
  then show ?thesis using t f(2) by (auto simp: told_ok_def)
qed

lemma told_handler_keeps:
  assumes ok: "net_ok nt" and t: "told_ok nt" and q: "nt_queue nt st = h # q"
    and r: "run_handler h (popped st q nt) = Inr nt'"
  shows "told_ok nt'"
proof -
  let ?p = "popped st q nt"
  have fresh: "nt_fresh ?p \<notin> set (nt_told ?p)" using ok by (simp add: loose_def)
  note b = told_popped [OF t q]
  show ?thesis
  proof (cases h)
    case (AcceptDone failed)
    then show ?thesis using b r told_accept_done [of "{}" ?p failed] fresh
      by (simp add: run_handler_def told_but_empty)
  next
    case StopListener
    then show ?thesis using r told_stop [OF ok q [unfolded StopListener] t] stop_net_eq [OF ok q [unfolded StopListener]]
      by (simp add: run_handler_def split: if_splits)
  next
    case (RunSession n)
    then obtain c where "nt_conns ?p n = Some c" "nt' = release_conn n (start_op n c ?p)"
      using r by (auto simp: run_handler_def split: option.splits)
    then show ?thesis using b RunSession told_but_release [OF told_start_op [of "{}" ?p n c], of n]
      by (simp add: told_but_empty)
  next
    case (SessionDone n failed again)
    then obtain c where "nt_conns ?p n = Some c" "nt' = release_conn n (session_done n failed again c ?p)"
      using r by (auto simp: run_handler_def split: option.splits)
    then show ?thesis
      using b SessionDone told_but_release [OF told_session_done [of "{}" ?p n c failed again], of n] fresh
      by (simp add: told_but_empty)
  next
    case (StopDetector n)
    then obtain c where c: "nt_conns ?p n = Some c" "nt' = abort_op n c ?p"
      using r by (auto simp: run_handler_def split: option.splits)
    have "told_but {} ?p" using b StopDetector by simp
    from told_abort_op [OF this c(1) refl] show ?thesis using c(2) by (simp add: told_but_empty split: if_splits)
  next
    case (StopSession n)
    then obtain c where c: "nt_conns ?p n = Some c" "nt' = release_conn n (abort_op n (c\<lparr> nc_closed := True \<rparr>) ?p)"
      using r by (auto simp: run_handler_def split: option.splits)
    have "told_but {n} ?p" using b StopSession by simp
    from told_abort_op [OF this c(1), of "c\<lparr> nc_closed := True \<rparr>"]
    have "told_but {} (abort_op n (c\<lparr> nc_closed := True \<rparr>) ?p)" by simp
    from told_but_release [OF this, of n] show ?thesis using c(2) by (simp add: told_but_empty)
  qed
qed

lemma told_completed:
  assumes "told_ok nt" and "nt_conns nt n = Some c"
  shows "told_ok (net_post st h (nt\<lparr> nt_conns := (nt_conns nt)(n \<mapsto> c\<lparr> nc_pending := False \<rparr>) \<rparr>))"
proof -
  have "nc_closed c \<or> StopSession n \<in># posted nt" if "n \<in> set (nt_told nt)" "nc_class c \<noteq> DetectorSession"
    using assms that unfolding told_ok_def by blast
  moreover have "(nc_closed d \<longrightarrow> \<not> nc_pending d) \<and> (m \<in> set (nt_told nt) \<and> nc_class d \<noteq> DetectorSession \<longrightarrow>
      nc_closed d \<or> StopSession m \<in># posted nt)" if "nt_conns nt m = Some d" for m d
    using assms(1) that unfolding told_ok_def by blast
  ultimately show ?thesis by (auto simp: told_ok_def)
qed

lemma told_step:
  assumes ok: "net_ok nt" and t: "told_ok nt" and step: "net_step e nt = Inr nt'"
  shows "told_ok nt'"
proof (cases e)
  case (RunNext st)
  show ?thesis
  proof (cases "nt_queue nt st")
    case (Cons h q)
    then show ?thesis using told_handler_keeps [OF ok t Cons] step RunNext by (simp add: net_step_def)
  qed (use step t RunNext in \<open>simp add: net_step_def\<close>)
next
  case (Completed n failed again)
  then show ?thesis using step t told_completed [OF t]
    by (auto simp: net_step_def split: option.splits if_splits)
next
  case AskStop
  then show ?thesis using step told_same [OF t, of nt'] by (auto simp: net_step_def split: if_splits)
next
  case (Accepted failed)
  then show ?thesis using step told_same [OF t, of nt'] by (auto simp: net_step_def split: if_splits)
qed

lemma told_run: "net_ok nt \<Longrightarrow> told_ok nt \<Longrightarrow> net_run es nt = Inr nt' \<Longrightarrow> told_ok nt'"
  by (induction es arbitrary: nt) (auto simp: rbind_Inr_iff dest: step_keeps told_step)

text \<open>The steps of such an end: no one is added, and the work left shrinks.\<close>

definition no_more :: "net \<Rightarrow> net \<Rightarrow> bool" where
  "no_more nt nt' = ((\<forall>n. StopDetector n \<in># posted nt' \<longrightarrow> StopDetector n \<in># posted nt) \<and>
     (nt_accepting nt' \<longrightarrow> nt_accepting nt) \<and>
     (\<forall>n. nt_conns nt' n \<noteq> None \<longrightarrow> nt_conns nt n \<noteq> None \<and> conn_class nt' n = conn_class nt n))"

lemma no_more_trans: "no_more a b \<Longrightarrow> no_more b c \<Longrightarrow> no_more a c"
  by (simp add: no_more_def)

lemma no_more_popped: "nt_queue nt st = h # q \<Longrightarrow> no_more nt (popped st q nt)"
  by (simp add: no_more_def posted_popped)

lemma no_more_start_op: "nt_conns nt n = Some c \<Longrightarrow> no_more nt (start_op n c nt)"
  by (simp add: no_more_def start_op_def conn_class_def)

lemma no_more_abort_op:
  "nt_conns nt n = Some c' \<Longrightarrow> nc_class c = nc_class c' \<Longrightarrow> no_more nt (abort_op n c nt)"
  by (simp add: no_more_def abort_op_def conn_class_def Let_def)

lemma no_more_release: "no_more nt (release_conn n nt)"
proof -
  have "posted (release_conn n nt) = posted nt" by (simp add: release_conn_def)
  then show ?thesis by (simp add: no_more_def release_conn_def conn_class_def)
qed

lemma winding_step:
  assumes w: "winding_down nt" and step: "net_step e nt = Inr nt'" and n: "no_more nt nt'"
  shows "winding_down nt'"
proof -
  have ok: "net_ok nt" "\<not> li_open (nt_listener nt)" "told_ok nt" using w by (simp_all add: winding_down_def)
  show ?thesis
    using w n step_keeps [OF ok(1) step] told_step [OF ok(1,3) step] step_later [OF ok(1,2) step]
    by (auto simp: winding_down_def no_more_def simp del: not_None_eq)
qed

lemma work_eq: "work nt = (\<Sum>h \<in># posted nt. weight h) + 2 * card {n. conn_pending n nt}"
  by (simp add: work_def posted_def sum_mset_sum_list [symmetric])

lemma pending_finite: "loose X nt \<Longrightarrow> finite {n. conn_pending n nt}"
  by (rule finite_subset [OF _ live_finite]) (auto simp: conn_pending_def split: option.splits)

lemma work_release: "work (release_conn n nt) = work nt"
proof (cases "owned n nt")
  case False
  then have "\<not> conn_pending n nt" by (simp add: owned_def)
  then have "{m. conn_pending m (release_conn n nt)} = {m. conn_pending m nt}"
    using False by (auto simp: release_conn_def conn_pending_def split: if_splits)
  then show ?thesis using release_frame(1) [OF False] by (simp add: work_eq)
qed (simp add: release_conn_def)

lemma work_start_op:
  assumes "finite {n. conn_pending n nt}" and "nt_conns nt n = Some c"
  shows "work (start_op n c nt) \<le> work nt + (if nc_closed c then 1 else 2)"
proof (cases "nc_closed c")
  case False
  have "{m. conn_pending m (nt\<lparr> nt_conns := (nt_conns nt)(n \<mapsto> c\<lparr> nc_pending := True \<rparr>) \<rparr>)} =
      insert n {m. conn_pending m nt}" by auto
  then show ?thesis using False assms(1) by (simp add: work_eq start_op_def card_insert_if)
qed (simp add: work_eq start_op_def)

lemma work_abort_op:
  assumes "finite {n. conn_pending n nt}" and "nt_conns nt n = Some c'" and "nc_pending c = nc_pending c'"
  shows "work (abort_op n c nt) \<le> work nt"
proof -
  let ?n = "nt\<lparr> nt_conns := (nt_conns nt)(n \<mapsto> c\<lparr> nc_pending := False \<rparr>) \<rparr>"
  have p: "conn_pending n nt = nc_pending c" using assms(2,3) by (simp add: conn_pending_def)
  have e: "{m. conn_pending m ?n} = {m. conn_pending m nt} - {n}" by auto
  show ?thesis
  proof (cases "nc_pending c")
    case True
    then have "Suc (card ({m. conn_pending m nt} - {n})) = card {m. conn_pending m nt}"
      using p assms(1) by (intro card_Suc_Diff1) simp_all
    moreover have "{m. conn_pending m (net_post (nc_strand c) (SessionDone n True False) ?n)} =
        {m. conn_pending m nt} - {n}" by auto
    ultimately have "work (net_post (nc_strand c) (SessionDone n True False) ?n) \<le> work nt"
      unfolding work_eq by simp
    then show ?thesis using True by (simp add: abort_op_def Let_def)
  next
    case False
    have "work ?n \<le> work nt" unfolding work_eq e using card_mono [OF assms(1), of "{m. conn_pending m nt} - {n}"] by auto
    then show ?thesis using False by (simp add: abort_op_def Let_def)
  qed
qed

lemma work_popped:
  assumes "nt_queue nt st = h # q"
  shows "work nt = work (popped st q nt) + weight h"
proof -
  have "conn_pending n (popped st q nt) = conn_pending n nt" for n by (simp add: conn_pending_def)
  then show ?thesis by (simp add: work_eq posted_popped [OF assms])
qed

lemma winding_handler:
  assumes w: "winding_down nt" and q: "nt_queue nt st = h # q"
  shows "\<exists>nt'. net_step (RunNext st) nt = Inr nt' \<and> winding_down nt' \<and> work nt' < work nt"
proof -
  let ?p = "popped st q nt"
  have ok: "net_ok nt" "\<not> li_open (nt_listener nt)" "told_ok nt" "\<forall>n. StopDetector n \<notin># posted nt"
    using w by (simp_all add: winding_down_def)
  have plain: "nc_class c = PlainHttpSession" if "nt_conns nt n = Some c" for n c
    using w that unfolding winding_down_def by (metis conn_class_def option.distinct(1) option.simps(5))
  have step: "net_step (RunNext st) nt = run_handler h ?p" using q by (simp add: net_step_def)
  have fin: "finite {n. conn_pending n ?p}"
    using pending_finite [OF ok(1)] by (simp add: conn_pending_def)
  have less: "work ?p < work nt" using work_popped [OF q] by (cases h) auto
  have no: "h \<noteq> StopListener" using ok(1,2) posted_popped [OF q] by (auto simp: loose_def)
  have "\<exists>nt'. run_handler h ?p = Inr nt' \<and> no_more ?p nt' \<and> work nt' < work nt"
  proof (cases h)
    case (AcceptDone failed)
    then show ?thesis using ok(2) less
      by (auto simp: run_handler_def accept_done_def on_accept_def no_more_def)
  next
    case (RunSession n)
    with loose_turn [OF ok(1) q, of n] obtain c where c: "nt_conns ?p n = Some c" by auto
    have "work (start_op n c ?p) < work nt"
      using work_start_op [OF fin c] work_popped [OF q] RunSession by (auto split: if_splits)
    then show ?thesis using RunSession c no_more_trans [OF no_more_start_op [OF c] no_more_release [of _ n]]
      by (simp add: run_handler_def work_release)
  next
    case (SessionDone n failed again)
    with loose_turn [OF ok(1) q, of n] obtain c where c: "nt_conns ?p n = Some c" by auto
    then have d: "session_done n failed again c ?p = (if \<not> failed \<and> again then start_op n c ?p else ?p)"
      using plain [of n c] by (simp add: session_done_def)
    have "work (session_done n failed again c ?p) < work nt"
      using work_start_op [OF fin c] work_popped [OF q] SessionDone less by (auto simp: d split: if_splits)
    moreover have "no_more ?p (session_done n failed again c ?p)"
      using no_more_start_op [OF c] by (simp add: d) (simp add: no_more_def)
    ultimately show ?thesis
      using SessionDone c no_more_trans [OF _ no_more_release [of _ n]] by (simp add: run_handler_def work_release)
  next
    case (StopSession n)
    with loose_stop_session [OF ok(1), of st n q] q obtain c where c: "nt_conns ?p n = Some c" by auto
    have "work (abort_op n (c\<lparr> nc_closed := True \<rparr>) ?p) < work nt"
      using work_abort_op [OF fin c, of "c\<lparr> nc_closed := True \<rparr>"] less by simp
    then show ?thesis
      using StopSession c no_more_trans [OF no_more_abort_op [OF c, of "c\<lparr> nc_closed := True \<rparr>"] no_more_release [of _ n]]
      by (simp add: run_handler_def work_release)
  qed (use no ok(4) posted_popped [OF q] in auto)
  then show ?thesis using winding_step [OF w] step no_more_trans [OF no_more_popped [OF q]] by metis
qed

text \<open>The clients and the caller of the stop cannot disturb it.\<close>

lemma winding_any:
  assumes w: "winding_down nt"
  shows "\<exists>nt'. net_step e nt = Inr nt' \<and> winding_down nt'"
proof (cases e)
  case (RunNext st)
  show ?thesis
  proof (cases "nt_queue nt st")
    case Nil
    then show ?thesis using w RunNext by (simp add: net_step_def)
  next
    case (Cons h q)
    then show ?thesis using winding_handler [OF w Cons] RunNext by blast
  qed
next
  case (Completed n failed again)
  obtain nt' where s: "net_step e nt = Inr nt'" by (simp add: Completed net_step_def)
  moreover have "no_more nt nt'"
    using s by (auto simp: Completed net_step_def no_more_def conn_class_def split: option.splits if_splits)
  ultimately show ?thesis using winding_step [OF w] by blast
next
  case AskStop
  have "nt_stopping nt" using w by (simp add: winding_down_def loose_def)
  then show ?thesis using w AskStop by (simp add: net_step_def)
next
  case (Accepted failed)
  then show ?thesis using w by (simp add: net_step_def winding_down_def)
qed

lemma winding_run: "winding_down nt \<Longrightarrow> \<exists>nt'. net_run es nt = Inr nt' \<and> winding_down nt'"
proof (induction es arbitrary: nt)
  case (Cons e es)
  obtain nt1 where "net_step e nt = Inr nt1" "winding_down nt1" using winding_any [OF Cons.prems] by blast
  then show ?case using Cons.IH [of nt1] by simp
qed simp

lemma work_step: "winding_down nt \<Longrightarrow> net_step (RunNext st) nt = Inr nt' \<Longrightarrow> work nt' \<le> work nt"
proof (cases "nt_queue nt st")
  case (Cons h q)
  assume "winding_down nt" "net_step (RunNext st) nt = Inr nt'"
  then show ?thesis using winding_handler [OF _ Cons] by fastforce
qed (simp add: net_step_def)

definition idle :: "net \<Rightarrow> bool" where
  "idle nt = (nt_queue nt ListenerStrand = [] \<and> nt_queue nt FirstStrand = [])"

lemma winding_idle:
  assumes w: "winding_down nt" and i: "idle nt"
  shows "nt_conns nt n = None \<and> destroy_listener (nt_listener nt) = Inr () \<and> work nt = 0"
proof -
  have p: "posted nt = {#}" using i by (simp add: idle_def posted_def)
  have gone: "nt_conns nt m = None" for m
  proof (cases "nt_conns nt m")
    case (Some c)
    have ok: "net_ok nt" and t: "told_ok nt" and m: "m \<in> set (nt_told nt)" "nc_class c = PlainHttpSession"
      using w Some unfolding winding_down_def by (auto simp: conn_class_def)
    have "turns m nt = 1" using ok Some p unfolding loose_def by auto
    then have "nc_pending c" using Some p by (simp add: turns_def conn_pending_def split: if_splits)
    moreover have "nc_closed c" using t m Some p unfolding told_ok_def by auto
    ultimately show ?thesis using t Some unfolding told_ok_def by blast
  qed simp
  then have "conn_pending m nt = False" for m by (simp add: conn_pending_def)
  moreover have "li_sessions (nt_listener nt) = {}" using w gone by (simp add: winding_down_def loose_def)
  ultimately show ?thesis using gone p by (simp add: destroy_listener_def work_eq)
qed

text \<open>A round in which each strand has a turn does some of the work, if there is any.\<close>

lemma winding_turns:
  "winding_down nt \<Longrightarrow> \<exists>nt'. net_run (map RunNext sts) nt = Inr nt' \<and> winding_down nt' \<and> work nt' \<le> work nt \<and>
     ((\<exists>st \<in> set sts. nt_queue nt st \<noteq> []) \<longrightarrow> work nt' < work nt)"
proof (induction sts arbitrary: nt)
  case (Cons st sts)
  obtain nt1 where n1: "net_step (RunNext st) nt = Inr nt1" "winding_down nt1" using winding_any [OF Cons.prems] by blast
  obtain nt2 where n2: "net_run (map RunNext sts) nt1 = Inr nt2" "winding_down nt2" "work nt2 \<le> work nt1"
    "(\<exists>st \<in> set sts. nt_queue nt1 st \<noteq> []) \<longrightarrow> work nt2 < work nt1" using Cons.IH [OF n1(2)] by blast
  have le: "work nt1 \<le> work nt" by (rule work_step [OF Cons.prems n1(1)])
  have "work nt2 < work nt" if "\<exists>x \<in> set (st # sts). nt_queue nt x \<noteq> []"
  proof (cases "nt_queue nt st")
    case Nil
    then have "nt1 = nt" using n1(1) by (simp add: net_step_def)
    then show ?thesis using that Nil n2(4) by auto
  next
    case (Cons h q)
    then show ?thesis using winding_handler [OF Cons.prems Cons] n1(1) n2(3) by fastforce
  qed
  then show ?case using n1(1) n2 le by auto
qed simp

lemma net_run_append: "net_run (es @ fs) nt = rbind (net_run es nt) (net_run fs)"
proof (induction es arbitrary: nt)
  case (Cons e es)
  then show ?case by (cases "net_step e nt") simp_all
qed simp

lemma weight_pos [simp]: "weight h \<noteq> 0"
  by (cases h) simp_all

lemma winding_rounds:
  "winding_down nt \<Longrightarrow> list_all (\<lambda>r. set r = {ListenerStrand, FirstStrand}) rounds \<Longrightarrow> work nt \<le> length rounds \<Longrightarrow>
   \<exists>nt'. net_run (map RunNext (concat rounds)) nt = Inr nt' \<and> winding_down nt' \<and> idle nt'"
proof (induction rounds arbitrary: nt)
  case Nil
  then have "idle nt"
    by (cases "nt_queue nt ListenerStrand"; cases "nt_queue nt FirstStrand") (auto simp: idle_def work_def)
  with Nil show ?case by simp
next
  case (Cons r rounds)
  obtain nt1 where n1: "net_run (map RunNext r) nt = Inr nt1" "winding_down nt1" "work nt1 \<le> work nt"
    "(\<exists>st \<in> set r. nt_queue nt st \<noteq> []) \<longrightarrow> work nt1 < work nt"
    using winding_turns [OF Cons.prems(1)] by blast
  have "work nt1 \<le> length rounds"
  proof (cases "idle nt")
    case True
    then show ?thesis using winding_idle [OF Cons.prems(1)] n1(3) by simp
  next
    case False
    then have "work nt1 < work nt" using n1(4) Cons.prems(2) by (auto simp: idle_def)
    then show ?thesis using Cons.prems(3) by simp
  qed
  then show ?case using Cons.IH [OF n1(2)] Cons.prems(2) n1(1) by (simp add: net_run_append)
qed

section \<open>Properties\<close>

text \<open>C9: A listener knows its sessions until it stops. In every history of a worker's connections, however accepts,
  detections, requests and the stop interleave: the sessions in the listener's set are the living ones that were
  not told to stop, every living one is owned by an operation or a handler, nobody is told before the acceptor is
  closed, a thread that has nothing left to run leaves a listener that can be destroyed without its assertion
  failing, and the only exceptions to come are that of a TLS session at the stop and the use of a detector
  that is gone.\<close>

theorem listener_knows_sessions:
  assumes "li_open l" and "li_sessions l = {}" and "net_run es (start_net l) = Inr nt"
  shows "li_sessions (nt_listener nt) = {n. nt_conns nt n \<noteq> None \<and> n \<notin> set (nt_told nt)} \<and>
    (\<forall>n. nt_conns nt n \<noteq> None \<longrightarrow> owned n nt) \<and> (li_open (nt_listener nt) \<longrightarrow> nt_told nt = []) \<and>
    ((\<forall>st. nt_queue nt st = []) \<and> (\<forall>n. \<not> conn_pending n nt) \<longrightarrow> destroy_listener (nt_listener nt) = Inr ()) \<and>
    (\<forall>e x. net_step e nt = Inl x \<longrightarrow> (\<exists>st h q. e = RunNext st \<and> nt_queue nt st = h # q \<and>
      (h = StopListener \<and> x = not_implemented \<and> (\<exists>n. nt_conns nt n \<noteq> None \<and> conn_class nt n = TlsHttpSession) \<or>
       (\<exists>n. h = StopDetector n \<and> x = UndefinedBehaviour \<and> nt_conns nt n = None))))"
proof -
  have ok: "net_ok nt" by (rule run_keeps [OF loose_start [OF assms(1,2)] assms(3)])
  then have "owned n nt" if "nt_conns nt n \<noteq> None" for n
    using that unfolding owned_iff loose_def by (metis empty_iff one_neq_zero)
  moreover have "destroy_listener (nt_listener nt) = Inr ()" if "\<forall>st. nt_queue nt st = []" "\<forall>n. \<not> conn_pending n nt"
  proof -
    have "\<not> owned n nt" for n using that by (simp add: owned_def)
    then have "nt_conns nt n = None" for n using calculation by blast
    then show ?thesis using ok by (simp add: loose_def destroy_listener_def)
  qed
  ultimately show ?thesis using ok step_fails [OF ok] by (simp add: loose_def del: not_None_eq)
qed

definition fresh_listener :: listener where
  "fresh_listener = (new_listener blank_listener new_registry)\<lparr> li_open := True \<rparr>"

lemma fresh_listener_facts: "li_open fresh_listener" "li_sessions fresh_listener = {}"
  "lc_kind (li_conf fresh_listener) = ''allow_tls''"
  by (simp_all add: fresh_listener_def new_listener_def)

text \<open>One client connects, sends a first byte that is none of TLS, and the worker is asked to stop.\<close>

definition client_and_stop :: "net_event list" where
  "client_and_stop = [Accepted False, RunNext ListenerStrand, RunNext FirstStrand, Completed 0 False False, AskStop]"

lemmas net_defs = net_step_def run_handler_def accept_done_def on_accept_def launch_def start_class_def launch_conn_def
  net_post_def start_op_def release_conn_def owned_def conn_pending_def start_net_def session_done_def on_detect_def

lemma client_and_stop_run:
  "\<exists>nt. net_run client_and_stop (start_net fresh_listener) = Inr nt \<and> nt_queue nt ListenerStrand = [StopListener] \<and>
    nt_queue nt FirstStrand = [SessionDone 0 False False] \<and> nt_fresh nt = 1 \<and> nt_accepting nt \<and>
    nt_conns nt = [0 \<mapsto> \<lparr> nc_class = DetectorSession, nc_strand = FirstStrand, nc_pending = False, nc_closed = False \<rparr>]"
  by (simp add: client_and_stop_def net_defs fresh_listener_facts)

theorem listener_knows_sessions_witness:
  "\<exists>nt. net_run client_and_stop (start_net fresh_listener) = Inr nt \<and> nt_queue nt ListenerStrand = [StopListener] \<and>
    li_sessions (nt_listener nt) = {0} - set (nt_told nt) \<and> owned 0 nt"
proof -
  obtain nt where nt: "net_run client_and_stop (start_net fresh_listener) = Inr nt" "nt_queue nt ListenerStrand = [StopListener]"
    "nt_conns nt = [0 \<mapsto> \<lparr> nc_class = DetectorSession, nc_strand = FirstStrand, nc_pending = False, nc_closed = False \<rparr>]"
    using client_and_stop_run by blast
  from listener_knows_sessions [OF fresh_listener_facts(1,2) nt(1)] nt show ?thesis by auto
qed

text \<open>C8: Stopping a worker while a client connects is a use of freed memory. Whenever the listener's stop is the next
  handler and the detection of some connection is complete, waiting in its queue, the program goes wrong: the stop
  is posted to the detector by its raw pointer, behind the completion that launches the session and ends
  the detector. However the rest of the queue looks, running it gets there, unless a TLS session ends the
  program first.\<close>

theorem stop_races_detection:
  assumes "li_open l" and "li_sessions l = {}" and "net_run es (start_net l) = Inr nt"
    and "nt_queue nt ListenerStrand = StopListener # q" and "nt_conns nt d = Some c" and "nc_class c = DetectorSession"
    and "SessionDone d failed tls \<in> set (nt_queue nt (nc_strand c))"
  shows "\<exists>k e. net_run (RunNext ListenerStrand # replicate k (RunNext (nc_strand c))) nt = Inl e \<and>
    e = (if \<exists>n. nt_conns nt n \<noteq> None \<and> conn_class nt n = TlsHttpSession then not_implemented else UndefinedBehaviour)"
proof -
  have ok: "net_ok nt" by (rule run_keeps [OF loose_start [OF assms(1,2)] assms(3)])
  have live: "set (live_list nt) = {n. nt_conns nt n \<noteq> None}" by (rule set_live_list [OF ok])
  let ?p = "popped ListenerStrand q nt"
  let ?s = "fold post_stop (live_list nt) (closing ?p)"
  have step: "net_step (RunNext ListenerStrand) nt =
      (if \<exists>n. nt_conns nt n \<noteq> None \<and> conn_class nt n = TlsHttpSession then Inl not_implemented else Inr ?s)"
    using stop_net_eq [OF ok assms(4)] assms(4) live by (simp add: net_step_def run_handler_def del: not_None_eq)
  show ?thesis
  proof (cases "\<exists>n. nt_conns nt n \<noteq> None \<and> conn_class nt n = TlsHttpSession")
    case True
    then show ?thesis using step by (intro exI [of _ 0] exI [of _ not_implemented]) simp
  next
    case False
    let ?st = "nc_strand c"
    have oks: "net_ok ?s" by (rule loose_stop_net [OF ok assms(4)])
    have f: "nt_conns ?s = nt_conns nt" "nt_fresh ?s = nt_fresh nt" "\<not> li_open (nt_listener ?s)"
      using fold_post_stop [of "live_list nt" "closing ?p"] live by simp_all
    have "d \<in> set (live_list nt)" using live assms(5) by simp
    then obtain ns ns' where ns: "live_list nt = ns @ d # ns'" by (meson split_list)
    let ?m = "fold post_stop ns (closing ?p)"
    have m: "nt_conns ?m = nt_conns nt"
      using fold_post_stop [of ns "closing ?p"] live ns by (auto simp del: not_None_eq)
    obtain x1 where x1: "nt_queue (closing ?p) ?st = nt_queue ?p ?st @ x1"
      by (cases "nt_accepting nt"; cases ?st) (auto simp: closing_def net_post_def)
    obtain x2 where x2: "nt_queue ?m ?st = nt_queue (closing ?p) ?st @ x2" using later_queue [OF later_post_stop] by blast
    have "nt_queue (post_stop d ?m) ?st = nt_queue ?m ?st @ [StopDetector d]"
      using m assms(5,6) by (simp add: post_stop_def net_post_def)
    moreover obtain x3 where "nt_queue ?s ?st = nt_queue (post_stop d ?m) ?st @ x3"
      using later_queue [OF later_post_stop [of "post_stop d ?m" ns']] unfolding ns by auto
    ultimately have q: "nt_queue ?s ?st = (nt_queue ?p ?st @ x1 @ x2) @ StopDetector d # x3" using x1 x2 by simp
    have "SessionDone d failed tls \<in> set (nt_queue ?p ?st @ x1 @ x2)" using assms(4,7) by (cases ?st) auto
    moreover have "conn_class ?s d = DetectorSession" using f(1) assms(5,6) by (simp add: conn_class_def)
    moreover have "d < nt_fresh ?s" using ok assms(5) f(2) by (auto simp: loose_def not_less [symmetric])
    ultimately have "net_run (replicate (Suc (length (nt_queue ?p ?st @ x1 @ x2))) (RunNext ?st)) ?s = Inl UndefinedBehaviour"
      using run_dead_detector [OF oks f(3) q] by blast
    then show ?thesis using step unfolding if_not_P [OF False]
      by (intro exI [of _ "Suc (length (nt_queue ?p ?st @ x1 @ x2))"] exI [of _ UndefinedBehaviour]) simp
  qed
qed

theorem stop_races_detection_witness:
  "\<exists>nt k. net_run client_and_stop (start_net fresh_listener) = Inr nt \<and>
    net_run (RunNext ListenerStrand # replicate k (RunNext FirstStrand)) nt = Inl UndefinedBehaviour"
proof -
  let ?c = "\<lparr> nc_class = DetectorSession, nc_strand = FirstStrand, nc_pending = False, nc_closed = False \<rparr>"
  obtain nt where nt: "net_run client_and_stop (start_net fresh_listener) = Inr nt" "nt_queue nt ListenerStrand = [StopListener]"
    "nt_queue nt FirstStrand = [SessionDone 0 False False]" "nt_conns nt = [0 \<mapsto> ?c]"
    using client_and_stop_run by blast
  have tls: "\<not> (\<exists>n. nt_conns nt n \<noteq> None \<and> conn_class nt n = TlsHttpSession)" using nt(4) by (simp add: conn_class_def)
  have "\<exists>k. net_run (RunNext ListenerStrand # replicate k (RunNext FirstStrand)) nt = Inl UndefinedBehaviour"
    using stop_races_detection [OF fresh_listener_facts(1,2) nt(1,2), of 0 ?c False False] nt(3,4)
    unfolding if_not_P [OF tls] by simp
  then show ?thesis using nt(1) by blast
qed

text \<open>C29: A client that connects while a worker stops is served on. When a detection completes after the listener's
  stop, before its cancellation had an effect, its session is launched all the same: it stands in
  the set of the stopped listener and lives, and in no later state has it been told to stop.\<close>

theorem late_session_untold:
  assumes "li_open l" and "li_sessions l = {}" and "net_run es (start_net l) = Inr nt"
    and "\<not> li_open (nt_listener nt)" and "nt_queue nt st = SessionDone d False tls # q"
    and "conn_class nt d = DetectorSession"
  shows "\<exists>nt1. net_step (RunNext st) nt = Inr nt1 \<and> nt_fresh nt \<in> li_sessions (nt_listener nt1) \<and>
    nt_conns nt1 (nt_fresh nt) \<noteq> None \<and>
    conn_class nt1 (nt_fresh nt) = (if tls then TlsHttpSession else PlainHttpSession) \<and>
    (\<forall>es' nt2. net_run es' nt1 = Inr nt2 \<longrightarrow> nt_fresh nt \<notin> set (nt_told nt2))"
proof -
  have ok: "net_ok nt" by (rule run_keeps [OF loose_start [OF assms(1,2)] assms(3)])
  obtain nt1 where n1: "net_step (RunNext st) nt = Inr nt1" "nt_conns nt1 (nt_fresh nt) \<noteq> None"
    "conn_class nt1 (nt_fresh nt) = (if tls then TlsHttpSession else PlainHttpSession)"
    "nt_fresh nt \<in> li_sessions (nt_listener nt1)"
    using detector_done [OF ok assms(5,6)] assms(5) by (auto simp: net_step_def)
  have "nt_told nt2 = nt_told nt" if "net_run es' nt1 = Inr nt2" for es' nt2
    using run_later [OF step_keeps [OF ok n1(1)] _ that] step_later [OF ok assms(4) n1(1)] by simp
  moreover have "nt_fresh nt \<notin> set (nt_told nt)" using ok by (simp add: loose_def)
  ultimately show ?thesis using n1 by auto
qed

text \<open>The same client; here the detection completes between the listener's stop and the detector's.\<close>

definition late_client :: "net_event list" where
  "late_client = [Accepted False, RunNext ListenerStrand, RunNext FirstStrand, AskStop, RunNext ListenerStrand,
     Completed 0 False False, RunNext FirstStrand]"

theorem late_session_untold_witness:
  "\<exists>nt nt1. net_run late_client (start_net fresh_listener) = Inr nt \<and> net_step (RunNext FirstStrand) nt = Inr nt1 \<and>
    1 \<in> li_sessions (nt_listener nt1) \<and> conn_class nt1 1 = PlainHttpSession \<and> 1 \<notin> set (nt_told nt1)"
proof -
  have e: "{n. n = 0} = {0::nat}" by auto
  obtain nt where nt: "net_run late_client (start_net fresh_listener) = Inr nt" "\<not> li_open (nt_listener nt)"
    "nt_queue nt FirstStrand = [SessionDone 0 False False]" "conn_class nt 0 = DetectorSession" "nt_fresh nt = 1"
    by (simp add: late_client_def net_defs fresh_listener_facts stop_net_def stop_listener_def listener_do_stop_def
        session_insert_def post_stop_def abort_op_def conn_class_def Let_def)
  from late_session_untold [OF fresh_listener_facts(1,2) nt(1-4)] nt(1,5) show ?thesis
    by (metis net_run.simps(1))
qed

text \<open>C28: When a stop goes well. If every living connection is a plain HTTP session when the listener's stop runs, so
  that no client is being detected and none speaks TLS: the stop tells exactly the living sessions; from then
  on nothing goes wrong, whatever the clients do and however their completions interleave with the handlers; and
  from any point on at which the clients only wait, after as many rounds as there is work left, in each of which
  both strands have a turn, every session is gone, the network thread has nothing of the listener's to wait for,
  and the listener can be destroyed. (A connection that became a WebSocket session is not the listener's
  any more; its pending read keeps the thread running until the client leaves.)\<close>

theorem stop_ends_sessions:
  assumes "li_open l" and "li_sessions l = {}" and "net_run es (start_net l) = Inr nt"
    and "nt_queue nt ListenerStrand = StopListener # q"
    and "\<forall>n. nt_conns nt n \<noteq> None \<longrightarrow> conn_class nt n = PlainHttpSession"
  shows "\<exists>nt1. net_step (RunNext ListenerStrand) nt = Inr nt1 \<and> set (nt_told nt1) = {n. nt_conns nt n \<noteq> None} \<and>
    (\<forall>es'. \<exists>nt2. net_run es' nt1 = Inr nt2 \<and>
      (\<forall>rounds. list_all (\<lambda>r. set r = {ListenerStrand, FirstStrand}) rounds \<and> work nt2 \<le> length rounds \<longrightarrow>
        (\<exists>nt3. net_run (map RunNext (concat rounds)) nt2 = Inr nt3 \<and> idle nt3 \<and> \<not> nt_accepting nt3 \<and>
          (\<forall>n. nt_conns nt3 n = None) \<and> destroy_listener (nt_listener nt3) = Inr ())))"
proof -
  have ok: "net_ok nt" by (rule run_keeps [OF loose_start [OF assms(1,2)] assms(3)])
  have live: "set (live_list nt) = {n. nt_conns nt n \<noteq> None}" by (rule set_live_list [OF ok])
  let ?p = "popped ListenerStrand q nt"
  let ?s = "fold post_stop (live_list nt) (closing ?p)"
  have tls: "\<not> (\<exists>n \<in> set (live_list nt). conn_class nt n = TlsHttpSession)" using assms(5) live by auto
  have "net_step (RunNext ListenerStrand) nt = stop_net ?p" using assms(4) by (simp add: net_step_def run_handler_def)
  also have "stop_net ?p = Inr ?s" unfolding stop_net_eq [OF ok assms(4)] by (rule if_not_P [OF tls])
  finally have step: "net_step (RunNext ListenerStrand) nt = Inr ?s" .
  have told: "told_ok nt" by (rule told_run [OF loose_start [OF assms(1,2)] told_start assms(3)])
  have l: "live_list ?p = live_list nt" by (simp add: live_list_def)
  have all: "\<forall>n \<in> set (live_list nt). nt_conns (closing ?p) n \<noteq> None" using live by simp
  have f: "nt_conns ?s = nt_conns nt" "nt_told ?s = live_list nt" "\<not> li_open (nt_listener ?s)"
    "posted ?s = posted (closing ?p) + mset (map (stop_handler (conn_class nt)) (live_list nt))"
    using fold_post_stop [OF all] l by simp_all
  have acc: "nt_accepting (fold post_stop ns n1) = nt_accepting n1" for ns n1
    by (induction ns arbitrary: n1) (simp_all add: post_stop_def split: option.split)
  have "StopDetector n \<notin># posted ?p" for n
    using ok posted_popped [OF assms(4)] by (auto simp: loose_def split: if_splits)
  moreover have "StopDetector n \<noteq> stop_handler (conn_class nt) m" if "m \<in> set (live_list nt)" for n m
    using that assms(5) live by (auto simp: stop_handler_def)
  ultimately have "StopDetector n \<notin># posted ?s" for n using f(4) by (auto simp: posted_closing)
  then have w: "winding_down ?s"
    using loose_stop_net [OF ok assms(4)] told_stop [OF ok assms(4) told] f assms(5) live acc [of "live_list nt" "closing ?p"]
    by (simp add: winding_down_def closing_def conn_class_def [abs_def] del: not_None_eq)
  have "\<exists>nt2. net_run es' ?s = Inr nt2 \<and>
      (\<forall>rounds. list_all (\<lambda>r. set r = {ListenerStrand, FirstStrand}) rounds \<and> work nt2 \<le> length rounds \<longrightarrow>
        (\<exists>nt3. net_run (map RunNext (concat rounds)) nt2 = Inr nt3 \<and> idle nt3 \<and> \<not> nt_accepting nt3 \<and>
          (\<forall>n. nt_conns nt3 n = None) \<and> destroy_listener (nt_listener nt3) = Inr ()))" for es'
  proof -
    obtain nt2 where n2: "net_run es' ?s = Inr nt2" "winding_down nt2" using winding_run [OF w] by blast
    have "\<exists>nt3. net_run (map RunNext (concat rounds)) nt2 = Inr nt3 \<and> idle nt3 \<and> \<not> nt_accepting nt3 \<and>
        (\<forall>n. nt_conns nt3 n = None) \<and> destroy_listener (nt_listener nt3) = Inr ()"
      if r: "list_all (\<lambda>r. set r = {ListenerStrand, FirstStrand}) rounds" "work nt2 \<le> length rounds" for rounds
    proof -
      obtain nt3 where "net_run (map RunNext (concat rounds)) nt2 = Inr nt3" "winding_down nt3" "idle nt3"
        using winding_rounds [OF n2(2) r] by blast
      then show ?thesis using winding_idle [of nt3] by (auto simp: winding_down_def)
    qed
    then show ?thesis using n2(1) by blast
  qed
  then show ?thesis using step f(2) live by auto
qed

text \<open>The same client, detected before the stop: its session is told and ends.\<close>

definition served_and_stop :: "net_event list" where
  "served_and_stop = [Accepted False, RunNext ListenerStrand, RunNext FirstStrand, Completed 0 False False,
     RunNext FirstStrand, RunNext FirstStrand, AskStop]"

theorem stop_ends_sessions_witness:
  "\<exists>nt nt1. net_run served_and_stop (start_net fresh_listener) = Inr nt \<and> conn_pending 1 nt \<and>
    net_step (RunNext ListenerStrand) nt = Inr nt1 \<and> set (nt_told nt1) = {1} \<and>
    (\<exists>rounds nt3. net_run (map RunNext (concat rounds)) nt1 = Inr nt3 \<and> nt_conns nt3 1 = None)"
proof -
  obtain nt where nt: "net_run served_and_stop (start_net fresh_listener) = Inr nt" "nt_queue nt ListenerStrand = [StopListener]"
    "nt_conns nt = [1 \<mapsto> \<lparr> nc_class = PlainHttpSession, nc_strand = FirstStrand, nc_pending = True, nc_closed = False \<rparr>]"
    by (simp add: served_and_stop_def net_defs fresh_listener_facts session_erase_def session_insert_def)
  then have plain: "\<forall>n. nt_conns nt n \<noteq> None \<longrightarrow> conn_class nt n = PlainHttpSession"
    by (simp add: conn_class_def)
  obtain nt1 where n1: "net_step (RunNext ListenerStrand) nt = Inr nt1" "set (nt_told nt1) = {n. nt_conns nt n \<noteq> None}"
    and rest: "\<forall>es'. \<exists>nt2. net_run es' nt1 = Inr nt2 \<and>
      (\<forall>rounds. list_all (\<lambda>r. set r = {ListenerStrand, FirstStrand}) rounds \<and> work nt2 \<le> length rounds \<longrightarrow>
        (\<exists>nt3. net_run (map RunNext (concat rounds)) nt2 = Inr nt3 \<and> idle nt3 \<and> \<not> nt_accepting nt3 \<and>
          (\<forall>n. nt_conns nt3 n = None) \<and> destroy_listener (nt_listener nt3) = Inr ()))"
    using stop_ends_sessions [OF fresh_listener_facts(1,2) nt(1,2) plain] by blast
  have "list_all (\<lambda>r. set r = {ListenerStrand, FirstStrand}) (replicate (work nt1) [ListenerStrand, FirstStrand])"
    by (simp add: list_all_length)
  then obtain nt3 where "net_run (map RunNext (concat (replicate (work nt1) [ListenerStrand, FirstStrand]))) nt1 = Inr nt3"
    "nt_conns nt3 1 = None"
    using rest [rule_format, of "[]"] by fastforce
  moreover have "conn_pending 1 nt" "{n. nt_conns nt n \<noteq> None} = {1}" using nt(3) by (auto simp: conn_pending_def)
  ultimately show ?thesis using nt(1) n1 by blast
qed

end
