(* ===== verification/Spec2Isabelle.thy ===== *)
theory Spec2Isabelle
imports ControlClient WorkerControl Blackjack Shutdown HttpSession Downstream Listener SfRules SfImport
  WorkerProcess OsUtils JsHost JsConvert MessageRef SfPlugin XmlCount
  ConfigV8 Programs
  ScriptPages ProxyForward SfListing JsExternal Plugins Lobby ConnLife
begin

text \<open>
  Verification library for easyprospect-service: a family of programs that serve web pages, a
  JSON-RPC lobby over WebSockets and scripted pages. All paths below are under
  \<open>src/easyprospect-service\<close>.

  The programs and how they interact. \<open>epworkercntl\<close> (the controller) starts worker processes and keeps a
  named pipe to each. \<open>epworker\<close> (the worker) is the application server: it listens on a port, serves HTTP
  and WebSocket sessions, runs the lobby's channels, and reports its port to the controller
  with a START message; a stop message from the controller shuts it down. \<open>epsrv\<close> (the proxy) listens
  too, and forwards what it reads to a worker, its backend. All three read the same kind of configuration.

  Theories, in the order of the code.

  \<^item> \<open>EpPrelude\<close>: exceptions as values of a sum type, C++ strings and numbers (\<open>stoi\<close>, extraction from
    a stream), the generic lemmas and the collections the proofs share.
  \<^item> \<open>EpInterfaces\<close>: the runs of a step relation; the contracts as locales: a fifo, a text codec, a set of
    sessions, a machine that simulates a specification. Every locale is interpreted on the definitions of a component below.
  \<^item> \<open>ControlMessage\<close>: the messages of the pipe (\<open>epprocess-message\<close>): classes, packing, reading, printing.
  \<^item> \<open>ControlServer\<close>: the controller's end of the pipes (\<open>epprocess-control-win.cpp\<close>). The state is a record
    of the code's arrays. \<open>pipe_step\<close> interleaves the listening thread, the senders and the kernel at the grain of
    the code's locks: what \<open>write_mutex\<close> covers is one step, and taking a message from the queue, which it does
    not cover, begins and ends with steps of its own, so that a \<open>send\<close> in between is a data race.
  \<^item> \<open>WorkerControl\<close>: the registry and the supervising loop (\<open>make-server.cpp\<close> of \<open>epworkercntl\<close>). The loop has a
    list of turns as its fuel: what the system answers in each pass, whether the control thread runs and the worker is
    seen alive, the console events that arrive, and what the other threads do. When the list ends first the result says so.
  \<^item> \<open>ControlClient\<close>: the worker's end of the pipe (\<open>easyprospect-process-cntrl-client-win.cpp\<close>), its thread, the
    handlers it posts and the senders, interleaved at the same grain.
  \<^item> \<open>WorkerProcess\<close>: one worker process and the thread that watches it (\<open>epprocess-win.cpp\<close>): a record of the
    kernel's handles, the start of the child as actions that may throw, the loop over the answers of its
    waits. A list of answers is its fuel; the loop ends at the first that reports the end of the process.
  \<^item> \<open>Rpc\<close>, \<open>Channels\<close>, \<open>Blackjack\<close>: JSON-RPC calls (\<open>rpc.cpp\<close>), the channel list, rooms and system channel,
    and the card tables (\<open>worker-server.h\<close>, \<open>ws-user.cpp\<close>).
  \<^item> \<open>Lobby\<close>: the same from the frame a session reads to what its write queue and the others' are given
    (\<open>session.hpp\<close>, \<open>rpc.cpp\<close>, \<open>message.cpp\<close>): one lounge with a queue for each session.
  \<^item> \<open>Shutdown\<close>: the life cycle of proxy and worker (\<open>server.cpp\<close>, \<open>worker-server-app.cpp\<close>): running services,
    the countdown of a shutdown, signals. The worker is shown to refine the proxy. \<open>ticks\<close> fires the timer
    once for each element of a list; a list of one element for each started ten seconds is enough.
  \<^item> \<open>WsSession\<close>: the write queue of a WebSocket session, the answer to a request for a file (\<open>session.hpp\<close>,
    \<open>session.cpp\<close>, \<open>message.cpp\<close>).
  \<^item> \<open>MessageRef\<close>: the reference counted buffer of a broadcast (\<open>message.hpp\<close>): a heap of counted blocks and the
    handles to them; the abstract machine, in which every handle has a value of its own, is simulated by it.
  \<^item> \<open>SessionLife\<close>: sessions around their requests (\<open>session.hpp\<close>, \<open>session.cpp\<close>, \<open>http_session.cpp\<close>): what they
    take from the server, TLS handshake and shutdown, the upgrade and the owners of a WebSocket session, the stop.
  \<^item> \<open>HttpRequest\<close>, \<open>HttpSession\<close>, \<open>Downstream\<close>: what the proxy reads and what it sends on
    (\<open>easyprospect-http-request.h\<close>, \<open>http-session-base.cpp\<close>, \<open>easyprospect-server-downstream.h\<close>).
  \<^item> \<open>ProxyForward\<close>: the forwarding as it runs (\<open>server.cpp\<close>): each call spawns a coroutine, whose waits are phases;
    five turns end one that is alone. One turn is one event of a finite history, so a run has as much fuel as events.
  \<^item> \<open>Config\<close>, \<open>Listener\<close>: the configuration objects and the listening sockets (\<open>easyprospect-config\<close>,
    \<open>listener.cpp\<close>).
  \<^item> \<open>ArgFile\<close>, \<open>ConfigV8\<close>: the argument file of a program (\<open>get_map\<close>): the regular expressions that clean it,
    as sequences of items with a backtracking matcher, and its line of options; the script shell's configuration.
  \<^item> \<open>EpState\<close>, \<open>DataStore\<close>: actions that may throw after they changed a state; statements on the SQLite file
    (\<open>easyprospect-data.h\<close>, \<open>easyprospect-data.cpp\<close>).
  \<^item> \<open>SfSchema\<close>, \<open>SfRules\<close>: the objects of a Salesforce catalogue, their builders and factories
    (\<open>easyprospect-data-schema.h\<close>, \<open>easyprospect-data-schema.cpp\<close>); a base class is a record with the
    attributes of the class as its parameter.
  \<^item> \<open>SfImport\<close>: the import of a catalogue's document (\<open>easyprospect-service-plugin-salesforce.cpp\<close>): the stack of
    builders, the objects inserted, and the second walk. Builders are shared by reference, so they
    live in a heap that the stack's addresses index.
  \<^item> \<open>JsHost\<close>, \<open>JsConvert\<close>: the contexts of scripts and their results (\<open>easyprospect-v8.cpp\<close>, \<open>EpJsResult.cpp\<close>),
    the conversions of values and the calls from scripts (\<open>convert.h\<close>, \<open>call.h\<close>, \<open>function.h\<close>); a converter is
    a record of functions, its contract a locale.
  \<^item> \<open>JsExternal\<close>, \<open>Plugins\<close>: values the engine keeps for C++ (\<open>function.h\<close>), its start and end
    (\<open>easyprospect-v8.cpp\<close>); the plug-ins and what the one that prints registers (\<open>easyprospect-plugin.h\<close>,
    \<open>easyprospect-v8-plugin-print-console.cpp\<close>).
  \<^item> \<open>ScriptPages\<close>: pages a script makes (\<open>worker-server-app.cpp\<close>), and the connections of a worker one by one.
  \<^item> \<open>SfPlugin\<close>: what a script can call of the Salesforce plug-in (\<open>easyprospect-service-plugin-salesforce.cpp\<close>,
    \<open>ep-srv-plugin-sf-context.cpp\<close>): contexts, handlers and documents as objects with an owner, files, parsing.
  \<^item> \<open>SfListing\<close>: the listing of a catalogue's products by XPath, over an evaluator that answers or throws.
  \<^item> \<open>XmlCount\<close>: the count of the elements of a document (\<open>easyprospect-xml.cpp\<close>).
  \<^item> \<open>OsUtils\<close>: the dump of a buffer (\<open>easyprospect-os-utils.h\<close>).
  \<^item> \<open>ConnLife\<close>: the connections of a listener as objects that handlers and operations own, over any interleaving
    of accepts, detections and the stop (\<open>listener.cpp\<close>); a history is a list of events, and the queues of the two
    strands are lists of handlers. After a stop every step that is not a client's lowers a measure.
  \<^item> \<open>Programs\<close>: the three main functions (\<open>epsrv.cpp\<close>, \<open>epworker.cpp\<close>, \<open>epworkercntl.cpp\<close>), the logger, the
    printed configuration, \<open>make_server\<close> and \<open>run\<close> up to the start of its threads; a program ends with an exit code,
    an exception, or serves.
  \<^item> This theory: the properties that span components, the stop command and the start message.

  What the lemmas show. Messages: what is packed reads back. Pipes: whenever a queue is handed over without a \<open>send\<close> in
  between, what is written is what was sent, in order, and such a \<open>send\<close> can happen; messages are handled in the
  order the client's pipe delivered them. Supervision: the registry records the process and the port of each START message,
  and the loop ends exactly when it asks and finds the worker gone, its control thread has ended or
  the console asked for the end. Lobby: session sets stay sorted and distinct, only members speak, a name is set once, a call is
  answered once, and a long line overflows a buffer. Shutdown: the countdown ends, its deadline is fixed and
  nothing stops earlier. Sessions: no message is lost or duplicated by the write queue while writes succeed; no path
  leaves the root; every request has one answer. Proxy: connections belong to one session each and the body is passed
  on byte for byte; two coroutines of one connection can swap what they send. Configuration: printing and parsing are
  inverse, the command line wins over the files, and of an argument file one line counts.
  Scripts: values survive the way to the engine and back as far as its numbers and its objects' setters let them, a
  context is found by its id, a page does not depend on the pages before it, and a value is kept as long as the engine
  holds it. Messages in memory: sharing is invisible, and when every handle is gone every block is returned. Programs: how
  each start ends and what is registered. TLS: what such a session lacks, and how it breaks a stop. Connections: the
  listener knows the living sessions until it stops, what a stop does to a client that is just connecting, and that the
  sessions it told end when no client comes after. Import: it is safe exactly on documents nested the way
  the code expects, and what it inserts is counted. Where the code departs from what it means to do, the property states
  what it does.

  Code outside the repository is an argument of the definitions: MessagePack, the JSON text parser, the
  tokenizer, the HTTP parser, SQLite, the script engine, Xerces and Xalan, the file system, and the outcomes of system calls.

  Not modelled: the locks and threads of the rest, where each handler of an io\_context is a step of its own and each
  operation that holds a lock for its whole length is one step; what a data race does, beyond that it happens; most of
  the logging (the messages of the main functions and of the plug-in are); the start-up of libraries,
  except the engine's; and the components that the manifest lists as such: third-party headers, build
  templates, type computations of the compiler, a certificate and the test programs.
\<close>

section \<open>The stop command, from the controller to the worker's last timer\<close>

lemma msg_type_new_stop [simp]: "msg_type (new_stop e) = CMD_STOP"
  by (simp add: msg_defs)

lemma process_input_new_stop:
  assumes "msgpack_base_law l (base_of (new_stop e))"
  shows "process_input l e' (mp_pack_base l (base_of (new_stop e)) @ junk)
    (length (mp_pack_base l (base_of (new_stop e)))) = Inr (Some (new_stop e))"
  using process_input_packed_base [OF assms, of e' junk]
  by (simp add: new_stop_def type_of_code_def)

lemma packed_base_nonempty: "msgpack_base_law l b \<Longrightarrow> mp_pack_base l b \<noteq> []"
  by (auto simp: msgpack_base_law_def)

lemma client_takes_stop:
  assumes "msgpack_base_law l (base_of (new_stop e))" and "cc_read_pending cc" and "cc_read_queue cc = []"
  defines "b \<equiv> mp_pack_base l (base_of (new_stop e))"
  shows "\<exists>cc1 cc2. client_event_read l e' pt (GorOk (length b)) (client_kernel_read b cc) = Inr cc1 \<and>
    client_run_posted pt cc1 = Inr (new_stop e, cc2) \<and> cc_shutdowns cc2 = Suc (cc_shutdowns cc)"
proof -
  have "0 < length b" using packed_base_nonempty [OF assms(1)] by (simp add: b_def)
  with process_input_new_stop [OF assms(1), of e' "drop (length b) (cc_buffer cc)"] assms(2,3)
  show ?thesis
    by (simp add: client_event_read_def client_kernel_read_def client_take_def client_run_posted_def
        client_take_posted_def client_act_def do_action_def b_def Let_def)
qed

lemma send_stops_ok:
  assumes "0 < length (write_queue (ct_pipe c))"
  shows "\<exists>c'. controller_send_stops l e pt c = Inr c' \<and>
    write_queue (ct_pipe c') ! 0 = write_queue (ct_pipe c) ! 0 @ [mp_pack_base l (base_of (new_stop e))]"
proof -
  have "server_send l pt 0 (new_stop e) p = Inr (push_write 0 (mp_pack_base l (base_of (new_stop e))) p)" for p
    by (rule server_send_ok) (simp_all add: pack_new_stop INSTANCES_def)
  with assms show ?thesis by (simp add: controller_send_stops_def proc_count_def push_write_def)
qed

lemma app_shutdown_func_stops:
  assumes "app_ok s" and "sv_expiry s = None" and "asked \<le> now" and "now \<le> arm" and "0 \<le> late" and "0 \<le> dt"
  shows "\<exists>s'. rbind (app_shutdown_func True asked now arm s)
    (ticks sv_stop sv_expiry (app_on_timer False) [(late, dt)]) = Inr s' \<and> sv_stop s'"
proof -
  let ?s = "s\<lparr> sv_shutdown_time := asked + 5 * second \<rparr>"
  have "app_ok ?s" using assms(1) by (simp add: app_ok_def)
  from worker.countdown_stops [OF this, of now 5 arm "[(late, dt)]"] assms(2-)
  show ?thesis by (auto simp: app_shutdown_func_def app_shutdown_def)
qed

text \<open>C1: The stop command works end to end. The message the controller packs for its worker, when it
  leaves its supervising loop, is queued last on that worker's pipe; its bytes, arriving in the
  buffer of the worker's control client under a pending read, are read back as the same message and
  posted; the posted handler asks the worker for a shutdown exactly once; and a worker that was not
  shutting down has stopped by the first firing of the timer this arms, however late it fires.\<close>

theorem stop_command_stops_worker:
  assumes "msgpack_base_law l (base_of (new_stop e))" and "0 < length (write_queue (ct_pipe c))"
    and "cc_read_pending cc" and "cc_read_queue cc = []"
    and "app_ok s" and "sv_expiry s = None" and "asked \<le> now" and "now \<le> arm" and "0 \<le> late" and "0 \<le> dt"
  shows "\<exists>c' b cc1 cc2 s'. controller_send_stops l e pt c = Inr c' \<and>
    write_queue (ct_pipe c') ! 0 = write_queue (ct_pipe c) ! 0 @ [b] \<and>
    client_event_read l e' pt (GorOk (length b)) (client_kernel_read b cc) = Inr cc1 \<and>
    client_run_posted pt cc1 = Inr (new_stop e, cc2) \<and> cc_shutdowns cc2 = Suc (cc_shutdowns cc) \<and>
    rbind (app_shutdown_func True asked now arm s)
      (ticks sv_stop sv_expiry (app_on_timer False) [(late, dt)]) = Inr s' \<and> sv_stop s'"
  using send_stops_ok [OF assms(2), of l e pt] client_takes_stop [OF assms(1,3,4), of e' pt]
    app_shutdown_func_stops [OF assms(5-)]
  by blast

lemma unary_stop_law: "msgpack_base_law unary_lib (base_of (new_stop e))"
  by (rule unary_lib_base_law) (simp add: new_stop_def proper_type_def type_of_code_def)

theorem stop_command_stops_worker_witness:
  "\<exists>cc1 cc2 s'. client_event_read unary_lib sample_env (\<lambda>_. [])
      (GorOk (length (mp_pack_base unary_lib (base_of (new_stop sample_env)))))
      (client_kernel_read (mp_pack_base unary_lib (base_of (new_stop sample_env)))
        (new_client\<lparr> cc_read_pending := True \<rparr>)) = Inr cc1 \<and>
    client_run_posted (\<lambda>_. []) cc1 = Inr (new_stop sample_env, cc2) \<and> cc_shutdowns cc2 = 1 \<and>
    rbind (app_shutdown_func True 0 5 7 sample_app)
      (ticks sv_stop sv_expiry (app_on_timer False) [(3, 1)]) = Inr s' \<and> sv_stop s'"
proof -
  let ?c = "controller_start new_registry new_pipe_server"
  have w: "write_queue (ct_pipe ?c) ! 0 = []" "0 < length (write_queue (ct_pipe ?c))"
    by (simp_all add: controller_start_def new_pipe_server_def INSTANCES_def)
  have "mp_pack_base unary_lib (base_of (new_stop sample_env)) = b"
    if "controller_send_stops unary_lib sample_env (\<lambda>_. []) ?c = Inr c'"
      "write_queue (ct_pipe c') ! 0 = write_queue (ct_pipe ?c) ! 0 @ [b]" for c' b
    using send_stops_ok [OF w(2), of unary_lib sample_env "\<lambda>_. []"] that by auto
  with stop_command_stops_worker [OF unary_stop_law w(2), of "new_client\<lparr> cc_read_pending := True \<rparr>"
      sample_app 0 5 7 3 1 sample_env "\<lambda>_. []" sample_env] sample_app_ok
  show ?thesis by (fastforce simp: new_client_def sample_app_def)
qed

section \<open>The start, from the listening port to the controller's registry\<close>










end
